(* ===== verification/Prelude.thy ===== *)
theory Prelude
  imports Main "HOL-Library.Word"
begin

text \<open>
  Shared vocabulary of the development.

  \<^item> The machine integers of the C code (\<open>uint8_t\<close>, \<open>uint32_t\<close>, \<open>uint64_t\<close>) as words.
  \<^item> The outcome of a C function. The code reports failure with \<open>wasm_err_t\<close>
    (include/wasm/error.h) and leaves a function early through \<open>CHECK\<close> and \<open>RETHROW\<close>
    (src/util/except.h). \<open>Check_failed\<close> is \<open>WASM_ERROR_CHECK_FAILED\<close>; \<open>Trapped\<close> is a failed
    \<open>ASSERT\<close> or \<open>__builtin_trap\<close>; \<open>Undefined\<close> marks a step the C language gives no meaning
    to (a null dereference, an access outside an array). A memory-safety theorem says that
    \<open>Undefined\<close> never happens.
  \<^item> A state monad with these faults, in which the stateful C functions are written, and a
    Hoare-style judgement \<open>valid\<close> with one rule per construct, collected in \<open>wp\<close>.
  \<^item> Generic facts on lists and words that several components use.
\<close>

unbundle bit_operations_syntax

named_theorems wp \<open>rules of the judgement valid, one per construct\<close>
named_theorems run \<open>inversion rules for a successful run\<close>
named_theorems safe \<open>runs that do nothing undefined, one rule per construct\<close>

named_theorems keeps \<open>computations that keep an invariant and do nothing undefined\<close>
named_theorems along \<open>computations whose successful runs stay within a preorder\<close>

section \<open>Machine integers\<close>

type_synonym u8 = "8 word"
type_synonym u32 = "32 word"
type_synonym u64 = "64 word"

section \<open>Outcomes\<close>

datatype fault = Check_failed | Trapped | Undefined

type_synonym 'a res = "fault + 'a"

text \<open>A stateful computation: from a state to a fault, or to a result and the next state.\<close>

type_synonym ('s, 'a) sm = "'s \<Rightarrow> ('a \<times> 's) res"

definition ret :: "'a \<Rightarrow> ('s, 'a) sm" where
  "ret a = (\<lambda>s. Inr (a, s))"

definition fail :: "fault \<Rightarrow> ('s, 'a) sm" where
  "fail e = (\<lambda>s. Inl e)"

definition bind :: "('s, 'a) sm \<Rightarrow> ('a \<Rightarrow> ('s, 'b) sm) \<Rightarrow> ('s, 'b) sm" where
  "bind m f = (\<lambda>s. case m s of Inl e \<Rightarrow> Inl e | Inr (a, s') \<Rightarrow> f a s')"

text \<open>\<open>CHECK(expr)\<close> of src/util/except.h: leave with \<open>WASM_ERROR_CHECK_FAILED\<close> unless it holds.\<close>

definition check :: "bool \<Rightarrow> ('s, unit) sm" where
  "check b = (if b then ret () else fail Check_failed)"

text \<open>\<open>ASSERT(expr)\<close> of src/util/except.h: trap unless it holds.\<close>

definition assert_that :: "bool \<Rightarrow> ('s, unit) sm" where
  "assert_that b = (if b then ret () else fail Trapped)"

text \<open>A precondition of the C language, such as an index inside its array.\<close>

definition defined :: "bool \<Rightarrow> ('s, unit) sm" where
  "defined b = (if b then ret () else fail Undefined)"

definition gets :: "('s \<Rightarrow> 'a) \<Rightarrow> ('s, 'a) sm" where
  "gets f = (\<lambda>s. Inr (f s, s))"

definition modify :: "('s \<Rightarrow> 's) \<Rightarrow> ('s, unit) sm" where
  "modify f = (\<lambda>s. Inr ((), f s))"

text \<open>Reading \<open>xs[i]\<close>: undefined outside the array.\<close>

definition index :: "'a list \<Rightarrow> nat \<Rightarrow> ('s, 'a) sm" where
  "index xs i = (if i < length xs then ret (xs ! i) else fail Undefined)"

text \<open>A loop \<open>for (i = 0; i < n; i++)\<close> whose body yields the entry \<open>i\<close> of an array.\<close>

fun repeat_sm :: "nat \<Rightarrow> ('s, 'a) sm \<Rightarrow> ('s, 'a list) sm" where
  "repeat_sm 0 m = ret []"
| "repeat_sm (Suc n) m = bind m (\<lambda>x. bind (repeat_sm n m) (\<lambda>xs. ret (x # xs)))"

text \<open>A loop over the entries of an array, run for its effect.\<close>

fun for_each :: "'a list \<Rightarrow> ('a \<Rightarrow> ('s, unit) sm) \<Rightarrow> ('s, unit) sm" where
  "for_each [] f = ret ()"
| "for_each (x # xs) f = bind (f x) (\<lambda>_. for_each xs f)"

text \<open>A loop over the entries of an array that yields one value per entry.\<close>

fun map_each :: "'a list \<Rightarrow> ('a \<Rightarrow> ('s, 'b) sm) \<Rightarrow> ('s, 'b list) sm" where
  "map_each [] f = ret []"
| "map_each (x # xs) f = bind (f x) (\<lambda>y. bind (map_each xs f) (\<lambda>ys. ret (y # ys)))"

text \<open>Running a computation on a part of a larger state.\<close>

definition on_part :: "('s \<Rightarrow> 't) \<Rightarrow> ('t \<Rightarrow> 's \<Rightarrow> 's) \<Rightarrow> ('t, 'a) sm \<Rightarrow> ('s, 'a) sm" where
  "on_part get put m = (\<lambda>s. case m (get s) of Inl e \<Rightarrow> Inl e | Inr (a, t) \<Rightarrow> Inr (a, put t s))"

text \<open>A computation without state inside one with state.\<close>

definition lift_res :: "'a res \<Rightarrow> ('s, 'a) sm" where
  "lift_res r = (\<lambda>s. case r of Inl e \<Rightarrow> Inl e | Inr a \<Rightarrow> Inr (a, s))"

subsection \<open>Successful runs\<close>

lemma ret_run [simp, run]: "ret a s = Inr (b, s') \<longleftrightarrow> b = a \<and> s' = s"
  by (auto simp: ret_def)

lemma fail_run [simp, run]: "fail e s \<noteq> Inr r"
  by (simp add: fail_def)

lemma bind_run [run]:
  "bind m f s = Inr (b, s'') \<longleftrightarrow> (\<exists>a s'. m s = Inr (a, s') \<and> f a s' = Inr (b, s''))"
  by (auto simp: bind_def split: sum.splits)

lemma bind_runE:
  assumes "bind m f s = Inr r"
  obtains a s' where "m s = Inr (a, s')" and "f a s' = Inr r"
  using assms by (auto simp: bind_def split: sum.splits)

lemma check_run [simp, run]: "check b s = Inr (u, s') \<longleftrightarrow> b \<and> s' = s"
  by (simp add: check_def)

lemma assert_that_run [simp, run]: "assert_that b s = Inr (u, s') \<longleftrightarrow> b \<and> s' = s"
  by (simp add: assert_that_def)

lemma defined_run [simp, run]: "defined b s = Inr (u, s') \<longleftrightarrow> b \<and> s' = s"
  by (simp add: defined_def)

lemma gets_run [simp, run]: "gets f s = Inr (a, s') \<longleftrightarrow> a = f s \<and> s' = s"
  by (auto simp: gets_def)

lemma modify_run [simp, run]: "modify f s = Inr (u, s') \<longleftrightarrow> s' = f s"
  by (auto simp: modify_def)

lemma index_run [simp, run]: "index xs i s = Inr (a, s') \<longleftrightarrow> i < length xs \<and> a = xs ! i \<and> s' = s"
  by (auto simp: index_def)

lemma lift_res_run [simp, run]: "lift_res r s = Inr (a, s') \<longleftrightarrow> r = Inr a \<and> s' = s"
  by (auto simp: lift_res_def split: sum.splits)

lemma on_part_run [run]:
  "on_part get put m s = Inr (a, s') \<longleftrightarrow> (\<exists>t. m (get s) = Inr (a, t) \<and> s' = put t s)"
  by (auto simp: on_part_def split: sum.splits)

lemma repeat_run_length: "repeat_sm n m s = Inr (xs, s') \<Longrightarrow> length xs = n"
  by (induction n arbitrary: s xs s') (auto simp: run)

lemma map_each_run_length: "map_each xs f s = Inr (ys, s') \<Longrightarrow> length ys = length xs"
  by (induction xs arbitrary: s ys s') (auto simp: run)

subsection \<open>Faults of a run\<close>

text \<open>
  The faults a run of a sequence can have, used to evaluate the model forwards.
\<close>

lemma bind_ret [simp]: "bind (ret a) f = f a"
  by (simp add: bind_def ret_def)

lemma bind_fail [simp]: "bind (fail e) f = fail e"
  by (simp add: bind_def fail_def)

lemma fail_apply: "fail e s = Inl e"
  by (simp add: fail_def)

lemma ret_apply: "ret a s = Inr (a, s)"
  by (simp add: ret_def)

lemma gets_bind: "bind (gets f) g s = g (f s) s"
  by (simp add: bind_def gets_def)

lemma modify_bind: "bind (modify f) g s = g () (f s)"
  by (simp add: bind_def modify_def)

lemma bind_assoc: "bind (bind m f) g = bind m (\<lambda>x. bind (f x) g)"
  by (auto simp: bind_def fun_eq_iff split: sum.splits)

lemma bind_step: "m s = Inr (a, s') \<Longrightarrow> bind m f s = f a s'"
  by (simp add: bind_def)

lemma bind_fault: "m s = Inl e \<Longrightarrow> bind m f s = Inl e"
  by (simp add: bind_def)

lemma check_True [simp]: "check True = ret ()"
  by (simp add: check_def)

lemma check_False [simp]: "check False = fail Check_failed"
  by (simp add: check_def)

lemma defined_True [simp]: "defined True = ret ()"
  by (simp add: defined_def)

section \<open>Runs that do nothing undefined\<close>

lemma bind_safe [safe]: "m s \<noteq> Inl Undefined \<Longrightarrow> (\<And>a s'. m s = Inr (a, s') \<Longrightarrow> f a s' \<noteq> Inl Undefined) \<Longrightarrow> bind m f s \<noteq> Inl Undefined"
  by (auto simp: bind_def split: sum.splits)

lemma if_safe [safe]:
  "(b \<Longrightarrow> m s \<noteq> Inl Undefined) \<Longrightarrow> (\<not> b \<Longrightarrow> m' s \<noteq> Inl Undefined) \<Longrightarrow> (if b then m else m') s \<noteq> Inl Undefined"
  by simp

lemma case_safe [safe]:
  "m s \<noteq> Inl Undefined \<Longrightarrow> (\<And>a. x = Some a \<Longrightarrow> f a s \<noteq> Inl Undefined) \<Longrightarrow> (case x of None \<Rightarrow> m | Some a \<Rightarrow> f a) s \<noteq> Inl Undefined"
  "(\<And>a b. y = (a, b) \<Longrightarrow> g a b s \<noteq> Inl Undefined) \<Longrightarrow> (case y of (a, b) \<Rightarrow> g a b) s \<noteq> Inl Undefined"
  by (cases x; simp) (cases y; simp)

lemma value_safe [safe]:
  "ret a s \<noteq> Inl Undefined" "gets p s \<noteq> Inl Undefined" "modify q s \<noteq> Inl Undefined" "check b s \<noteq> Inl Undefined"
  "fail Check_failed s \<noteq> Inl Undefined"
  by (simp_all add: ret_def gets_def modify_def check_def fail_def)

lemma on_part_fault: "m (get s) \<noteq> Inl Undefined \<Longrightarrow> on_part get put m s \<noteq> Inl Undefined"
  by (auto simp: on_part_def split: sum.splits)

lemma index_safe: "i < length xs \<Longrightarrow> index xs i s \<noteq> Inl Undefined"
  by (simp add: index_def ret_def)

lemma for_each_safe:
  assumes "I s" and "\<And>x s. x \<in> set xs \<Longrightarrow> I s \<Longrightarrow> f x s \<noteq> Inl Undefined"
    and "\<And>x s u s'. x \<in> set xs \<Longrightarrow> I s \<Longrightarrow> f x s = Inr (u, s') \<Longrightarrow> I s'"
  shows "for_each xs f s \<noteq> Inl Undefined"
  using assms
proof (induction xs arbitrary: s)
  case (Cons x xs)
  have "for_each xs f t \<noteq> Inl Undefined" if "f x s = Inr (u, t)" for u t
  proof (rule Cons.IH)
    show "I t" by (rule Cons.prems(3) [OF _ Cons.prems(1) that]) simp
    show "f y r \<noteq> Inl Undefined" if "y \<in> set xs" "I r" for y r using Cons.prems(2) that by simp
    show "I r'" if "y \<in> set xs" "I r" "f y r = Inr (v, r')" for y r v r' using Cons.prems(3) [OF _ that(2,3)] that(1) by simp
  qed
  then show ?case unfolding for_each.simps using Cons.prems(1) by (intro bind_safe Cons.prems(2)) simp_all
qed (simp add: ret_apply)

lemma map_each_safe:
  assumes "I s" and "\<And>x s. x \<in> set xs \<Longrightarrow> I s \<Longrightarrow> f x s \<noteq> Inl Undefined"
    and "\<And>x s y s'. x \<in> set xs \<Longrightarrow> I s \<Longrightarrow> f x s = Inr (y, s') \<Longrightarrow> I s'"
  shows "map_each xs f s \<noteq> Inl Undefined"
  using assms
proof (induction xs arbitrary: s)
  case (Cons x xs)
  have "map_each xs f t \<noteq> Inl Undefined" if "f x s = Inr (y, t)" for y t
    using Cons.prems(3) [OF _ Cons.prems(1) that] by (intro Cons.IH Cons.prems(2)) (auto intro: Cons.prems(3))
  then show ?case unfolding map_each.simps using Cons.prems(1) by (intro bind_safe value_safe Cons.prems(2)) simp_all
qed (simp add: ret_apply)

text \<open>A loop over indices, with an invariant that mentions the index.\<close>

lemma for_each_upt_safe:
  assumes "I i s" and "\<And>i s. i < n \<Longrightarrow> I i s \<Longrightarrow> f i s \<noteq> Inl Undefined"
    and "\<And>i s u s'. i < n \<Longrightarrow> I i s \<Longrightarrow> f i s = Inr (u, s') \<Longrightarrow> I (Suc i) s'"
  shows "for_each [i..<n] f s \<noteq> Inl Undefined"
  using assms(1)
proof (induction "n - i" arbitrary: i s)
  case (Suc k)
  then have i: "i < n" and k: "k = n - Suc i" by simp_all
  have "for_each [Suc i..<n] f t \<noteq> Inl Undefined" if "f i s = Inr (u, t)" for u t
    using Suc.hyps(1) [OF k assms(3) [OF i Suc.prems that]] .
  then show ?case unfolding upt_conv_Cons [OF i] for_each.simps using assms(2) [OF i Suc.prems] by (intro bind_safe)
qed (simp add: ret_apply)

section \<open>The judgement valid\<close>

text \<open>
  \<open>valid P m Q\<close>: from a state that satisfies \<open>P\<close>, the computation \<open>m\<close> does nothing undefined,
  and if it succeeds its result and final state satisfy \<open>Q\<close>. Reported errors and traps are
  allowed.
\<close>

definition valid :: "('s \<Rightarrow> bool) \<Rightarrow> ('s, 'a) sm \<Rightarrow> ('a \<Rightarrow> 's \<Rightarrow> bool) \<Rightarrow> bool" where
  "valid P m Q \<longleftrightarrow>
     (\<forall>s. P s \<longrightarrow> (case m s of Inl e \<Rightarrow> e \<noteq> Undefined | Inr (a, s') \<Rightarrow> Q a s'))"

lemma validI:
  assumes "\<And>s. P s \<Longrightarrow> m s \<noteq> Inl Undefined"
    and "\<And>s a s'. P s \<Longrightarrow> m s = Inr (a, s') \<Longrightarrow> Q a s'"
  shows "valid P m Q"
  using assms by (auto simp: valid_def split: sum.splits)

lemma valid_no_fault: "valid P m Q \<Longrightarrow> P s \<Longrightarrow> m s \<noteq> Inl Undefined"
  by (auto simp: valid_def split: sum.splits)

lemma valid_post: "valid P m Q \<Longrightarrow> P s \<Longrightarrow> m s = Inr (a, s') \<Longrightarrow> Q a s'"
  by (auto simp: valid_def split: sum.splits)

lemma valid_weaken_pre: "valid P' m Q \<Longrightarrow> (\<And>s. P s \<Longrightarrow> P' s) \<Longrightarrow> valid P m Q"
  by (auto simp: valid_def)

lemma valid_weaken_post: "valid P m Q' \<Longrightarrow> (\<And>a s. Q' a s \<Longrightarrow> Q a s) \<Longrightarrow> valid P m Q"
  by (fastforce simp: valid_def split: sum.splits)

lemma valid_conj_post: "valid P m Q \<Longrightarrow> valid P m R \<Longrightarrow> valid P m (\<lambda>a s. Q a s \<and> R a s)"
  by (auto simp: valid_def split: sum.splits)

lemma valid_frame: "valid P m Q \<Longrightarrow> valid (\<lambda>s. b \<and> P s) m (\<lambda>a s. b \<and> Q a s)"
  by (auto simp: valid_def split: sum.splits)

lemma valid_ret [wp]: "valid (Q a) (ret a) Q"
  by (simp add: valid_def ret_def)

lemma valid_fail [wp]: "e \<noteq> Undefined \<Longrightarrow> valid (\<lambda>_. True) (fail e) Q"
  by (simp add: valid_def fail_def)

lemma valid_bind [wp]:
  assumes "valid P m R" and "\<And>a. valid (R a) (f a) Q"
  shows "valid P (bind m f) Q"
  using assms by (fastforce simp: valid_def bind_def split: sum.splits)

lemma valid_check [wp]: "valid (\<lambda>s. b \<longrightarrow> Q () s) (check b) Q"
  by (simp add: valid_def check_def ret_def fail_def)

lemma valid_assert_that [wp]: "valid (\<lambda>s. b \<longrightarrow> Q () s) (assert_that b) Q"
  by (simp add: valid_def assert_that_def ret_def fail_def)

lemma valid_defined [wp]: "valid (\<lambda>s. b \<and> Q () s) (defined b) Q"
  by (simp add: valid_def defined_def ret_def)

lemma valid_gets [wp]: "valid (\<lambda>s. Q (f s) s) (gets f) Q"
  by (simp add: valid_def gets_def)

lemma valid_modify [wp]: "valid (\<lambda>s. Q () (f s)) (modify f) Q"
  by (simp add: valid_def modify_def)

lemma valid_index [wp]: "valid (\<lambda>s. i < length xs \<and> Q (xs ! i) s) (index xs i) Q"
  by (simp add: valid_def index_def ret_def)

lemma valid_repeat:
  assumes "valid I m (\<lambda>x s. R x \<and> I s)"
  shows "valid I (repeat_sm n m) (\<lambda>xs s. length xs = n \<and> (\<forall>x \<in> set xs. R x) \<and> I s)"
proof (induction n)
  case 0
  show ?case by (simp add: valid_def ret_def)
next
  case (Suc n)
  have rest: "valid (\<lambda>s. R x \<and> I s) (bind (repeat_sm n m) (\<lambda>xs. ret (x # xs)))
      (\<lambda>xs s. length xs = Suc n \<and> (\<forall>x \<in> set xs. R x) \<and> I s)" for x
  proof (rule valid_bind)
    show "valid (\<lambda>s. R x \<and> I s) (repeat_sm n m)
        (\<lambda>xs s. R x \<and> length xs = n \<and> (\<forall>x \<in> set xs. R x) \<and> I s)"
      using Suc.IH by (rule valid_frame)
  qed (simp add: valid_def ret_def)
  show ?case
    by (simp, rule valid_bind [OF assms]) (rule rest)
qed

lemma valid_for_each:
  assumes "\<And>x. x \<in> set xs \<Longrightarrow> valid I (f x) (\<lambda>_. I)"
  shows "valid I (for_each xs f) (\<lambda>_. I)"
  using assms
proof (induction xs)
  case Nil
  show ?case by (simp add: valid_def ret_def)
next
  case (Cons x xs)
  have "valid I (f x) (\<lambda>_. I)" using Cons.prems by simp
  moreover have "valid I (for_each xs f) (\<lambda>_. I)" using Cons by simp
  ultimately show ?case by (simp add: valid_bind)
qed

lemma valid_map_each:
  assumes "\<And>x. x \<in> set xs \<Longrightarrow> valid I (f x) (\<lambda>y s. R y \<and> I s)"
  shows "valid I (map_each xs f) (\<lambda>ys s. length ys = length xs \<and> (\<forall>y \<in> set ys. R y) \<and> I s)"
  using assms
proof (induction xs)
  case Nil
  show ?case by (simp add: valid_def ret_def)
next
  case (Cons x xs)
  have rest: "valid (\<lambda>s. R y \<and> I s) (bind (map_each xs f) (\<lambda>ys. ret (y # ys)))
      (\<lambda>ys s. length ys = length (x # xs) \<and> (\<forall>y \<in> set ys. R y) \<and> I s)" for y
  proof (rule valid_bind)
    show "valid (\<lambda>s. R y \<and> I s) (map_each xs f)
        (\<lambda>ys s. R y \<and> length ys = length xs \<and> (\<forall>y \<in> set ys. R y) \<and> I s)"
      by (rule valid_frame, rule Cons.IH) (simp add: Cons.prems)
  qed (simp add: valid_def ret_def)
  show ?case
    by (simp, rule valid_bind [OF Cons.prems]) (simp_all add: rest [simplified])
qed

text \<open>Rules for the constructs that read the state or test a condition first.\<close>

lemma valid_bind_check: "(b \<Longrightarrow> valid P m Q) \<Longrightarrow> valid P (bind (check b) (\<lambda>_. m)) Q"
  by (cases b) (simp_all add: valid_def fail_apply)

lemma valid_bind_gets: "(\<And>x. valid (\<lambda>s. P s \<and> f s = x) (g x) Q) \<Longrightarrow> valid P (bind (gets f) g) Q"
  by (auto simp: valid_def gets_bind)

lemma valid_bind_index:
  "(\<And>s. P s \<Longrightarrow> i < length xs) \<Longrightarrow> (i < length xs \<Longrightarrow> valid P (f (xs ! i)) Q) \<Longrightarrow>
     valid P (bind (index xs i) f) Q"
  by (auto simp: valid_def index_def)

lemma valid_if: "(b \<Longrightarrow> valid P m Q) \<Longrightarrow> (\<not> b \<Longrightarrow> valid P m' Q) \<Longrightarrow> valid P (if b then m else m') Q"
  by simp

lemma valid_ret': "(\<And>s. P s \<Longrightarrow> Q a s) \<Longrightarrow> valid P (ret a) Q"
  by (simp add: valid_def ret_def)

lemma valid_fail': "e \<noteq> Undefined \<Longrightarrow> valid P (fail e) Q"
  by (simp add: valid_def fail_def)

lemma valid_modify': "(\<And>s. P s \<Longrightarrow> Q () (f s)) \<Longrightarrow> valid P (modify f) Q"
  by (simp add: valid_def modify_def)

text \<open>Keeping an invariant, with one rule per construct.\<close>

definition keeps :: "('s \<Rightarrow> bool) \<Rightarrow> ('s, 'a) sm \<Rightarrow> bool" where
  "keeps I m \<longleftrightarrow> valid I m (\<lambda>_. I)"

lemma keepsI: "(\<And>s. I s \<Longrightarrow> m s \<noteq> Inl Undefined) \<Longrightarrow> (\<And>s a s'. I s \<Longrightarrow> m s = Inr (a, s') \<Longrightarrow> I s') \<Longrightarrow> keeps I m"
  unfolding keeps_def by (rule validI)

lemma keeps_no_fault: "keeps I m \<Longrightarrow> I s \<Longrightarrow> m s \<noteq> Inl Undefined"
  unfolding keeps_def by (rule valid_no_fault)

lemma keeps_post: "keeps I m \<Longrightarrow> I s \<Longrightarrow> m s = Inr (a, s') \<Longrightarrow> I s'"
  unfolding keeps_def by (rule valid_post)

lemma keeps_ret [keeps]: "keeps I (ret a)"
  by (simp add: keeps_def valid_def ret_def)

lemma keeps_fail [keeps]: "e \<noteq> Undefined \<Longrightarrow> keeps I (fail e)"
  by (simp add: keeps_def valid_def fail_def)

lemma keeps_check [keeps]: "keeps I (check b)"
  by (simp add: keeps_def valid_def check_def ret_def fail_def)

lemma keeps_gets [keeps]: "keeps I (gets f)"
  by (simp add: keeps_def valid_def gets_def)

lemma keeps_index: "i < length xs \<Longrightarrow> keeps I (index xs i)"
  by (simp add: keeps_def valid_def index_def ret_def)

lemma keeps_modify: "(\<And>s. I s \<Longrightarrow> I (f s)) \<Longrightarrow> keeps I (modify f)"
  by (simp add: keeps_def valid_def modify_def)

lemma keeps_bind [keeps]:
  assumes "keeps I m" and "\<And>a. keeps I (f a)"
  shows "keeps I (bind m f)"
  using assms unfolding keeps_def by (rule valid_bind)

lemma keeps_bind_gets: "(\<And>x. (\<exists>s. I s \<and> f s = x) \<Longrightarrow> keeps I (g x)) \<Longrightarrow> keeps I (bind (gets f) g)"
  by (fastforce simp: keeps_def valid_def gets_bind)

lemma keeps_bind_index: "i < length xs \<Longrightarrow> keeps I (f (xs ! i)) \<Longrightarrow> keeps I (bind (index xs i) f)"
  by (simp add: index_def)

lemma keeps_bind_check [keeps]: "(b \<Longrightarrow> keeps I m) \<Longrightarrow> keeps I (bind (check b) (\<lambda>_. m))"
  unfolding keeps_def by (rule valid_bind_check)

text \<open>The variant for a result the rest relies on.\<close>

lemma valid_bind_keeps:
  "keeps I m \<Longrightarrow> (\<And>a. valid I (f a) Q) \<Longrightarrow> valid I (bind m f) Q"
  unfolding keeps_def by (rule valid_bind)

lemma keeps_bind_post:
  assumes "valid I m (\<lambda>a s. Q a \<and> I s)" and "\<And>a. Q a \<Longrightarrow> keeps I (f a)"
  shows "keeps I (bind m f)"
  unfolding keeps_def
proof (rule valid_bind [OF assms(1)])
  fix a
  show "valid (\<lambda>s. Q a \<and> I s) (f a) (\<lambda>_. I)"
    using assms(2) [of a] by (auto simp: keeps_def valid_def)
qed

lemma keeps_if [keeps]: "(b \<Longrightarrow> keeps I m) \<Longrightarrow> (\<not> b \<Longrightarrow> keeps I m') \<Longrightarrow> keeps I (if b then m else m')"
  by simp

lemma keeps_option [keeps]:
  "(x = None \<Longrightarrow> keeps I m) \<Longrightarrow> (\<And>a. x = Some a \<Longrightarrow> keeps I (f a)) \<Longrightarrow>
     keeps I (case x of None \<Rightarrow> m | Some a \<Rightarrow> f a)"
  by (cases x) simp_all

lemma keeps_sum [keeps]:
  "(\<And>a. keeps I (f a)) \<Longrightarrow> (\<And>a. keeps I (g a)) \<Longrightarrow> keeps I (case x of Inl a \<Rightarrow> f a | Inr a \<Rightarrow> g a)"
  by (cases x) simp_all

lemma keeps_prod [keeps]:
  "(\<And>a b. keeps I (f a b)) \<Longrightarrow> keeps I (case x of (a, b) \<Rightarrow> f a b)"
  by (cases x) simp_all

lemma keeps_prod_app [keeps]:
  "(\<And>a b. keeps I (f a b y)) \<Longrightarrow> keeps I ((case x of (a, b) \<Rightarrow> f a b) y)"
  by (cases x) simp_all

lemma keeps_Let [keeps]: "(\<And>a. keeps I (f a)) \<Longrightarrow> keeps I (let x = v in f x)"
  by simp

lemma keeps_for_each [keeps]: "(\<And>x. x \<in> set xs \<Longrightarrow> keeps I (f x)) \<Longrightarrow> keeps I (for_each xs f)"
  unfolding keeps_def by (rule valid_for_each)

lemma keeps_map_each [keeps]: "(\<And>x. x \<in> set xs \<Longrightarrow> keeps I (f x)) \<Longrightarrow> keeps I (map_each xs f)"
  by (induction xs) (simp_all add: keeps_ret keeps_bind)

lemma keeps_repeat [keeps]: "keeps I m \<Longrightarrow> keeps I (repeat_sm n m)"
  by (induction n) (simp_all add: keeps_ret keeps_bind)

section \<open>Runs within a preorder\<close>

text \<open>
  \<open>along R m\<close>: a successful run of \<open>m\<close> ends in a state related by \<open>R\<close> to the one it started in.
  For a preorder the constructs of the monad need no thought; the locale proves their rules once,
  and each interpretation adds its instances to the collection \<open>along\<close>.
\<close>

definition along :: "('s \<Rightarrow> 's \<Rightarrow> bool) \<Rightarrow> ('s, 'a) sm \<Rightarrow> bool" where
  "along R m \<longleftrightarrow> (\<forall>s a s'. m s = Inr (a, s') \<longrightarrow> R s s')"

lemma alongI: "(\<And>s a s'. m s = Inr (a, s') \<Longrightarrow> R s s') \<Longrightarrow> along R m"
  by (auto simp: along_def)

lemma alongD: "along R m \<Longrightarrow> m s = Inr (a, s') \<Longrightarrow> R s s'"
  by (auto simp: along_def)

locale run_preorder =
  fixes R :: "'s \<Rightarrow> 's \<Rightarrow> bool"
  assumes refl: "R s s"
    and trans: "R s t \<Longrightarrow> R t u \<Longrightarrow> R s u"
begin

lemma along_ret [along]: "along R (ret a)"
  by (rule alongI) (simp add: refl)

lemma along_fail [along]: "along R (fail e)"
  by (rule alongI) simp

lemma along_check [along]: "along R (check b)"
  by (rule alongI) (simp add: refl)

lemma along_assert_that [along]: "along R (assert_that b)"
  by (rule alongI) (simp add: refl)

lemma along_defined [along]: "along R (defined b)"
  by (rule alongI) (simp add: refl)

lemma along_gets [along]: "along R (gets f)"
  by (rule alongI) (simp add: refl)

lemma along_index [along]: "along R (index xs i)"
  by (rule alongI) (simp add: refl)

lemma along_lift_res [along]: "along R (lift_res r)"
  by (rule alongI) (simp add: refl)

lemma along_modify: "(\<And>s. R s (f s)) \<Longrightarrow> along R (modify f)"
  by (rule alongI) simp

lemma along_bind [along]:
  assumes "along R m" and "\<And>a. along R (f a)"
  shows "along R (bind m f)"
proof (rule alongI)
  fix s b s'
  assume "bind m f s = Inr (b, s')"
  then obtain a t where "m s = Inr (a, t)" "f a t = Inr (b, s')" by (rule bind_runE)
  then show "R s s'" using assms by (blast dest: alongD intro: trans)
qed

lemma along_if [along]: "along R m \<Longrightarrow> along R m' \<Longrightarrow> along R (if b then m else m')"
  by simp

lemma along_option [along]:
  "along R m \<Longrightarrow> (\<And>a. along R (f a)) \<Longrightarrow> along R (case x of None \<Rightarrow> m | Some a \<Rightarrow> f a)"
  by (cases x) simp_all

lemma along_sum [along]:
  "(\<And>a. along R (f a)) \<Longrightarrow> (\<And>a. along R (g a)) \<Longrightarrow> along R (case x of Inl a \<Rightarrow> f a | Inr a \<Rightarrow> g a)"
  by (cases x) simp_all

lemma along_prod [along]:
  "(\<And>a b. along R (f a b)) \<Longrightarrow> along R (case x of (a, b) \<Rightarrow> f a b)"
  by (cases x) simp_all

lemma along_prod_app [along]:
  "(\<And>a b. along R (f a b y)) \<Longrightarrow> along R ((case x of (a, b) \<Rightarrow> f a b) y)"
  by (cases x) simp_all

lemma along_Let [along]: "(\<And>a. along R (f a)) \<Longrightarrow> along R (let x = v in f x)"
  by simp

lemma along_for_each [along]: "(\<And>x. along R (f x)) \<Longrightarrow> along R (for_each xs f)"
  by (induction xs) (simp_all add: along_ret along_bind)

lemma along_map_each [along]: "(\<And>x. along R (f x)) \<Longrightarrow> along R (map_each xs f)"
  by (induction xs) (simp_all add: along_ret along_bind)

lemma along_repeat [along]: "along R m \<Longrightarrow> along R (repeat_sm n m)"
  by (induction n) (simp_all add: along_ret along_bind)

end

section \<open>Words\<close>

lemma unat_and_mask: "unat (w AND mask n) = unat w mod 2 ^ n"
  by (simp flip: take_bit_eq_mask add: unsigned_take_bit_eq) (simp add: take_bit_eq_mod)

lemma low_or_high:
  assumes "c < 2 ^ k"
  shows "c OR push_bit k v = c + 2 ^ k * (v :: nat)"
proof -
  have "take_bit k c = c" using assms by (simp add: take_bit_nat_eq_self)
  moreover have "take_bit k c AND push_bit k v = 0" by (simp add: bit_eq_iff bit_simps)
  ultimately have "c AND push_bit k v = 0" by simp
  then have "c + push_bit k v = c OR push_bit k v" by (rule disjunctive_add_eq_or)
  then show ?thesis by (simp add: push_bit_eq_mult mult.commute)
qed

lemma bit_word_iff_odd: "bit w n \<longleftrightarrow> odd (unat w div 2 ^ n)"
  by (simp add: bit_unsigned_iff flip: bit_iff_odd)

lemma odd_div_iff:
  assumes "0 < (d::nat)"
  shows "odd (n div d) \<longleftrightarrow> d \<le> n mod (2 * d)"
proof -
  have "n mod (2 * d) = d * (n div d mod 2) + n mod d"
    using mod_mult2_eq [of n d 2] by (simp add: mult.commute)
  moreover have "n mod d < d" using assms by simp
  ultimately show ?thesis by (cases "even (n div d)") (simp_all add: odd_iff_mod_2_eq_one)
qed

lemma and_exp_word_iff: "w AND 2 ^ n \<noteq> 0 \<longleftrightarrow> 2 ^ n \<le> unat w mod (2 * 2 ^ n)"
  by (simp only: and_exp_eq_0_iff_not_bit bit_word_iff_odd not_not odd_div_iff zero_less_power zero_less_numeral)

lemma unat_u8_bound: "unat (w :: u8) < 256"
  by (rule order_less_le_trans [OF unsigned_less]) simp

lemma unat_u32_bound: "unat (w :: u32) < 4294967296"
  by (rule order_less_le_trans [OF unsigned_less]) simp

lemma unat_u64_bound: "unat (w :: u64) < 18446744073709551616"
  by (rule order_less_le_trans [OF unsigned_less]) simp

text \<open>A property of all bytes is decided by trying the 256 of them.\<close>

lemma all_u8I:
  assumes "list_all (\<lambda>n. P (word_of_nat n :: u8)) [0..<256]"
  shows "P w"
proof -
  have "unat w \<in> set [0..<256]" using unat_u8_bound [of w] by simp
  with assms have "P (word_of_nat (unat w) :: u8)" by (simp only: list_all_iff)
  then show ?thesis by simp
qed

section \<open>Little-endian bytes\<close>

text \<open>
  A \<open>memcpy\<close> between bytes and an integer, on the little-endian x86-64 the code targets:
  \<open>le_word\<close> reads an integer, \<open>le_bytes\<close> writes its lowest \<open>n\<close> bytes.
\<close>

fun le_nat :: "u8 list \<Rightarrow> nat" where
  "le_nat [] = 0"
| "le_nat (b # bs) = unat b + 256 * le_nat bs"

definition le_word :: "u8 list \<Rightarrow> 'w::len word" where
  "le_word bs = word_of_nat (le_nat bs)"

fun le_bytes_nat :: "nat \<Rightarrow> nat \<Rightarrow> u8 list" where
  "le_bytes_nat 0 v = []"
| "le_bytes_nat (Suc n) v = word_of_nat v # le_bytes_nat n (v div 256)"

definition le_bytes :: "nat \<Rightarrow> 'w::len word \<Rightarrow> u8 list" where
  "le_bytes n w = le_bytes_nat n (unat w)"

lemma length_le_bytes_nat [simp]: "length (le_bytes_nat n v) = n"
  by (induction n arbitrary: v) simp_all

lemma length_le_bytes [simp]: "length (le_bytes n w) = n"
  by (simp add: le_bytes_def)

lemma le_nat_le_bytes_nat: "le_nat (le_bytes_nat n v) = v mod 256 ^ n"
proof (induction n arbitrary: v)
  case 0
  then show ?case by simp
next
  case (Suc n)
  have "unat (word_of_nat v :: u8) = v mod 256"
    by (simp add: unat_of_nat)
  with Suc show ?case by (simp add: mod_mult2_eq)
qed

lemma le_word_le_bytes:
  assumes "LENGTH('w) \<le> 8 * n"
  shows "le_word (le_bytes n (w :: 'w::len word)) = w"
proof -
  have "unat w < 2 ^ LENGTH('w)" by (rule unsigned_less)
  also have "(2::nat) ^ LENGTH('w) \<le> 2 ^ (8 * n)" using assms by (rule power_increasing) simp
  also have "(2::nat) ^ (8 * n) = 256 ^ n" by (simp add: power_mult)
  finally show ?thesis
    by (simp add: le_word_def le_bytes_def le_nat_le_bytes_nat)
qed

end
