(* ===== verification/Host.thy ===== *)
theory Host
  imports Prelude
begin

text \<open>
  The services the embedder provides (include/wasm/host.h). They are not part of this code
  base's logic, so the model takes them as a parameter: a \<open>host\<close> says which requests succeed.
  The code relies on nothing else of the allocator: fresh memory from \<open>calloc\<close> is zeroed, and
  \<open>realloc\<close> keeps the old bytes.
\<close>

record host =
  calloc_ok :: "nat \<Rightarrow> nat \<Rightarrow> bool"  \<comment> \<open>\<open>wasm_host_calloc(nmemb, size)\<close> is not null\<close>
  realloc_ok :: "nat \<Rightarrow> bool"  \<comment> \<open>\<open>wasm_host_realloc(ptr, new_size)\<close> is not null\<close>

text \<open>A host on which no allocation fails.\<close>

definition generous :: "host \<Rightarrow> bool" where
  "generous h \<longleftrightarrow> (\<forall>n s. calloc_ok h n s) \<and> (\<forall>n. realloc_ok h n)"

lemma generous_calloc [simp]: "generous h \<Longrightarrow> calloc_ok h n s"
  by (simp add: generous_def)

lemma generous_realloc [simp]: "generous h \<Longrightarrow> realloc_ok h n"
  by (simp add: generous_def)

text \<open>The host of the witnesses.\<close>

definition roomy_host :: host where
  "roomy_host = \<lparr>calloc_ok = (\<lambda>_ _. True), realloc_ok = (\<lambda>_. True)\<rparr>"

lemma generous_roomy_host [simp]: "generous roomy_host"
  by (simp add: generous_def roomy_host_def)

lemma roomy_host_simps [simp]:
  "calloc_ok roomy_host n s" "realloc_ok roomy_host m"
  by (simp_all add: roomy_host_def)

end
