(* ===== verification/Wasm_Types.thy ===== *)
theory Wasm_Types
  imports Prelude
begin

text \<open>
  The data model of include/wasm/wasm.h: the value types and values, and the entries of a
  loaded module. A C array with its count becomes a list, so the count is the list's length;
  arrays whose null pointer means something (\<open>code\<close>, \<open>function_names\<close>, an entry of the latter,
  \<open>module_name\<close>) are optional. The fields of \<open>wasm_module_t\<close> carry the prefix \<open>mod_\<close>, since
  \<open>imports\<close> and \<open>functions\<close> are reserved words. A NUL-terminated string is the list of its bytes, without the
  terminator. Floats are kept as their bits.
\<close>

datatype wasm_value_type =
    WASM_VALUE_TYPE_INVALID
  | WASM_VALUE_TYPE_F64
  | WASM_VALUE_TYPE_F32
  | WASM_VALUE_TYPE_I64
  | WASM_VALUE_TYPE_I32

text \<open>
  \<open>wasm_value_t\<close> is a tag and a union. Every write of the union in the code sets the tag to the
  member written, so the model ties the two; \<open>No_value\<close> is the zeroed struct, with the invalid tag.
\<close>

datatype wasm_value =
    No_value
  | Value_i32 u32
  | Value_i64 u64
  | Value_f32 u32
  | Value_f64 u64

fun value_kind :: "wasm_value \<Rightarrow> wasm_value_type" where
  "value_kind No_value = WASM_VALUE_TYPE_INVALID"
| "value_kind (Value_i32 _) = WASM_VALUE_TYPE_I32"
| "value_kind (Value_i64 _) = WASM_VALUE_TYPE_I64"
| "value_kind (Value_f32 _) = WASM_VALUE_TYPE_F32"
| "value_kind (Value_f64 _) = WASM_VALUE_TYPE_F64"

record wasm_type =
  arg_types :: "wasm_value_type list"
  result_types :: "wasm_value_type list"

record wasm_global =
  global_value :: wasm_value
  global_mutable :: bool

record wasm_table =
  table_min :: u32
  table_max :: u32

record wasm_elem_segment =
  elem_tableidx :: u32
  elem_offset :: u32
  elem_funcs :: "u32 list"

record wasm_data =
  data_offset :: u32
  data_bytes :: "u8 list"
  data_active :: bool

datatype wasm_extern_type =
    WASM_EXTERN_FUNC
  | WASM_EXTERN_TABLE
  | WASM_EXTERN_MEM
  | WASM_EXTERN_GLOBAL
  | WASM_EXTERN_TAG

record wasm_import =
  import_module_name :: "u8 list"
  import_item_name :: "u8 list"
  import_kind :: wasm_extern_type
  import_index :: u32

datatype wasm_export_type =
    WASM_EXPORT_FUNC
  | WASM_EXPORT_TABLE
  | WASM_EXPORT_MEMORY
  | WASM_EXPORT_GLOBAL
  | WASM_EXPORT_TAG

record wasm_export =
  export_name :: "u8 list"
  export_kind :: wasm_export_type
  export_index :: u32

record wasm_memory =
  mem_min :: u64
  mem_max :: u64
  mem_shared :: bool

record wasm_module =
  mod_types :: "wasm_type list"
  mod_functions :: "u32 list"
  mod_globals :: "wasm_global list"
  mod_imports :: "wasm_import list"
  mod_exports :: "wasm_export list"
  mod_tables :: "wasm_table list"
  mod_elems :: "wasm_elem_segment list"
  mod_data :: "wasm_data list"
  mod_code :: "u8 list list option"
  mod_memory :: wasm_memory
  mod_start_func :: int
  mod_module_name :: "u8 list option"
  mod_function_names :: "u8 list option list option"

text \<open>\<open>memset(module, 0, sizeof(*module))\<close>.\<close>

definition zero_module :: wasm_module where
  "zero_module = \<lparr>mod_types = [], mod_functions = [], mod_globals = [], mod_imports = [], mod_exports = [],
     mod_tables = [], mod_elems = [], mod_data = [], mod_code = None,
     mod_memory = \<lparr>mem_min = 0, mem_max = 0, mem_shared = False\<rparr>, mod_start_func = 0,
     mod_module_name = None, mod_function_names = None\<rparr>"

text \<open>The counts, \<open>uint32_t\<close> in the code.\<close>

definition types_count :: "wasm_module \<Rightarrow> u32" where
  "types_count m = word_of_nat (length (mod_types m))"

definition functions_count :: "wasm_module \<Rightarrow> u32" where
  "functions_count m = word_of_nat (length (mod_functions m))"

definition globals_count :: "wasm_module \<Rightarrow> u32" where
  "globals_count m = word_of_nat (length (mod_globals m))"

definition imports_count :: "wasm_module \<Rightarrow> u32" where
  "imports_count m = word_of_nat (length (mod_imports m))"

definition tables_count :: "wasm_module \<Rightarrow> u32" where
  "tables_count m = word_of_nat (length (mod_tables m))"

definition data_count :: "wasm_module \<Rightarrow> u32" where
  "data_count m = word_of_nat (length (mod_data m))"

definition WASM_PAGE_SIZE :: u64 where
  "WASM_PAGE_SIZE = 65536"

definition SIZE_4GB :: u64 where
  "SIZE_4GB = 0x0000000100000000"

end
