(* ===== verification/Utf8.thy ===== *)
theory Utf8
  imports Prelude
begin

text \<open>
  UTF-8 validation, \<open>is_valid_utf8\<close> of src/buffer.c, and its specification: the strings it
  accepts are exactly the encodings of sequences of Unicode scalar values.
\<close>

section \<open>The validator\<close>

text \<open>
  The function, with the loop's index \<open>i\<close>. Every read \<open>str[i + k]\<close> follows a test that
  \<open>i + k\<close> is inside the string. The code point is assembled in an \<open>unsigned int\<close>.
\<close>

definition code_unit :: "u8 \<Rightarrow> u8 \<Rightarrow> nat \<Rightarrow> u32" where
  "code_unit b m s = push_bit s (ucast (b AND m))"

function utf8_loop :: "u8 list \<Rightarrow> nat \<Rightarrow> bool" where
  "utf8_loop str i =
     (let len = length str in
      if i < len then
        if str ! i \<le> 0x7F then utf8_loop str (i + 1)
        else if str ! i AND 0xE0 = 0xC0 then
          if i + 1 \<ge> len \<or> str ! (i + 1) AND 0xC0 \<noteq> 0x80 then False
          else if str ! i AND 0x1F < 0x02 then False
          else utf8_loop str (i + 2)
        else if str ! i AND 0xF0 = 0xE0 then
          if i + 2 \<ge> len \<or> str ! (i + 1) AND 0xC0 \<noteq> 0x80 \<or> str ! (i + 2) AND 0xC0 \<noteq> 0x80 then False
          else
            (let cp = (code_unit (str ! i) 0x0F 12 OR code_unit (str ! (i + 1)) 0x3F 6)
                OR code_unit (str ! (i + 2)) 0x3F 0 in
             if cp < 0x0800 \<or> (cp \<ge> 0xD800 \<and> cp \<le> 0xDFFF) then False
             else utf8_loop str (i + 3))
        else if str ! i AND 0xF8 = 0xF0 then
          if i + 3 \<ge> len \<or> str ! (i + 1) AND 0xC0 \<noteq> 0x80 \<or> str ! (i + 2) AND 0xC0 \<noteq> 0x80
            \<or> str ! (i + 3) AND 0xC0 \<noteq> 0x80 then False
          else
            (let cp = ((code_unit (str ! i) 0x07 18 OR code_unit (str ! (i + 1)) 0x3F 12)
                OR code_unit (str ! (i + 2)) 0x3F 6) OR code_unit (str ! (i + 3)) 0x3F 0 in
             if cp < 0x010000 \<or> cp > 0x10FFFF then False
             else utf8_loop str (i + 4))
        else False
      else True)"
  by pat_completeness auto
termination
  by (relation "measure (\<lambda>(str, i). length str - i)") auto

declare utf8_loop.simps [simp del]

definition is_valid_utf8 :: "u8 list \<Rightarrow> bool" where
  "is_valid_utf8 str = utf8_loop str 0"

section \<open>The encoding\<close>

definition scalar_value :: "nat \<Rightarrow> bool" where
  "scalar_value cp \<longleftrightarrow> cp < 0xD800 \<or> (0xE000 \<le> cp \<and> cp < 0x110000)"

definition utf8_encode :: "nat \<Rightarrow> u8 list" where
  "utf8_encode cp =
     (if cp < 0x80 then [word_of_nat cp]
      else if cp < 0x800 then map word_of_nat [0xC0 + cp div 64, 0x80 + cp mod 64]
      else if cp < 0x10000 then
        map word_of_nat [0xE0 + cp div 4096, 0x80 + cp div 64 mod 64, 0x80 + cp mod 64]
      else map word_of_nat
        [0xF0 + cp div 262144, 0x80 + cp div 4096 mod 64, 0x80 + cp div 64 mod 64, 0x80 + cp mod 64])"

section \<open>The tests of the validator as arithmetic\<close>

lemma unat_push_u8:
  assumes "k \<le> 8" and "unat (z :: u8) < 2 ^ (8 - k)"
  shows "unat (push_bit k z) = 2 ^ k * unat z"
proof -
  have "2 ^ k * unat z < 2 ^ k * 2 ^ (8 - k)" using assms(2) by simp
  also have "\<dots> = 256" using assms(1) by (simp flip: power_add)
  finally have "push_bit k (unat z) < 2 ^ 8" by (simp add: push_bit_eq_mult mult.commute)
  then have "take_bit LENGTH(8) (push_bit k (unat z)) = push_bit k (unat z)"
    by (simp add: take_bit_nat_eq_self)
  then show ?thesis
    by (simp only: unsigned_push_bit_eq) (simp add: push_bit_eq_mult mult.commute)
qed

lemma unat_drop_u8: "unat (drop_bit k (b :: u8)) = unat b div 2 ^ k"
  by (rule trans [OF unat_drop_bit_eq]) (rule drop_bit_eq_div)

lemma and_high_bits:
  fixes b :: u8
  assumes "k \<le> 8" and "c < 2 ^ (8 - k)"
  shows "b AND NOT (mask k) = push_bit k (word_of_nat c) \<longleftrightarrow> unat b div 2 ^ k = c"
proof -
  have split: "b AND NOT (mask k) = push_bit k (drop_bit k b)"
    by (auto simp: bit_eq_iff bit_simps)
  have "(2::nat) ^ (8 - k) \<le> 2 ^ 8" by (rule power_increasing) simp_all
  with assms(2) have "c < 256" by simp
  then have c: "unat (word_of_nat c :: u8) = c" by (simp add: unat_of_nat)
  have "unat b < 2 ^ k * 2 ^ (8 - k)"
    using unat_u8_bound [of b] assms(1) by (simp flip: power_add)
  then have "unat (drop_bit k b) < 2 ^ (8 - k)"
    by (simp add: unat_drop_u8 less_mult_imp_div_less mult.commute)
  then have "unat (push_bit k (drop_bit k b)) = 2 ^ k * (unat b div 2 ^ k)"
    using assms(1) by (simp only: unat_push_u8 unat_drop_u8)
  moreover have "unat (push_bit k (word_of_nat c :: u8)) = 2 ^ k * c"
    using assms c by (simp only: unat_push_u8)
  ultimately show ?thesis
    unfolding split word_unat_eq_iff by simp
qed

lemma high_masks:
  "(0xE0 :: u8) = NOT (mask 5)" "(0xF0 :: u8) = NOT (mask 4)"
  "(0xF8 :: u8) = NOT (mask 3)" "(0xC0 :: u8) = NOT (mask 6)"
  by (simp_all add: mask_eq_exp_minus_1)

lemma marks:
  "(0xC0 :: u8) = push_bit 5 (word_of_nat 6)" "(0xE0 :: u8) = push_bit 4 (word_of_nat 14)"
  "(0xF0 :: u8) = push_bit 3 (word_of_nat 30)" "(0x80 :: u8) = push_bit 6 (word_of_nat 2)"
  by (simp_all add: push_bit_eq_mult)

lemma lead_2: "(b :: u8) AND 0xE0 = 0xC0 \<longleftrightarrow> unat b div 32 = 6"
  using and_high_bits [of 5 6 b] by (simp only: high_masks(1) marks(1)) simp

lemma lead_3: "(b :: u8) AND 0xF0 = 0xE0 \<longleftrightarrow> unat b div 16 = 14"
  using and_high_bits [of 4 14 b] by (simp only: high_masks(2) marks(2)) simp

lemma lead_4: "(b :: u8) AND 0xF8 = 0xF0 \<longleftrightarrow> unat b div 8 = 30"
  using and_high_bits [of 3 30 b] by (simp only: high_masks(3) marks(3)) simp

lemma continuation: "(b :: u8) AND 0xC0 = 0x80 \<longleftrightarrow> unat b div 64 = 2"
  using and_high_bits [of 6 2 b] by (simp only: high_masks(4) marks(4)) simp

lemma ascii: "(b :: u8) \<le> 0x7F \<longleftrightarrow> unat b < 128"
  by (simp add: word_le_nat_alt) linarith

lemma overlong_2: "(b :: u8) AND 0x1F < 0x02 \<longleftrightarrow> unat b mod 32 < 2"
  using unat_and_mask [of b 5] by (simp add: mask_eq_exp_minus_1 word_less_nat_alt)

lemma code_unit_mask: "code_unit b (mask k) s = word_of_nat (2 ^ s * (unat b mod 2 ^ k))"
proof -
  have "(ucast (b AND mask k) :: u32) = word_of_nat (unat b mod 2 ^ k)"
    by (metis of_nat_unat unat_and_mask)
  then show ?thesis
    by (simp add: code_unit_def push_bit_eq_mult mult.commute)
qed

lemma code_units:
  "code_unit b 0x07 s = word_of_nat (2 ^ s * (unat b mod 8))"
  "code_unit b 0x0F s = word_of_nat (2 ^ s * (unat b mod 16))"
  "code_unit b 0x3F s = word_of_nat (2 ^ s * (unat b mod 64))"
  using code_unit_mask [of b 3 s] code_unit_mask [of b 4 s] code_unit_mask [of b 6 s]
  by (simp_all add: mask_eq_exp_minus_1)

lemma or_digits: "(word_of_nat (2 ^ k * v) OR word_of_nat c :: u32) = word_of_nat (2 ^ k * v + c)"
  if "c < 2 ^ k"
proof -
  have "word_of_nat (2 ^ k * v + c) = (word_of_nat (c OR push_bit k v) :: u32)"
    by (simp only: low_or_high [OF that] add.commute)
  then show ?thesis
    by (simp only: of_nat_or_eq push_bit_eq_mult or.commute mult.commute)
qed

definition cp_3 :: "u8 \<Rightarrow> u8 \<Rightarrow> u8 \<Rightarrow> nat" where
  "cp_3 a b c = 4096 * (unat a mod 16) + 64 * (unat b mod 64) + unat c mod 64"

definition cp_4 :: "u8 \<Rightarrow> u8 \<Rightarrow> u8 \<Rightarrow> u8 \<Rightarrow> nat" where
  "cp_4 a b c d = 262144 * (unat a mod 8) + 4096 * (unat b mod 64) + 64 * (unat c mod 64) + unat d mod 64"

lemma code_point_3:
  "(code_unit a 0x0F 12 OR code_unit b 0x3F 6) OR code_unit c 0x3F 0 = word_of_nat (cp_3 a b c)"
proof -
  let ?a = "unat a mod 16" and ?b = "unat b mod 64" and ?c = "unat c mod 64"
  have "(word_of_nat (2 ^ 12 * ?a) OR word_of_nat (2 ^ 6 * ?b) :: u32)
      = word_of_nat (2 ^ 6 * (64 * ?a + ?b))"
    by (subst or_digits) (simp_all add: algebra_simps)
  moreover have "(word_of_nat (2 ^ 6 * (64 * ?a + ?b)) OR word_of_nat (2 ^ 0 * ?c) :: u32)
      = word_of_nat (cp_3 a b c)"
    by (subst or_digits) (simp_all add: cp_3_def algebra_simps)
  ultimately show ?thesis by (simp only: code_units)
qed

lemma code_point_4:
  "((code_unit a 0x07 18 OR code_unit b 0x3F 12) OR code_unit c 0x3F 6) OR code_unit d 0x3F 0
     = word_of_nat (cp_4 a b c d)"
proof -
  let ?a = "unat a mod 8" and ?b = "unat b mod 64" and ?c = "unat c mod 64" and ?d = "unat d mod 64"
  have "(word_of_nat (2 ^ 18 * ?a) OR word_of_nat (2 ^ 12 * ?b) :: u32)
      = word_of_nat (2 ^ 12 * (64 * ?a + ?b))"
    by (subst or_digits) (simp_all add: algebra_simps)
  moreover have "(word_of_nat (2 ^ 12 * (64 * ?a + ?b)) OR word_of_nat (2 ^ 6 * ?c) :: u32)
      = word_of_nat (2 ^ 6 * (64 * (64 * ?a + ?b) + ?c))"
    by (subst or_digits) (simp_all add: algebra_simps)
  moreover have "(word_of_nat (2 ^ 6 * (64 * (64 * ?a + ?b) + ?c)) OR word_of_nat (2 ^ 0 * ?d) :: u32)
      = word_of_nat (cp_4 a b c d)"
    by (subst or_digits) (simp_all add: cp_4_def algebra_simps)
  ultimately show ?thesis by (simp only: code_units)
qed

section \<open>One step of the validator\<close>

text \<open>
  The four shapes of an encoding as conditions on the bytes. \<open>encoded_1\<close> to \<open>encoded_4\<close> say when
  a string of one to four bytes is the encoding of some scalar value.
\<close>

definition two_bytes :: "u8 \<Rightarrow> u8 \<Rightarrow> bool" where
  "two_bytes a b \<longleftrightarrow> unat a div 32 = 6 \<and> unat b div 64 = 2 \<and> 2 \<le> unat a mod 32"

definition three_bytes :: "u8 \<Rightarrow> u8 \<Rightarrow> u8 \<Rightarrow> bool" where
  "three_bytes a b c \<longleftrightarrow> unat a div 16 = 14 \<and> unat b div 64 = 2 \<and> unat c div 64 = 2 \<and>
     0x800 \<le> cp_3 a b c \<and> \<not> (0xD800 \<le> cp_3 a b c \<and> cp_3 a b c \<le> 0xDFFF)"

definition four_bytes :: "u8 \<Rightarrow> u8 \<Rightarrow> u8 \<Rightarrow> u8 \<Rightarrow> bool" where
  "four_bytes a b c d \<longleftrightarrow> unat a div 8 = 30 \<and> unat b div 64 = 2 \<and> unat c div 64 = 2 \<and>
     unat d div 64 = 2 \<and> 0x10000 \<le> cp_4 a b c d \<and> cp_4 a b c d \<le> 0x10FFFF"

lemma u8_of_nat: "n = unat x \<Longrightarrow> (word_of_nat n :: u8) = x"
  by simp

lemma unat_small: "n < 256 \<Longrightarrow> unat (word_of_nat n :: u8) = n"
  by (simp add: unat_of_nat)

lemma base64:
  assumes "z < 64"
  shows "(64 * h + z) mod 64 = z" and "(64 * h + z) div 64 = (h :: nat)"
  using assms by simp_all

lemma div_4096: "(n :: nat) div 4096 = n div 64 div 64"
  using div_mult2_eq [of n 64 64] by simp

lemma div_262144: "(n :: nat) div 262144 = n div 64 div 64 div 64"
  using div_mult2_eq [of n 64 4096] by (simp add: div_4096)

lemma encode_two:
  assumes "two_bytes a b"
  shows "scalar_value (64 * (unat a mod 32) + unat b mod 64)"
    and "utf8_encode (64 * (unat a mod 32) + unat b mod 64) = [a, b]"
proof -
  let ?x = "unat a mod 32" and ?y = "unat b mod 64"
  have a: "unat a = 192 + ?x" and b: "unat b = 128 + ?y" and x: "2 \<le> ?x"
    using assms div_mult_mod_eq [of "unat a" 32] div_mult_mod_eq [of "unat b" 64]
    by (simp_all add: two_bytes_def)
  have lt: "?x < 32" "?y < 64" by simp_all
  have cp: "(64 * ?x + ?y) div 64 = ?x" "(64 * ?x + ?y) mod 64 = ?y" by simp_all
  have "128 \<le> 64 * ?x + ?y" "64 * ?x + ?y < 2048" using x lt by linarith+
  then show "scalar_value (64 * ?x + ?y)" "utf8_encode (64 * ?x + ?y) = [a, b]"
    unfolding utf8_encode_def cp scalar_value_def
    by (simp_all add: u8_of_nat a [symmetric] b [symmetric] del: of_nat_add)
qed

lemma encode_three:
  assumes "three_bytes a b c"
  shows "scalar_value (cp_3 a b c)" and "utf8_encode (cp_3 a b c) = [a, b, c]"
proof -
  let ?x = "unat a mod 16" and ?y = "unat b mod 64" and ?z = "unat c mod 64"
  have a: "unat a = 224 + ?x" and b: "unat b = 128 + ?y" and c: "unat c = 128 + ?z"
    using assms div_mult_mod_eq [of "unat a" 16] div_mult_mod_eq [of "unat b" 64]
      div_mult_mod_eq [of "unat c" 64]
    by (simp_all add: three_bytes_def)
  have lt: "?x < 16" "?y < 64" "?z < 64" by simp_all
  have cp: "cp_3 a b c = 64 * (64 * ?x + ?y) + ?z" by (simp add: cp_3_def)
  have digits: "cp_3 a b c mod 64 = ?z" "cp_3 a b c div 64 mod 64 = ?y" "cp_3 a b c div 4096 = ?x"
    unfolding cp div_4096 by (simp_all only: base64 lt)
  have "2048 \<le> cp_3 a b c" "cp_3 a b c < 65536"
    "\<not> (55296 \<le> cp_3 a b c \<and> cp_3 a b c \<le> 57343)"
    using assms lt by (simp_all add: three_bytes_def cp_3_def)
  then show "scalar_value (cp_3 a b c)" "utf8_encode (cp_3 a b c) = [a, b, c]"
    unfolding utf8_encode_def digits scalar_value_def
    by (auto simp: u8_of_nat a [symmetric] b [symmetric] c [symmetric] simp del: of_nat_add)
qed

lemma encode_four:
  assumes "four_bytes a b c d"
  shows "scalar_value (cp_4 a b c d)" and "utf8_encode (cp_4 a b c d) = [a, b, c, d]"
proof -
  let ?w = "unat a mod 8" and ?x = "unat b mod 64" and ?y = "unat c mod 64" and ?z = "unat d mod 64"
  have a: "unat a = 240 + ?w" and b: "unat b = 128 + ?x" and c: "unat c = 128 + ?y"
    and d: "unat d = 128 + ?z"
    using assms div_mult_mod_eq [of "unat a" 8] div_mult_mod_eq [of "unat b" 64]
      div_mult_mod_eq [of "unat c" 64] div_mult_mod_eq [of "unat d" 64]
    by (simp_all add: four_bytes_def)
  have lt: "?w < 8" "?x < 64" "?y < 64" "?z < 64" by simp_all
  have cp: "cp_4 a b c d = 64 * (64 * (64 * ?w + ?x) + ?y) + ?z" by (simp add: cp_4_def)
  have digits: "cp_4 a b c d mod 64 = ?z" "cp_4 a b c d div 64 mod 64 = ?y"
    "cp_4 a b c d div 4096 mod 64 = ?x" "cp_4 a b c d div 262144 = ?w"
    unfolding cp div_4096 div_262144 by (simp_all only: base64 lt)
  have "65536 \<le> cp_4 a b c d" "cp_4 a b c d < 1114112"
    using assms by (simp_all add: four_bytes_def)
  then show "scalar_value (cp_4 a b c d)" "utf8_encode (cp_4 a b c d) = [a, b, c, d]"
    unfolding utf8_encode_def digits scalar_value_def
    by (auto simp: u8_of_nat a [symmetric] b [symmetric] c [symmetric] d [symmetric] simp del: of_nat_add)
qed

lemma digit_shape:
  assumes "m < k" and "k * q + m < 256"
  shows "unat (word_of_nat (k * q + m) :: u8) div k = q"
    and "unat (word_of_nat (k * q + m) :: u8) mod k = m"
  using assms by (simp_all add: unat_small del: of_nat_add of_nat_mult)

lemma encoded_shape:
  assumes "scalar_value cp"
  shows "(\<exists>a. utf8_encode cp = [a] \<and> unat a < 128)
    \<or> (\<exists>a b. utf8_encode cp = [a, b] \<and> two_bytes a b)
    \<or> (\<exists>a b c. utf8_encode cp = [a, b, c] \<and> three_bytes a b c)
    \<or> (\<exists>a b c d. utf8_encode cp = [a, b, c, d] \<and> four_bytes a b c d)"
proof -
  have cont: "unat (128 + word_of_nat (x mod 64) :: u8) div 64 = 2"
    "unat (128 + word_of_nat (x mod 64) :: u8) mod 64 = x mod 64" for x
  proof -
    have "x mod 64 < 64" by simp
    then have "x mod 64 < 128" by linarith
    then show "unat (128 + word_of_nat (x mod 64) :: u8) div 64 = 2"
      "unat (128 + word_of_nat (x mod 64) :: u8) mod 64 = x mod 64"
      using digit_shape [of "x mod 64" 64 2, simplified] by simp_all
  qed
  have d3: "cp = 4096 * (cp div 4096) + 64 * (cp div 64 mod 64) + cp mod 64"
    using div_mult_mod_eq [of "cp div 64" 64] div_mult_mod_eq [of cp 64] unfolding div_4096
    by linarith
  have d4: "cp = 262144 * (cp div 262144) + 4096 * (cp div 4096 mod 64) + 64 * (cp div 64 mod 64) + cp mod 64"
    using div_mult_mod_eq [of "cp div 4096" 64] d3 unfolding div_262144 div_4096
    by linarith
  consider "cp < 128" | "128 \<le> cp" "cp < 2048" | "2048 \<le> cp" "cp < 65536" | "65536 \<le> cp"
    by linarith
  then show ?thesis
  proof cases
    case 1
    then show ?thesis by (simp add: utf8_encode_def unat_small)
  next
    case 2
    then have lt: "cp div 64 < 32" "2 \<le> cp div 64" by linarith+
    note a = digit_shape [of "cp div 64" 32 6, simplified, OF lt(1)]
    have "two_bytes (192 + word_of_nat (cp div 64)) (128 + word_of_nat (cp mod 64))"
      using a lt cont by (simp add: two_bytes_def)
    then show ?thesis using 2 by (simp add: utf8_encode_def)
  next
    case 3
    then have lt: "cp div 4096 < 16" by linarith
    note a = digit_shape [of "cp div 4096" 16 14, simplified, OF lt(1)]
    let ?a = "224 + word_of_nat (cp div 4096) :: u8" and ?b = "128 + word_of_nat (cp div 64 mod 64) :: u8"
      and ?c = "128 + word_of_nat (cp mod 64) :: u8"
    have "cp_3 ?a ?b ?c = cp"
      using a cont d3 by (simp add: cp_3_def)
    then have "three_bytes ?a ?b ?c"
      using a lt cont 3 assms by (auto simp: three_bytes_def scalar_value_def)
    then show ?thesis using 3 by (simp add: utf8_encode_def)
  next
    case 4
    then have lt: "cp div 262144 < 8" using assms by (simp add: scalar_value_def)
    note a = digit_shape [of "cp div 262144" 8 30, simplified, OF lt(1)]
    let ?a = "240 + word_of_nat (cp div 262144) :: u8" and ?b = "128 + word_of_nat (cp div 4096 mod 64) :: u8"
      and ?c = "128 + word_of_nat (cp div 64 mod 64) :: u8" and ?d = "128 + word_of_nat (cp mod 64) :: u8"
    have "cp_4 ?a ?b ?c ?d = cp"
      using a cont d4 by (simp add: cp_4_def)
    then have "four_bytes ?a ?b ?c ?d"
      using a lt cont 4 assms by (auto simp: four_bytes_def scalar_value_def)
    then show ?thesis using 4 by (simp add: utf8_encode_def)
  qed
qed

definition is_utf8 :: "u8 list \<Rightarrow> bool" where
  "is_utf8 bs \<longleftrightarrow> (\<exists>cps. (\<forall>cp \<in> set cps. scalar_value cp) \<and> bs = concat (map utf8_encode cps))"

lemma utf8_encode_nonempty [simp]: "utf8_encode cp \<noteq> []"
  by (simp add: utf8_encode_def)

lemma is_utf8_Nil [simp]: "is_utf8 []"
  by (auto simp: is_utf8_def intro: exI [of _ "[]"])

lemma is_utf8_step:
  assumes "xs \<noteq> []"
  shows "is_utf8 xs \<longleftrightarrow> (\<exists>cp ys. scalar_value cp \<and> xs = utf8_encode cp @ ys \<and> is_utf8 ys)"
proof
  assume "is_utf8 xs"
  then obtain cps where cps: "\<forall>cp \<in> set cps. scalar_value cp" "xs = concat (map utf8_encode cps)"
    by (auto simp: is_utf8_def)
  with assms obtain cp cps' where "cps = cp # cps'" by (cases cps) auto
  with cps show "\<exists>cp ys. scalar_value cp \<and> xs = utf8_encode cp @ ys \<and> is_utf8 ys"
    by (auto simp: is_utf8_def)
next
  assume "\<exists>cp ys. scalar_value cp \<and> xs = utf8_encode cp @ ys \<and> is_utf8 ys"
  then obtain cp cps where "scalar_value cp" "\<forall>cp \<in> set cps. scalar_value cp"
    "xs = utf8_encode cp @ concat (map utf8_encode cps)"
    by (auto simp: is_utf8_def)
  then show "is_utf8 xs"
    unfolding is_utf8_def by (intro exI [of _ "cp # cps"]) simp
qed

lemma encode_one: "unat a < 128 \<Longrightarrow> scalar_value (unat a) \<and> utf8_encode (unat a) = [a]"
  by (simp add: scalar_value_def utf8_encode_def)

lemma is_utf8_Cons:
  "is_utf8 (a # r) \<longleftrightarrow>
     (unat a < 128 \<and> is_utf8 r)
     \<or> (\<exists>b ys. r = b # ys \<and> two_bytes a b \<and> is_utf8 ys)
     \<or> (\<exists>b c ys. r = b # c # ys \<and> three_bytes a b c \<and> is_utf8 ys)
     \<or> (\<exists>b c d ys. r = b # c # d # ys \<and> four_bytes a b c d \<and> is_utf8 ys)"
  (is "?L = ?R")
proof
  assume ?L
  then obtain cp ys where "scalar_value cp" "a # r = utf8_encode cp @ ys" "is_utf8 ys"
    by (auto simp: is_utf8_step)
  then show ?R using encoded_shape [of cp] by auto
next
  have step: "is_utf8 (a # r)" if "scalar_value cp" "utf8_encode cp @ ys = a # r" "is_utf8 ys" for cp ys
    using that is_utf8_step [of "a # r"] by (metis list.distinct(1))
  assume ?R
  then consider "unat a < 128" "is_utf8 r" | b ys where "r = b # ys" "two_bytes a b" "is_utf8 ys"
    | b c ys where "r = b # c # ys" "three_bytes a b c" "is_utf8 ys"
    | b c d ys where "r = b # c # d # ys" "four_bytes a b c d" "is_utf8 ys"
    by blast
  then show ?L
  proof cases
    case 1
    then show ?thesis using encode_one by (intro step) auto
  next
    case 2
    show ?thesis
      by (rule step [OF encode_two(1) [OF 2(2)] _ 2(3)])
        (simp only: encode_two(2) [OF 2(2)] 2(1) append.simps)
  next
    case 3
    show ?thesis
      by (rule step [OF encode_three(1) [OF 3(2)] _ 3(3)])
        (simp only: encode_three(2) [OF 3(2)] 3(1) append.simps)
  next
    case 4
    show ?thesis
      by (rule step [OF encode_four(1) [OF 4(2)] _ 4(3)])
        (simp only: encode_four(2) [OF 4(2)] 4(1) append.simps)
  qed
qed

section \<open>The validator against the encoding\<close>

lemma drop_cons: "i < length xs \<Longrightarrow> drop i xs = xs ! i # drop (Suc i) xs"
  by (rule Cons_nth_drop_Suc [symmetric])

lemma drop_peek:
  "drop i xs = y # ys \<longleftrightarrow> i < length xs \<and> xs ! i = y \<and> drop (Suc i) xs = ys"
  by (cases "i < length xs") (auto simp: drop_cons)

lemma cp_3_bound: "cp_3 a b c < 65536"
  using mod_less_divisor [of 16 "unat a"] mod_less_divisor [of 64 "unat b"]
    mod_less_divisor [of 64 "unat c"] unfolding cp_3_def by linarith

lemma cp_4_bound: "cp_4 a b c d < 2097152"
  using mod_less_divisor [of 8 "unat a"] mod_less_divisor [of 64 "unat b"]
    mod_less_divisor [of 64 "unat c"] mod_less_divisor [of 64 "unat d"]
  unfolding cp_4_def by linarith

lemma unat_cp_3: "unat (word_of_nat (cp_3 a b c) :: u32) = cp_3 a b c"
  using cp_3_bound [of a b c] by (simp add: unat_of_nat)

lemma unat_cp_4: "unat (word_of_nat (cp_4 a b c d) :: u32) = cp_4 a b c d"
  using cp_4_bound [of a b c d] by (simp add: unat_of_nat)

lemma word_le_numeral: "(numeral m :: u32) \<le> w \<longleftrightarrow> unat (numeral m :: u32) \<le> unat w"
  "w \<le> (numeral m :: u32) \<longleftrightarrow> unat w \<le> unat (numeral m :: u32)"
  "w < (numeral m :: u32) \<longleftrightarrow> unat w < unat (numeral m :: u32)"
  "(numeral m :: u32) < w \<longleftrightarrow> unat (numeral m :: u32) < unat w"
  by (simp_all only: word_le_nat_alt word_less_nat_alt)

lemma cp_3_tests:
  "(word_of_nat (cp_3 a b c) :: u32) < 0x0800 \<longleftrightarrow> cp_3 a b c < 0x800"
  "(word_of_nat (cp_3 a b c) :: u32) \<ge> 0xD800 \<longleftrightarrow> 0xD800 \<le> cp_3 a b c"
  "(word_of_nat (cp_3 a b c) :: u32) \<le> 0xDFFF \<longleftrightarrow> cp_3 a b c \<le> 0xDFFF"
  by (simp_all only: word_le_numeral unat_cp_3) simp_all

lemma cp_4_tests:
  "(word_of_nat (cp_4 a b c d) :: u32) < 0x010000 \<longleftrightarrow> cp_4 a b c d < 0x10000"
  "(word_of_nat (cp_4 a b c d) :: u32) > 0x10FFFF \<longleftrightarrow> 0x10FFFF < cp_4 a b c d"
  by (simp_all only: word_le_numeral unat_cp_4) simp_all

lemma leads_differ:
  "two_bytes a b \<Longrightarrow> unat a div 32 = 6" "three_bytes a b c \<Longrightarrow> unat a div 16 = 14"
  "four_bytes a b c d \<Longrightarrow> unat a div 8 = 30"
  by (simp_all add: two_bytes_def three_bytes_def four_bytes_def)

lemma utf8_loop_iff: "utf8_loop str i \<longleftrightarrow> is_utf8 (drop i str)"
proof (induction "length str - i" arbitrary: i rule: less_induct)
  case less
  have IH: "utf8_loop str (i + k) \<longleftrightarrow> is_utf8 (drop (i + k) str)" if "i < length str" "0 < k" for k
    using that by (intro less) simp
  have sucs: "i + 2 = Suc (Suc i)" "i + 3 = Suc (Suc (Suc i))" "i + 4 = Suc (Suc (Suc (Suc i)))" by simp_all
  let ?a = "str ! i" and ?b = "str ! (i + 1)" and ?c = "str ! (i + 2)" and ?d = "str ! (i + 3)"
  consider "length str \<le> i" | "i < length str" "unat ?a < 128"
    | "i < length str" "unat ?a div 32 = 6" | "i < length str" "unat ?a div 16 = 14"
    | "i < length str" "unat ?a div 8 = 30"
    | "i < length str" "\<not> unat ?a < 128" "unat ?a div 32 \<noteq> 6" "unat ?a div 16 \<noteq> 14" "unat ?a div 8 \<noteq> 30"
    by linarith
  then show ?case
  proof cases
    case 1
    then show ?thesis by (subst utf8_loop.simps) simp
  next
    case 2
    then have "utf8_loop str i = is_utf8 (drop (i + 1) str)"
      using IH [of 1] by (subst utf8_loop.simps) (simp add: ascii)
    moreover have "\<not> two_bytes ?a b" "\<not> three_bytes ?a b c" "\<not> four_bytes ?a b c d" for b c d
      using 2 leads_differ by fastforce+
    ultimately show ?thesis using 2 by (simp add: drop_cons is_utf8_Cons)
  next
    case 3
    then have "\<not> unat ?a < 128" "\<not> three_bytes ?a b c" "\<not> four_bytes ?a b c d" for b c d
      using leads_differ(2) [of ?a b c] leads_differ(3) [of ?a b c d] by linarith+
    then have "is_utf8 (drop i str) \<longleftrightarrow> i + 1 < length str \<and> two_bytes ?a ?b \<and> is_utf8 (drop (i + 2) str)"
      using 3 by (auto simp: drop_cons is_utf8_Cons drop_peek)
    moreover have "utf8_loop str i \<longleftrightarrow> i + 1 < length str \<and> two_bytes ?a ?b \<and> utf8_loop str (i + 2)"
      using 3 by (subst utf8_loop.simps)
        (auto simp: ascii lead_2 continuation overlong_2 two_bytes_def)
    ultimately show ?thesis using IH [of 2] 3 by simp
  next
    case 4
    then have "\<not> unat ?a < 128" "\<not> two_bytes ?a b" "\<not> four_bytes ?a b c d" "unat ?a div 32 \<noteq> 6" for b c d
      using leads_differ(1) [of ?a b] leads_differ(3) [of ?a b c d] by linarith+
    then have "is_utf8 (drop i str) \<longleftrightarrow>
        i + 2 < length str \<and> three_bytes ?a ?b ?c \<and> is_utf8 (drop (i + 3) str)"
      using 4 by (auto simp: drop_cons is_utf8_Cons drop_peek sucs)
    moreover have "utf8_loop str i \<longleftrightarrow> i + 2 < length str \<and> three_bytes ?a ?b ?c \<and> utf8_loop str (i + 3)"
      using 4 \<open>unat ?a div 32 \<noteq> 6\<close> \<open>\<not> unat ?a < 128\<close>
      by (subst utf8_loop.simps)
        (auto simp: Let_def ascii lead_2 lead_3 continuation code_point_3 cp_3_tests three_bytes_def)
    ultimately show ?thesis using IH [of 3] 4 by simp
  next
    case 5
    then have "\<not> unat ?a < 128" "\<not> two_bytes ?a b" "\<not> three_bytes ?a b c" "unat ?a div 32 \<noteq> 6"
      "unat ?a div 16 \<noteq> 14" for b c
      using leads_differ(1) [of ?a b] leads_differ(2) [of ?a b c] by linarith+
    then have "is_utf8 (drop i str) \<longleftrightarrow>
        i + 3 < length str \<and> four_bytes ?a ?b ?c ?d \<and> is_utf8 (drop (i + 4) str)"
      using 5 by (auto simp: drop_cons is_utf8_Cons drop_peek sucs)
    moreover have "utf8_loop str i \<longleftrightarrow> i + 3 < length str \<and> four_bytes ?a ?b ?c ?d \<and> utf8_loop str (i + 4)"
      using 5 \<open>unat ?a div 32 \<noteq> 6\<close> \<open>unat ?a div 16 \<noteq> 14\<close> \<open>\<not> unat ?a < 128\<close>
      by (subst utf8_loop.simps)
        (auto simp: Let_def ascii lead_2 lead_3 lead_4 continuation code_point_4 cp_4_tests four_bytes_def)
    ultimately show ?thesis using IH [of 4] 5 by simp
  next
    case 6
    then have "\<not> two_bytes ?a b" "\<not> three_bytes ?a b c" "\<not> four_bytes ?a b c d" for b c d
      using leads_differ by blast+
    then show ?thesis using 6
      by (subst utf8_loop.simps) (simp add: ascii lead_2 lead_3 lead_4 drop_cons is_utf8_Cons)
  qed
qed

lemma is_valid_utf8_iff: "is_valid_utf8 str \<longleftrightarrow> is_utf8 str"
  by (simp add: is_valid_utf8_def utf8_loop_iff)

text \<open>
  C25: The UTF-8 validator accepts a string exactly if it is the concatenation of the encodings of
  a sequence of Unicode scalar values: it rejects overlong forms, surrogates, values above
  \<open>0x10FFFF\<close>, truncated sequences and stray continuation bytes, and nothing else.
\<close>

theorem utf8_validator_exact:
  "is_valid_utf8 str \<longleftrightarrow>
     (\<exists>cps. list_all scalar_value cps \<and> str = concat (map utf8_encode cps))"
  by (simp add: is_valid_utf8_iff is_utf8_def list_all_iff)

end
