(* ===== verification/Buffer.thy ===== *)
theory Buffer
  imports Host Wasm_Types Utf8
begin

text \<open>
  The byte buffer of src/buffer.h and src/buffer.c.

  A \<open>buffer_t\<close> is a pointer and a length. Reading moves the pointer forward, and a few callers
  look back at \<open>data[-1]\<close>, so the model keeps both sides of the pointer: \<open>rest\<close> is the \<open>len\<close>
  bytes at \<open>data\<close>, \<open>past\<close> the bytes already consumed, latest first. The writing operations
  append to \<open>rest\<close>.

  The second half states what the LEB128 readers promise: which byte strings they accept and
  the number each denotes, by comparison with a reference decoder, and the round trip with a
  reference encoder.
\<close>

section \<open>The buffer and its primitive operations\<close>

record buffer =
  past :: "u8 list"
  rest :: "u8 list"

type_synonym 'a parser = "(buffer, 'a) sm"

definition init_buffer :: "u8 list \<Rightarrow> buffer" where
  "init_buffer data = \<lparr>past = [], rest = data\<rparr>"

definition buffer_len :: "buffer \<Rightarrow> nat" where
  "buffer_len b = length (rest b)"

definition buffer_push :: "host \<Rightarrow> u8 list \<Rightarrow> unit parser" where
  "buffer_push h data =
     bind (gets buffer_len) (\<lambda>len.
     bind (check (realloc_ok h (len + length data))) (\<lambda>_.
     modify (\<lambda>b. b\<lparr>rest := rest b @ data\<rparr>)))"

definition buffer_fill :: "host \<Rightarrow> u8 \<Rightarrow> nat \<Rightarrow> unit parser" where
  "buffer_fill h value len =
     bind (gets buffer_len) (\<lambda>old.
     bind (check (realloc_ok h (old + len))) (\<lambda>_.
     modify (\<lambda>b. b\<lparr>rest := rest b @ replicate len value\<rparr>)))"

definition buffer_align :: "host \<Rightarrow> u8 \<Rightarrow> nat \<Rightarrow> unit parser" where
  "buffer_align h value alignment =
     bind (defined (alignment \<noteq> 0)) (\<lambda>_.
     bind (gets (\<lambda>b. buffer_len b mod alignment)) (\<lambda>diff.
     if diff \<noteq> 0 then buffer_fill h value (alignment - diff) else ret ()))"

text \<open>\<open>buffer_pull\<close> returns a pointer to the bytes it skips, or null.\<close>

definition buffer_pull :: "nat \<Rightarrow> u8 list option parser" where
  "buffer_pull len = (\<lambda>b.
     if length (rest b) < len then Inr (None, b)
     else Inr (Some (take len (rest b)),
            b\<lparr>past := rev (take len (rest b)) @ past b, rest := drop len (rest b)\<rparr>))"

text \<open>The callers' pattern \<open>p = buffer_pull(b, n); CHECK(p != nullptr)\<close>.\<close>

definition pull_bytes :: "nat \<Rightarrow> u8 list parser" where
  "pull_bytes len =
     bind (buffer_pull len) (\<lambda>data.
     case data of None \<Rightarrow> fail Check_failed | Some bs \<Rightarrow> ret bs)"

text \<open>The macro \<open>BUFFER_PULL(type, buffer)\<close>, for a byte and for the two float types, whose bits
  are kept as an integer.\<close>

definition pull_u8 :: "u8 parser" where
  "pull_u8 = bind (pull_bytes 1) (\<lambda>bs. ret (hd bs))"

definition pull_f32 :: "u32 parser" where
  "pull_f32 = bind (pull_bytes 4) (\<lambda>bs. ret (le_word bs))"

definition pull_f64 :: "u64 parser" where
  "pull_f64 = bind (pull_bytes 8) (\<lambda>bs. ret (le_word bs))"

text \<open>\<open>((uint8_t*)code->data)[-1]\<close>, the byte read last.\<close>

definition last_byte :: "u8 parser" where
  "last_byte = bind (gets past) (\<lambda>p. index p 0)"

lemma pull_bytes_run [run]:
  "pull_bytes n b = Inr (bs, b') \<longleftrightarrow>
     n \<le> length (rest b) \<and> bs = take n (rest b) \<and>
     b' = b\<lparr>past := rev bs @ past b, rest := drop n (rest b)\<rparr>"
  by (auto simp: pull_bytes_def buffer_pull_def bind_def split: if_splits)

lemma pull_bytes_fault: "pull_bytes n b = Inl e \<longleftrightarrow> length (rest b) < n \<and> e = Check_failed"
  by (auto simp: pull_bytes_def buffer_pull_def bind_def fail_def ret_def split: if_splits)

lemma pull_u8_run [run]:
  "pull_u8 b = Inr (x, b') \<longleftrightarrow>
     (\<exists>xs. rest b = x # xs \<and> b' = b\<lparr>past := x # past b, rest := xs\<rparr>)"
  by (cases "rest b") (auto simp: pull_u8_def run)

lemma pull_u8_fault: "pull_u8 b = Inl e \<longleftrightarrow> rest b = [] \<and> e = Check_failed"
  by (cases "rest b") (auto simp: pull_u8_def bind_def ret_def pull_bytes_fault
    split: sum.splits dest: pull_bytes_run [THEN iffD1])

lemma pull_u8_Cons:
  "rest b = x # xs \<Longrightarrow> pull_u8 b = Inr (x, b\<lparr>past := x # past b, rest := xs\<rparr>)"
  by (simp add: pull_u8_run)

lemma pull_u8_shorter: "pull_u8 b = Inr (x, b') \<Longrightarrow> length (rest b') < length (rest b)"
  by (auto simp: pull_u8_run)

section \<open>LEB128 integers\<close>

text \<open>
  The loop the four readers share: \<open>result\<close>, \<open>shift\<close> and \<open>byte\<close> are its variables, \<open>bound\<close> the
  largest shift the reader allows. It ends because every turn consumes a byte.
\<close>

function leb_loop :: "nat \<Rightarrow> 'w::len word \<Rightarrow> nat \<Rightarrow> ('w word \<times> nat \<times> u8) parser" where
  "leb_loop bound result shift b =
     (if shift \<le> bound then
        (case pull_u8 b of
           Inl e \<Rightarrow> Inl e
         | Inr (byte, b') \<Rightarrow>
             (let result' = result OR push_bit shift (ucast (byte AND 0x7F)) in
              if byte AND 0x80 \<noteq> 0 then leb_loop bound result' (shift + 7) b'
              else Inr ((result', shift + 7, byte), b')))
      else Inl Check_failed)"
  by pat_completeness auto
termination
  by (relation "measure (\<lambda>(bound, result, shift, b). length (rest b))")
    (auto dest: pull_u8_shorter)

declare leb_loop.simps [simp del]

definition buffer_pull_u32 :: "u32 parser" where
  "buffer_pull_u32 = bind (leb_loop 28 0 0) (\<lambda>(result, shift, byte). ret result)"

definition buffer_pull_u64 :: "u64 parser" where
  "buffer_pull_u64 = bind (leb_loop 63 0 0) (\<lambda>(result, shift, byte). ret result)"

definition buffer_pull_i32 :: "u32 parser" where
  "buffer_pull_i32 =
     bind (leb_loop 28 0 0) (\<lambda>(result, shift, byte).
     ret (if shift < 32 \<and> byte AND 0x40 \<noteq> 0
          then result OR push_bit shift (NOT 0) else result))"

definition buffer_pull_i64 :: "u64 parser" where
  "buffer_pull_i64 =
     bind (leb_loop 63 0 0) (\<lambda>(result, shift, byte).
     ret (if shift < 64 \<and> byte AND 0x40 \<noteq> 0
          then result OR push_bit shift (NOT 0) else result))"

subsection \<open>The reference decoder\<close>

text \<open>
  A LEB128 string is a non-empty string whose bytes carry the continuation bit except the last.
  It denotes the number whose base-128 digits are its bytes' low seven bits, least first;
  read as signed, bit 6 of the last byte is the sign.
\<close>

fun leb_form :: "u8 list \<Rightarrow> bool" where
  "leb_form [] \<longleftrightarrow> False"
| "leb_form [b] \<longleftrightarrow> unat b < 128"
| "leb_form (b # bs) \<longleftrightarrow> 128 \<le> unat b \<and> leb_form bs"

fun leb_value :: "u8 list \<Rightarrow> nat" where
  "leb_value [] = 0"
| "leb_value (b # bs) = unat b mod 128 + 128 * leb_value bs"

definition sleb_value :: "u8 list \<Rightarrow> int" where
  "sleb_value bs =
     int (leb_value bs) - (if 64 \<le> unat (last bs) mod 128 then 128 ^ length bs else 0)"

definition consume :: "u8 list \<Rightarrow> buffer \<Rightarrow> buffer" where
  "consume bs b = b\<lparr>past := rev bs @ past b, rest := drop (length bs) (rest b)\<rparr>"

lemma consume_simps [simp]:
  "past (consume bs b) = rev bs @ past b"
  "rest (consume bs b) = drop (length bs) (rest b)"
  by (simp_all add: consume_def)

lemma high_bit: "(b :: u8) AND 0x80 \<noteq> 0 \<longleftrightarrow> 128 \<le> unat b"
  using and_exp_word_iff [of b 7] unat_u8_bound [of b] by simp

lemma sign_bit: "(b :: u8) AND 0x40 \<noteq> 0 \<longleftrightarrow> 64 \<le> unat b mod 128"
  using and_exp_word_iff [of b 6] by simp

lemma low_bits: "(ucast ((b :: u8) AND 0x7F) :: 'w::len word) = word_of_nat (unat b mod 128)"
proof -
  have "unat (b AND 0x7F) = unat b mod 128"
    using unat_and_mask [of b 7] by (simp add: mask_eq_exp_minus_1)
  then show ?thesis by (metis of_nat_unat)
qed

lemma digit_or: "c < 128 \<Longrightarrow> c OR push_bit 7 v = c + 128 * (v :: nat)"
  using low_or_high [of c 7 v] by simp

lemma leb_step_value:
  "(result OR push_bit shift (ucast ((b :: u8) AND 0x7F))) OR push_bit (shift + 7) (word_of_nat v)
     = (result OR push_bit shift (word_of_nat (unat b mod 128 + 128 * v)) :: 'w::len word)"
proof -
  let ?c = "unat b mod 128"
  have "(word_of_nat (?c + 128 * v) :: 'w word) = word_of_nat (?c OR push_bit 7 v)"
    by (simp add: digit_or)
  also have "\<dots> = word_of_nat ?c OR push_bit 7 (word_of_nat v)"
    by (simp add: of_nat_or_eq push_bit_of_nat)
  finally show ?thesis
    by (simp add: low_bits or.assoc add.commute [of 7])
qed

lemma leb_loop_sound:
  "leb_loop bound result shift b = Inr ((v, sh, byte), b') \<Longrightarrow>
     \<exists>bs. leb_form bs \<and> rest b = bs @ rest b' \<and> b' = consume bs b \<and>
       sh = shift + 7 * length bs \<and> sh \<le> bound + 7 \<and> byte = last bs \<and>
       v = result OR push_bit shift (word_of_nat (leb_value bs))"
proof (induction bound result shift b rule: leb_loop.induct)
  case (1 bound result shift b)
  from "1.prems" obtain x b1 where bound: "shift \<le> bound" and x: "pull_u8 b = Inr (x, b1)"
    by (subst (asm) leb_loop.simps) (auto split: if_splits sum.splits)
  let ?r = "result OR push_bit shift (ucast (x AND 0x7F))"
  from x obtain xs where xs: "rest b = x # xs" "b1 = b\<lparr>past := x # past b, rest := xs\<rparr>"
    by (auto simp: pull_u8_run)
  show ?case
  proof (cases "x AND 0x80 \<noteq> 0")
    case True
    with "1.prems" bound x have "leb_loop bound ?r (shift + 7) b1 = Inr ((v, sh, byte), b')"
      by (subst (asm) leb_loop.simps) simp
    from "1.IH" [OF bound x refl refl True this] obtain bs where bs:
      "leb_form bs" "rest b1 = bs @ rest b'" "b' = consume bs b1"
      "sh = shift + 7 + 7 * length bs" "sh \<le> bound + 7" "byte = last bs"
      "v = ?r OR push_bit (shift + 7) (word_of_nat (leb_value bs))"
      by blast
    have "leb_form (x # bs)" using True bs(1) by (cases bs) (auto simp: high_bit)
    moreover have "b' = consume (x # bs) b" using bs(3) xs by (simp add: consume_def)
    moreover have "v = result OR push_bit shift (word_of_nat (leb_value (x # bs)))"
      using bs(7) by (simp only: leb_step_value leb_value.simps)
    moreover have "byte = last (x # bs)" using bs(1,6) by (cases bs) auto
    ultimately show ?thesis using bs xs by (intro exI [of _ "x # bs"]) simp
  next
    case False
    with "1.prems" bound x have eq: "v = ?r" "sh = shift + 7" "byte = x" "b' = b1"
      by (subst (asm) leb_loop.simps; simp add: Let_def)+
    have "leb_form [x]" using False by (simp add: high_bit)
    moreover have "v = result OR push_bit shift (word_of_nat (leb_value [x]))"
      using eq(1) by (simp add: low_bits)
    ultimately show ?thesis using eq xs bound by (intro exI [of _ "[x]"]) (simp add: consume_def)
  qed
qed

lemma leb_loop_complete:
  assumes "leb_form bs" and "rest b = bs @ xs" and "shift + 7 * length bs \<le> bound + 7"
  shows "leb_loop bound result shift b =
    Inr ((result OR push_bit shift (word_of_nat (leb_value bs)), shift + 7 * length bs, last bs),
      consume bs b)"
  using assms
proof (induction bs arbitrary: b result shift rule: leb_form.induct)
  case 1
  then show ?case by simp
next
  case (2 x)
  then have "pull_u8 b = Inr (x, b\<lparr>past := x # past b, rest := xs\<rparr>)" by (simp add: pull_u8_run)
  moreover have "\<not> x AND 0x80 \<noteq> 0" using "2.prems"(1) by (simp add: high_bit)
  moreover have "shift \<le> bound" using "2.prems"(3) by simp
  ultimately show ?case using "2.prems"(2)
    by (subst leb_loop.simps) (simp add: low_bits consume_def)
next
  case (3 x y ys)
  let ?b1 = "b\<lparr>past := x # past b, rest := (y # ys) @ xs\<rparr>"
  have x: "pull_u8 b = Inr (x, ?b1)" using "3.prems"(2) by (simp add: pull_u8_run)
  have hi: "x AND 0x80 \<noteq> 0" using "3.prems"(1) by (simp add: high_bit)
  have "shift \<le> bound" using "3.prems"(3) by simp
  then have "leb_loop bound result shift b =
      leb_loop bound (result OR push_bit shift (ucast (x AND 0x7F))) (shift + 7) ?b1"
    using x hi by (subst leb_loop.simps) simp
  also have "\<dots> = Inr (((result OR push_bit shift (ucast (x AND 0x7F)))
        OR push_bit (shift + 7) (word_of_nat (leb_value (y # ys))),
        shift + 7 + 7 * length (y # ys), last (y # ys)), consume (y # ys) ?b1)"
    using "3.prems" by (intro "3.IH") simp_all
  also have "consume (y # ys) ?b1 = consume (x # y # ys) b"
    using "3.prems"(2) by (simp add: consume_def)
  finally show ?case by (simp only: leb_step_value leb_value.simps) simp
qed

subsection \<open>What the readers return\<close>

lemma leb_value_bound: "leb_value bs < 128 ^ length bs"
proof (induction bs)
  case (Cons b bs)
  then have "leb_value bs + 1 \<le> 128 ^ length bs" by simp
  then have "128 * (leb_value bs + 1) \<le> 128 * 128 ^ length bs" by (rule mult_le_mono2)
  moreover have "unat b mod 128 < 128" by simp
  ultimately show ?case by simp
qed simp

lemma or_sign_extension:
  assumes "v < 2 ^ k"
  shows "word_of_nat v OR push_bit k (NOT 0) = (word_of_int (int v - 2 ^ k) :: 'w::len word)"
proof -
  have "take_bit k (word_of_nat v :: 'w word) = word_of_nat v"
    using assms by (simp add: take_bit_of_nat take_bit_nat_eq_self)
  moreover have "take_bit k (word_of_nat v :: 'w word) AND push_bit k (NOT 0) = 0"
    by (simp add: bit_eq_iff bit_simps)
  ultimately have "(word_of_nat v :: 'w word) AND push_bit k (NOT 0) = 0" by simp
  then have "(word_of_nat v :: 'w word) OR push_bit k (NOT 0) = word_of_nat v + push_bit k (NOT 0)"
    by (rule disjunctive_add_eq_or [symmetric])
  then show ?thesis by (simp add: push_bit_eq_mult)
qed

lemma sign_extended:
  assumes "leb_form bs"
  shows "(if 7 * length bs < LENGTH('w) \<and> last bs AND 0x40 \<noteq> 0
      then word_of_nat (leb_value bs) OR push_bit (7 * length bs) (NOT 0)
      else word_of_nat (leb_value bs)) = (word_of_int (sleb_value bs) :: 'w::len word)"
proof -
  have pow: "(128::int) ^ length bs = 2 ^ (7 * length bs)" by (simp add: power_mult)
  have bound: "leb_value bs < 2 ^ (7 * length bs)"
    using leb_value_bound [of bs] by (simp add: power_mult)
  have "(2 ^ (7 * length bs) :: 'w word) = 0" if "\<not> 7 * length bs < LENGTH('w)"
    using that by (simp add: exp_eq_zero_iff)
  then have "(word_of_int (2 ^ (7 * length bs)) :: 'w word) = 0" if "\<not> 7 * length bs < LENGTH('w)"
    using that by simp
  then show ?thesis
    using or_sign_extension [OF bound]
    by (auto simp: sleb_value_def sign_bit pow)
qed

lemma leb_loop_iff:
  "leb_loop bound 0 0 b = Inr ((v, sh, byte), b') \<longleftrightarrow>
     (\<exists>bs. leb_form bs \<and> 7 * length bs \<le> bound + 7 \<and> rest b = bs @ rest b' \<and> b' = consume bs b \<and>
       sh = 7 * length bs \<and> byte = last bs \<and> v = word_of_nat (leb_value bs))"
  using leb_loop_sound [of bound 0 0 b v sh byte b'] leb_loop_complete [of _ b "rest b'" 0 bound 0]
  by auto

text \<open>The readers never do anything undefined: they return a number or report a failed check.\<close>

lemma leb_loop_fault: "leb_loop bound result shift b = Inl e \<Longrightarrow> e = Check_failed"
proof (induction bound result shift b rule: leb_loop.induct)
  case (1 bound result shift b)
  then show ?case
    by (subst (asm) leb_loop.simps)
      (auto simp: pull_u8_fault Let_def split: if_splits sum.splits)
qed

subsection \<open>The reference encoders\<close>

function uleb :: "nat \<Rightarrow> u8 list" where
  "uleb n = (if n < 128 then [word_of_nat n] else word_of_nat (n mod 128 + 128) # uleb (n div 128))"
  by pat_completeness auto
termination by (relation "measure id") auto

function sleb :: "int \<Rightarrow> u8 list" where
  "sleb i = (if - 64 \<le> i \<and> i < 64 then [word_of_int (i mod 128)]
     else word_of_int (i mod 128 + 128) # sleb (i div 128))"
  by pat_completeness auto
termination
  by (relation "measure (\<lambda>i. nat \<bar>i\<bar>)") (auto simp: abs_if)

declare uleb.simps [simp del] sleb.simps [simp del]

lemma leb_form_Cons: "leb_form (b # bs) \<longleftrightarrow> (if bs = [] then unat b < 128 else 128 \<le> unat b \<and> leb_form bs)"
  by (cases bs) auto

lemma unat_digit: "n < 256 \<Longrightarrow> unat (word_of_nat n :: u8) = n"
  by (simp add: unat_of_nat)

lemma unat_high_digit: "n < 128 \<Longrightarrow> unat (word_of_nat n + 128 :: u8) = n + 128"
  using unat_digit [of "n + 128"] by simp

lemma uleb_nonempty [simp]: "uleb n \<noteq> []"
  by (subst uleb.simps) simp

lemma sleb_nonempty [simp]: "sleb i \<noteq> []"
  by (subst sleb.simps) simp

lemma uleb_form: "leb_form (uleb n)"
proof (induction n rule: uleb.induct)
  case (1 n)
  then show ?case
    by (cases "n < 128"; subst uleb.simps) (simp_all add: leb_form_Cons unat_digit unat_high_digit)
qed

lemma uleb_value: "leb_value (uleb n) = n"
proof (induction n rule: uleb.induct)
  case (1 n)
  then show ?case
    by (cases "n < 128"; subst uleb.simps) (simp_all add: unat_digit unat_high_digit)
qed

lemma uleb_length: "0 < k \<Longrightarrow> n < 128 ^ k \<Longrightarrow> length (uleb n) \<le> k"
proof (induction n arbitrary: k rule: uleb.induct)
  case (1 n)
  show ?case
  proof (cases "n < 128")
    case True
    with 1 show ?thesis by (subst uleb.simps) simp
  next
    case False
    then have "1 < k" using "1.prems" by (cases k) (auto simp: less_Suc_eq)
    then have "n div 128 < 128 ^ (k - 1)"
      using "1.prems" by (cases k) (auto simp: less_mult_imp_div_less mult.commute)
    then have "length (uleb (n div 128)) \<le> k - 1" using 1 False \<open>1 < k\<close> by simp
    then show ?thesis using False \<open>1 < k\<close> by (subst uleb.simps) simp
  qed
qed

lemma sleb_value_single: "sleb_value [b] = int (unat b mod 128) - (if 64 \<le> unat b mod 128 then 128 else 0)"
  by (simp add: sleb_value_def)

lemma sleb_value_Cons:
  "bs \<noteq> [] \<Longrightarrow> sleb_value (b # bs) = int (unat b mod 128) + 128 * sleb_value bs"
  by (simp add: sleb_value_def algebra_simps)

lemma unat_int_digit: "0 \<le> i \<Longrightarrow> i < 128 \<Longrightarrow> unat (word_of_int i :: u8) = nat i"
  using unat_digit [of "nat i"] by simp

lemma unat_high_int_digit: "0 \<le> i \<Longrightarrow> i < 128 \<Longrightarrow> unat (word_of_int i + 128 :: u8) = nat i + 128"
  using unat_high_digit [of "nat i"] by simp

lemma sleb_form: "leb_form (sleb i)"
proof (induction i rule: sleb.induct)
  case (1 i)
  then show ?case
    by (cases "- 64 \<le> i \<and> i < 64"; subst sleb.simps)
      (simp_all add: leb_form_Cons unat_int_digit unat_high_int_digit nat_less_iff)
qed

lemma sleb_value_sleb: "sleb_value (sleb i) = i"
proof (induction i rule: sleb.induct)
  case (1 i)
  show ?case
  proof (cases "- 64 \<le> i \<and> i < 64")
    case True
    have "i mod 128 = (if 0 \<le> i then i else i + 128)"
      using True by presburger
    then show ?thesis using True
      by (subst sleb.simps) (auto simp: sleb_value_single unat_int_digit)
  next
    case False
    then have "sleb_value (sleb i) = i mod 128 + 128 * sleb_value (sleb (i div 128))"
      by (subst sleb.simps) (auto simp: sleb_value_Cons unat_high_int_digit nat_mod_as_int)
    then show ?thesis using 1 [OF False] by simp
  qed
qed

lemma sleb_length:
  "- (64 * 128 ^ k) \<le> i \<Longrightarrow> i < 64 * 128 ^ k \<Longrightarrow> length (sleb i) \<le> Suc k"
proof (induction i arbitrary: k rule: sleb.induct)
  case (1 i)
  show ?case
  proof (cases "- 64 \<le> i \<and> i < 64")
    case True
    then show ?thesis by (subst sleb.simps) simp
  next
    case False
    then obtain j where k: "k = Suc j" using "1.prems" by (cases k) auto
    define p :: int where "p = 64 * 128 ^ j"
    have "- (128 * p) \<le> i" "i < 128 * p" using "1.prems" k by (simp_all add: p_def)
    moreover have "i = 128 * (i div 128) + i mod 128" "0 \<le> i mod 128" "i mod 128 < 128" by simp_all
    ultimately have "- p \<le> i div 128" "i div 128 < p" by linarith+
    then have "- (64 * 128 ^ j) \<le> i div 128" "i div 128 < 64 * 128 ^ j" by (simp_all add: p_def)
    then have "length (sleb (i div 128)) \<le> Suc j" by (rule "1.IH" [OF False])
    then show ?thesis using False k by (subst sleb.simps) simp
  qed
qed

subsection \<open>The four readers\<close>

lemma buffer_pull_u32_run [run]:
  "buffer_pull_u32 b = Inr (v, b') \<longleftrightarrow>
     (\<exists>bs. leb_form bs \<and> length bs \<le> 5 \<and> rest b = bs @ rest b' \<and> b' = consume bs b \<and>
       v = word_of_nat (leb_value bs))"
  by (auto simp: buffer_pull_u32_def bind_run leb_loop_iff)

lemma buffer_pull_u64_run [run]:
  "buffer_pull_u64 b = Inr (v, b') \<longleftrightarrow>
     (\<exists>bs. leb_form bs \<and> length bs \<le> 10 \<and> rest b = bs @ rest b' \<and> b' = consume bs b \<and>
       v = word_of_nat (leb_value bs))"
  by (auto simp: buffer_pull_u64_def bind_run leb_loop_iff)

lemma buffer_pull_i32_run [run]:
  "buffer_pull_i32 b = Inr (v, b') \<longleftrightarrow>
     (\<exists>bs. leb_form bs \<and> length bs \<le> 5 \<and> rest b = bs @ rest b' \<and> b' = consume bs b \<and>
       v = word_of_int (sleb_value bs))"
proof -
  have "buffer_pull_i32 b = Inr (v, b') \<longleftrightarrow>
     (\<exists>bs. leb_form bs \<and> length bs \<le> 5 \<and> rest b = bs @ rest b' \<and> b' = consume bs b \<and>
       v = (if 7 * length bs < LENGTH(32) \<and> last bs AND 0x40 \<noteq> 0
         then word_of_nat (leb_value bs) OR push_bit (7 * length bs) (NOT 0)
         else word_of_nat (leb_value bs)))"
    by (auto simp: buffer_pull_i32_def bind_run leb_loop_iff split del: if_split)
  then show ?thesis by (simp only: sign_extended cong: conj_cong)
qed

lemma buffer_pull_i64_run [run]:
  "buffer_pull_i64 b = Inr (v, b') \<longleftrightarrow>
     (\<exists>bs. leb_form bs \<and> length bs \<le> 10 \<and> rest b = bs @ rest b' \<and> b' = consume bs b \<and>
       v = word_of_int (sleb_value bs))"
proof -
  have "buffer_pull_i64 b = Inr (v, b') \<longleftrightarrow>
     (\<exists>bs. leb_form bs \<and> length bs \<le> 10 \<and> rest b = bs @ rest b' \<and> b' = consume bs b \<and>
       v = (if 7 * length bs < LENGTH(64) \<and> last bs AND 0x40 \<noteq> 0
         then word_of_nat (leb_value bs) OR push_bit (7 * length bs) (NOT 0)
         else word_of_nat (leb_value bs)))"
    by (auto simp: buffer_pull_i64_def bind_run leb_loop_iff split del: if_split)
  then show ?thesis by (simp only: sign_extended cong: conj_cong)
qed

lemma leb_reader_fault:
  "buffer_pull_u32 b = Inl e \<Longrightarrow> e = Check_failed" "buffer_pull_u64 b = Inl e \<Longrightarrow> e = Check_failed"
  "buffer_pull_i32 b = Inl e \<Longrightarrow> e = Check_failed" "buffer_pull_i64 b = Inl e \<Longrightarrow> e = Check_failed"
  by (auto simp: buffer_pull_u32_def buffer_pull_u64_def buffer_pull_i32_def buffer_pull_i64_def
      bind_def ret_def split: sum.splits prod.splits dest: leb_loop_fault)

section \<open>Names and value types\<close>

definition buffer_pull_name :: "u8 list parser" where
  "buffer_pull_name =
     bind buffer_pull_u32 (\<lambda>len.
     bind (pull_bytes (unat len)) (\<lambda>data.
     bind (check (is_valid_utf8 data)) (\<lambda>_.
     ret data)))"

definition buffer_pull_val_type :: "wasm_value_type parser" where
  "buffer_pull_val_type =
     bind pull_u8 (\<lambda>byte.
     if byte = 0x7C then ret WASM_VALUE_TYPE_F64
     else if byte = 0x7D then ret WASM_VALUE_TYPE_F32
     else if byte = 0x7E then ret WASM_VALUE_TYPE_I64
     else if byte = 0x7F then ret WASM_VALUE_TYPE_I32
     else fail Check_failed)"

section \<open>The contract of a reader\<close>

text \<open>
  A reader consumes a prefix of the buffer, whatever the bytes are, or reports a failed check; it
  does nothing undefined and never moves backwards.
\<close>

definition step_over :: "u8 list \<Rightarrow> buffer \<Rightarrow> buffer \<Rightarrow> bool" where
  "step_over bs b b' \<longleftrightarrow> rest b = bs @ rest b' \<and> past b' = rev bs @ past b"

definition reader :: "'a parser \<Rightarrow> bool" where
  "reader p \<longleftrightarrow> (\<forall>b. case p b of
     Inl e \<Rightarrow> e = Check_failed
   | Inr (a, b') \<Rightarrow> \<exists>bs. step_over bs b b')"

lemma step_over_iff: "step_over bs b b' \<longleftrightarrow> rest b = bs @ rest b' \<and> b' = consume bs b"
  by (cases b; cases b') (auto simp: step_over_def consume_def)

lemma step_over_Nil [simp]: "step_over [] b b"
  by (simp add: step_over_def)

lemma step_over_trans: "step_over xs b b' \<Longrightarrow> step_over ys b' b'' \<Longrightarrow> step_over (xs @ ys) b b''"
  by (simp add: step_over_def)

named_theorems readers \<open>computations that satisfy the contract of a reader\<close>

lemma readerI:
  assumes "\<And>b e. p b = Inl e \<Longrightarrow> e = Check_failed"
    and "\<And>b a b'. p b = Inr (a, b') \<Longrightarrow> \<exists>bs. step_over bs b b'"
  shows "reader p"
  unfolding reader_def
proof
  fix b
  show "case p b of Inl e \<Rightarrow> e = Check_failed | Inr (a, b') \<Rightarrow> \<exists>bs. step_over bs b b'"
  proof (cases "p b")
    case (Inl e)
    then show ?thesis using assms(1) by simp
  next
    case (Inr r)
    then show ?thesis using assms(2) [of b "fst r" "snd r"] by (cases r) simp
  qed
qed

lemma reader_fault: "reader p \<Longrightarrow> p b = Inl e \<Longrightarrow> e = Check_failed"
  unfolding reader_def by (drule spec [of _ b]) simp

lemma reader_consumes:
  assumes "reader p" and "p b = Inr (a, b')"
  obtains bs where "step_over bs b b'"
proof -
  have "case p b of Inl e \<Rightarrow> e = Check_failed | Inr (a, b') \<Rightarrow> \<exists>bs. step_over bs b b'"
    using assms(1) unfolding reader_def by blast
  then show thesis using assms(2) that by auto
qed

lemma reader_ret [readers]: "reader (ret a)"
  by (rule readerI) (auto simp: ret_def intro: exI [of _ "[]"])

lemma reader_check [readers]: "reader (check c)"
  by (rule readerI) (auto simp: check_def ret_def fail_def split: if_splits intro: exI [of _ "[]"])

lemma reader_fail [readers]: "reader (fail Check_failed)"
  by (rule readerI) (auto simp: fail_def)

lemma reader_bind [readers]:
  assumes "reader p" and "\<And>a. reader (f a)"
  shows "reader (bind p f)"
proof (rule readerI)
  fix b e assume "bind p f b = Inl e"
  then consider "p b = Inl e" | a b' where "f a b' = Inl e"
    by (auto simp: bind_def split: sum.splits)
  then show "e = Check_failed"
    by cases (rule reader_fault [OF assms(1)], assumption, rule reader_fault [OF assms(2)])
next
  fix b c b''
  assume "bind p f b = Inr (c, b'')"
  then obtain a b' where p: "p b = Inr (a, b')" and f: "f a b' = Inr (c, b'')" by (rule bind_runE)
  obtain xs where "step_over xs b b'" using assms(1) p by (rule reader_consumes)
  moreover obtain ys where "step_over ys b' b''" using assms(2) f by (rule reader_consumes)
  ultimately show "\<exists>bs. step_over bs b b''" by (blast intro: step_over_trans)
qed

lemma reader_pull_bytes [readers]: "reader (pull_bytes n)"
proof (rule readerI)
  fix b bs b' assume "pull_bytes n b = Inr (bs, b')"
  then have "step_over (take n (rest b)) b b'" by (simp add: pull_bytes_run step_over_def)
  then show "\<exists>bs. step_over bs b b'" ..
qed (simp add: pull_bytes_fault)

lemma reader_pull_u8 [readers]: "reader pull_u8"
  unfolding pull_u8_def by (intro readers)

lemma reader_pull_f32 [readers]: "reader pull_f32"
  unfolding pull_f32_def by (intro readers)

lemma reader_pull_f64 [readers]: "reader pull_f64"
  unfolding pull_f64_def by (intro readers)

lemma reader_leb [readers]:
  "reader buffer_pull_u32" "reader buffer_pull_u64" "reader buffer_pull_i32" "reader buffer_pull_i64"
  by (rule readerI, erule leb_reader_fault, unfold buffer_pull_u32_run buffer_pull_u64_run
      buffer_pull_i32_run buffer_pull_i64_run, unfold step_over_iff, blast)+

lemma reader_name [readers]: "reader buffer_pull_name"
  unfolding buffer_pull_name_def by (intro readers)

lemma reader_val_type [readers]: "reader buffer_pull_val_type"
  unfolding buffer_pull_val_type_def by (simp add: readers)

lemma reader_if [readers]: "reader p \<Longrightarrow> reader q \<Longrightarrow> reader (if c then p else q)"
  by simp

lemma reader_repeat [readers]: "reader p \<Longrightarrow> reader (repeat_sm n p)"
  by (induction n) (simp_all add: readers)

lemma reader_map_each [readers]: "(\<And>x. reader (f x)) \<Longrightarrow> reader (map_each xs f)"
  by (induction xs) (simp_all add: readers)

lemma buffer_pull_name_post:
  assumes "buffer_pull_name b = Inr (name, b')"
  obtains bs where "leb_form bs" and "step_over (bs @ name) b b'" and "is_utf8 name"
    and "word_of_nat (length name) = (word_of_nat (leb_value bs) :: u32)"
proof -
  from assms obtain v b1 where v: "buffer_pull_u32 b = Inr (v, b1)"
    and n: "pull_bytes (unat v) b1 = Inr (name, b')" and ok: "is_valid_utf8 name"
    by (auto simp: buffer_pull_name_def bind_run)
  from v obtain bs where bs: "leb_form bs" "step_over bs b b1" "v = word_of_nat (leb_value bs)"
    unfolding buffer_pull_u32_run step_over_iff by blast
  have "step_over name b1 b'" and len: "length name = unat v"
    using n by (auto simp: pull_bytes_run step_over_def)
  with bs(2) have "step_over (bs @ name) b b'" by (blast intro: step_over_trans)
  moreover have "word_of_nat (length name) = (word_of_nat (leb_value bs) :: u32)"
    using len bs(3) by simp
  ultimately show thesis using bs ok by (intro that) (simp_all add: is_valid_utf8_iff)
qed

section \<open>Properties\<close>

text \<open>
  C26: The unsigned LEB128 readers accept exactly the LEB128 strings of at most five (32 bits) or
  ten (64 bits) bytes, consume exactly that string, and return the number it denotes, reduced to
  the width of the result.
\<close>

theorem leb128_unsigned_exact:
  "(buffer_pull_u32 b = Inr (v, b') \<longleftrightarrow>
      (\<exists>bs. leb_form bs \<and> length bs \<le> 5 \<and> rest b = bs @ rest b' \<and> b' = consume bs b \<and>
        v = word_of_nat (leb_value bs)))
   \<and> (buffer_pull_u64 b = Inr (w, b') \<longleftrightarrow>
      (\<exists>bs. leb_form bs \<and> length bs \<le> 10 \<and> rest b = bs @ rest b' \<and> b' = consume bs b \<and>
        w = word_of_nat (leb_value bs)))"
  using buffer_pull_u32_run buffer_pull_u64_run by blast

text \<open>
  C27: The signed LEB128 readers accept the same strings as the unsigned ones and return the two's
  complement number the string denotes: the conditional sign extension in the code equals
  subtracting \<open>128 ^ n\<close> from the unsigned value of an \<open>n\<close>-byte string whose sign bit is set.
\<close>

theorem leb128_signed_exact:
  "(buffer_pull_i32 b = Inr (v, b') \<longleftrightarrow>
      (\<exists>bs. leb_form bs \<and> length bs \<le> 5 \<and> rest b = bs @ rest b' \<and> b' = consume bs b \<and>
        v = word_of_int (sleb_value bs)))
   \<and> (buffer_pull_i64 b = Inr (w, b') \<longleftrightarrow>
      (\<exists>bs. leb_form bs \<and> length bs \<le> 10 \<and> rest b = bs @ rest b' \<and> b' = consume bs b \<and>
        w = word_of_int (sleb_value bs)))"
  using buffer_pull_i32_run buffer_pull_i64_run by blast

text \<open>
  Round trip: every 32-bit value, encoded in LEB128 by the reference encoder (unsigned, or
  signed in two's complement) and followed by arbitrary bytes, is read back as itself.
\<close>

theorem leb128_roundtrip:
  assumes "rest b = uleb (unat v) @ xs" and "rest c = sleb (sint w) @ xs"
  shows "buffer_pull_u32 b = Inr (v, consume (uleb (unat v)) b)
    \<and> buffer_pull_i32 c = Inr (w, consume (sleb (sint w)) c)"
proof
  have "unat v < 128 ^ 5" using unat_u32_bound [of v] by simp
  then have "length (uleb (unat v)) \<le> 5" by (intro uleb_length) simp_all
  then show "buffer_pull_u32 b = Inr (v, consume (uleb (unat v)) b)"
    using assms(1) by (auto simp: buffer_pull_u32_run uleb_form uleb_value intro!: exI [of _ "uleb (unat v)"])
  have "- (64 * 128 ^ 4) \<le> sint w" "sint w < 64 * 128 ^ 4"
    using sint_greater_eq [of w] sint_less [of w] by simp_all
  then have "length (sleb (sint w)) \<le> Suc 4" by (rule sleb_length)
  then show "buffer_pull_i32 c = Inr (w, consume (sleb (sint w)) c)"
    using assms(2) by (auto simp: buffer_pull_i32_run sleb_form sleb_value_sleb
        intro!: exI [of _ "sleb (sint w)"])
qed

theorem leb128_roundtrip_witness:
  "buffer_pull_u32 (init_buffer (uleb (unat (624485 :: u32)) @ [7])) =
     Inr (624485, consume (uleb (unat (624485 :: u32))) (init_buffer (uleb (unat (624485 :: u32)) @ [7])))"
  using leb128_roundtrip [of "init_buffer (uleb (unat (624485 :: u32)) @ [7])" 624485 "[7]"
      "init_buffer (sleb (sint (-5 :: u32)) @ [7])" "-5"]
  by (simp add: init_buffer_def)

end
