(* ===== verification/Vec.thy ===== *)
theory Vec
  imports Host
begin

text \<open>
  The growable array of src/util/vec.h and src/util/vec.c.

  A vector is a length, a capacity and a block of \<open>capacity\<close> elements, some of which may not have
  been written yet (\<open>None\<close>). Length and capacity are \<open>uint32_t\<close> and their sums wrap around, as in
  the code. The operations are refined to operations on lists as long as the new length fits
  in 32 bits; where it does not, \<open>vec_add\<close> hands out space it has not allocated.
\<close>

section \<open>The operations\<close>

record 'a vec =
  vec_length :: u32
  vec_capacity :: u32
  vec_elements :: "'a option list"

definition vec_empty :: "'a vec" where
  "vec_empty = \<lparr>vec_length = 0, vec_capacity = 0, vec_elements = []\<rparr>"

text \<open>The capacity the vector grows to, or no growth.\<close>

definition vec_new_capacity :: "u32 \<Rightarrow> u32 \<Rightarrow> u32 \<Rightarrow> u32 \<Rightarrow> u32 option" where
  "vec_new_capacity len cap addlen min_cap =
     (let min_len = len + addlen;
          need = (if min_len > min_cap then min_len else min_cap)
      in if need \<le> cap then None
         else if need < 2 * cap then Some (2 * cap)
         else if need < 4 then Some 4
         else Some need)"

definition vec_grow_sized :: "host \<Rightarrow> nat \<Rightarrow> u32 \<Rightarrow> u32 \<Rightarrow> ('a vec, unit) sm" where
  "vec_grow_sized h elemsize addlen min_cap =
     bind (gets (\<lambda>v. vec_new_capacity (vec_length v) (vec_capacity v) addlen min_cap)) (\<lambda>grow.
     case grow of
       None \<Rightarrow> ret ()
     | Some cap \<Rightarrow>
         bind (check (elemsize * unat cap < 2 ^ 64)) (\<lambda>_.
         bind (check (realloc_ok h (elemsize * unat cap))) (\<lambda>_.
         modify (\<lambda>v. v\<lparr>vec_capacity := cap,
           vec_elements := take (unat cap)
             (vec_elements v @ replicate (unat cap - length (vec_elements v)) None)\<rparr>))))"

text \<open>For evaluation, the size of the block is compared as an integer.\<close>

lemma vec_grow_sized_code [code]:
  "vec_grow_sized h elemsize addlen min_cap =
     bind (gets (\<lambda>v. vec_new_capacity (vec_length v) (vec_capacity v) addlen min_cap)) (\<lambda>grow.
     case grow of
       None \<Rightarrow> ret ()
     | Some cap \<Rightarrow>
         bind (check (int elemsize * uint cap < 18446744073709551616)) (\<lambda>_.
         bind (check (realloc_ok h (elemsize * unat cap))) (\<lambda>_.
         modify (\<lambda>v. v\<lparr>vec_capacity := cap,
           vec_elements := take (unat cap)
             (vec_elements v @ replicate (unat cap - length (vec_elements v)) None)\<rparr>))))"
proof -
  have "elemsize * unat cap < 2 ^ 64 \<longleftrightarrow> int elemsize * uint cap < 18446744073709551616" for cap :: u32
  proof -
    have "int (elemsize * unat cap) = int elemsize * uint cap" by simp
    moreover have "int (2 ^ 64 :: nat) = 18446744073709551616" by simp
    ultimately show ?thesis by (metis of_nat_less_iff)
  qed
  then show ?thesis by (simp only: vec_grow_sized_def)
qed

definition vec_maybe_grow :: "host \<Rightarrow> nat \<Rightarrow> u32 \<Rightarrow> ('a vec, unit) sm" where
  "vec_maybe_grow h elemsize n =
     bind (gets (\<lambda>v. vec_length v + n > vec_capacity v)) (\<lambda>more.
     if more then vec_grow_sized h elemsize n 0 else ret ())"

text \<open>A store through a pointer into the block: undefined outside the block.\<close>

definition vec_store :: "nat \<Rightarrow> 'a \<Rightarrow> ('a vec, unit) sm" where
  "vec_store i x =
     bind (gets (\<lambda>v. i < length (vec_elements v))) (\<lambda>inside.
     bind (defined inside) (\<lambda>_.
     modify (\<lambda>v. v\<lparr>vec_elements := (vec_elements v)[i := Some x]\<rparr>)))"

text \<open>A load: undefined outside the block and of an element that was never written.\<close>

definition vec_load :: "nat \<Rightarrow> ('a vec, 'a) sm" where
  "vec_load i =
     bind (gets vec_elements) (\<lambda>xs.
     bind (index xs i) (\<lambda>x.
     case x of None \<Rightarrow> fail Undefined | Some a \<Rightarrow> ret a))"

definition vec_push :: "host \<Rightarrow> nat \<Rightarrow> 'a \<Rightarrow> ('a vec, unit) sm" where
  "vec_push h elemsize x =
     bind (vec_maybe_grow h elemsize 1) (\<lambda>_.
     bind (gets vec_length) (\<lambda>len.
     bind (vec_store (unat len) x) (\<lambda>_.
     modify (\<lambda>v. v\<lparr>vec_length := len + 1\<rparr>))))"

definition vec_pop :: "('a vec, 'a) sm" where
  "vec_pop =
     bind (gets vec_length) (\<lambda>len.
     bind (check (len > 0)) (\<lambda>_.
     bind (modify (\<lambda>v. v\<lparr>vec_length := len - 1\<rparr>)) (\<lambda>_.
     vec_load (unat (len - 1)))))"

text \<open>\<open>vec_add\<close> returns a pointer to \<open>n\<close> new elements, here the index of the first.\<close>

definition vec_add :: "host \<Rightarrow> nat \<Rightarrow> u32 \<Rightarrow> ('a vec, nat) sm" where
  "vec_add h elemsize n =
     bind (vec_maybe_grow h elemsize n) (\<lambda>_.
     bind (gets vec_length) (\<lambda>len.
     bind (modify (\<lambda>v. v\<lparr>vec_length := len + n\<rparr>)) (\<lambda>_.
     ret (unat len))))"

definition vec_last :: "('a vec, 'a) sm" where
  "vec_last =
     bind (gets vec_length) (\<lambda>len.
     bind (check (len > 0)) (\<lambda>_.
     vec_load (unat (len - 1))))"

definition vec_free :: "('a vec, unit) sm" where
  "vec_free = modify (\<lambda>_. vec_empty)"

text \<open>A loop that stores \<open>x\<close> through the pointer \<open>vec_add\<close> returned, at \<open>i, i + 1, ...\<close>.\<close>

fun vec_fill :: "nat \<Rightarrow> nat \<Rightarrow> 'a \<Rightarrow> ('a vec, unit) sm" where
  "vec_fill i 0 x = ret ()"
| "vec_fill i (Suc n) x = bind (vec_store i x) (\<lambda>_. vec_fill (Suc i) n x)"

section \<open>The invariant and the list a vector holds\<close>

definition vec_inv :: "'a vec \<Rightarrow> bool" where
  "vec_inv v \<longleftrightarrow> unat (vec_length v) \<le> unat (vec_capacity v) \<and>
     length (vec_elements v) = unat (vec_capacity v) \<and>
     list_all (\<lambda>x. x \<noteq> None) (take (unat (vec_length v)) (vec_elements v))"

definition vec_list :: "'a vec \<Rightarrow> 'a list" where
  "vec_list v = map the (take (unat (vec_length v)) (vec_elements v))"

lemma vec_inv_empty [simp]: "vec_inv vec_empty" "vec_list vec_empty = []"
  by (simp_all add: vec_inv_def vec_list_def vec_empty_def)

lemma length_vec_list: "vec_inv v \<Longrightarrow> length (vec_list v) = unat (vec_length v)"
  by (simp add: vec_inv_def vec_list_def)

lemma unat_add_fits: "unat (a :: u32) + unat b < 2 ^ 32 \<Longrightarrow> unat (a + b) = unat a + unat b"
  by (rule unat_add_lem [THEN iffD1]) simp

text \<open>Growing is enough: the new capacity holds the elements asked for, and never shrinks.\<close>

lemma vec_new_capacity_enough:
  assumes "vec_new_capacity len cap n m = Some c" and "unat len + unat n < 2 ^ 32"
  shows "unat len + unat n \<le> unat c" and "unat cap < unat c"
proof -
  define need where "need = (if len + n > m then len + n else m)"
  have need: "unat len + unat n \<le> unat need" "\<not> need \<le> cap"
    using assms by (auto simp: vec_new_capacity_def need_def Let_def word_less_nat_alt word_le_nat_alt
        unat_add_fits split: if_splits)
  have "need \<le> c" using assms(1)
    by (auto simp: vec_new_capacity_def Let_def need_def [symmetric] split: if_splits)
  then show "unat len + unat n \<le> unat c" "unat cap < unat c"
    using need by (simp_all add: word_le_nat_alt)
qed

lemma vec_new_capacity_None:
  assumes "vec_new_capacity len cap n m = None" and "unat len + unat n < 2 ^ 32"
  shows "unat len + unat n \<le> unat cap"
  using assms by (auto simp: vec_new_capacity_def Let_def word_less_nat_alt word_le_nat_alt
      unat_add_fits split: if_splits)

definition extends :: "'a vec \<Rightarrow> 'a vec \<Rightarrow> bool" where
  "extends v v' \<longleftrightarrow> vec_length v' = vec_length v \<and>
     (\<exists>xs. vec_elements v' = vec_elements v @ xs) \<and> length (vec_elements v') = unat (vec_capacity v')"

lemma vec_maybe_grow_post:
  assumes "vec_maybe_grow h e n v = Inr (u, v')" and "vec_inv v"
    and "unat (vec_length v) + unat n < 2 ^ 32"
  shows "extends v v'" and "unat (vec_length v) + unat n \<le> unat (vec_capacity v')"
proof -
  have len: "length (vec_elements v) = unat (vec_capacity v)" using assms(2) by (simp add: vec_inv_def)
  have *: "extends v v' \<and> unat (vec_length v) + unat n \<le> unat (vec_capacity v')"
  proof (cases "vec_length v + n > vec_capacity v")
    case True
    then have grow: "vec_grow_sized h e n 0 v = Inr (u, v')"
      using assms(1) by (auto simp: vec_maybe_grow_def run)
    show ?thesis
    proof (cases "vec_new_capacity (vec_length v) (vec_capacity v) n 0")
      case None
      with grow have "v' = v" by (auto simp: vec_grow_sized_def run)
      then show ?thesis using vec_new_capacity_None [OF None assms(3)] len by (auto simp: extends_def)
    next
      case (Some c)
      note enough = vec_new_capacity_enough [OF Some assms(3)]
      with grow Some len have "vec_length v' = vec_length v" "vec_capacity v' = c"
        "vec_elements v' = vec_elements v @ replicate (unat c - unat (vec_capacity v)) None"
        by (auto simp: vec_grow_sized_def run)
      then show ?thesis using enough len by (auto simp: extends_def)
    qed
  next
    case False
    then have "v' = v" using assms(1) by (auto simp: vec_maybe_grow_def run)
    then show ?thesis using False len assms(3)
      by (auto simp: extends_def word_less_nat_alt unat_add_fits)
  qed
  then show "extends v v'" "unat (vec_length v) + unat n \<le> unat (vec_capacity v')" by simp_all
qed

lemma vec_grow_fault: "vec_maybe_grow h e n v = Inl f \<Longrightarrow> f = Check_failed"
  by (auto simp: vec_maybe_grow_def vec_grow_sized_def bind_def gets_def check_def fail_def ret_def
      modify_def split: if_splits option.splits sum.splits)

lemma vec_store_in: "i < length (vec_elements v) \<Longrightarrow>
    vec_store i x v = Inr ((), v\<lparr>vec_elements := (vec_elements v)[i := Some x]\<rparr>)"
  by (simp add: vec_store_def bind_def gets_def modify_def ret_def)

lemma vec_store_out: "length (vec_elements v) \<le> i \<Longrightarrow> vec_store i x v = Inl Undefined"
  by (simp add: vec_store_def bind_def gets_def defined_def fail_def)

section \<open>Refinement to lists\<close>

lemma extends_list:
  assumes "extends v v'" and "vec_inv v" and "unat (vec_length v) \<le> unat (vec_capacity v')"
  shows "vec_inv v'" and "vec_list v' = vec_list v"
  using assms by (auto simp: extends_def vec_inv_def vec_list_def)

lemma take_update: "i < length xs \<Longrightarrow> take (Suc i) (xs[i := x]) = take i xs @ [x]"
  by (simp add: take_Suc_conv_app_nth)

text \<open>Storing the element after the last and counting it appends it.\<close>

lemma store_next:
  assumes "vec_inv v" and "unat (vec_length v) < unat (vec_capacity v)"
  shows "vec_store (unat (vec_length v)) x v =
      Inr ((), v\<lparr>vec_elements := (vec_elements v)[unat (vec_length v) := Some x]\<rparr>)"
    and "vec_inv (v\<lparr>vec_elements := (vec_elements v)[unat (vec_length v) := Some x],
      vec_length := vec_length v + 1\<rparr>)"
    and "vec_list (v\<lparr>vec_elements := (vec_elements v)[unat (vec_length v) := Some x],
      vec_length := vec_length v + 1\<rparr>) = vec_list v @ [x]"
proof -
  have len: "length (vec_elements v) = unat (vec_capacity v)" using assms(1) by (simp add: vec_inv_def)
  have next_len: "unat (vec_length v + 1) = Suc (unat (vec_length v))"
    using unat_add_fits [of "vec_length v" 1] assms(2) unat_u32_bound [of "vec_capacity v"] by simp
  show "vec_store (unat (vec_length v)) x v =
      Inr ((), v\<lparr>vec_elements := (vec_elements v)[unat (vec_length v) := Some x]\<rparr>)"
    using assms(2) len by (simp add: vec_store_in)
  show "vec_inv (v\<lparr>vec_elements := (vec_elements v)[unat (vec_length v) := Some x],
      vec_length := vec_length v + 1\<rparr>)"
    using assms len by (simp add: vec_inv_def next_len take_update)
  show "vec_list (v\<lparr>vec_elements := (vec_elements v)[unat (vec_length v) := Some x],
      vec_length := vec_length v + 1\<rparr>) = vec_list v @ [x]"
    using assms len by (simp add: vec_list_def next_len take_update)
qed

lemma vec_push_step:
  assumes "vec_inv v" and "unat (vec_length v) + 1 < 2 ^ 32"
  shows "case vec_push h e x v of
      Inl f \<Rightarrow> f = Check_failed
    | Inr (_, v') \<Rightarrow> vec_inv v' \<and> vec_list v' = vec_list v @ [x]"
proof (cases "vec_maybe_grow h e 1 v")
  case (Inl f)
  then show ?thesis using vec_grow_fault [OF Inl] by (simp add: vec_push_def bind_def)
next
  case (Inr r)
  then obtain v1 where grown: "vec_maybe_grow h e 1 v = Inr ((), v1)" by (cases r) auto
  have room: "extends v v1" "unat (vec_length v) + 1 \<le> unat (vec_capacity v1)"
    using vec_maybe_grow_post [OF grown assms(1)] assms(2) by simp_all
  then have v1: "vec_inv v1" "vec_list v1 = vec_list v" "vec_length v1 = vec_length v"
    using extends_list [OF room(1) assms(1)] by (auto simp: extends_def)
  have "unat (vec_length v1) < unat (vec_capacity v1)" using room v1 by simp
  note next_elem = store_next [OF v1(1) this, of x]
  have "vec_push h e x v = Inr ((), v1\<lparr>vec_elements := (vec_elements v1)[unat (vec_length v1) := Some x],
      vec_length := vec_length v1 + 1\<rparr>)"
    using grown next_elem(1) by (simp add: vec_push_def bind_def gets_def modify_def)
  then show ?thesis using next_elem v1 by simp
qed

lemma vec_load_last:
  assumes "vec_inv v" and "vec_length v \<noteq> 0"
  shows "unat (vec_length v - 1) < length (vec_elements v)"
    and "vec_elements v ! unat (vec_length v - 1) = Some (last (vec_list v))"
proof -
  let ?n = "unat (vec_length v)"
  have pos: "?n \<noteq> 0" using assms(2) by (simp add: unat_eq_0)
  have pred: "unat (vec_length v - 1) = ?n - 1" using assms(2) by (simp add: unat_minus_one)
  have len: "?n \<le> length (vec_elements v)" using assms(1) by (simp add: vec_inv_def)
  then show lt: "unat (vec_length v - 1) < length (vec_elements v)" using pos pred by simp
  have "take ?n (vec_elements v) ! (?n - 1) \<in> set (take ?n (vec_elements v))"
    using pos len by (intro nth_mem) simp
  then have "vec_elements v ! (?n - 1) \<noteq> None"
    using assms(1) pos len by (auto simp: vec_inv_def list_all_iff)
  moreover have "last (vec_list v) = the (vec_elements v ! (?n - 1))"
    using pos len by (subst vec_list_def, subst last_conv_nth) auto
  ultimately show "vec_elements v ! unat (vec_length v - 1) = Some (last (vec_list v))"
    by (simp add: pred)
qed

lemma vec_list_empty_iff: "vec_inv v \<Longrightarrow> vec_list v = [] \<longleftrightarrow> vec_length v = 0"
  using length_vec_list [of v] by (auto simp: unat_eq_0)

lemma vec_pop_step:
  assumes "vec_inv v"
  shows "if vec_list v = [] then vec_pop v = Inl Check_failed
    else \<exists>v'. vec_pop v = Inr (last (vec_list v), v') \<and> vec_inv v' \<and> vec_list v' = butlast (vec_list v)"
proof (cases "vec_length v = 0")
  case True
  then show ?thesis using vec_list_empty_iff [OF assms]
    by (simp add: vec_pop_def bind_def gets_def check_def fail_def)
next
  case False
  let ?v = "v\<lparr>vec_length := vec_length v - 1\<rparr>"
  have pred: "unat (vec_length v - 1) = unat (vec_length v) - 1" using False by (simp add: unat_minus_one)
  have "set (take (unat (vec_length v) - 1) (vec_elements v)) \<subseteq> set (take (unat (vec_length v)) (vec_elements v))"
    by (rule set_take_subset_set_take) simp
  then have "vec_inv ?v" using assms
    by (auto simp: vec_inv_def pred list_all_iff simp del: not_None_eq)
  moreover have "vec_list ?v = butlast (vec_list v)"
    using assms by (simp add: vec_list_def vec_inv_def pred butlast_take map_butlast [symmetric])
  moreover have "vec_pop v = Inr (last (vec_list v), ?v)"
    using False vec_load_last [OF assms False]
    by (simp add: vec_pop_def vec_load_def bind_def gets_def modify_def index_def ret_def
        check_def word_neq_0_conv)
  ultimately show ?thesis using False vec_list_empty_iff [OF assms] by simp
qed

section \<open>Reserving several elements\<close>

lemma vec_fill_in:
  "i + n \<le> length (vec_elements v) \<Longrightarrow>
     vec_fill i n x v = Inr ((), v\<lparr>vec_elements :=
       take i (vec_elements v) @ replicate n (Some x) @ drop (i + n) (vec_elements v)\<rparr>)"
proof (induction n arbitrary: i v)
  case 0
  then show ?case by (simp add: ret_def)
next
  case (Suc n)
  let ?es = "vec_elements v"
  have "vec_fill i (Suc n) x v = vec_fill (Suc i) n x (v\<lparr>vec_elements := ?es[i := Some x]\<rparr>)"
    using Suc.prems by (simp add: bind_def vec_store_in)
  also have "\<dots> = Inr ((), v\<lparr>vec_elements :=
      take (Suc i) (?es[i := Some x]) @ replicate n (Some x) @ drop (Suc i + n) (?es[i := Some x])\<rparr>)"
    using Suc.prems by (subst Suc.IH) simp_all
  also have "take (Suc i) (?es[i := Some x]) = take i ?es @ [Some x]"
    using Suc.prems by (intro take_update) simp
  finally show ?case by (simp add: replicate_app_Cons_same)
qed

lemma vec_fill_out:
  "0 < n \<Longrightarrow> length (vec_elements v) < i + n \<Longrightarrow> vec_fill i n x v = Inl Undefined"
proof (induction n arbitrary: i v)
  case (Suc n)
  show ?case
  proof (cases "i < length (vec_elements v)")
    case True
    then have "n \<noteq> 0" using Suc.prems by (cases n) auto
    then show ?thesis using True Suc.prems by (simp add: bind_def vec_store_in Suc.IH)
  next
    case False
    then show ?thesis by (simp add: bind_def vec_store_out)
  qed
qed simp

definition vec_append :: "host \<Rightarrow> nat \<Rightarrow> u32 \<Rightarrow> 'a \<Rightarrow> ('a vec, unit) sm" where
  "vec_append h elemsize n x = bind (vec_add h elemsize n) (\<lambda>p. vec_fill p (unat n) x)"

lemma vec_append_step:
  assumes "vec_inv v" and "unat (vec_length v) + unat n < 2 ^ 32"
  shows "case vec_append h e n x v of
      Inl f \<Rightarrow> f = Check_failed
    | Inr (_, v') \<Rightarrow> vec_inv v' \<and> vec_list v' = vec_list v @ replicate (unat n) x"
proof (cases "vec_maybe_grow h e n v")
  case (Inl f)
  then show ?thesis using vec_grow_fault [OF Inl] by (simp add: vec_append_def vec_add_def bind_def)
next
  case (Inr r)
  then obtain v1 where grown: "vec_maybe_grow h e n v = Inr ((), v1)" by (cases r) auto
  note room = vec_maybe_grow_post [OF grown assms]
  then have v1: "vec_inv v1" "vec_list v1 = vec_list v" "vec_length v1 = vec_length v"
    "length (vec_elements v1) = unat (vec_capacity v1)"
    using extends_list [OF room(1) assms(1)] by (auto simp: extends_def)
  let ?i = "unat (vec_length v)" and ?es = "vec_elements v1"
  let ?v = "v1\<lparr>vec_length := vec_length v + n, vec_elements :=
    take ?i ?es @ replicate (unat n) (Some x) @ drop (?i + unat n) ?es\<rparr>"
  have "vec_append h e n x v = Inr ((), ?v)"
    using grown room v1 by (simp add: vec_append_def vec_add_def bind_def gets_def modify_def ret_def vec_fill_in)
  moreover have len: "unat (vec_length v + n) = ?i + unat n"
    using assms(2) by (rule unat_add_fits)
  moreover have take: "take (?i + unat n) (vec_elements ?v) = take ?i ?es @ replicate (unat n) (Some x)"
    using room(2) v1 by simp
  moreover have "vec_inv ?v"
    using v1 room(2) unfolding vec_inv_def by (auto simp: len list_all_iff)
  moreover have "vec_list ?v = vec_list v1 @ replicate (unat n) x"
    using v1 room(2) unfolding vec_list_def by (simp add: len)
  ultimately show ?thesis by (simp add: v1(2))
qed

text \<open>Where the sum wraps around, nothing is allocated and the elements written are outside.\<close>

lemma vec_add_wraps:
  assumes "vec_inv v" and "2 ^ 32 \<le> unat (vec_length v) + unat n"
  shows "vec_add h e n v = Inr (unat (vec_length v), v\<lparr>vec_length := vec_length v + n\<rparr>)"
proof -
  let ?i = "unat (vec_length v)"
  have "unat (vec_length v + n) = (?i + unat n) mod 2 ^ 32" by (simp add: unat_word_ariths)
  moreover have "?i + unat n - 2 ^ 32 < 2 ^ 32"
    using unat_u32_bound [of "vec_length v"] unat_u32_bound [of n] by simp
  ultimately have sum: "unat (vec_length v + n) = ?i + unat n - 2 ^ 32"
    using assms(2) by (simp add: le_mod_geq)
  then have "unat (vec_length v + n) \<le> ?i" using unat_u32_bound [of n] by simp
  also have "?i \<le> unat (vec_capacity v)" using assms(1) by (simp add: vec_inv_def)
  finally have "vec_maybe_grow h e n v = Inr ((), v)"
    by (simp add: vec_maybe_grow_def bind_def gets_def ret_def word_less_nat_alt)
  then show ?thesis by (simp add: vec_add_def bind_def gets_def modify_def ret_def)
qed

lemma vec_append_wraps:
  assumes "vec_inv v" and "2 ^ 32 \<le> unat (vec_length v) + unat n"
  shows "vec_append h e n x v = Inl Undefined"
proof -
  have "0 < unat n" using assms(2) unat_u32_bound [of "vec_length v"] by simp
  moreover have "length (vec_elements v) < unat (vec_length v) + unat n"
    using assms unat_u32_bound [of "vec_capacity v"] by (simp add: vec_inv_def)
  ultimately show ?thesis
    by (simp add: vec_append_def bind_def vec_add_wraps [OF assms] vec_fill_out)
qed

section \<open>Properties\<close>

text \<open>
  C34: While the length fits in 32 bits, the vector is a list: pushing and reserving-then-filling
  append, popping removes the last element, a full or failing allocator is reported, no access
  leaves the block and no unwritten element is read.
\<close>

theorem vec_refines_list:
  assumes "vec_inv v" and "unat (vec_length v) + unat n < 2 ^ 32"
  shows "(case vec_append h e n x v of
        Inl f \<Rightarrow> f = Check_failed
      | Inr (_, v') \<Rightarrow> vec_inv v' \<and> vec_list v' = vec_list v @ replicate (unat n) x)
    \<and> (n \<noteq> 0 \<longrightarrow> (case vec_push h e x v of
        Inl f \<Rightarrow> f = Check_failed
      | Inr (_, v') \<Rightarrow> vec_inv v' \<and> vec_list v' = vec_list v @ [x]))
    \<and> (if vec_list v = [] then vec_pop v = Inl Check_failed
       else \<exists>v'. vec_pop v = Inr (last (vec_list v), v') \<and> vec_inv v' \<and> vec_list v' = butlast (vec_list v))"
proof (intro conjI impI)
  assume "n \<noteq> 0"
  then have "1 \<le> unat n" by (simp add: unat_gt_0 Suc_le_eq word_neq_0_conv)
  then show "case vec_push h e x v of Inl f \<Rightarrow> f = Check_failed
      | Inr (_, v') \<Rightarrow> vec_inv v' \<and> vec_list v' = vec_list v @ [x]"
    using assms by (intro vec_push_step) simp_all
qed (rule vec_append_step [OF assms], rule vec_pop_step [OF assms(1)])

definition one_entry :: "u32 \<Rightarrow> nat vec" where
  "one_entry cap = \<lparr>vec_length = 1, vec_capacity = cap,
     vec_elements = Some 7 # replicate (unat cap - 1) None\<rparr>"

lemma vec_inv_one_entry: "vec_inv (one_entry 1)" "vec_inv (one_entry 4)"
  by (simp_all add: vec_inv_def one_entry_def)

theorem vec_refines_list_witness:
  "\<exists>v'. vec_pop (one_entry 4) = Inr (7, v') \<and> vec_list v' = []"
  using vec_refines_list [where n = 3 and h = roomy_host and e = 4 and x = 5, OF vec_inv_one_entry(2),
      THEN conjunct2, THEN conjunct2]
  by (auto simp: vec_list_def one_entry_def)

text \<open>
  Where the new length does not fit in 32 bits, the sum in \<open>vec_maybe_grow\<close> wraps around: the
  vector does not grow, no error is reported, and filling the elements \<open>vec_add\<close> handed out
  writes outside the block.
\<close>

theorem vec_add_overflow_undefined:
  assumes "vec_inv v" and "2 ^ 32 \<le> unat (vec_length v) + unat n"
  shows "vec_add h e n v = Inr (unat (vec_length v), v\<lparr>vec_length := vec_length v + n\<rparr>)
    \<and> vec_append h e n x v = Inl Undefined"
  using vec_add_wraps [OF assms] vec_append_wraps [OF assms] by simp

theorem vec_add_overflow_undefined_witness:
  "vec_append roomy_host 24 0xFFFFFFFF 5 (one_entry 1) = Inl Undefined"
  using vec_add_overflow_undefined [where n = "0xFFFFFFFF" and h = roomy_host and e = 24 and x = 5,
      OF vec_inv_one_entry(1)]
  by (simp add: one_entry_def)

end
