(* ===== verification/Hmap.thy ===== *)
theory Hmap
  imports Host
begin

text \<open>
  The open-addressing hash map of src/util/hmap.h and src/util/hmap.c, from \<open>uint64_t\<close> to
  \<open>uint64_t\<close>.

  The state is the capacity order, the number of used slots and the slots, or no slots before
  the first insertion. A slot is an index into the slots. The invariant says that every used
  slot is reachable from its key's hash without crossing a free slot, so that a search that
  stops at a free slot misses nothing; that the triangular probe sequence visits every slot is
  what makes an insertion find room. Under the invariant the map is the partial function
  \<open>hmap_map\<close>, and the operations are the ones of an abstract map (locale \<open>map_store\<close>).
\<close>

section \<open>The operations\<close>

datatype hmap_slot_state = SH_SLOT_FREE | SH_SLOT_USED | SH_SLOT_TOMBSTONE

record hmap_slot =
  slot_state :: hmap_slot_state
  slot_key :: u64
  slot_value :: u64

record hmap =
  cap_order :: nat
  hmap_size :: nat
  slots :: "hmap_slot list option"

definition HMAP_INIT :: hmap where
  "HMAP_INIT = \<lparr>cap_order = 0, hmap_size = 0, slots = None\<rparr>"

definition GOLDEN_RATIO_64 :: u64 where "GOLDEN_RATIO_64 = 0x61C8864680B583EB"
definition MIN_CAP_ORDER :: nat where "MIN_CAP_ORDER = 3"
definition MAX_CAP_ORDER :: nat where "MAX_CAP_ORDER = 25"

definition hash_value :: "hmap \<Rightarrow> u64 \<Rightarrow> u64" where
  "hash_value t key = drop_bit (64 - cap_order t) (key * GOLDEN_RATIO_64)"

definition hmap_capacity :: "hmap \<Rightarrow> nat" where
  "hmap_capacity t = 2 ^ cap_order t"

definition hmap_get_probe_slot :: "hmap \<Rightarrow> u64 \<Rightarrow> nat \<Rightarrow> nat" where
  "hmap_get_probe_slot t hash i =
     unat ((hash + word_of_nat i * (word_of_nat i + 1) div 2) AND (word_of_nat (hmap_capacity t) - 1))"

text \<open>The loop of \<open>hmap_find_slot\<close> from index \<open>i\<close> with \<open>n\<close> turns left.\<close>

fun probe :: "hmap \<Rightarrow> hmap_slot list \<Rightarrow> u64 \<Rightarrow> bool \<Rightarrow> nat \<Rightarrow> nat \<Rightarrow> nat option" where
  "probe t ss key find_free i 0 = None"
| "probe t ss key find_free i (Suc n) =
     (let p = hmap_get_probe_slot t (hash_value t key) i in
      case slot_state (ss ! p) of
        SH_SLOT_USED \<Rightarrow>
          if slot_key (ss ! p) = key then Some p else probe t ss key find_free (Suc i) n
      | SH_SLOT_FREE \<Rightarrow> if find_free then Some p else None
      | SH_SLOT_TOMBSTONE \<Rightarrow> if find_free then Some p else probe t ss key find_free (Suc i) n)"

definition hmap_find_slot :: "hmap \<Rightarrow> u64 \<Rightarrow> bool \<Rightarrow> nat option" where
  "hmap_find_slot t key find_free =
     (case slots t of None \<Rightarrow> None
      | Some ss \<Rightarrow> probe t ss key find_free 0 (hmap_capacity t))"

definition hmap_should_grow :: "hmap \<Rightarrow> bool" where
  "hmap_should_grow t \<longleftrightarrow> slots t = None \<or> hmap_size t * 5 \<ge> hmap_capacity t * 4"

definition hmap_should_shrink :: "hmap \<Rightarrow> bool" where
  "hmap_should_shrink t \<longleftrightarrow> cap_order t > MIN_CAP_ORDER \<and> hmap_size t * 8 \<le> hmap_capacity t * 1"

text \<open>The slots, or a null pointer that is about to be dereferenced.\<close>

definition the_slots :: "(hmap, hmap_slot list) sm" where
  "the_slots = bind (gets slots) (\<lambda>ss. case ss of None \<Rightarrow> fail Undefined | Some xs \<Rightarrow> ret xs)"

definition hmap_insert_new :: "u64 \<Rightarrow> u64 \<Rightarrow> (hmap, unit) sm" where
  "hmap_insert_new key value =
     bind (gets (\<lambda>t. hmap_find_slot t key True)) (\<lambda>slot.
     case slot of None \<Rightarrow> fail Check_failed
     | Some p \<Rightarrow>
         bind the_slots (\<lambda>ss.
         bind (index ss p) (\<lambda>s.
         bind (check (slot_state s \<noteq> SH_SLOT_USED)) (\<lambda>_.
         modify (\<lambda>t. t\<lparr>slots := Some (ss[p := \<lparr>slot_state = SH_SLOT_USED, slot_key = key,
             slot_value = value\<rparr>]),
           hmap_size := hmap_size t + 1\<rparr>)))))"

text \<open>The copying loop of \<open>hmap_rehash\<close>.\<close>

definition hmap_copy :: "hmap_slot list \<Rightarrow> (hmap, unit) sm" where
  "hmap_copy ss = for_each ss (\<lambda>s.
     if slot_state s = SH_SLOT_USED then hmap_insert_new (slot_key s) (slot_value s) else ret ())"

definition free_slot :: hmap_slot where
  "free_slot = \<lparr>slot_state = SH_SLOT_FREE, slot_key = 0, slot_value = 0\<rparr>"

definition hmap_rehash :: "host \<Rightarrow> nat \<Rightarrow> (hmap, unit) sm" where
  "hmap_rehash h new_cap_order =
     (let order = max new_cap_order MIN_CAP_ORDER in
      bind (check (order \<le> MAX_CAP_ORDER)) (\<lambda>_.
      bind (check (calloc_ok h 24 (2 ^ order))) (\<lambda>_.
      bind (gets (\<lambda>t. case slots t of None \<Rightarrow> [] | Some ss \<Rightarrow> ss)) (\<lambda>old.
      bind (lift_res (hmap_copy old
        \<lparr>cap_order = order, hmap_size = 0, slots = Some (replicate (2 ^ order) free_slot)\<rparr>)) (\<lambda>new.
      modify (\<lambda>_. snd new))))))"

definition hmap_free :: "(hmap, unit) sm" where
  "hmap_free = modify (\<lambda>_. HMAP_INIT)"

definition hmap_insert :: "host \<Rightarrow> u64 \<Rightarrow> u64 \<Rightarrow> (hmap, unit) sm" where
  "hmap_insert h key value =
     bind (gets (\<lambda>t. hmap_find_slot t key False)) (\<lambda>slot.
     case slot of
       Some p \<Rightarrow>
         bind the_slots (\<lambda>ss.
         bind (index ss p) (\<lambda>s.
         modify (\<lambda>t. t\<lparr>slots := Some (ss[p := s\<lparr>slot_value := value\<rparr>])\<rparr>)))
     | None \<Rightarrow>
         bind (gets (\<lambda>t. (hmap_should_grow t, cap_order t))) (\<lambda>(grow, order).
         bind (if grow then hmap_rehash h (order + 1) else ret ()) (\<lambda>_.
         hmap_insert_new key value)))"

definition hmap_lookup :: "hmap \<Rightarrow> u64 \<Rightarrow> u64 option" where
  "hmap_lookup t key =
     (case hmap_find_slot t key False of None \<Rightarrow> None
      | Some p \<Rightarrow> map_option (\<lambda>ss. slot_value (ss ! p)) (slots t))"

text \<open>A failing shrink is ignored: \<open>hmap_rehash\<close> leaves the table alone unless it succeeds.\<close>

definition hmap_delete :: "host \<Rightarrow> u64 \<Rightarrow> hmap \<Rightarrow> hmap" where
  "hmap_delete h key t =
     (case hmap_find_slot t key False of None \<Rightarrow> t
      | Some p \<Rightarrow>
          let t' = t\<lparr>slots := map_option (\<lambda>ss. ss[p := (ss ! p)\<lparr>slot_state := SH_SLOT_TOMBSTONE\<rparr>]) (slots t),
                hmap_size := hmap_size t - 1\<rparr>
          in if hmap_should_shrink t'
             then (case hmap_rehash h (cap_order t' - 1) t' of Inl _ \<Rightarrow> t' | Inr (_, t'') \<Rightarrow> t'')
             else t')"

text \<open>The iterator: the next used slot at or after index \<open>i\<close>, and the index after it.\<close>

fun hmap_next :: "hmap_slot list \<Rightarrow> nat \<Rightarrow> nat \<Rightarrow> ((u64 \<times> u64) \<times> nat) option" where
  "hmap_next ss i 0 = None"
| "hmap_next ss i (Suc n) =
     (if slot_state (ss ! i) = SH_SLOT_USED then Some ((slot_key (ss ! i), slot_value (ss ! i)), Suc i)
      else hmap_next ss (Suc i) n)"

definition hmap_iter_next :: "hmap \<Rightarrow> nat \<Rightarrow> ((u64 \<times> u64) \<times> nat) option" where
  "hmap_iter_next t i =
     (case slots t of None \<Rightarrow> None | Some ss \<Rightarrow> hmap_next ss i (hmap_capacity t - i))"

section \<open>The probe sequence\<close>

lemma triangle_step: "(i::nat) < j \<Longrightarrow> j * (j + 1) div 2 = i * (i + 1) div 2 + (j - i) * (j + i + 1) div 2"
proof -
  assume "i < j"
  then obtain d where j: "j = i + d" by (metis less_imp_add_positive)
  have "even (i * (i + 1))" "even (j * (j + 1))" by simp_all
  moreover have "j * (j + 1) = i * (i + 1) + (j - i) * (j + i + 1)"
    by (simp add: j algebra_simps)
  ultimately show ?thesis by (metis dvd_add_right_iff div_plus_div_distrib_dvd_left)
qed

text \<open>No two of the first \<open>2 ^ k\<close> probes hit the same slot.\<close>

lemma triangular_distinct:
  assumes "i < j" and "j < 2 ^ k"
  shows "(h + i * (i + 1) div 2) mod 2 ^ k \<noteq> (h + j * (j + 1) div 2) mod (2 ^ k :: nat)"
proof
  let ?d = "j - i" and ?s = "j + i + 1"
  assume "(h + i * (i + 1) div 2) mod 2 ^ k = (h + j * (j + 1) div 2) mod (2 ^ k :: nat)"
  then have "(h + i * (i + 1) div 2) mod 2 ^ k =
      (h + i * (i + 1) div 2 + ?d * ?s div 2) mod (2 ^ k :: nat)"
    by (simp only: triangle_step [OF assms(1)] add.assoc)
  then have "2 ^ k dvd ?d * ?s div 2"
    by (metis add_diff_cancel_left' mod_eq_dvd_iff_nat le_add1)
  moreover have "even (?d * ?s)" using assms(1) by (auto simp: even_diff_nat)
  ultimately have dvd: "2 ^ Suc k dvd ?d * ?s"
    by (metis dvd_div_mult_self mult_dvd_mono dvd_refl power_Suc2)
  show False
  proof (cases "odd ?d")
    case True
    then have "coprime (2 ^ Suc k) ?d" by simp
    then have "2 ^ Suc k dvd ?s" using dvd by (simp only: coprime_dvd_mult_right_iff)
    then have "2 ^ Suc k \<le> ?s" by (rule dvd_imp_le) simp
    then show False using assms by simp
  next
    case False
    then have "odd ?s" using assms(1) by (auto simp: even_diff_nat)
    then have "coprime (2 ^ Suc k) ?s" by simp
    then have "2 ^ Suc k dvd ?d" using dvd by (simp only: coprime_dvd_mult_left_iff)
    then have "2 ^ Suc k \<le> ?d" by (rule dvd_imp_le) (use assms(1) in simp)
    then show False using assms by simp
  qed
qed

definition probe_pos :: "nat \<Rightarrow> nat \<Rightarrow> nat \<Rightarrow> nat" where
  "probe_pos k h i = (h + i * (i + 1) div 2) mod 2 ^ k"

lemma probe_pos_inj:
  assumes "i < 2 ^ k" and "j < 2 ^ k" and "probe_pos k h i = probe_pos k h j"
  shows "i = j"
proof (cases i j rule: linorder_cases)
  case less
  then show ?thesis using triangular_distinct [OF less assms(2), of h] assms(3)
    unfolding probe_pos_def by blast
next
  case greater
  then show ?thesis using triangular_distinct [OF greater assms(1), of h] assms(3)
    unfolding probe_pos_def by simp
qed

lemma probe_pos_onto:
  assumes "p < 2 ^ k"
  obtains i where "i < 2 ^ k" and "probe_pos k h i = p"
proof -
  have inj: "inj_on (probe_pos k h) {..<2 ^ k}" by (rule inj_onI) (simp add: probe_pos_inj)
  have "probe_pos k h ` {..<2 ^ k} \<subseteq> {..<2 ^ k}" by (auto simp: probe_pos_def)
  moreover have "card (probe_pos k h ` {..<2 ^ k}) = card {..<(2::nat) ^ k}"
    using inj by (rule card_image)
  ultimately have "probe_pos k h ` {..<2 ^ k} = {..<2 ^ k}" by (intro card_subset_eq) auto
  with assms have "p \<in> probe_pos k h ` {..<2 ^ k}" by simp
  then show thesis using that by auto
qed

text \<open>The code's computation of a probe position, on 64-bit words, is \<open>probe_pos\<close>.\<close>

lemma hmap_get_probe_slot_eq:
  assumes "cap_order t \<le> 25" and "i < 2 ^ cap_order t"
  shows "hmap_get_probe_slot t hash i = probe_pos (cap_order t) (unat hash) i"
proof -
  let ?k = "cap_order t"
  have "(2::nat) ^ ?k \<le> 2 ^ 25" using assms(1) by (rule power_increasing) simp
  then have i: "i < 2 ^ 25" using assms(2) by linarith
  then have "i * (i + 1) \<le> 2 ^ 25 * 2 ^ 25" by (intro mult_mono) simp_all
  then have ii: "i * (i + 1) < 2 ^ 64" by simp
  have "word_of_nat i * (word_of_nat i + 1) div 2 = (word_of_nat (i * (i + 1)) :: u64) div word_of_nat 2"
    by (simp only: of_nat_mult of_nat_add of_nat_1 of_nat_numeral)
  also have "\<dots> = word_of_nat (i * (i + 1) div 2)"
    using ii by (simp only: word_arith_nat_div unat_of_nat) (simp add: take_bit_nat_eq_self_iff)
  finally have tri: "word_of_nat i * (word_of_nat i + 1) div 2 = (word_of_nat (i * (i + 1) div 2) :: u64)" .
  have "(word_of_nat (hmap_capacity t) :: u64) - 1 = mask ?k"
    by (simp add: hmap_capacity_def mask_eq_exp_minus_1)
  then have "hmap_get_probe_slot t hash i = unat (hash + word_of_nat (i * (i + 1) div 2)) mod 2 ^ ?k"
    by (simp only: hmap_get_probe_slot_def tri unat_and_mask)
  also have "unat (hash + word_of_nat (i * (i + 1) div 2)) = (unat hash + i * (i + 1) div 2) mod 2 ^ 64"
    by (simp add: unat_word_ariths unat_of_nat mod_add_right_eq)
  also have "\<dots> mod 2 ^ ?k = (unat hash + i * (i + 1) div 2) mod 2 ^ ?k"
    using assms(1) by (intro mod_mod_cancel le_imp_power_dvd) simp
  finally show ?thesis by (simp only: probe_pos_def)
qed

section \<open>The invariant\<close>

definition used :: "hmap_slot \<Rightarrow> bool" where
  "used s \<longleftrightarrow> slot_state s = SH_SLOT_USED"

definition key_pos :: "nat \<Rightarrow> u64 \<Rightarrow> nat \<Rightarrow> nat" where
  "key_pos k key i = probe_pos k (unat (drop_bit (64 - k) (key * GOLDEN_RATIO_64))) i"

definition unique_keys :: "hmap_slot list \<Rightarrow> bool" where
  "unique_keys ss \<longleftrightarrow> distinct (map slot_key (filter used ss))"

text \<open>Every used slot is met by its key's probe sequence before any free slot.\<close>

definition reachable_keys :: "nat \<Rightarrow> hmap_slot list \<Rightarrow> bool" where
  "reachable_keys k ss \<longleftrightarrow> (\<forall>p < length ss. used (ss ! p) \<longrightarrow>
     (\<exists>i < 2 ^ k. key_pos k (slot_key (ss ! p)) i = p \<and>
       (\<forall>j < i. slot_state (ss ! key_pos k (slot_key (ss ! p)) j) \<noteq> SH_SLOT_FREE)))"

definition slots_inv :: "nat \<Rightarrow> hmap_slot list \<Rightarrow> bool" where
  "slots_inv k ss \<longleftrightarrow> 3 \<le> k \<and> k \<le> 25 \<and> length ss = 2 ^ k \<and> unique_keys ss \<and> reachable_keys k ss"

definition hmap_inv :: "hmap \<Rightarrow> bool" where
  "hmap_inv t \<longleftrightarrow> (case slots t of
     None \<Rightarrow> cap_order t = 0 \<and> hmap_size t = 0
   | Some ss \<Rightarrow> slots_inv (cap_order t) ss \<and> hmap_size t = length (filter used ss))"

text \<open>The partial function the table stands for.\<close>

definition slots_map :: "hmap_slot list \<Rightarrow> u64 \<Rightarrow> u64 option" where
  "slots_map ss key = map_option slot_value (List.find (\<lambda>s. used s \<and> slot_key s = key) ss)"

definition hmap_map :: "hmap \<Rightarrow> u64 \<Rightarrow> u64 option" where
  "hmap_map t = (case slots t of None \<Rightarrow> Map.empty | Some ss \<Rightarrow> slots_map ss)"

lemma key_pos_bound: "key_pos k key i < 2 ^ k"
  by (simp add: key_pos_def probe_pos_def)

lemma unique_keys_iff:
  "unique_keys ss \<longleftrightarrow> (\<forall>p q. p < q \<longrightarrow> q < length ss \<longrightarrow> used (ss ! p) \<longrightarrow> used (ss ! q) \<longrightarrow>
     slot_key (ss ! p) \<noteq> slot_key (ss ! q))"
proof (induction ss)
  case Nil
  then show ?case by (simp add: unique_keys_def)
next
  case (Cons s ss)
  have "unique_keys (s # ss) \<longleftrightarrow>
      unique_keys ss \<and> (used s \<longrightarrow> (\<forall>q < length ss. used (ss ! q) \<longrightarrow> slot_key s \<noteq> slot_key (ss ! q)))"
    by (auto simp: unique_keys_def in_set_conv_nth)
  also have "\<dots> \<longleftrightarrow> (\<forall>p q. p < q \<longrightarrow> q < length (s # ss) \<longrightarrow> used ((s # ss) ! p) \<longrightarrow> used ((s # ss) ! q) \<longrightarrow>
     slot_key ((s # ss) ! p) \<noteq> slot_key ((s # ss) ! q))" (is "?A \<longleftrightarrow> ?B")
  proof
    assume ?A
    then show ?B unfolding Cons.IH by (auto simp: nth_Cons split: nat.splits)
  next
    assume B: ?B
    have "\<forall>p q. p < q \<longrightarrow> q < length ss \<longrightarrow> used (ss ! p) \<longrightarrow> used (ss ! q) \<longrightarrow>
        slot_key (ss ! p) \<noteq> slot_key (ss ! q)"
      using B [rule_format, of "Suc _" "Suc _"] by simp
    moreover have "\<forall>q < length ss. used s \<longrightarrow> used (ss ! q) \<longrightarrow> slot_key s \<noteq> slot_key (ss ! q)"
      using B [rule_format, of 0 "Suc _"] by simp
    ultimately show ?A unfolding Cons.IH by blast
  qed
  finally show ?case .
qed

lemma unique_keysD:
  "unique_keys ss \<Longrightarrow> p < length ss \<Longrightarrow> q < length ss \<Longrightarrow> used (ss ! p) \<Longrightarrow> used (ss ! q) \<Longrightarrow>
     slot_key (ss ! p) = slot_key (ss ! q) \<Longrightarrow> p = q"
  unfolding unique_keys_iff by (metis linorder_neqE_nat)

lemma slots_map_Some:
  assumes "unique_keys ss"
  shows "slots_map ss key = Some v \<longleftrightarrow>
    (\<exists>p < length ss. used (ss ! p) \<and> slot_key (ss ! p) = key \<and> slot_value (ss ! p) = v)"
proof
  assume "slots_map ss key = Some v"
  then show "\<exists>p < length ss. used (ss ! p) \<and> slot_key (ss ! p) = key \<and> slot_value (ss ! p) = v"
    by (auto simp: slots_map_def find_Some_iff)
next
  assume "\<exists>p < length ss. used (ss ! p) \<and> slot_key (ss ! p) = key \<and> slot_value (ss ! p) = v"
  then obtain p where p: "p < length ss" "used (ss ! p)" "slot_key (ss ! p) = key" "slot_value (ss ! p) = v"
    by blast
  then have "\<forall>j < p. \<not> (used (ss ! j) \<and> slot_key (ss ! j) = key)"
    using unique_keysD [OF assms] by (metis less_trans nat_neq_iff)
  with p have "List.find (\<lambda>s. used s \<and> slot_key s = key) ss = Some (ss ! p)"
    by (auto simp: find_Some_iff)
  then show "slots_map ss key = Some v" using p by (simp add: slots_map_def)
qed

lemma slots_map_None:
  "slots_map ss key = None \<longleftrightarrow> (\<forall>p < length ss. used (ss ! p) \<longrightarrow> slot_key (ss ! p) \<noteq> key)"
  by (auto simp: slots_map_def find_None_iff in_set_conv_nth)

section \<open>The search\<close>

definition slot_at :: "hmap_slot list \<Rightarrow> nat \<Rightarrow> u64 \<Rightarrow> nat \<Rightarrow> hmap_slot" where
  "slot_at ss k key i = ss ! key_pos k key i"

lemma probe_slot_eq:
  "cap_order t \<le> 25 \<Longrightarrow> i < 2 ^ cap_order t \<Longrightarrow>
     hmap_get_probe_slot t (hash_value t key) i = key_pos (cap_order t) key i"
  by (simp add: hmap_get_probe_slot_eq key_pos_def hash_value_def)

lemma probe_Suc:
  assumes "cap_order t \<le> 25" and "i < 2 ^ cap_order t"
  shows "probe t ss key ff i (Suc n) =
    (let p = key_pos (cap_order t) key i in
     if used (ss ! p) then if slot_key (ss ! p) = key then Some p else probe t ss key ff (Suc i) n
     else if ff then Some p
     else if slot_state (ss ! p) = SH_SLOT_FREE then None
     else probe t ss key ff (Suc i) n)"
  using probe_slot_eq [OF assms, of key]
  by (simp add: Let_def used_def split: hmap_slot_state.split)

lemma probe_sound:
  assumes "probe t ss key False i n = Some p" and "i + n \<le> 2 ^ cap_order t" and "cap_order t \<le> 25"
  shows "p < 2 ^ cap_order t \<and> used (ss ! p) \<and> slot_key (ss ! p) = key"
  using assms
proof (induction n arbitrary: i)
  case (Suc n)
  have "i < 2 ^ cap_order t" using Suc.prems(2) by simp
  then show ?case using Suc key_pos_bound [of "cap_order t" key i]
    by (auto simp: probe_Suc Let_def simp del: probe.simps split: if_splits)
qed simp

lemma probe_complete:
  assumes "unique_keys ss" and "length ss = 2 ^ cap_order t" and "cap_order t \<le> 25"
    and "used (ss ! p)" and "key_pos (cap_order t) (slot_key (ss ! p)) i0 = p"
    and "\<forall>j < i0. slot_state (ss ! key_pos (cap_order t) (slot_key (ss ! p)) j) \<noteq> SH_SLOT_FREE"
    and "i \<le> i0" and "i0 < i + n" and "i + n \<le> 2 ^ cap_order t"
  shows "probe t ss (slot_key (ss ! p)) False i n = Some p"
  using assms(7-)
proof (induction n arbitrary: i)
  case (Suc n)
  have i: "i < 2 ^ cap_order t" using Suc.prems by simp
  let ?p = "key_pos (cap_order t) (slot_key (ss ! p)) i"
  have in_range: "?p < length ss" "p < length ss"
    using assms(2,5) key_pos_bound by (metis, metis)
  show ?case
  proof (cases "i = i0")
    case True
    then show ?thesis using assms(3,4,5) i by (simp add: probe_Suc Let_def del: probe.simps)
  next
    case False
    then have "slot_state (ss ! ?p) \<noteq> SH_SLOT_FREE" using assms(6) Suc.prems by simp
    moreover have "probe t ss (slot_key (ss ! p)) False (Suc i) n = Some p"
      using Suc False by simp
    moreover have "?p = p" if "used (ss ! ?p)" "slot_key (ss ! ?p) = slot_key (ss ! p)"
      using unique_keysD [OF assms(1) in_range that(1) assms(4) that(2)] .
    ultimately show ?thesis using assms(3) i
      by (simp add: probe_Suc Let_def del: probe.simps)
  qed
qed simp

lemma probe_room:
  assumes "cap_order t \<le> 25" and "\<not> used (ss ! key_pos (cap_order t) key i1)"
    and "\<forall>q < 2 ^ cap_order t. used (ss ! q) \<longrightarrow> slot_key (ss ! q) \<noteq> key"
    and "i \<le> i1" and "i1 < i + n" and "i + n \<le> 2 ^ cap_order t"
  shows "\<exists>i0. i \<le> i0 \<and> i0 < i + n \<and> probe t ss key True i n = Some (key_pos (cap_order t) key i0) \<and>
    \<not> used (ss ! key_pos (cap_order t) key i0) \<and>
    (\<forall>j. i \<le> j \<longrightarrow> j < i0 \<longrightarrow> used (ss ! key_pos (cap_order t) key j))"
  using assms(4-)
proof (induction n arbitrary: i)
  case (Suc n)
  have i: "i < 2 ^ cap_order t" using Suc.prems by simp
  let ?p = "key_pos (cap_order t) key i"
  show ?case
  proof (cases "used (ss ! ?p)")
    case False
    then show ?thesis using assms(1) i
      by (intro exI [of _ i]) (simp add: probe_Suc Let_def del: probe.simps)
  next
    case True
    then have "i \<noteq> i1" using assms(2) by auto
    then obtain i0 where i0: "Suc i \<le> i0" "i0 < Suc i + n"
      "probe t ss key True (Suc i) n = Some (key_pos (cap_order t) key i0)"
      "\<not> used (ss ! key_pos (cap_order t) key i0)"
      "\<forall>j. Suc i \<le> j \<longrightarrow> j < i0 \<longrightarrow> used (ss ! key_pos (cap_order t) key j)"
      using Suc.IH [of "Suc i"] Suc.prems by auto
    have "slot_key (ss ! ?p) \<noteq> key" using True assms(3) key_pos_bound by blast
    then have "probe t ss key True i (Suc n) = probe t ss key True (Suc i) n"
      using True assms(1) i by (simp add: probe_Suc Let_def del: probe.simps)
    moreover have "used (ss ! key_pos (cap_order t) key j)" if "i \<le> j" "j < i0" for j
      using that True i0(5) by (cases "j = i") simp_all
    ultimately show ?thesis using i0 by (intro exI [of _ i0]) (simp del: probe.simps)
  qed
qed simp

lemma hmap_find_existing:
  assumes "hmap_inv t"
  shows "hmap_find_slot t key False = Some p \<longleftrightarrow>
    (\<exists>ss. slots t = Some ss \<and> p < length ss \<and> used (ss ! p) \<and> slot_key (ss ! p) = key)"
proof (cases "slots t")
  case None
  then show ?thesis by (simp add: hmap_find_slot_def)
next
  case (Some ss)
  have inv: "slots_inv (cap_order t) ss" using assms Some by (simp add: hmap_inv_def)
  then have ord: "cap_order t \<le> 25" and len: "length ss = 2 ^ cap_order t" and uniq: "unique_keys ss"
    by (simp_all add: slots_inv_def)
  have find: "hmap_find_slot t key False = probe t ss key False 0 (2 ^ cap_order t)"
    using Some by (simp add: hmap_find_slot_def hmap_capacity_def)
  show ?thesis
  proof
    assume "hmap_find_slot t key False = Some p"
    then show "\<exists>ss. slots t = Some ss \<and> p < length ss \<and> used (ss ! p) \<and> slot_key (ss ! p) = key"
      using probe_sound [of t ss key 0 "2 ^ cap_order t" p] Some ord len unfolding find by simp
  next
    assume "\<exists>ss. slots t = Some ss \<and> p < length ss \<and> used (ss ! p) \<and> slot_key (ss ! p) = key"
    then have p: "p < length ss" "used (ss ! p)" "slot_key (ss ! p) = key" using Some by auto
    then obtain i0 where "i0 < 2 ^ cap_order t" "key_pos (cap_order t) (slot_key (ss ! p)) i0 = p"
      "\<forall>j < i0. slot_state (ss ! key_pos (cap_order t) (slot_key (ss ! p)) j) \<noteq> SH_SLOT_FREE"
      using inv unfolding slots_inv_def reachable_keys_def by blast
    then have "probe t ss (slot_key (ss ! p)) False 0 (2 ^ cap_order t) = Some p"
      by (intro probe_complete [OF uniq len ord p(2)]) simp_all
    then show "hmap_find_slot t key False = Some p" using p(3) unfolding find by simp
  qed
qed

lemma hmap_lookup_eq:
  assumes "hmap_inv t"
  shows "hmap_lookup t key = hmap_map t key"
proof (cases "hmap_find_slot t key False")
  case None
  then have "\<not> (\<exists>ss. slots t = Some ss \<and> p < length ss \<and> used (ss ! p) \<and> slot_key (ss ! p) = key)" for p
    using hmap_find_existing [OF assms] by (metis option.distinct(1))
  then have "hmap_map t key = None"
    by (auto simp: hmap_map_def slots_map_None split: option.split)
  then show ?thesis using None by (simp add: hmap_lookup_def)
next
  case (Some p)
  then obtain ss where ss: "slots t = Some ss" "p < length ss" "used (ss ! p)" "slot_key (ss ! p) = key"
    using hmap_find_existing [OF assms] by blast
  then have "unique_keys ss" using assms by (simp add: hmap_inv_def slots_inv_def)
  then have "slots_map ss key = Some (slot_value (ss ! p))" using ss by (auto simp: slots_map_Some)
  then show ?thesis using Some ss by (simp add: hmap_lookup_def hmap_map_def)
qed

section \<open>Insertion\<close>

lemma count_update:
  "p < length xs \<Longrightarrow>
     length (filter P (xs[p := x])) + of_bool (P (xs ! p)) = length (filter P xs) + of_bool (P x)"
proof (induction xs arbitrary: p)
  case (Cons y ys)
  then show ?case by (cases p) auto
qed simp

lemma exists_unused:
  assumes "length (filter used ss) < length ss"
  shows "\<exists>p < length ss. \<not> used (ss ! p)"
proof (rule ccontr)
  assume "\<not> ?thesis"
  then have "filter used ss = ss" by (auto simp: filter_id_conv in_set_conv_nth)
  then show False using assms by simp
qed

lemma slots_map_update:
  assumes "unique_keys ss" and "p < length ss" and "\<not> used (ss ! p)" and "used s"
    and "slots_map ss (slot_key s) = None"
  shows "unique_keys (ss[p := s])" and "slots_map (ss[p := s]) = (slots_map ss)(slot_key s \<mapsto> slot_value s)"
proof -
  have fresh: "slot_key (ss ! q) \<noteq> slot_key s" if "q < length ss" "used (ss ! q)" for q
    using assms(5) that by (simp add: slots_map_None)
  have uniq: "slot_key (ss ! q) \<noteq> slot_key (ss ! r)"
    if "q < r" "r < length ss" "used (ss ! q)" "used (ss ! r)" for q r
    using assms(1) that unfolding unique_keys_iff by blast
  show *: "unique_keys (ss[p := s])"
    unfolding unique_keys_iff
  proof (intro allI impI)
    fix q r assume qr: "q < r" "r < length (ss[p := s])" "used (ss[p := s] ! q)" "used (ss[p := s] ! r)"
    then consider "q = p" "r \<noteq> p" | "q \<noteq> p" "r = p" | "q \<noteq> p" "r \<noteq> p" by force
    then show "slot_key (ss[p := s] ! q) \<noteq> slot_key (ss[p := s] ! r)"
      using qr fresh [of q] fresh [of r] uniq [of q r] by cases auto
  qed
  show "slots_map (ss[p := s]) = (slots_map ss)(slot_key s \<mapsto> slot_value s)"
  proof
    fix key
    have "slots_map (ss[p := s]) key = Some v \<longleftrightarrow> ((slots_map ss)(slot_key s \<mapsto> slot_value s)) key = Some v" for v
    proof (cases "key = slot_key s")
      case True
      then show ?thesis unfolding slots_map_Some [OF *]
        using assms(2,4) fresh by (auto simp: nth_list_update)
    next
      case False
      then show ?thesis unfolding slots_map_Some [OF *] fun_upd_apply
        using assms(2,3) by (auto simp: slots_map_Some [OF assms(1)] nth_list_update)
    qed
    then show "slots_map (ss[p := s]) key = ((slots_map ss)(slot_key s \<mapsto> slot_value s)) key"
      by (metis option.exhaust)
  qed
qed

lemma reachable_update:
  assumes "reachable_keys k ss" and "length ss = 2 ^ k" and "slot_state s \<noteq> SH_SLOT_FREE"
    and "used s \<Longrightarrow> \<exists>i < 2 ^ k. key_pos k (slot_key s) i = p \<and>
      (\<forall>j < i. slot_state (ss ! key_pos k (slot_key s) j) \<noteq> SH_SLOT_FREE)"
  shows "reachable_keys k (ss[p := s])"
  unfolding reachable_keys_def
proof (intro allI impI)
  fix q assume q: "q < length (ss[p := s])" "used (ss[p := s] ! q)"
  have keep: "slot_state (ss[p := s] ! key_pos k key j) \<noteq> SH_SLOT_FREE"
    if "slot_state (ss ! key_pos k key j) \<noteq> SH_SLOT_FREE" for key j
    using that assms(2,3) key_pos_bound [of k key j] by (cases "p = key_pos k key j") simp_all
  have same: "\<exists>i < 2 ^ k. key_pos k key i = q \<and>
      (\<forall>j < i. slot_state (ss ! key_pos k key j) \<noteq> SH_SLOT_FREE)"
    if "key = slot_key (ss[p := s] ! q)" for key
  proof (cases "q = p")
    case True
    then show ?thesis using q assms(4) that by simp
  next
    case False
    then show ?thesis using q assms(1) that unfolding reachable_keys_def by simp
  qed
  then obtain i where "i < 2 ^ k" "key_pos k (slot_key (ss[p := s] ! q)) i = q"
    "\<forall>j < i. slot_state (ss ! key_pos k (slot_key (ss[p := s] ! q)) j) \<noteq> SH_SLOT_FREE"
    by blast
  with keep show "\<exists>i < 2 ^ k. key_pos k (slot_key (ss[p := s] ! q)) i = q \<and>
      (\<forall>j < i. slot_state (ss[p := s] ! key_pos k (slot_key (ss[p := s] ! q)) j) \<noteq> SH_SLOT_FREE)"
    by blast
qed

text \<open>Inserting a new key into a table with room always succeeds.\<close>

lemma hmap_insert_new_step:
  assumes "hmap_inv t" and "slots t = Some ss" and "hmap_map t key = None"
    and "hmap_size t < 2 ^ cap_order t"
  obtains t' where "hmap_insert_new key value t = Inr ((), t')" and "hmap_inv t'"
    and "hmap_map t' = (hmap_map t)(key \<mapsto> value)" and "hmap_size t' = hmap_size t + 1"
    and "cap_order t' = cap_order t" and "slots t' \<noteq> None"
proof -
  let ?k = "cap_order t" and ?s = "\<lparr>slot_state = SH_SLOT_USED, slot_key = key, slot_value = value\<rparr>"
  have inv: "slots_inv ?k ss" and size: "hmap_size t = length (filter used ss)"
    using assms(1,2) by (simp_all add: hmap_inv_def)
  then have ord: "?k \<le> 25" and len: "length ss = 2 ^ ?k" and uniq: "unique_keys ss"
    and reach: "reachable_keys ?k ss" by (simp_all add: slots_inv_def)
  have fresh: "slots_map ss key = None" using assms(2,3) by (simp add: hmap_map_def)
  then have no_key: "\<forall>q < 2 ^ ?k. used (ss ! q) \<longrightarrow> slot_key (ss ! q) \<noteq> key"
    using len by (simp add: slots_map_None)
  have "length (filter used ss) < length ss" using size len assms(4) by simp
  then obtain q where q: "q < 2 ^ ?k" "\<not> used (ss ! q)" using exists_unused len by metis
  obtain i1 where "i1 < 2 ^ ?k" "key_pos ?k key i1 = q"
    unfolding key_pos_def using q(1) by (rule probe_pos_onto)
  with q(2) obtain i0 where i0: "i0 < 2 ^ ?k" "\<not> used (ss ! key_pos ?k key i0)"
    "probe t ss key True 0 (2 ^ ?k) = Some (key_pos ?k key i0)"
    "\<forall>j < i0. used (ss ! key_pos ?k key j)"
    using probe_room [OF ord _ no_key, of i1 0 "2 ^ ?k"] by auto
  let ?p = "key_pos ?k key i0"
  have p: "?p < length ss" using len key_pos_bound by simp
  let ?t = "t\<lparr>slots := Some (ss[?p := ?s]), hmap_size := hmap_size t + 1\<rparr>"
  have "hmap_find_slot t key True = Some ?p"
    using i0(3) assms(2) by (simp add: hmap_find_slot_def hmap_capacity_def)
  then have run: "hmap_insert_new key value t = Inr ((), ?t)"
    using assms(2) p i0(2)
    by (simp add: hmap_insert_new_def the_slots_def bind_def gets_def modify_def index_def ret_def check_def used_def)
  have used_s: "used ?s" by (simp add: used_def)
  note upd = slots_map_update [OF uniq p i0(2) used_s, simplified, OF fresh]
  have "reachable_keys ?k (ss[?p := ?s])"
    using i0(1,4) by (intro reachable_update [OF reach len]) (auto simp: used_def)
  then have "hmap_inv ?t"
    using inv upd(1) count_update [OF p, of used ?s] size i0(2) used_s
    by (simp add: hmap_inv_def slots_inv_def)
  moreover have "hmap_map ?t = (hmap_map t)(key \<mapsto> value)"
    using assms(2) upd(2) by (simp add: hmap_map_def)
  ultimately show thesis using run by (intro that [of ?t]) simp_all
qed

section \<open>Rehashing\<close>

lemma hmap_map_None: "slots t = None \<Longrightarrow> hmap_map t = Map.empty"
  by (simp add: hmap_map_def)

lemma slots_map_Cons:
  "slots_map (s # ss) key = (if used s \<and> slot_key s = key then Some (slot_value s) else slots_map ss key)"
  by (simp add: slots_map_def)

lemma hmap_copy_step:
  assumes "hmap_inv t" and "slots t \<noteq> None" and "unique_keys ss"
    and "\<And>key. slots_map ss key \<noteq> None \<Longrightarrow> hmap_map t key = None"
    and "hmap_size t + length (filter used ss) \<le> 2 ^ cap_order t"
  shows "\<exists>t'. hmap_copy ss t = Inr ((), t') \<and> hmap_inv t' \<and> hmap_map t' = hmap_map t ++ slots_map ss \<and>
    hmap_size t' = hmap_size t + length (filter used ss) \<and> cap_order t' = cap_order t \<and> slots t' \<noteq> None"
  using assms
proof (induction ss arbitrary: t)
  case Nil
  have "slots_map [] = Map.empty" by (auto simp: slots_map_def)
  then show ?case using Nil by (simp add: hmap_copy_def ret_def)
next
  case (Cons s ss)
  have uniq: "unique_keys ss" using Cons.prems(3) by (auto simp: unique_keys_def split: if_splits)
  show ?case
  proof (cases "used s")
    case False
    then have "slots_map (s # ss) = slots_map ss" by (auto simp: slots_map_Cons)
    moreover have "hmap_copy (s # ss) t = hmap_copy ss t"
      using False by (simp add: hmap_copy_def used_def)
    ultimately show ?thesis using Cons.IH [OF Cons.prems(1,2) uniq] Cons.prems(4,5) False by simp
  next
    case True
    obtain os where os: "slots t = Some os" using Cons.prems(2) by auto
    have fresh: "hmap_map t (slot_key s) = None"
      using Cons.prems(4) [of "slot_key s"] True by (simp add: slots_map_Cons)
    have room: "hmap_size t < 2 ^ cap_order t" using Cons.prems(5) True by simp
    obtain t1 where t1: "hmap_insert_new (slot_key s) (slot_value s) t = Inr ((), t1)" "hmap_inv t1"
      "hmap_map t1 = (hmap_map t)(slot_key s \<mapsto> slot_value s)" "hmap_size t1 = hmap_size t + 1"
      "cap_order t1 = cap_order t" "slots t1 \<noteq> None"
      using hmap_insert_new_step [OF Cons.prems(1) os fresh room, of "slot_value s"] by blast
    have "slot_key s \<notin> slot_key ` {x \<in> set ss. used x}"
      using Cons.prems(3) True by (simp add: unique_keys_def)
    then have other: "slots_map ss (slot_key s) = None"
      unfolding slots_map_def option.map_disc_iff find_None_iff image_iff
      by (metis (mono_tags, lifting) mem_Collect_eq)
    have "\<exists>t'. hmap_copy ss t1 = Inr ((), t') \<and> hmap_inv t' \<and> hmap_map t' = hmap_map t1 ++ slots_map ss \<and>
      hmap_size t' = hmap_size t1 + length (filter used ss) \<and> cap_order t' = cap_order t1 \<and> slots t' \<noteq> None"
    proof (rule Cons.IH [OF t1(2,6) uniq])
      fix key assume "slots_map ss key \<noteq> None"
      then show "hmap_map t1 key = None"
        using Cons.prems(4) [of key] other t1(3) True by (auto simp: slots_map_Cons split: if_splits)
    qed (use Cons.prems(5) t1(4,5) True in simp)
    then obtain t' where t': "hmap_copy ss t1 = Inr ((), t')" "hmap_inv t'"
      "hmap_map t' = hmap_map t1 ++ slots_map ss"
      "hmap_size t' = hmap_size t1 + length (filter used ss)" "cap_order t' = cap_order t1" "slots t' \<noteq> None"
      by blast
    have "hmap_copy (s # ss) t = Inr ((), t')"
      using t1(1) t'(1) True by (simp add: hmap_copy_def used_def bind_def)
    moreover have "hmap_map t1 ++ slots_map ss = hmap_map t ++ slots_map (s # ss)"
      using other True by (auto simp: t1(3) slots_map_Cons map_add_def fun_eq_iff split: option.split)
    ultimately show ?thesis using t' t1 True by (intro exI [of _ t']) simp
  qed
qed

lemma hmap_inv_fresh:
  assumes "3 \<le> k" and "k \<le> 25"
  defines "t \<equiv> \<lparr>cap_order = k, hmap_size = 0, slots = Some (replicate (2 ^ k) free_slot)\<rparr>"
  shows "hmap_inv t" and "hmap_map t = Map.empty"
proof -
  have "\<not> used free_slot" by (simp add: used_def free_slot_def)
  then show "hmap_inv t" using assms
    by (simp add: hmap_inv_def slots_inv_def unique_keys_def reachable_keys_def)
  show "hmap_map t = Map.empty"
    using \<open>\<not> used free_slot\<close> by (auto simp: t_def hmap_map_def slots_map_None)
qed

lemma hmap_rehash_step:
  assumes "hmap_inv t" and "hmap_size t \<le> 2 ^ max n 3"
  shows "(\<exists>e. hmap_rehash h n t = Inl e \<and> e = Check_failed \<and> (25 < n \<or> \<not> calloc_ok h 24 (2 ^ max n 3)))
    \<or> (\<exists>t'. hmap_rehash h n t = Inr ((), t') \<and> hmap_inv t' \<and> hmap_map t' = hmap_map t \<and>
      hmap_size t' = hmap_size t \<and> cap_order t' = max n 3 \<and> slots t' \<noteq> None)"
proof -
  define k where "k = max n 3"
  have rehash: "hmap_rehash h n = bind (check (k \<le> 25)) (\<lambda>_. bind (check (calloc_ok h 24 (2 ^ k))) (\<lambda>_.
      bind (gets (\<lambda>t. case slots t of None \<Rightarrow> [] | Some ss \<Rightarrow> ss)) (\<lambda>old.
      bind (lift_res (hmap_copy old
        \<lparr>cap_order = k, hmap_size = 0, slots = Some (replicate (2 ^ k) free_slot)\<rparr>)) (\<lambda>new.
      modify (\<lambda>_. snd new)))))"
    by (simp only: hmap_rehash_def Let_def MIN_CAP_ORDER_def MAX_CAP_ORDER_def k_def)
  have k: "3 \<le> k" by (simp add: k_def)
  consider "25 < k" | "k \<le> 25" "\<not> calloc_ok h 24 (2 ^ k)" | "k \<le> 25" "calloc_ok h 24 (2 ^ k)"
    by linarith
  then show ?thesis
  proof cases
    case 1
    then have "hmap_rehash h n t = Inl Check_failed"
      by (simp add: rehash fail_apply)
    moreover have "25 < n" using 1 by (simp add: k_def)
    ultimately show ?thesis by auto
  next
    case 2
    then have "hmap_rehash h n t = Inl Check_failed"
      by (simp add: rehash fail_apply)
    then show ?thesis using 2 by (auto simp: k_def)
  next
    case 3
    let ?old = "case slots t of None \<Rightarrow> [] | Some ss \<Rightarrow> ss"
    let ?new = "\<lparr>cap_order = k, hmap_size = 0, slots = Some (replicate (2 ^ k) free_slot)\<rparr>"
    have "unique_keys ?old" "length (filter used ?old) = hmap_size t"
      using assms(1) by (auto simp: hmap_inv_def slots_inv_def unique_keys_def split: option.splits)
    moreover have "slots_map ?old = hmap_map t"
      by (auto simp: hmap_map_def slots_map_def split: option.splits)
    moreover note hmap_inv_fresh [OF k 3(1)]
    ultimately obtain t' where t': "hmap_copy ?old ?new = Inr ((), t')" "hmap_inv t'"
      "hmap_map t' = hmap_map t" "hmap_size t' = hmap_size t" "cap_order t' = k" "slots t' \<noteq> None"
      using hmap_copy_step [of ?new ?old] assms(2) by (auto simp: k_def)
    then have "hmap_rehash h n t = Inr ((), t')"
      using 3 by (simp add: rehash bind_def gets_def modify_def lift_res_def ret_apply)
    then show ?thesis using t' by (auto simp: k_def)
  qed
qed

section \<open>The operations on the abstract map\<close>

lemma hmap_size_bound: "hmap_inv t \<Longrightarrow> hmap_size t \<le> 2 ^ cap_order t"
  by (auto simp: hmap_inv_def slots_inv_def split: option.splits) (metis length_filter_le)

text \<open>
  An insertion succeeds and updates the map, or it reports an error because the table would have
  to grow and cannot: at the largest capacity, or without memory.
\<close>

lemma hmap_insert_existing:
  assumes "hmap_inv t" and "hmap_find_slot t key False = Some p"
  obtains t' where "hmap_insert h key value t = Inr ((), t')" and "hmap_inv t'"
    and "hmap_map t' = (hmap_map t)(key \<mapsto> value)"
proof -
  obtain ss where ss: "slots t = Some ss" "p < length ss" "used (ss ! p)" "slot_key (ss ! p) = key"
    using assms hmap_find_existing by blast
  let ?s = "(ss ! p)\<lparr>slot_value := value\<rparr>"
  let ?t = "t\<lparr>slots := Some (ss[p := ?s])\<rparr>"
  have inv: "slots_inv (cap_order t) ss" and size: "hmap_size t = length (filter used ss)"
    using assms(1) ss(1) by (simp_all add: hmap_inv_def)
  have same: "used (ss[p := ?s] ! q) = used (ss ! q)" "slot_key (ss[p := ?s] ! q) = slot_key (ss ! q)"
    "slot_state (ss[p := ?s] ! q) = slot_state (ss ! q)" for q
    using ss(2) by (cases "q = p"; simp add: used_def)+
  have uniq: "unique_keys ss" "unique_keys (ss[p := ?s])"
    using inv by (simp_all add: slots_inv_def unique_keys_iff same)
  have run: "hmap_insert h key value t = Inr ((), ?t)"
    using assms(2) ss by (simp add: hmap_insert_def the_slots_def bind_def gets_def modify_def index_def ret_apply)
  have "reachable_keys (cap_order t) (ss[p := ?s])"
    using inv by (simp add: slots_inv_def reachable_keys_def same)
  then have "hmap_inv ?t"
    using inv size uniq count_update [OF ss(2), of used ?s] ss(3)
    by (simp add: hmap_inv_def slots_inv_def used_def)
  moreover have "hmap_map ?t = (hmap_map t)(key \<mapsto> value)"
  proof
    fix k
    have "slots_map (ss[p := ?s]) k = Some v \<longleftrightarrow> ((slots_map ss)(key \<mapsto> value)) k = Some v" for v
    proof (cases "k = key")
      case True
      have "slots_map (ss[p := ?s]) key = Some value"
        unfolding slots_map_Some [OF uniq(2)] same using ss by (intro exI [of _ p]) simp
      then show ?thesis using True by simp
    next
      case False
      then show ?thesis using ss(2,4)
        unfolding fun_upd_apply if_not_P [OF False] slots_map_Some [OF uniq(1)] slots_map_Some [OF uniq(2)] same
        by (intro ex_cong1 conj_cong refl) (auto simp: nth_list_update)
    qed
    then show "hmap_map ?t k = ((hmap_map t)(key \<mapsto> value)) k"
      using ss(1) by (simp add: hmap_map_def) (metis option.exhaust)
  qed
  ultimately show thesis using run that by blast
qed

lemma hmap_insert_step:
  assumes "hmap_inv t"
  shows "(hmap_insert h key value t = Inl Check_failed \<and> hmap_map t key = None \<and> hmap_should_grow t \<and>
      (cap_order t = 25 \<or> \<not> calloc_ok h 24 (2 ^ max (cap_order t + 1) 3)))
    \<or> (\<exists>t'. hmap_insert h key value t = Inr ((), t') \<and> hmap_inv t' \<and>
      hmap_map t' = (hmap_map t)(key \<mapsto> value))"
proof (cases "hmap_find_slot t key False")
  case (Some p)
  with assms hmap_insert_existing show ?thesis by metis
next
  case None
  then have fresh: "hmap_map t key = None"
    using hmap_lookup_eq [OF assms, of key] by (simp add: hmap_lookup_def)
  show ?thesis
  proof (cases "hmap_should_grow t")
    case False
    then obtain ss where ss: "slots t = Some ss" "hmap_size t < 2 ^ cap_order t"
      by (auto simp: hmap_should_grow_def hmap_capacity_def)
    have "hmap_insert h key value t = hmap_insert_new key value t"
      using None False by (simp add: hmap_insert_def gets_bind)
    then show ?thesis using hmap_insert_new_step [OF assms ss(1) fresh ss(2), of "value"] by metis
  next
    case True
    have ins: "hmap_insert h key value t =
        bind (hmap_rehash h (cap_order t + 1)) (\<lambda>_. hmap_insert_new key value) t"
      using None True by (simp add: hmap_insert_def gets_bind)
    have lt: "hmap_size t < 2 ^ max (cap_order t + 1) 3"
    proof -
      have "hmap_size t \<le> 2 ^ cap_order t" using assms by (rule hmap_size_bound)
      also have "\<dots> < (2::nat) ^ max (cap_order t + 1) 3" by (rule power_strict_increasing) simp_all
      finally show ?thesis .
    qed
    then consider "hmap_rehash h (cap_order t + 1) t = Inl Check_failed"
        "25 < cap_order t + 1 \<or> \<not> calloc_ok h 24 (2 ^ max (cap_order t + 1) 3)"
      | t1 where "hmap_rehash h (cap_order t + 1) t = Inr ((), t1)" "hmap_inv t1" "hmap_map t1 = hmap_map t"
        "hmap_size t1 = hmap_size t" "cap_order t1 = max (cap_order t + 1) 3" "slots t1 \<noteq> None"
      using hmap_rehash_step [OF assms, of "cap_order t + 1" h] by (metis less_imp_le)
    then show ?thesis
    proof cases
      case 1
      have "cap_order t \<le> 25" using assms by (auto simp: hmap_inv_def slots_inv_def split: option.splits)
      then show ?thesis using 1 True fresh ins by (auto simp: bind_def)
    next
      case 2
      then obtain ss where ss: "slots t1 = Some ss" by auto
      obtain t' where "hmap_insert_new key value t1 = Inr ((), t')" "hmap_inv t'"
        "hmap_map t' = (hmap_map t1)(key \<mapsto> value)"
        using hmap_insert_new_step [OF 2(2) ss, of key "value"] fresh lt 2 by auto
      then show ?thesis using 2 ins by (auto simp: bind_def)
    qed
  qed
qed

section \<open>Deletion and iteration\<close>

lemma hmap_tombstone_step:
  assumes "hmap_inv t" and "hmap_find_slot t key False = Some p" and "slots t = Some ss"
  defines "t' \<equiv> t\<lparr>slots := Some (ss[p := (ss ! p)\<lparr>slot_state := SH_SLOT_TOMBSTONE\<rparr>]),
    hmap_size := hmap_size t - 1\<rparr>"
  shows "hmap_inv t'" and "hmap_map t' = (hmap_map t)(key := None)"
proof -
  let ?s = "(ss ! p)\<lparr>slot_state := SH_SLOT_TOMBSTONE\<rparr>"
  have p: "p < length ss" "used (ss ! p)" "slot_key (ss ! p) = key"
    using assms hmap_find_existing by auto
  have inv: "slots_inv (cap_order t) ss" and size: "hmap_size t = length (filter used ss)"
    using assms(1,3) by (simp_all add: hmap_inv_def)
  then have uniq: "unique_keys ss" by (simp add: slots_inv_def)
  have dead: "\<not> used ?s" by (simp add: used_def)
  have at: "used (ss[p := ?s] ! q) \<longleftrightarrow> q \<noteq> p \<and> used (ss ! q)"
    "q \<noteq> p \<Longrightarrow> ss[p := ?s] ! q = ss ! q" if "q < length ss" for q
    using that p dead by (auto simp: nth_list_update)
  have "unique_keys (ss[p := ?s])"
    unfolding unique_keys_iff
  proof (intro allI impI)
    fix q r assume qr: "q < r" "r < length (ss[p := ?s])" "used (ss[p := ?s] ! q)" "used (ss[p := ?s] ! r)"
    then show "slot_key (ss[p := ?s] ! q) \<noteq> slot_key (ss[p := ?s] ! r)"
      using at [of q] at [of r] uniq [unfolded unique_keys_iff, rule_format, of q r] by simp
  qed
  moreover have "reachable_keys (cap_order t) (ss[p := ?s])"
    using inv dead by (intro reachable_update) (simp_all add: slots_inv_def)
  moreover have "length (filter used (ss[p := ?s])) = length (filter used ss) - 1"
    using count_update [OF p(1), of used ?s] p(2) dead by simp
  ultimately show "hmap_inv t'"
    using inv size by (simp add: t'_def hmap_inv_def slots_inv_def)
  have "slots_map (ss[p := ?s]) k = Some v \<longleftrightarrow> ((slots_map ss)(key := None)) k = Some v" for k v
  proof -
    have "slots_map (ss[p := ?s]) k = Some v \<longleftrightarrow>
        (\<exists>q < length ss. q \<noteq> p \<and> used (ss ! q) \<and> slot_key (ss ! q) = k \<and> slot_value (ss ! q) = v)"
      unfolding slots_map_Some [OF \<open>unique_keys (ss[p := ?s])\<close>] using at by auto
    also have "\<dots> \<longleftrightarrow> ((slots_map ss)(key := None)) k = Some v"
    proof (cases "k = key")
      case True
      have "q = p" if "q < length ss" "used (ss ! q)" "slot_key (ss ! q) = key" for q
        using unique_keysD [OF uniq that(1) p(1) that(2) p(2)] that(3) p(3) by simp
      then show ?thesis using True by auto
    next
      case False
      then show ?thesis using p(3) by (auto simp: slots_map_Some [OF uniq])
    qed
    finally show ?thesis .
  qed
  then have "slots_map (ss[p := ?s]) = (slots_map ss)(key := None)"
    by (intro ext) (metis option.exhaust)
  then show "hmap_map t' = (hmap_map t)(key := None)"
    using assms(3) by (simp add: t'_def hmap_map_def)
qed

lemma hmap_delete_step:
  assumes "hmap_inv t"
  shows "hmap_inv (hmap_delete h key t) \<and> hmap_map (hmap_delete h key t) = (hmap_map t)(key := None)"
proof (cases "hmap_find_slot t key False")
  case None
  then have "hmap_map t key = None"
    using hmap_lookup_eq [OF assms, of key] by (simp add: hmap_lookup_def)
  then show ?thesis using None assms by (auto simp: hmap_delete_def fun_upd_idem)
next
  case (Some p)
  then obtain ss where ss: "slots t = Some ss" using assms hmap_find_existing by blast
  let ?t = "t\<lparr>slots := Some (ss[p := (ss ! p)\<lparr>slot_state := SH_SLOT_TOMBSTONE\<rparr>]), hmap_size := hmap_size t - 1\<rparr>"
  note dead = hmap_tombstone_step [OF assms Some ss]
  show ?thesis
  proof (cases "hmap_should_shrink ?t")
    case False
    then show ?thesis using dead Some ss by (simp add: hmap_delete_def)
  next
    case True
    have "hmap_size ?t * 8 \<le> 2 ^ cap_order ?t" "3 < cap_order ?t"
      using True by (simp_all add: hmap_should_shrink_def hmap_capacity_def MIN_CAP_ORDER_def)
    moreover have "(2::nat) ^ cap_order ?t = 2 * 2 ^ (cap_order ?t - 1)"
      using \<open>3 < cap_order ?t\<close> by (simp flip: power_Suc)
    moreover have "max (cap_order ?t - 1) 3 = cap_order ?t - 1"
      using \<open>3 < cap_order ?t\<close> by simp
    ultimately have "hmap_size ?t \<le> 2 ^ max (cap_order ?t - 1) 3" by simp
    from hmap_rehash_step [OF dead(1) this, of h]
    show ?thesis using True dead Some ss by (auto simp: hmap_delete_def)
  qed
qed

lemma hmap_next_Some:
  "hmap_next ss i n = Some (kv, j) \<Longrightarrow> i < j \<and> j \<le> i + n \<and>
     used (ss ! (j - 1)) \<and> kv = (slot_key (ss ! (j - 1)), slot_value (ss ! (j - 1))) \<and>
     (\<forall>q. i \<le> q \<longrightarrow> q < j - 1 \<longrightarrow> \<not> used (ss ! q))"
proof (induction n arbitrary: i)
  case (Suc n)
  show ?case
  proof (cases "used (ss ! i)")
    case True
    then show ?thesis using Suc.prems by (auto simp: used_def)
  next
    case False
    then have "hmap_next ss (Suc i) n = Some (kv, j)" using Suc.prems by (simp add: used_def)
    note IH = Suc.IH [OF this]
    have "\<not> used (ss ! q)" if "i \<le> q" "q < j - 1" for q
      using IH False that by (cases "q = i") auto
    then show ?thesis using IH by auto
  qed
qed simp

lemma hmap_next_None: "hmap_next ss i n = None \<Longrightarrow> i \<le> q \<Longrightarrow> q < i + n \<Longrightarrow> \<not> used (ss ! q)"
proof (induction n arbitrary: i)
  case (Suc n)
  then show ?case by (cases "q = i") (auto simp: used_def split: if_splits)
qed simp

text \<open>The loop \<open>while (hmap_iter_next(&iter, &key, &value))\<close>.\<close>

function hmap_walk :: "hmap \<Rightarrow> nat \<Rightarrow> (u64 \<times> u64) list" where
  "hmap_walk t i = (case hmap_iter_next t i of None \<Rightarrow> [] | Some (kv, j) \<Rightarrow> kv # hmap_walk t j)"
  by pat_completeness auto
termination
proof (relation "measure (\<lambda>(t, i). hmap_capacity t - i)", simp, clarsimp)
  fix t i k v j assume "hmap_iter_next t i = Some ((k, v), j)"
  then obtain ss where "hmap_next ss i (hmap_capacity t - i) = Some ((k, v), j)"
    by (auto simp: hmap_iter_next_def split: option.splits)
  then show "hmap_capacity t - j < hmap_capacity t - i"
    using hmap_next_Some [of ss i "hmap_capacity t - i" "(k, v)" j] by auto
qed

declare hmap_walk.simps [simp del]

lemma hmap_walk_eq:
  assumes "hmap_inv t" and "slots t = Some ss" and "i \<le> length ss"
  shows "hmap_walk t i = map (\<lambda>s. (slot_key s, slot_value s)) (filter used (drop i ss))"
  using assms(3)
proof (induction "length ss - i" arbitrary: i rule: less_induct)
  case less
  have cap: "hmap_capacity t = length ss"
    using assms by (simp add: hmap_inv_def slots_inv_def hmap_capacity_def)
  have it: "hmap_iter_next t i = hmap_next ss i (length ss - i)"
    using assms(2) cap by (simp add: hmap_iter_next_def)
  show ?case
  proof (cases "hmap_next ss i (length ss - i)")
    case None
    then have "\<not> used x" if "x \<in> set (drop i ss)" for x
      using that hmap_next_None [OF None] less.prems
      by (auto simp: in_set_conv_nth)
    then show ?thesis using None it by (subst hmap_walk.simps) (simp add: filter_empty_conv)
  next
    case (Some r)
    then obtain kv j where r: "hmap_next ss i (length ss - i) = Some (kv, j)" by (cases r) auto
    note found = hmap_next_Some [OF r]
    have "drop i ss = take (j - 1 - i) (drop i ss) @ drop (j - 1) ss"
      using found less.prems by (metis append_take_drop_id drop_drop le_add_diff_inverse2 Suc_leI
          less_imp_Suc_add add_diff_cancel_left' diff_Suc_1 le_add1)
    moreover have "filter used (take (j - 1 - i) (drop i ss)) = []"
      using found less.prems by (auto simp: filter_empty_conv in_set_conv_nth)
    moreover have "drop (j - 1) ss = ss ! (j - 1) # drop j ss"
      using found less.prems by (metis Cons_nth_drop_Suc Suc_pred' diff_diff_cancel le_add_diff_inverse
          less_le_trans not_less_zero zero_less_iff_neq_zero Suc_le_eq)
    ultimately have "filter used (drop i ss) = filter used (ss ! (j - 1) # drop j ss)"
      by (metis append_Nil filter_append)
    then have "filter used (drop i ss) = ss ! (j - 1) # filter used (drop j ss)"
      using found by simp
    moreover have "hmap_walk t j = map (\<lambda>s. (slot_key s, slot_value s)) (filter used (drop j ss))"
      using found less.prems by (intro less.hyps) linarith+
    ultimately show ?thesis using r it found by (subst hmap_walk.simps) simp
  qed
qed

section \<open>The interface of a map\<close>

text \<open>
  What the code generator relies on: a map starts empty, an insertion that does not fail updates
  it, a failing one reports a failed check, and a lookup finds what was inserted last.
\<close>

locale map_store =
  fixes new :: 's
    and insert_in :: "host \<Rightarrow> 'k \<Rightarrow> 'v \<Rightarrow> ('s, unit) sm"
    and lookup_in :: "'s \<Rightarrow> 'k \<Rightarrow> 'v option"
    and inv :: "'s \<Rightarrow> bool"
    and abs :: "'s \<Rightarrow> 'k \<rightharpoonup> 'v"
  assumes new_inv: "inv new" and new_abs: "abs new = Map.empty"
    and lookup_law: "inv s \<Longrightarrow> lookup_in s k = abs s k"
    and insert_law: "inv s \<Longrightarrow> insert_in h k v s = Inr (u, s') \<Longrightarrow> inv s' \<and> abs s' = (abs s)(k \<mapsto> v)"
    and insert_fault: "inv s \<Longrightarrow> insert_in h k v s = Inl e \<Longrightarrow> e = Check_failed"
begin

definition insert_all :: "host \<Rightarrow> ('k \<times> 'v) list \<Rightarrow> ('s, unit) sm" where
  "insert_all h kvs = for_each kvs (\<lambda>(k, v). insert_in h k v)"

lemma insert_valid: "valid inv (insert_in h k v) (\<lambda>_. inv)"
proof (rule validI)
  fix s assume "inv s"
  then show "insert_in h k v s \<noteq> Inl Undefined" using insert_fault by blast
next
  fix s u s' assume "inv s" and "insert_in h k v s = Inr (u, s')"
  then show "inv s'" using insert_law by blast
qed

lemma insert_all_valid: "valid inv (insert_all h kvs) (\<lambda>_. inv)"
  unfolding insert_all_def by (rule valid_for_each) (simp add: insert_valid split: prod.split)

lemma insert_all_abs:
  "inv s \<Longrightarrow> insert_all h kvs s = Inr (u, s') \<Longrightarrow> abs s' = abs s ++ map_of (rev kvs)"
proof (induction kvs arbitrary: s)
  case Nil
  then show ?case by (simp add: insert_all_def)
next
  case (Cons kv kvs)
  obtain k v where kv: "kv = (k, v)" by (cases kv)
  from Cons.prems(2) obtain s1 where s1: "insert_in h k v s = Inr ((), s1)"
    and more: "insert_all h kvs s1 = Inr (u, s')"
    by (auto simp: insert_all_def kv bind_run)
  have "inv s1" "abs s1 = (abs s)(k \<mapsto> v)"
    using insert_law [OF Cons.prems(1) s1] by simp_all
  then show ?case using Cons.IH [OF _ more] by (simp add: kv map_add_upd_left map_add_def
    fun_eq_iff split: option.split)
qed

lemma lookup_after:
  assumes "inv s" and "insert_in h k v s = Inr (u, s')"
  shows "lookup_in s' k' = (if k' = k then Some v else lookup_in s k')"
  using insert_law [OF assms] lookup_law assms(1) by simp

end

text \<open>A map that can also forget a key.\<close>

locale deleting_map_store = map_store new insert_in lookup_in inv abs
  for new :: "'s" and insert_in :: "host \<Rightarrow> 'k \<Rightarrow> 'v \<Rightarrow> ('s, unit) sm" and lookup_in inv abs +
  fixes delete_in :: "host \<Rightarrow> 'k \<Rightarrow> 's \<Rightarrow> 's"
  assumes delete_law: "inv s \<Longrightarrow> inv (delete_in h k s) \<and> abs (delete_in h k s) = (abs s)(k := None)"
begin

lemma lookup_deleted: "inv s \<Longrightarrow> lookup_in (delete_in h k s) k' = (if k' = k then None else lookup_in s k')"
  using delete_law lookup_law by simp

lemma delete_after_insert:
  assumes "inv s" and "abs s k = None" and "insert_in h k v s = Inr (u, s')"
  shows "abs (delete_in h k s') = abs s"
  using delete_law insert_law [OF assms(1,3)] assms(2) by auto

end

interpretation hm: deleting_map_store HMAP_INIT hmap_insert hmap_lookup hmap_inv hmap_map hmap_delete
proof
  show "hmap_inv HMAP_INIT" "hmap_map HMAP_INIT = Map.empty"
    by (simp_all add: hmap_inv_def hmap_map_def HMAP_INIT_def)
next
  fix s h k v u s' assume "hmap_inv s" "hmap_insert h k v s = Inr (u, s')"
  then show "hmap_inv s' \<and> hmap_map s' = (hmap_map s)(k \<mapsto> v)"
    using hmap_insert_step [of s h k v] by auto
next
  fix s h k v e assume "hmap_inv s" "hmap_insert h k v s = Inl e"
  then show "e = Check_failed"
    using hmap_insert_step [of s h k v] by auto
qed (auto simp: hmap_lookup_eq hmap_delete_step)

section \<open>Properties\<close>

text \<open>
  C24: The hash map implements a finite map: from any state that satisfies its invariant, a lookup
  returns the entry of the map the table stands for; an insertion updates exactly that entry, and
  can only fail by reporting that the table would have to grow and cannot; a deletion removes
  exactly that entry, whether or not the shrinking that may follow gets its memory. Every
  operation keeps the invariant, so hash collisions, tombstones and rehashing are invisible.
\<close>

theorem hmap_refines_map:
  assumes "hmap_inv t"
  shows "hmap_lookup t key = hmap_map t key
    \<and> (case hmap_insert h key v t of
         Inl e \<Rightarrow> e = Check_failed \<and> hmap_map t key = None \<and> hmap_should_grow t \<and>
           (cap_order t = 25 \<or> \<not> calloc_ok h 24 (2 ^ max (cap_order t + 1) 3))
       | Inr (_, t') \<Rightarrow> hmap_inv t' \<and> hmap_map t' = (hmap_map t)(key \<mapsto> v))
    \<and> hmap_inv (hmap_delete h key t) \<and> hmap_map (hmap_delete h key t) = (hmap_map t)(key := None)"
  using hmap_lookup_eq [OF assms] hmap_insert_step [OF assms, of h key v] hmap_delete_step [OF assms]
  by auto

theorem hmap_refines_map_witness:
  "hmap_lookup HMAP_INIT 5 = None \<and> hmap_inv (hmap_delete roomy_host 5 HMAP_INIT)"
  using hmap_refines_map [of HMAP_INIT 5, OF hm.new_inv] by (simp add: hmap_map_def HMAP_INIT_def)

text \<open>
  The triangular probe sequence, computed in 64-bit arithmetic, visits every slot of the table
  within as many probes as there are slots, whatever the key and the capacity the map can have.
\<close>

theorem hmap_probe_complete:
  assumes "cap_order t \<le> MAX_CAP_ORDER" and "p < hmap_capacity t"
  shows "\<exists>!i. i < hmap_capacity t \<and> hmap_get_probe_slot t (hash_value t key) i = p"
proof -
  have ord: "cap_order t \<le> 25" using assms(1) by (simp add: MAX_CAP_ORDER_def)
  obtain i where i: "i < 2 ^ cap_order t" "probe_pos (cap_order t) (unat (hash_value t key)) i = p"
    using assms(2) by (auto simp: hmap_capacity_def elim: probe_pos_onto)
  have probe: "hmap_get_probe_slot t (hash_value t key) j = probe_pos (cap_order t) (unat (hash_value t key)) j"
    if "j < 2 ^ cap_order t" for j
    using hmap_get_probe_slot_eq [OF ord that] .
  show ?thesis
    unfolding hmap_capacity_def
  proof (rule ex1I [of _ i])
    show "i < 2 ^ cap_order t \<and> hmap_get_probe_slot t (hash_value t key) i = p"
      using i probe [OF i(1)] by simp
    fix j assume "j < 2 ^ cap_order t \<and> hmap_get_probe_slot t (hash_value t key) j = p"
    then show "j = i" using i probe probe_pos_inj by metis
  qed
qed

theorem hmap_probe_complete_witness:
  "\<exists>!i. i < 8 \<and> hmap_get_probe_slot \<lparr>cap_order = 3, hmap_size = 0, slots = None\<rparr>
      (hash_value \<lparr>cap_order = 3, hmap_size = 0, slots = None\<rparr> 42) i = 6"
  using hmap_probe_complete [of "\<lparr>cap_order = 3, hmap_size = 0, slots = None\<rparr>" 6 42]
  by (simp add: MAX_CAP_ORDER_def hmap_capacity_def)

text \<open>
  The iterator ends, and yields every entry of the map exactly once and nothing else.
\<close>

theorem hmap_iter_enumerates:
  assumes "hmap_inv t"
  shows "distinct (map fst (hmap_walk t 0)) \<and> map_of (hmap_walk t 0) = hmap_map t"
proof (cases "slots t")
  case None
  then have "hmap_walk t 0 = []" by (subst hmap_walk.simps) (simp add: hmap_iter_next_def)
  then show ?thesis using None by (simp add: hmap_map_def)
next
  case (Some ss)
  have walk: "hmap_walk t 0 = map (\<lambda>s. (slot_key s, slot_value s)) (filter used ss)"
    using hmap_walk_eq [OF assms Some, of 0] by simp
  have "map_of (map (\<lambda>s. (slot_key s, slot_value s)) (filter used xs)) = slots_map xs" for xs
    by (induction xs) (auto simp: slots_map_def)
  then show ?thesis using assms Some
    by (simp add: walk hmap_map_def hmap_inv_def slots_inv_def unique_keys_def comp_def)
qed

theorem hmap_iter_enumerates_witness: "hmap_walk HMAP_INIT 0 = [] \<and> distinct (map fst (hmap_walk HMAP_INIT 0))"
  using hmap_iter_enumerates [OF hm.new_inv] by (simp add: hm.new_abs)

end
