(* ===== verification/Module.thy ===== *)
theory Module
  imports Buffer
begin

text \<open>
  The section parsers of src/module.c.

  Each \<open>wasm_parse_..._section\<close> reads the section's contents and fills in one part of the module;
  here it is a reader that is given the module as loaded so far and returns the new one. The
  bytes of names and code are copied into fresh memory by the code; a copy is the same list.
  \<open>sizeof\<close> values are those of the x86-64 ABI. What is not modelled is the release of the parts of
  a module whose loading failed half-way.
\<close>

section \<open>Allocation\<close>

text \<open>\<open>p = CALLOC(type, count); CHECK(p != nullptr)\<close>.\<close>

definition CALLOC :: "host \<Rightarrow> nat \<Rightarrow> nat \<Rightarrow> ('s, unit) sm" where
  "CALLOC h sz count = check (calloc_ok h sz count)"

text \<open>An allocation whose result is used unchecked: writing through it is undefined if it is null.\<close>

definition calloc_unchecked :: "host \<Rightarrow> nat \<Rightarrow> nat \<Rightarrow> ('s, unit) sm" where
  "calloc_unchecked h n sz = defined (calloc_ok h n sz)"

text \<open>
  How most sections start: \<open>count = BUFFER_PULL_U32(buffer); CHECK(count <= buffer->len)\<close> and the
  allocation of an array of that many entries.
\<close>

definition pull_count :: "host \<Rightarrow> nat \<Rightarrow> nat parser" where
  "pull_count h sz =
     bind buffer_pull_u32 (\<lambda>count.
     bind (gets buffer_len) (\<lambda>len.
     bind (check (unat count \<le> len)) (\<lambda>_.
     bind (CALLOC h sz (unat count)) (\<lambda>_.
     ret (unat count)))))"

text \<open>How most sections end: \<open>CHECK(buffer->len == 0)\<close>.\<close>

definition at_end :: "unit parser" where
  "at_end = bind (gets buffer_len) (\<lambda>len. check (len = 0))"

text \<open>A name of length \<open>len\<close> copied into an unchecked allocation; the empty name is refused.\<close>

definition pull_copied_name :: "host \<Rightarrow> u8 list parser" where
  "pull_copied_name h =
     bind buffer_pull_name (\<lambda>name.
     bind (check (length name > 0)) (\<lambda>_.
     bind (calloc_unchecked h 1 (length name + 1)) (\<lambda>_.
     ret name)))"

section \<open>Header and sections\<close>

definition module_pull_magic_version :: "unit parser" where
  "module_pull_magic_version =
     bind (pull_bytes 8) (\<lambda>magic_version.
     check (magic_version = [0x00, 0x61, 0x73, 0x6D, 0x01, 0x00, 0x00, 0x00]))"

definition wasm_pull_section :: "(u8 \<times> u8 list) parser" where
  "wasm_pull_section =
     bind pull_u8 (\<lambda>id.
     bind buffer_pull_u32 (\<lambda>len.
     bind (pull_bytes (unat len)) (\<lambda>contents.
     ret (id, contents))))"

definition m_expected_section_order :: "u8 list" where
  "m_expected_section_order = [1, 2, 3, 4, 5, 13, 6, 7, 8, 9, 12, 10, 11]"

definition find_section_index :: "u8 \<Rightarrow> int \<Rightarrow> int" where
  "find_section_index sec from =
     (case List.find (\<lambda>i. m_expected_section_order ! i = sec) [nat from..<length m_expected_section_order] of
        Some i \<Rightarrow> int i | None \<Rightarrow> -1)"

section \<open>Types, imports, functions\<close>

definition wasm_pull_result_type :: "host \<Rightarrow> wasm_value_type list parser" where
  "wasm_pull_result_type h =
     bind (pull_count h 4) (\<lambda>count. repeat_sm count buffer_pull_val_type)"

definition pull_type :: "host \<Rightarrow> wasm_type parser" where
  "pull_type h =
     bind pull_u8 (\<lambda>tag.
     if tag = 0x60 then
       bind (wasm_pull_result_type h) (\<lambda>args.
       bind (wasm_pull_result_type h) (\<lambda>results.
       ret \<lparr>arg_types = args, result_types = results\<rparr>))
     else fail Check_failed)"

definition wasm_parse_type_section :: "host \<Rightarrow> wasm_module \<Rightarrow> wasm_module parser" where
  "wasm_parse_type_section h m =
     bind buffer_pull_u32 (\<lambda>count.
     bind (gets buffer_len) (\<lambda>len.
     bind (check (unat count < len)) (\<lambda>_.
     bind (CALLOC h 24 (unat count)) (\<lambda>_.
     bind (repeat_sm (unat count) (pull_type h)) (\<lambda>types.
     bind at_end (\<lambda>_.
     ret (m\<lparr>mod_types := types\<rparr>)))))))"

definition pull_import :: "host \<Rightarrow> wasm_module \<Rightarrow> wasm_import parser" where
  "pull_import h m =
     bind (pull_copied_name h) (\<lambda>module_name.
     bind (pull_copied_name h) (\<lambda>item_name.
     bind pull_u8 (\<lambda>byte.
     bind buffer_pull_u32 (\<lambda>index.
     if byte = 0x00 then
       bind (check (index < types_count m)) (\<lambda>_.
       ret \<lparr>import_module_name = module_name, import_item_name = item_name,
         import_kind = WASM_EXTERN_FUNC, import_index = index\<rparr>)
     else fail Check_failed))))"

definition wasm_parse_import_section :: "host \<Rightarrow> wasm_module \<Rightarrow> wasm_module parser" where
  "wasm_parse_import_section h m =
     bind (pull_count h 24) (\<lambda>count.
     bind (repeat_sm count (pull_import h m)) (\<lambda>imps.
     bind at_end (\<lambda>_.
     ret (m\<lparr>mod_imports := imps\<rparr>))))"

definition pull_typeidx :: "wasm_module \<Rightarrow> u32 parser" where
  "pull_typeidx m =
     bind buffer_pull_u32 (\<lambda>typeidx.
     bind (check (typeidx < types_count m)) (\<lambda>_.
     ret typeidx))"

definition wasm_parse_function_section :: "host \<Rightarrow> wasm_module \<Rightarrow> wasm_module parser" where
  "wasm_parse_function_section h m =
     bind (pull_count h 4) (\<lambda>count.
     bind (repeat_sm count (pull_typeidx m)) (\<lambda>funcs.
     bind at_end (\<lambda>_.
     ret (m\<lparr>mod_functions := funcs\<rparr>))))"

section \<open>Memory, globals, tables\<close>

text \<open>\<open>__builtin_mul_overflow\<close> on \<open>uint64_t\<close>: the product, checked to fit.\<close>

definition mul_pages :: "u64 \<Rightarrow> u64 parser" where
  "mul_pages pages =
     bind (check (unat pages * unat WASM_PAGE_SIZE < 2 ^ 64)) (\<lambda>_. ret (pages * WASM_PAGE_SIZE))"

definition pull_memory_limits :: "wasm_memory parser" where
  "pull_memory_limits =
     bind pull_u8 (\<lambda>limit_type.
     if limit_type = 0x00 then
       bind buffer_pull_u64 (\<lambda>min.
       ret \<lparr>mem_min = min, mem_max = 0xFFFFFFFF div WASM_PAGE_SIZE - 1, mem_shared = False\<rparr>)
     else if limit_type = 0x01 then
       bind buffer_pull_u64 (\<lambda>min.
       bind buffer_pull_u64 (\<lambda>max.
       ret \<lparr>mem_min = min, mem_max = max, mem_shared = False\<rparr>))
     else if limit_type = 0x03 then
       bind buffer_pull_u64 (\<lambda>min.
       bind buffer_pull_u64 (\<lambda>max.
       ret \<lparr>mem_min = min, mem_max = max, mem_shared = True\<rparr>))
     else fail Check_failed)"

definition wasm_parse_memory_section :: "wasm_module \<Rightarrow> wasm_module parser" where
  "wasm_parse_memory_section m =
     bind buffer_pull_u32 (\<lambda>count.
     bind (check (count = 1)) (\<lambda>_.
     bind pull_memory_limits (\<lambda>memory.
     bind (check (mem_min memory \<le> mem_max memory)) (\<lambda>_.
     bind (mul_pages (mem_min memory)) (\<lambda>min.
     bind (mul_pages (mem_max memory)) (\<lambda>max.
     bind (check (min \<le> SIZE_4GB)) (\<lambda>_.
     bind (check (max \<le> SIZE_4GB)) (\<lambda>_.
     bind at_end (\<lambda>_.
     ret (m\<lparr>mod_memory := \<lparr>mem_min = min, mem_max = max, mem_shared = mem_shared memory\<rparr>\<rparr>))))))))))"

definition wasm_parse_constant_expr :: "wasm_value parser" where
  "wasm_parse_constant_expr =
     bind pull_u8 (\<lambda>byte.
     bind (if byte = 0x41 then bind buffer_pull_i32 (\<lambda>v. ret (Value_i32 v))
           else if byte = 0x42 then bind buffer_pull_i64 (\<lambda>v. ret (Value_i64 v))
           else if byte = 0x43 then bind pull_f32 (\<lambda>v. ret (Value_f32 v))
           else if byte = 0x44 then bind pull_f64 (\<lambda>v. ret (Value_f64 v))
           else fail Check_failed) (\<lambda>value.
     bind pull_u8 (\<lambda>expr_end.
     bind (check (expr_end = 0x0B)) (\<lambda>_.
     ret value))))"

definition pull_global :: "wasm_global parser" where
  "pull_global =
     bind buffer_pull_val_type (\<lambda>type.
     bind pull_u8 (\<lambda>mut.
     bind (check (mut = 0x00 \<or> mut = 0x01)) (\<lambda>_.
     bind wasm_parse_constant_expr (\<lambda>value.
     bind (check (value_kind value = type)) (\<lambda>_.
     ret \<lparr>global_value = value, global_mutable = (mut = 0x01)\<rparr>)))))"

definition wasm_parse_global_section :: "host \<Rightarrow> wasm_module \<Rightarrow> wasm_module parser" where
  "wasm_parse_global_section h m =
     bind (pull_count h 24) (\<lambda>count.
     bind (repeat_sm count pull_global) (\<lambda>globals.
     bind at_end (\<lambda>_.
     ret (m\<lparr>mod_globals := globals\<rparr>))))"

definition pull_table :: "wasm_table parser" where
  "pull_table =
     bind pull_u8 (\<lambda>reftype.
     bind (check (reftype = 0x70)) (\<lambda>_.
     bind pull_u8 (\<lambda>limit_type.
     bind (if limit_type = 0x00 then
             bind buffer_pull_u32 (\<lambda>min. ret \<lparr>table_min = min, table_max = 0xFFFFFFFF\<rparr>)
           else if limit_type = 0x01 then
             bind buffer_pull_u32 (\<lambda>min.
             bind buffer_pull_u32 (\<lambda>max.
             ret \<lparr>table_min = min, table_max = max\<rparr>))
           else fail Check_failed) (\<lambda>table.
     bind (check (table_min table \<le> table_max table)) (\<lambda>_.
     ret table)))))"

definition wasm_parse_table_section :: "host \<Rightarrow> wasm_module \<Rightarrow> wasm_module parser" where
  "wasm_parse_table_section h m =
     bind (pull_count h 8) (\<lambda>count.
     bind (repeat_sm count pull_table) (\<lambda>tables.
     bind at_end (\<lambda>_.
     ret (m\<lparr>mod_tables := tables\<rparr>))))"

section \<open>Element and data segments\<close>

text \<open>A constant expression of type \<open>i32\<close>, read as the unsigned offset of a segment.\<close>

definition pull_offset :: "u32 parser" where
  "pull_offset =
     bind wasm_parse_constant_expr (\<lambda>value.
     case value of Value_i32 v \<Rightarrow> ret v | _ \<Rightarrow> fail Check_failed)"

definition pull_funcidx :: "wasm_module \<Rightarrow> u32 parser" where
  "pull_funcidx m =
     bind buffer_pull_u32 (\<lambda>fidx.
     bind (check (fidx < functions_count m + imports_count m)) (\<lambda>_.
     ret fidx))"

definition pull_elem :: "host \<Rightarrow> wasm_module \<Rightarrow> wasm_elem_segment parser" where
  "pull_elem h m =
     bind buffer_pull_u32 (\<lambda>kind.
     bind (check (kind = 0)) (\<lambda>_.
     bind pull_offset (\<lambda>offset.
     bind buffer_pull_u32 (\<lambda>funcs_count.
     bind (gets buffer_len) (\<lambda>len.
     bind (check (unat funcs_count < len)) (\<lambda>_.
     bind (CALLOC h 4 (unat funcs_count)) (\<lambda>_.
     bind (repeat_sm (unat funcs_count) (pull_funcidx m)) (\<lambda>funcs.
     ret \<lparr>elem_tableidx = 0, elem_offset = offset, elem_funcs = funcs\<rparr>))))))))"

definition wasm_parse_element_section :: "host \<Rightarrow> wasm_module \<Rightarrow> wasm_module parser" where
  "wasm_parse_element_section h m =
     bind (pull_count h 24) (\<lambda>count.
     bind (repeat_sm count (pull_elem h m)) (\<lambda>elems.
     bind at_end (\<lambda>_.
     ret (m\<lparr>mod_elems := elems\<rparr>))))"

text \<open>The bytes of a data segment; an empty segment may have a null pointer.\<close>

definition pull_data_bytes :: "host \<Rightarrow> u8 list parser" where
  "pull_data_bytes h =
     bind buffer_pull_u32 (\<lambda>len.
     bind (pull_bytes (unat len)) (\<lambda>src.
     bind (check (len = 0 \<or> calloc_ok h 1 (unat len))) (\<lambda>_.
     ret src)))"

definition pull_data :: "host \<Rightarrow> wasm_data parser" where
  "pull_data h =
     bind buffer_pull_u32 (\<lambda>kind.
     if kind = 0 then
       bind pull_offset (\<lambda>offset.
       bind (pull_data_bytes h) (\<lambda>data.
       ret \<lparr>data_offset = offset, data_bytes = data, data_active = True\<rparr>))
     else if kind = 1 then
       bind (pull_data_bytes h) (\<lambda>data.
       ret \<lparr>data_offset = 0, data_bytes = data, data_active = False\<rparr>)
     else fail Check_failed)"

definition wasm_parse_data_section :: "host \<Rightarrow> wasm_module \<Rightarrow> wasm_module parser" where
  "wasm_parse_data_section h m =
     bind (pull_count h 24) (\<lambda>count.
     bind (repeat_sm count (pull_data h)) (\<lambda>data.
     bind at_end (\<lambda>_.
     ret (m\<lparr>mod_data := data\<rparr>))))"

section \<open>Exports, start function, code\<close>

definition pull_export :: "host \<Rightarrow> wasm_module \<Rightarrow> wasm_export parser" where
  "pull_export h m =
     bind (pull_copied_name h) (\<lambda>name.
     bind pull_u8 (\<lambda>byte.
     bind buffer_pull_u32 (\<lambda>index.
     bind (if byte = 0x00 then
             bind (check (index < functions_count m + imports_count m)) (\<lambda>_. ret WASM_EXPORT_FUNC)
           else if byte = 0x02 then bind (check (index = 0)) (\<lambda>_. ret WASM_EXPORT_MEMORY)
           else if byte = 0x03 then
             bind (check (index < globals_count m)) (\<lambda>_. ret WASM_EXPORT_GLOBAL)
           else fail Check_failed) (\<lambda>kind.
     ret \<lparr>export_name = name, export_kind = kind, export_index = index\<rparr>))))"

definition wasm_parse_export_section :: "host \<Rightarrow> wasm_module \<Rightarrow> wasm_module parser" where
  "wasm_parse_export_section h m =
     bind (pull_count h 16) (\<lambda>count.
     bind (repeat_sm count (pull_export h m)) (\<lambda>exps.
     bind at_end (\<lambda>_.
     ret (m\<lparr>mod_exports := exps\<rparr>))))"

text \<open>The type index of the start function, an import or a function of the module.\<close>

definition start_typeidx :: "wasm_module \<Rightarrow> u32 \<Rightarrow> u32 parser" where
  "start_typeidx m start =
     (if start < imports_count m then
        bind (index (mod_imports m) (unat start)) (\<lambda>import.
        bind (check (import_kind import = WASM_EXTERN_FUNC)) (\<lambda>_.
        ret (import_index import)))
      else index (mod_functions m) (unat (start - imports_count m)))"

text \<open>The start function must exist and have an empty signature.\<close>

definition wasm_parse_start_section :: "wasm_module \<Rightarrow> wasm_module parser" where
  "wasm_parse_start_section m =
     bind buffer_pull_u32 (\<lambda>start.
     bind at_end (\<lambda>_.
     bind (check (start < imports_count m + functions_count m)) (\<lambda>_.
     bind (start_typeidx m start) (\<lambda>idx.
     bind (index (mod_types m) (unat idx)) (\<lambda>type.
     bind (check (arg_types type = [])) (\<lambda>_.
     bind (check (result_types type = [])) (\<lambda>_.
     ret (m\<lparr>mod_start_func := int (unat start)\<rparr>))))))))"

definition pull_code :: "host \<Rightarrow> u8 list parser" where
  "pull_code h =
     bind buffer_pull_u32 (\<lambda>len.
     bind (pull_bytes (unat len)) (\<lambda>data.
     bind (CALLOC h 1 (unat len)) (\<lambda>_.
     ret data)))"

definition wasm_parse_code_section :: "host \<Rightarrow> wasm_module \<Rightarrow> wasm_module parser" where
  "wasm_parse_code_section h m =
     bind buffer_pull_u32 (\<lambda>count.
     bind (check (count = functions_count m)) (\<lambda>_.
     bind (CALLOC h 16 (unat count)) (\<lambda>_.
     bind (repeat_sm (unat count) (pull_code h)) (\<lambda>code.
     bind at_end (\<lambda>_.
     ret (m\<lparr>mod_code := Some code\<rparr>))))))"

end
