(* ===== verification/Module_Valid.thy ===== *)
theory Module_Valid
  imports Module_Load
begin

text \<open>
  What the loader establishes. \<open>module_ok\<close> collects the facts the JIT relies on: every type,
  function, import, global and export index a loaded module contains is inside its array, the
  memory limits are whole pages within 4 GiB, every function has a body. The section parsers
  check an index against arrays of earlier sections, so the proof rests on the order of the
  sections: the loop invariant \<open>loading\<close> says which parts are still empty.
\<close>

section \<open>Well-formed modules\<close>

definition name_ok :: "u8 list \<Rightarrow> bool" where
  "name_ok n \<longleftrightarrow> n \<noteq> [] \<and> is_utf8 n"

definition type_ok :: "wasm_type \<Rightarrow> bool" where
  "type_ok t \<longleftrightarrow> WASM_VALUE_TYPE_INVALID \<notin> set (arg_types t) \<and> WASM_VALUE_TYPE_INVALID \<notin> set (result_types t)"

definition typeidx_ok :: "wasm_module \<Rightarrow> u32 \<Rightarrow> bool" where
  "typeidx_ok m i \<longleftrightarrow> unat i < length (mod_types m)"

definition import_ok :: "wasm_module \<Rightarrow> wasm_import \<Rightarrow> bool" where
  "import_ok m i \<longleftrightarrow> name_ok (import_module_name i) \<and> name_ok (import_item_name i) \<and>
     import_kind i = WASM_EXTERN_FUNC \<and> typeidx_ok m (import_index i)"

definition global_ok :: "wasm_global \<Rightarrow> bool" where
  "global_ok g \<longleftrightarrow> global_value g \<noteq> No_value"

definition table_ok :: "wasm_table \<Rightarrow> bool" where
  "table_ok t \<longleftrightarrow> table_min t \<le> table_max t"

definition funcidx_ok :: "wasm_module \<Rightarrow> u32 \<Rightarrow> bool" where
  "funcidx_ok m i \<longleftrightarrow> unat i < total_funcs m"

definition elem_ok :: "wasm_module \<Rightarrow> wasm_elem_segment \<Rightarrow> bool" where
  "elem_ok m e \<longleftrightarrow> elem_tableidx e = 0 \<and> list_all (funcidx_ok m) (elem_funcs e)"

definition export_ok :: "wasm_module \<Rightarrow> wasm_export \<Rightarrow> bool" where
  "export_ok m e \<longleftrightarrow> name_ok (export_name e) \<and>
     (case export_kind e of
        WASM_EXPORT_FUNC \<Rightarrow> funcidx_ok m (export_index e)
      | WASM_EXPORT_MEMORY \<Rightarrow> export_index e = 0
      | WASM_EXPORT_GLOBAL \<Rightarrow> unat (export_index e) < length (mod_globals m)
      | _ \<Rightarrow> False)"

definition memory_ok :: "wasm_memory \<Rightarrow> bool" where
  "memory_ok mem \<longleftrightarrow> mem_min mem \<le> mem_max mem \<and> unat (mem_max mem) \<le> 2 ^ 32 \<and>
     65536 dvd unat (mem_min mem) \<and> 65536 dvd unat (mem_max mem)"

definition start_ok :: "wasm_module \<Rightarrow> bool" where
  "start_ok m \<longleftrightarrow> mod_start_func m = - 1 \<or>
     (0 \<le> mod_start_func m \<and> mod_start_func m < int (total_funcs m) \<and>
      wasm_get_func m (mod_start_func m) = Inr (Some \<lparr>arg_types = [], result_types = []\<rparr>))"

definition code_ok :: "wasm_module \<Rightarrow> bool" where
  "code_ok m \<longleftrightarrow> (case mod_code m of None \<Rightarrow> True | Some code \<Rightarrow> length code = length (mod_functions m))"

definition module_ok :: "wasm_module \<Rightarrow> bool" where
  "module_ok m \<longleftrightarrow>
     list_all type_ok (mod_types m) \<and> list_all (import_ok m) (mod_imports m) \<and>
     list_all (typeidx_ok m) (mod_functions m) \<and> list_all global_ok (mod_globals m) \<and>
     list_all table_ok (mod_tables m) \<and> list_all (elem_ok m) (mod_elems m) \<and>
     list_all (export_ok m) (mod_exports m) \<and> memory_ok (mod_memory m) \<and> start_ok m \<and> code_ok m \<and>
     length (mod_imports m) < 2 ^ 32 \<and> length (mod_functions m) < 2 ^ 32"

lemmas entry_ok_defs = type_ok_def typeidx_ok_def import_ok_def global_ok_def table_ok_def funcidx_ok_def
  elem_ok_def export_ok_def code_ok_def total_funcs_def

section \<open>What the section parsers return\<close>

lemma repeat_run_all:
  assumes "\<And>s x s'. m s = Inr (x, s') \<Longrightarrow> P x" and "repeat_sm n m s = Inr (xs, s')"
  shows "list_all P xs \<and> length xs = n"
  using assms(2)
proof (induction n arbitrary: s xs s')
  case (Suc n)
  then show ?case using assms(1) by (auto simp: bind_run)
qed simp

lemma pull_count_bound: "pull_count h sz b = Inr (n, b') \<Longrightarrow> n < 2 ^ 32"
  using unat_u32_bound by (auto simp: pull_count_def bind_run)

lemma at_end_run [simp]: "at_end b = Inr (u, b') \<longleftrightarrow> rest b = [] \<and> b' = b"
  by (auto simp: at_end_def bind_run buffer_len_def)

lemma CALLOC_run [simp]: "CALLOC h sz n s = Inr (u, s') \<longleftrightarrow> calloc_ok h sz n \<and> s' = s"
  by (simp add: CALLOC_def)

lemma calloc_unchecked_run [simp]: "calloc_unchecked h sz n s = Inr (u, s') \<longleftrightarrow> calloc_ok h sz n \<and> s' = s"
  by (simp add: calloc_unchecked_def)

lemma unat_of_length: "unat (word_of_nat n :: u32) \<le> n"
  by (simp add: unat_of_nat take_bit_nat_less_eq_self)

lemma unat_count: "n < 2 ^ 32 \<Longrightarrow> unat (word_of_nat n :: u32) = n"
  by (simp add: unat_of_nat)

lemma below_count: "i < (word_of_nat n :: u32) \<Longrightarrow> unat i < n"
  using unat_of_length [of n] by (simp add: word_less_nat_alt)

lemma below_sum: "i < (word_of_nat n + word_of_nat k :: u32) \<Longrightarrow> unat i < n + k"
  using below_count [of i "n + k"] by simp

lemma pull_copied_name_post: "pull_copied_name h b = Inr (n, b') \<Longrightarrow> name_ok n"
  by (auto simp: pull_copied_name_def bind_run name_ok_def elim: buffer_pull_name_post)

lemma val_type_post: "buffer_pull_val_type b = Inr (t, b') \<Longrightarrow> t \<noteq> WASM_VALUE_TYPE_INVALID"
  by (auto simp: buffer_pull_val_type_def bind_run split: if_splits)

lemma result_type_post:
  assumes "wasm_pull_result_type h b = Inr (ts, b')"
  shows "WASM_VALUE_TYPE_INVALID \<notin> set ts"
proof -
  obtain n b1 where "repeat_sm n buffer_pull_val_type b1 = Inr (ts, b')"
    using assms by (auto simp: wasm_pull_result_type_def bind_run)
  then have "list_all (\<lambda>t. t \<noteq> WASM_VALUE_TYPE_INVALID) ts"
    by (rule repeat_run_all [THEN conjunct1, rotated]) (rule val_type_post)
  then show ?thesis by (auto simp: list_all_iff)
qed

lemma pull_type_post: "pull_type h b = Inr (t, b') \<Longrightarrow> type_ok t"
  by (auto simp: pull_type_def bind_run type_ok_def dest: result_type_post split: if_splits)

lemma pull_import_post: "pull_import h m b = Inr (i, b') \<Longrightarrow> import_ok m i"
  by (auto simp: pull_import_def bind_run import_ok_def typeidx_ok_def types_count_def
      dest: pull_copied_name_post below_count split: if_splits)

lemma pull_typeidx_post: "pull_typeidx m b = Inr (i, b') \<Longrightarrow> typeidx_ok m i"
  by (auto simp: pull_typeidx_def bind_run typeidx_ok_def types_count_def dest: below_count)

lemma constant_expr_post: "wasm_parse_constant_expr b = Inr (v, b') \<Longrightarrow> v \<noteq> No_value"
  by (auto simp: wasm_parse_constant_expr_def bind_run split: if_splits)

lemma pull_global_post: "pull_global b = Inr (g, b') \<Longrightarrow> global_ok g"
  by (auto simp: pull_global_def bind_run global_ok_def dest: constant_expr_post)

lemma pull_table_post: "pull_table b = Inr (t, b') \<Longrightarrow> table_ok t"
  by (auto simp: pull_table_def bind_run table_ok_def split: if_splits)

lemma pull_funcidx_post: "pull_funcidx m b = Inr (i, b') \<Longrightarrow> funcidx_ok m i"
  by (auto simp: pull_funcidx_def bind_run entry_ok_defs functions_count_def imports_count_def
      dest: below_sum)

lemma pull_elem_post: "pull_elem h m b = Inr (e, b') \<Longrightarrow> elem_ok m e"
  using repeat_run_all [of "pull_funcidx m" "funcidx_ok m"] pull_funcidx_post
  by (fastforce simp: pull_elem_def bind_run elem_ok_def)

lemma pull_export_post: "pull_export h m b = Inr (e, b') \<Longrightarrow> export_ok m e"
  by (auto simp: pull_export_def bind_run entry_ok_defs functions_count_def imports_count_def
      globals_count_def dest: below_sum below_count pull_copied_name_post split: if_splits)

text \<open>The shape of a section that fills one array.\<close>

lemma array_section_post:
  assumes "bind (pull_count h sz) (\<lambda>n. bind (repeat_sm n p) (\<lambda>xs. bind at_end (\<lambda>_. ret (f xs)))) b = Inr (m', b')"
    and "\<And>b x b'. p b = Inr (x, b') \<Longrightarrow> P x"
  obtains xs where "m' = f xs" and "list_all P xs" and "length xs < 2 ^ 32"
proof -
  obtain n b1 xs b2 where "pull_count h sz b = Inr (n, b1)" "repeat_sm n p b1 = Inr (xs, b2)" "m' = f xs"
    using assms(1) by (auto simp: bind_run)
  then show thesis using that repeat_run_all [of p P n b1 xs b2] assms(2) pull_count_bound by blast
qed

lemma mul_pages_run:
  "mul_pages p b = Inr (v, b') \<longleftrightarrow> unat p * 65536 < 2 ^ 64 \<and> v = p * 65536 \<and> b' = b"
  by (auto simp: mul_pages_def bind_run WASM_PAGE_SIZE_def)

lemma memory_ok_pages:
  assumes "lo \<le> hi" and "unat lo * 65536 < 2 ^ 64" and "unat hi * 65536 < 2 ^ 64"
    and "hi * 65536 \<le> SIZE_4GB"
  shows "memory_ok \<lparr>mem_min = lo * 65536, mem_max = hi * 65536, mem_shared = shared\<rparr>"
proof -
  have bytes: "unat (p * 65536) = unat p * 65536" if "unat p * 65536 < 2 ^ 64" for p :: u64
    using that by (simp add: unat_word_ariths)
  have "lo * 65536 \<le> hi * 65536"
    using assms(1) bytes [OF assms(2)] bytes [OF assms(3)] by (simp add: word_le_nat_alt)
  moreover have "unat (hi * 65536) \<le> 2 ^ 32"
    using assms(4) by (simp add: word_le_nat_alt SIZE_4GB_def)
  ultimately show ?thesis using bytes [OF assms(2)] bytes [OF assms(3)] by (simp add: memory_ok_def)
qed

lemma memory_section_post:
  "wasm_parse_memory_section m b = Inr (m', b') \<Longrightarrow> \<exists>mem. m' = m\<lparr>mod_memory := mem\<rparr> \<and> memory_ok mem"
  unfolding wasm_parse_memory_section_def bind_run mul_pages_run check_run at_end_run ret_run
  by (elim exE conjE, intro exI conjI, hypsubst, rule refl, hypsubst, rule memory_ok_pages; assumption)

lemma type_section_post:
  assumes "wasm_parse_type_section h m b = Inr (m', b')"
  obtains xs where "m' = m\<lparr>mod_types := xs\<rparr>" and "list_all type_ok xs"
proof -
  obtain n b1 xs b2 where "repeat_sm n (pull_type h) b1 = Inr (xs, b2)" "m' = m\<lparr>mod_types := xs\<rparr>"
    using assms by (auto simp: wasm_parse_type_section_def bind_run)
  moreover from this(1) have "list_all type_ok xs"
    by (rule repeat_run_all [THEN conjunct1, rotated]) (rule pull_type_post)
  ultimately show thesis by (intro that)
qed

lemma code_section_post:
  assumes "wasm_parse_code_section h m b = Inr (m', b')" and "length (mod_functions m) < 2 ^ 32"
  obtains code where "m' = m\<lparr>mod_code := Some code\<rparr>" and "length code = length (mod_functions m)"
proof -
  obtain b1 code b2 where "repeat_sm (unat (functions_count m)) (pull_code h) b1 = Inr (code, b2)"
    "m' = m\<lparr>mod_code := Some code\<rparr>"
    using assms(1) by (auto simp: wasm_parse_code_section_def bind_run)
  moreover from this(1) have "length code = length (mod_functions m)"
    using repeat_run_length assms(2) by (fastforce simp: functions_count_def unat_count)
  ultimately show thesis by (intro that)
qed

text \<open>The start section reads the arrays inside their bounds, and checks the signature.\<close>

lemma start_index:
  fixes s :: u32
  assumes "list_all (import_ok m) (mod_imports m)" and "list_all (typeidx_ok m) (mod_functions m)"
    and "length (mod_imports m) < 2 ^ 32" and "length (mod_functions m) < 2 ^ 32"
    and "s < imports_count m + functions_count m"
  shows "s < imports_count m \<Longrightarrow> unat s < length (mod_imports m) \<and> import_ok m (mod_imports m ! unat s)"
    and "\<not> s < imports_count m \<Longrightarrow> unat (s - imports_count m) = unat s - length (mod_imports m) \<and>
      length (mod_imports m) \<le> unat s \<and> unat s - length (mod_imports m) < length (mod_functions m) \<and>
      typeidx_ok m (mod_functions m ! (unat s - length (mod_imports m)))"
proof -
  have ic: "unat (imports_count m) = length (mod_imports m)"
    using assms(3) by (simp add: imports_count_def unat_count)
  show "s < imports_count m \<Longrightarrow> unat s < length (mod_imports m) \<and> import_ok m (mod_imports m ! unat s)"
    using assms(1) ic by (simp add: word_less_nat_alt list_all_length)
  assume "\<not> s < imports_count m"
  then have le: "imports_count m \<le> s" by simp
  then have "unat (s - imports_count m) = unat s - length (mod_imports m)" "length (mod_imports m) \<le> unat s"
    using ic by (simp_all add: unat_sub word_le_nat_alt)
  moreover have "unat s < length (mod_imports m) + length (mod_functions m)"
    using assms(5) below_sum by (simp add: imports_count_def functions_count_def)
  ultimately show "unat (s - imports_count m) = unat s - length (mod_imports m) \<and>
      length (mod_imports m) \<le> unat s \<and> unat s - length (mod_imports m) < length (mod_functions m) \<and>
      typeidx_ok m (mod_functions m ! (unat s - length (mod_imports m)))"
    using assms(2) by (simp add: list_all_length)
qed

lemma get_func_import:
  "n < length (mod_imports m) \<Longrightarrow> import_ok m (mod_imports m ! n) \<Longrightarrow>
     wasm_get_func m (int n) = Inr (Some (mod_types m ! unat (import_index (mod_imports m ! n))))"
  by (simp add: wasm_get_func_def import_ok_def typeidx_ok_def)

lemma get_func_internal:
  "length (mod_imports m) \<le> n \<Longrightarrow> n - length (mod_imports m) < length (mod_functions m) \<Longrightarrow>
     typeidx_ok m (mod_functions m ! (n - length (mod_imports m))) \<Longrightarrow>
     wasm_get_func m (int n) = Inr (Some (mod_types m ! unat (mod_functions m ! (n - length (mod_imports m)))))"
  by (simp add: wasm_get_func_def typeidx_ok_def)

lemma get_func_start [simp]: "wasm_get_func (m\<lparr>mod_start_func := s\<rparr>) i = wasm_get_func m i"
  by (simp add: wasm_get_func_def Let_def)

lemma start_okI:
  "n < total_funcs m \<Longrightarrow> wasm_get_func m (int n) = Inr (Some \<lparr>arg_types = [], result_types = []\<rparr>) \<Longrightarrow>
     start_ok (m\<lparr>mod_start_func := int n\<rparr>)"
  by (simp add: start_ok_def total_funcs_def)

lemma start_section_post:
  assumes "wasm_parse_start_section m b = Inr (m', b')" and "module_ok m"
  obtains s where "m' = m\<lparr>mod_start_func := s\<rparr>" and "start_ok (m\<lparr>mod_start_func := s\<rparr>)"
proof -
  have ok: "list_all (import_ok m) (mod_imports m)" "list_all (typeidx_ok m) (mod_functions m)"
    "length (mod_imports m) < 2 ^ 32" "length (mod_functions m) < 2 ^ 32"
    using assms(2) by (simp_all add: module_ok_def)
  obtain s b1 idx b2 where s: "s < imports_count m + functions_count m" "m' = m\<lparr>mod_start_func := int (unat s)\<rparr>"
    and idx: "start_typeidx m s b1 = Inr (idx, b2)"
    and sig: "arg_types (mod_types m ! unat idx) = []" "result_types (mod_types m ! unat idx) = []"
    using assms(1) by (auto simp: wasm_parse_start_section_def bind_run)
  have ty: "mod_types m ! unat idx = \<lparr>arg_types = [], result_types = []\<rparr>" using sig by simp
  note start = start_index [OF ok s(1)]
  have "unat s < total_funcs m"
    using s(1) below_sum by (simp add: imports_count_def functions_count_def total_funcs_def)
  moreover have "wasm_get_func m (int (unat s)) = Inr (Some \<lparr>arg_types = [], result_types = []\<rparr>)"
  proof (cases "s < imports_count m")
    case True
    then have "idx = import_index (mod_imports m ! unat s)" using idx by (auto simp: start_typeidx_def bind_run)
    then show ?thesis using True start(1) ty by (metis get_func_import)
  next
    case False
    then have "idx = mod_functions m ! unat (s - imports_count m)" using idx by (simp add: start_typeidx_def)
    then show ?thesis using False start(2) ty by (metis get_func_internal)
  qed
  ultimately have "start_ok (m\<lparr>mod_start_func := int (unat s)\<rparr>)"
    by (rule start_okI)
  then show thesis using s(2) by (rule that [rotated])
qed

section \<open>The invariant of the loader\<close>

text \<open>The position of a section in the expected order, and which parts are filled from there on.\<close>

definition loading :: "wasm_module \<Rightarrow> int \<Rightarrow> bool" where
  "loading m c \<longleftrightarrow> module_ok m \<and> 0 \<le> c \<and>
     (c \<le> 1 \<longrightarrow> mod_imports m = []) \<and> (c \<le> 2 \<longrightarrow> mod_functions m = []) \<and>
     (c \<le> 6 \<longrightarrow> mod_globals m = []) \<and> (c \<le> 7 \<longrightarrow> mod_exports m = []) \<and>
     (c \<le> 8 \<longrightarrow> mod_start_func m = - 1) \<and> (c \<le> 9 \<longrightarrow> mod_elems m = []) \<and>
     (c \<le> 11 \<longrightarrow> mod_code m = None)"

lemma find_upt_Some:
  "List.find P [i..<n] = Some k \<longleftrightarrow> i \<le> k \<and> k < n \<and> P k \<and> (\<forall>j. i \<le> j \<longrightarrow> j < k \<longrightarrow> \<not> P j)"
proof
  assume "List.find P [i..<n] = Some k"
  then obtain q where q: "q < n - i" "P (i + q)" "k = i + q" "\<forall>j < q. \<not> P (i + j)"
    by (auto simp: find_Some_iff)
  have "\<not> P j" if "i \<le> j" "j < k" for j
    using q(3,4) that by (metis add_less_cancel_left le_add_diff_inverse)
  then show "i \<le> k \<and> k < n \<and> P k \<and> (\<forall>j. i \<le> j \<longrightarrow> j < k \<longrightarrow> \<not> P j)" using q by auto
next
  assume "i \<le> k \<and> k < n \<and> P k \<and> (\<forall>j. i \<le> j \<longrightarrow> j < k \<longrightarrow> \<not> P j)"
  then show "List.find P [i..<n] = Some k"
    by (auto simp: find_Some_iff intro!: exI [of _ "k - i"])
qed

lemma section_position:
  assumes "find_section_index sec from = int k" and "0 \<le> from"
  shows "from \<le> int k" and "k < 13" and "m_expected_section_order ! k = sec"
proof -
  have "List.find (\<lambda>i. m_expected_section_order ! i = sec) [nat from..<length m_expected_section_order] = Some k"
    using assms(1) by (auto simp: find_section_index_def split: option.splits)
  then have "nat from \<le> k" "k < length m_expected_section_order" "m_expected_section_order ! k = sec"
    by (simp_all only: find_upt_Some)
  then show "from \<le> int k" "k < 13" "m_expected_section_order ! k = sec"
    by (simp_all add: m_expected_section_order_def)
qed

text \<open>Only one position in the order holds a given section.\<close>

lemma position_unique:
  assumes "k < 13" and "j < 13" and "m_expected_section_order ! k = m_expected_section_order ! j"
  shows "k = j"
proof -
  have "distinct m_expected_section_order" by (simp add: m_expected_section_order_def)
  moreover have "length m_expected_section_order = 13" by (simp add: m_expected_section_order_def)
  ultimately show ?thesis using assms by (simp add: nth_eq_iff_index_eq)
qed

lemma next_index_position:
  assumes "next_index (m_expected_section_order ! k) c = Some c'" and "0 \<le> c" and "k < 13"
  shows "c \<le> int k \<and> c' = int k + 1"
proof -
  let ?s = "m_expected_section_order ! k"
  have "0 \<notin> set m_expected_section_order" by (simp add: m_expected_section_order_def)
  moreover have "?s \<in> set m_expected_section_order"
    using assms(3) by (intro nth_mem) (simp add: m_expected_section_order_def)
  ultimately have "?s \<noteq> 0" by metis
  then have c': "c' = find_section_index ?s c + 1" "find_section_index ?s c \<ge> c"
    using assms(1) by (auto simp: next_index_def Let_def split: if_splits)
  then obtain j where j: "find_section_index ?s c = int j" using assms(2) by (metis nonneg_int_cases order_trans)
  then have "j = k" using section_position [OF j assms(2)] assms(3) position_unique by blast
  then show ?thesis using c' j section_position(1) [OF j assms(2)] by simp
qed

lemma next_index_of:
  "0 \<le> c \<Longrightarrow> next_index 1 c = Some c' \<Longrightarrow> c \<le> 0 \<and> c' = 1"
  "0 \<le> c \<Longrightarrow> next_index 2 c = Some c' \<Longrightarrow> c \<le> 1 \<and> c' = 2"
  "0 \<le> c \<Longrightarrow> next_index 3 c = Some c' \<Longrightarrow> c \<le> 2 \<and> c' = 3"
  "0 \<le> c \<Longrightarrow> next_index 4 c = Some c' \<Longrightarrow> c \<le> 3 \<and> c' = 4"
  "0 \<le> c \<Longrightarrow> next_index 5 c = Some c' \<Longrightarrow> c \<le> 4 \<and> c' = 5"
  "0 \<le> c \<Longrightarrow> next_index 6 c = Some c' \<Longrightarrow> c \<le> 6 \<and> c' = 7"
  "0 \<le> c \<Longrightarrow> next_index 7 c = Some c' \<Longrightarrow> c \<le> 7 \<and> c' = 8"
  "0 \<le> c \<Longrightarrow> next_index 8 c = Some c' \<Longrightarrow> c \<le> 8 \<and> c' = 9"
  "0 \<le> c \<Longrightarrow> next_index 9 c = Some c' \<Longrightarrow> c \<le> 9 \<and> c' = 10"
  "0 \<le> c \<Longrightarrow> next_index 12 c = Some c' \<Longrightarrow> c \<le> 10 \<and> c' = 11"
  "0 \<le> c \<Longrightarrow> next_index 10 c = Some c' \<Longrightarrow> c \<le> 11 \<and> c' = 12"
  "0 \<le> c \<Longrightarrow> next_index 11 c = Some c' \<Longrightarrow> c \<le> 12 \<and> c' = 13"
  using next_index_position [of 0 c c'] next_index_position [of 1 c c'] next_index_position [of 2 c c']
    next_index_position [of 3 c c'] next_index_position [of 4 c c'] next_index_position [of 6 c c']
    next_index_position [of 7 c c'] next_index_position [of 8 c c'] next_index_position [of 9 c c']
    next_index_position [of 10 c c'] next_index_position [of 11 c c'] next_index_position [of 12 c c']
  by (simp_all add: m_expected_section_order_def)

text \<open>Each condition depends on few parts of the module, and survives an update of the others.\<close>

lemma typeidx_ok_update [simp]:
  "typeidx_ok (m\<lparr>mod_functions := x_functions\<rparr>) = typeidx_ok m"
  "typeidx_ok (m\<lparr>mod_globals := x_globals\<rparr>) = typeidx_ok m"
  "typeidx_ok (m\<lparr>mod_imports := x_imports\<rparr>) = typeidx_ok m"
  "typeidx_ok (m\<lparr>mod_exports := x_exports\<rparr>) = typeidx_ok m"
  "typeidx_ok (m\<lparr>mod_tables := x_tables\<rparr>) = typeidx_ok m"
  "typeidx_ok (m\<lparr>mod_elems := x_elems\<rparr>) = typeidx_ok m"
  "typeidx_ok (m\<lparr>mod_data := x_data\<rparr>) = typeidx_ok m"
  "typeidx_ok (m\<lparr>mod_code := x_code\<rparr>) = typeidx_ok m"
  "typeidx_ok (m\<lparr>mod_memory := x_memory\<rparr>) = typeidx_ok m"
  "typeidx_ok (m\<lparr>mod_start_func := x_start_func\<rparr>) = typeidx_ok m"
  "typeidx_ok (m\<lparr>mod_module_name := x_module_name\<rparr>) = typeidx_ok m"
  "typeidx_ok (m\<lparr>mod_function_names := x_function_names\<rparr>) = typeidx_ok m"
  by (simp_all add: fun_eq_iff typeidx_ok_def)

lemma import_ok_update [simp]:
  "import_ok (m\<lparr>mod_functions := x_functions\<rparr>) = import_ok m"
  "import_ok (m\<lparr>mod_globals := x_globals\<rparr>) = import_ok m"
  "import_ok (m\<lparr>mod_imports := x_imports\<rparr>) = import_ok m"
  "import_ok (m\<lparr>mod_exports := x_exports\<rparr>) = import_ok m"
  "import_ok (m\<lparr>mod_tables := x_tables\<rparr>) = import_ok m"
  "import_ok (m\<lparr>mod_elems := x_elems\<rparr>) = import_ok m"
  "import_ok (m\<lparr>mod_data := x_data\<rparr>) = import_ok m"
  "import_ok (m\<lparr>mod_code := x_code\<rparr>) = import_ok m"
  "import_ok (m\<lparr>mod_memory := x_memory\<rparr>) = import_ok m"
  "import_ok (m\<lparr>mod_start_func := x_start_func\<rparr>) = import_ok m"
  "import_ok (m\<lparr>mod_module_name := x_module_name\<rparr>) = import_ok m"
  "import_ok (m\<lparr>mod_function_names := x_function_names\<rparr>) = import_ok m"
  by (simp_all add: fun_eq_iff import_ok_def)

lemma total_funcs_update [simp]:
  "total_funcs (m\<lparr>mod_types := x_types\<rparr>) = total_funcs m"
  "total_funcs (m\<lparr>mod_globals := x_globals\<rparr>) = total_funcs m"
  "total_funcs (m\<lparr>mod_exports := x_exports\<rparr>) = total_funcs m"
  "total_funcs (m\<lparr>mod_tables := x_tables\<rparr>) = total_funcs m"
  "total_funcs (m\<lparr>mod_elems := x_elems\<rparr>) = total_funcs m"
  "total_funcs (m\<lparr>mod_data := x_data\<rparr>) = total_funcs m"
  "total_funcs (m\<lparr>mod_code := x_code\<rparr>) = total_funcs m"
  "total_funcs (m\<lparr>mod_memory := x_memory\<rparr>) = total_funcs m"
  "total_funcs (m\<lparr>mod_start_func := x_start_func\<rparr>) = total_funcs m"
  "total_funcs (m\<lparr>mod_module_name := x_module_name\<rparr>) = total_funcs m"
  "total_funcs (m\<lparr>mod_function_names := x_function_names\<rparr>) = total_funcs m"
  by (simp_all add: total_funcs_def)

lemma funcidx_ok_update [simp]:
  "funcidx_ok (m\<lparr>mod_types := x_types\<rparr>) = funcidx_ok m"
  "funcidx_ok (m\<lparr>mod_globals := x_globals\<rparr>) = funcidx_ok m"
  "funcidx_ok (m\<lparr>mod_exports := x_exports\<rparr>) = funcidx_ok m"
  "funcidx_ok (m\<lparr>mod_tables := x_tables\<rparr>) = funcidx_ok m"
  "funcidx_ok (m\<lparr>mod_elems := x_elems\<rparr>) = funcidx_ok m"
  "funcidx_ok (m\<lparr>mod_data := x_data\<rparr>) = funcidx_ok m"
  "funcidx_ok (m\<lparr>mod_code := x_code\<rparr>) = funcidx_ok m"
  "funcidx_ok (m\<lparr>mod_memory := x_memory\<rparr>) = funcidx_ok m"
  "funcidx_ok (m\<lparr>mod_start_func := x_start_func\<rparr>) = funcidx_ok m"
  "funcidx_ok (m\<lparr>mod_module_name := x_module_name\<rparr>) = funcidx_ok m"
  "funcidx_ok (m\<lparr>mod_function_names := x_function_names\<rparr>) = funcidx_ok m"
  by (simp_all add: fun_eq_iff funcidx_ok_def)

lemma elem_ok_update [simp]:
  "elem_ok (m\<lparr>mod_types := x_types\<rparr>) = elem_ok m"
  "elem_ok (m\<lparr>mod_globals := x_globals\<rparr>) = elem_ok m"
  "elem_ok (m\<lparr>mod_exports := x_exports\<rparr>) = elem_ok m"
  "elem_ok (m\<lparr>mod_tables := x_tables\<rparr>) = elem_ok m"
  "elem_ok (m\<lparr>mod_elems := x_elems\<rparr>) = elem_ok m"
  "elem_ok (m\<lparr>mod_data := x_data\<rparr>) = elem_ok m"
  "elem_ok (m\<lparr>mod_code := x_code\<rparr>) = elem_ok m"
  "elem_ok (m\<lparr>mod_memory := x_memory\<rparr>) = elem_ok m"
  "elem_ok (m\<lparr>mod_start_func := x_start_func\<rparr>) = elem_ok m"
  "elem_ok (m\<lparr>mod_module_name := x_module_name\<rparr>) = elem_ok m"
  "elem_ok (m\<lparr>mod_function_names := x_function_names\<rparr>) = elem_ok m"
  by (simp_all add: fun_eq_iff elem_ok_def)

lemma export_ok_update [simp]:
  "export_ok (m\<lparr>mod_types := x_types\<rparr>) = export_ok m"
  "export_ok (m\<lparr>mod_exports := x_exports\<rparr>) = export_ok m"
  "export_ok (m\<lparr>mod_tables := x_tables\<rparr>) = export_ok m"
  "export_ok (m\<lparr>mod_elems := x_elems\<rparr>) = export_ok m"
  "export_ok (m\<lparr>mod_data := x_data\<rparr>) = export_ok m"
  "export_ok (m\<lparr>mod_code := x_code\<rparr>) = export_ok m"
  "export_ok (m\<lparr>mod_memory := x_memory\<rparr>) = export_ok m"
  "export_ok (m\<lparr>mod_start_func := x_start_func\<rparr>) = export_ok m"
  "export_ok (m\<lparr>mod_module_name := x_module_name\<rparr>) = export_ok m"
  "export_ok (m\<lparr>mod_function_names := x_function_names\<rparr>) = export_ok m"
  by (simp_all add: fun_eq_iff export_ok_def cong: wasm_export_type.case_cong)

lemma wasm_get_func_update [simp]:
  "wasm_get_func (m\<lparr>mod_globals := x_globals\<rparr>) = wasm_get_func m"
  "wasm_get_func (m\<lparr>mod_exports := x_exports\<rparr>) = wasm_get_func m"
  "wasm_get_func (m\<lparr>mod_tables := x_tables\<rparr>) = wasm_get_func m"
  "wasm_get_func (m\<lparr>mod_elems := x_elems\<rparr>) = wasm_get_func m"
  "wasm_get_func (m\<lparr>mod_data := x_data\<rparr>) = wasm_get_func m"
  "wasm_get_func (m\<lparr>mod_code := x_code\<rparr>) = wasm_get_func m"
  "wasm_get_func (m\<lparr>mod_memory := x_memory\<rparr>) = wasm_get_func m"
  "wasm_get_func (m\<lparr>mod_module_name := x_module_name\<rparr>) = wasm_get_func m"
  "wasm_get_func (m\<lparr>mod_function_names := x_function_names\<rparr>) = wasm_get_func m"
  by (simp_all add: fun_eq_iff wasm_get_func_def Let_def)

lemma code_ok_update [simp]:
  "code_ok (m\<lparr>mod_types := x_types\<rparr>) = code_ok m"
  "code_ok (m\<lparr>mod_globals := x_globals\<rparr>) = code_ok m"
  "code_ok (m\<lparr>mod_imports := x_imports\<rparr>) = code_ok m"
  "code_ok (m\<lparr>mod_exports := x_exports\<rparr>) = code_ok m"
  "code_ok (m\<lparr>mod_tables := x_tables\<rparr>) = code_ok m"
  "code_ok (m\<lparr>mod_elems := x_elems\<rparr>) = code_ok m"
  "code_ok (m\<lparr>mod_data := x_data\<rparr>) = code_ok m"
  "code_ok (m\<lparr>mod_memory := x_memory\<rparr>) = code_ok m"
  "code_ok (m\<lparr>mod_start_func := x_start_func\<rparr>) = code_ok m"
  "code_ok (m\<lparr>mod_module_name := x_module_name\<rparr>) = code_ok m"
  "code_ok (m\<lparr>mod_function_names := x_function_names\<rparr>) = code_ok m"
  by (simp_all add: code_ok_def cong: option.case_cong)

lemma start_ok_update [simp]:
  "start_ok (m\<lparr>mod_globals := x_globals\<rparr>) = start_ok m"
  "start_ok (m\<lparr>mod_exports := x_exports\<rparr>) = start_ok m"
  "start_ok (m\<lparr>mod_tables := x_tables\<rparr>) = start_ok m"
  "start_ok (m\<lparr>mod_elems := x_elems\<rparr>) = start_ok m"
  "start_ok (m\<lparr>mod_data := x_data\<rparr>) = start_ok m"
  "start_ok (m\<lparr>mod_code := x_code\<rparr>) = start_ok m"
  "start_ok (m\<lparr>mod_memory := x_memory\<rparr>) = start_ok m"
  "start_ok (m\<lparr>mod_module_name := x_module_name\<rparr>) = start_ok m"
  "start_ok (m\<lparr>mod_function_names := x_function_names\<rparr>) = start_ok m"
  by (simp_all add: start_ok_def)

lemma empty_module_ok: "loading (zero_module\<lparr>mod_start_func := - 1\<rparr>) 0"
  by (simp add: loading_def module_ok_def zero_module_def start_ok_def code_ok_def memory_ok_def)

lemma name_parts [simp]:
  "module_ok (m\<lparr>mod_module_name := x\<rparr>) = module_ok m"
  "module_ok (m\<lparr>mod_function_names := y\<rparr>) = module_ok m"
  by (simp_all add: module_ok_def)

lemma loading_names [simp]:
  "loading (m\<lparr>mod_module_name := x\<rparr>) c = loading m c"
  "loading (m\<lparr>mod_function_names := y\<rparr>) c = loading m c"
  by (simp_all add: loading_def)

lemma start_none: "mod_start_func m = - 1 \<Longrightarrow> start_ok m"
  by (simp add: start_ok_def)

lemma code_none: "mod_code m = None \<Longrightarrow> code_ok m"
  by (simp add: code_ok_def)

lemma code_some: "mod_code m = Some code \<Longrightarrow> length code = length (mod_functions m) \<Longrightarrow> code_ok m"
  by (simp add: code_ok_def)

lemma loading_steps:
  "loading m c \<Longrightarrow> c \<le> 0 \<Longrightarrow> list_all type_ok types \<Longrightarrow> loading (m\<lparr>mod_types := types\<rparr>) 1"
  "loading m c \<Longrightarrow> c \<le> 1 \<Longrightarrow> list_all (import_ok m) imps \<Longrightarrow> length imps < 2 ^ 32 \<Longrightarrow>
     loading (m\<lparr>mod_imports := imps\<rparr>) 2"
  "loading m c \<Longrightarrow> c \<le> 2 \<Longrightarrow> list_all (typeidx_ok m) funcs \<Longrightarrow> length funcs < 2 ^ 32 \<Longrightarrow>
     loading (m\<lparr>mod_functions := funcs\<rparr>) 3"
  "loading m c \<Longrightarrow> c \<le> 3 \<Longrightarrow> list_all table_ok tables \<Longrightarrow> loading (m\<lparr>mod_tables := tables\<rparr>) 4"
  "loading m c \<Longrightarrow> c \<le> 4 \<Longrightarrow> memory_ok mem \<Longrightarrow> loading (m\<lparr>mod_memory := mem\<rparr>) 5"
  "loading m c \<Longrightarrow> c \<le> 6 \<Longrightarrow> list_all global_ok globals \<Longrightarrow> loading (m\<lparr>mod_globals := globals\<rparr>) 7"
  "loading m c \<Longrightarrow> c \<le> 7 \<Longrightarrow> list_all (export_ok m) exps \<Longrightarrow> loading (m\<lparr>mod_exports := exps\<rparr>) 8"
  "loading m c \<Longrightarrow> c \<le> 8 \<Longrightarrow> start_ok (m\<lparr>mod_start_func := s\<rparr>) \<Longrightarrow> loading (m\<lparr>mod_start_func := s\<rparr>) 9"
  "loading m c \<Longrightarrow> c \<le> 9 \<Longrightarrow> list_all (elem_ok m) elems \<Longrightarrow> loading (m\<lparr>mod_elems := elems\<rparr>) 10"
  "loading m c \<Longrightarrow> c \<le> 11 \<Longrightarrow> length code = length (mod_functions m) \<Longrightarrow>
     loading (m\<lparr>mod_code := Some code\<rparr>) 12"
  "loading m c \<Longrightarrow> c \<le> 12 \<Longrightarrow> loading (m\<lparr>mod_data := data\<rparr>) 13"
  "loading m c \<Longrightarrow> c \<le> 10 \<Longrightarrow> loading m 11"
  by (simp_all add: loading_def module_ok_def start_none code_none code_some)

lemma array_sections_post:
  "wasm_parse_import_section h m b = Inr (m', b') \<Longrightarrow>
     \<exists>xs. m' = m\<lparr>mod_imports := xs\<rparr> \<and> list_all (import_ok m) xs \<and> length xs < 2 ^ 32"
  "wasm_parse_function_section h m b = Inr (m', b') \<Longrightarrow>
     \<exists>xs. m' = m\<lparr>mod_functions := xs\<rparr> \<and> list_all (typeidx_ok m) xs \<and> length xs < 2 ^ 32"
  "wasm_parse_table_section h m b = Inr (m', b') \<Longrightarrow>
     \<exists>xs. m' = m\<lparr>mod_tables := xs\<rparr> \<and> list_all table_ok xs"
  "wasm_parse_global_section h m b = Inr (m', b') \<Longrightarrow>
     \<exists>xs. m' = m\<lparr>mod_globals := xs\<rparr> \<and> list_all global_ok xs"
  "wasm_parse_export_section h m b = Inr (m', b') \<Longrightarrow>
     \<exists>xs. m' = m\<lparr>mod_exports := xs\<rparr> \<and> list_all (export_ok m) xs"
  "wasm_parse_element_section h m b = Inr (m', b') \<Longrightarrow>
     \<exists>xs. m' = m\<lparr>mod_elems := xs\<rparr> \<and> list_all (elem_ok m) xs"
  "wasm_parse_data_section h m b = Inr (m', b') \<Longrightarrow> \<exists>xs. m' = m\<lparr>mod_data := xs\<rparr>"
  unfolding wasm_parse_import_section_def wasm_parse_function_section_def wasm_parse_table_section_def
    wasm_parse_global_section_def wasm_parse_export_section_def wasm_parse_element_section_def
    wasm_parse_data_section_def
  by (erule array_section_post, erule pull_import_post, blast)
    (erule array_section_post, erule pull_typeidx_post, blast,
     erule array_section_post, erule pull_table_post, blast,
     erule array_section_post, erule pull_global_post, blast,
     erule array_section_post, erule pull_export_post, blast,
     erule array_section_post, erule pull_elem_post, blast,
     erule array_section_post, rule TrueI, blast)

section \<open>The name section changes nothing but names\<close>

definition only_names :: "wasm_module \<Rightarrow> wasm_module \<Rightarrow> bool" where
  "only_names m m' \<longleftrightarrow> (\<exists>x y. m' = m\<lparr>mod_module_name := x, mod_function_names := y\<rparr>)"

lemma only_names_refl [simp]: "only_names m m"
  unfolding only_names_def by (intro exI [of _ "mod_module_name m"] exI [of _ "mod_function_names m"]) simp

lemma only_names_trans: "only_names m m' \<Longrightarrow> only_names m' m'' \<Longrightarrow> only_names m m''"
  unfolding only_names_def by force

lemma only_names_update [simp]:
  "only_names m (m\<lparr>mod_module_name := x\<rparr>)" "only_names m (m\<lparr>mod_function_names := y\<rparr>)"
  unfolding only_names_def
  by (intro exI [of _ x] exI [of _ "mod_function_names m"], simp)
    (intro exI [of _ "mod_module_name m"] exI [of _ y], simp)

lemma only_names_loading: "only_names m m' \<Longrightarrow> loading m c \<Longrightarrow> loading m' c"
  unfolding only_names_def by (elim exE) simp

lemma only_names_total: "only_names m m' \<Longrightarrow> total_funcs m' = total_funcs m"
  unfolding only_names_def by (elim exE) (simp add: total_funcs_def)

lemma name_subsection_post: "name_subsection h n m sec b = Inr (m', b') \<Longrightarrow> only_names m m'"
  by (auto simp: name_subsection_def bind_run split: if_splits)

lemma within_run: "within data p = Inr a \<longleftrightarrow> (\<exists>b. p (init_buffer data) = Inr (a, b))"
  by (auto simp: within_def split: sum.splits)

lemma name_subsections_post: "name_subsections h n m b = Inr (m', b') \<Longrightarrow> only_names m m'"
proof (induction "length (rest b)" arbitrary: b m rule: less_induct)
  case less
  show ?case
  proof (cases "rest b = []")
    case True
    then show ?thesis using less.prems by (subst (asm) name_subsections.simps) simp
  next
    case False
    then obtain sec data b1 m1 where step: "wasm_pull_section b = Inr ((sec, data), b1)"
      "within data (name_subsection h n m sec) = Inr m1" "name_subsections h n m1 b1 = Inr (m', b')"
      using less.prems by (subst (asm) name_subsections.simps) (auto split: sum.splits)
    have "only_names m m1" using step(2) name_subsection_post by (auto simp: within_run)
    moreover have "only_names m1 m'" by (rule less.hyps [OF wasm_pull_section_shorter [OF step(1)] step(3)])
    ultimately show ?thesis by (rule only_names_trans)
  qed
qed

lemma custom_section_post: "wasm_parse_custom_section h m b = Inr (m', b') \<Longrightarrow> only_names m m'"
  by (auto simp: wasm_parse_custom_section_def wasm_parse_name_section_def bind_run
      dest: name_subsections_post split: if_splits)

section \<open>Every loaded module is well formed\<close>

lemma loading_fields:
  "loading m c \<Longrightarrow> module_ok m" "loading m c \<Longrightarrow> 0 \<le> c"
  "loading m c \<Longrightarrow> length (mod_functions m) < 2 ^ 32"
  by (simp_all add: loading_def module_ok_def)

lemma parse_section_step:
  assumes "loading m c" and "next_index sec c = Some c'" and "wasm_parse_section h m sec b = Inr (m', b')"
  shows "loading m' c'"
proof -
  note c = loading_fields(2) [OF assms(1)]
  consider "sec = 0" | "sec = 1" | "sec = 2" | "sec = 3" | "sec = 4" | "sec = 5" | "sec = 6" | "sec = 7"
    | "sec = 8" | "sec = 9" | "sec = 10" | "sec = 11" | "sec = 12"
    using assms(3) by (auto simp: wasm_parse_section_def split: if_splits)
  then show ?thesis
  proof cases
    case 1
    then have "only_names m m'" "c' = c"
      using assms(2,3) by (auto simp: wasm_parse_section_def next_index_def dest: custom_section_post)
    then show ?thesis using assms(1) only_names_loading by simp
  next
    case 2
    then have "wasm_parse_type_section h m b = Inr (m', b')"
      using assms(3) by (simp add: wasm_parse_section_def)
    then show ?thesis
      using next_index_of(1) [OF c] assms(1,2) 2 loading_steps(1) by (auto elim!: type_section_post)
  next
    case 3
    then have "wasm_parse_import_section h m b = Inr (m', b')"
      using assms(3) by (simp add: wasm_parse_section_def)
    from array_sections_post(1) [OF this] show ?thesis
      using next_index_of(2) [OF c] assms(1,2) 3 loading_steps(2) by auto
  next
    case 4
    then have "wasm_parse_function_section h m b = Inr (m', b')"
      using assms(3) by (simp add: wasm_parse_section_def)
    from array_sections_post(2) [OF this] show ?thesis
      using next_index_of(3) [OF c] assms(1,2) 4 loading_steps(3) by auto
  next
    case 5
    then have "wasm_parse_table_section h m b = Inr (m', b')"
      using assms(3) by (simp add: wasm_parse_section_def)
    from array_sections_post(3) [OF this] show ?thesis
      using next_index_of(4) [OF c] assms(1,2) 5 loading_steps(4) by auto
  next
    case 6
    then have "wasm_parse_memory_section m b = Inr (m', b')"
      using assms(3) by (simp add: wasm_parse_section_def)
    from memory_section_post [OF this] show ?thesis
      using next_index_of(5) [OF c] assms(1,2) 6 loading_steps(5) by auto
  next
    case 7
    then have "wasm_parse_global_section h m b = Inr (m', b')"
      using assms(3) by (simp add: wasm_parse_section_def)
    from array_sections_post(4) [OF this] show ?thesis
      using next_index_of(6) [OF c] assms(1,2) 7 loading_steps(6) by auto
  next
    case 8
    then have "wasm_parse_export_section h m b = Inr (m', b')"
      using assms(3) by (simp add: wasm_parse_section_def)
    from array_sections_post(5) [OF this] show ?thesis
      using next_index_of(7) [OF c] assms(1,2) 8 loading_steps(7) by auto
  next
    case 9
    then have "wasm_parse_start_section m b = Inr (m', b')"
      using assms(3) by (simp add: wasm_parse_section_def)
    then show ?thesis
      using next_index_of(8) [OF c] assms(1,2) 9 loading_steps(8) loading_fields(1) [OF assms(1)]
      by (auto elim!: start_section_post)
  next
    case 10
    then have "wasm_parse_element_section h m b = Inr (m', b')"
      using assms(3) by (simp add: wasm_parse_section_def)
    from array_sections_post(6) [OF this] show ?thesis
      using next_index_of(9) [OF c] assms(1,2) 10 loading_steps(9) by auto
  next
    case 11
    then have "wasm_parse_code_section h m b = Inr (m', b')"
      using assms(3) by (simp add: wasm_parse_section_def)
    then show ?thesis
      using next_index_of(11) [OF c] assms(1,2) 11 loading_steps(10) loading_fields(3) [OF assms(1)]
      by (auto elim!: code_section_post)
  next
    case 12
    then have "wasm_parse_data_section h m b = Inr (m', b')"
      using assms(3) by (simp add: wasm_parse_section_def)
    from array_sections_post(7) [OF this] show ?thesis
      using next_index_of(12) [OF c] assms(1,2) 12 loading_steps(11) by auto
  next
    case 13
    then have "m' = m" using assms(3) by (simp add: wasm_parse_section_def)
    then show ?thesis using next_index_of(10) [OF c] assms(1,2) 13 loading_steps(12) by auto
  qed
qed

lemma load_sections_step:
  assumes "loading m c" and "load_sections h m c b = Inr m'"
  shows "\<exists>c'. loading m' c'"
  using assms
proof (induction "length (rest b)" arbitrary: b m c rule: less_induct)
  case less
  show ?case
  proof (cases "rest b = []")
    case True
    then show ?thesis using less.prems by (subst (asm) load_sections.simps) auto
  next
    case False
    then obtain sec data b1 c1 m1 where step: "wasm_pull_section b = Inr ((sec, data), b1)"
      "next_index sec c = Some c1" "within data (wasm_parse_section h m sec) = Inr m1"
      "load_sections h m1 c1 b1 = Inr m'"
      using less.prems(2) by (subst (asm) load_sections.simps) (auto split: sum.splits option.splits)
    have "loading m1 c1"
      using step(3) parse_section_step [OF less.prems(1) step(2)] by (auto simp: within_run)
    then show ?thesis using less.hyps [OF wasm_pull_section_shorter [OF step(1)] _ step(4)] by blast
  qed
qed

lemma load_module_ok:
  assumes "wasm_load_module h data = Inr m"
  shows "module_ok m \<and> (mod_functions m \<noteq> [] \<longrightarrow> mod_code m \<noteq> None)"
proof -
  obtain b where "load_sections h (zero_module\<lparr>mod_start_func := - 1\<rparr>) 0 b = Inr m"
    and code: "mod_functions m \<noteq> [] \<longrightarrow> mod_code m \<noteq> None"
    using assms by (auto simp: wasm_load_module_def split: sum.splits if_splits)
  then show ?thesis using load_sections_step [OF empty_module_ok] loading_fields(1) by blast
qed

end
