(* ===== verification/Module_Safe.thy ===== *)
theory Module_Safe
  imports Module_Valid
begin

text \<open>
  The safety of the loader and of the functions a loaded module is used through.

  On a host whose allocations succeed, no section parser reads or writes outside an array,
  whatever the bytes are, with one exception: the array of function names is as long as the
  number of functions known when the first \<open>name\<close> section was read, while its later uses assume
  the final number. \<open>names_last\<close> is the condition on the order of sections that rules this out;
  \<open>early_names_undefined\<close> is a module that does not meet it.
\<close>

section \<open>The section parsers as readers\<close>

lemma CALLOC_reader [readers]: "reader (CALLOC h sz n)"
  unfolding CALLOC_def by (rule reader_check)

lemma gets_reader [readers]: "reader (gets f)"
  by (rule readerI) (auto simp: gets_def intro: exI [of _ "[]"])

lemma calloc_unchecked_generous [simp]: "generous h \<Longrightarrow> calloc_unchecked h n sz = ret ()"
  by (simp add: calloc_unchecked_def)

lemma small_readers [readers]:
  "reader (pull_count h sz)" "reader at_end" "reader (wasm_pull_result_type h)" "reader (pull_type h)"
  "reader (pull_typeidx m)" "reader (mul_pages p)" "reader pull_memory_limits"
  "reader wasm_parse_constant_expr" "reader pull_global" "reader pull_table"
  "reader (pull_funcidx m)" "reader (pull_data_bytes h)" "reader (pull_code h)"
  "reader (name_section_copy_str h)" "reader module_pull_magic_version"
  unfolding pull_count_def at_end_def wasm_pull_result_type_def pull_type_def pull_typeidx_def
    mul_pages_def pull_memory_limits_def wasm_parse_constant_expr_def pull_global_def pull_table_def
    pull_funcidx_def pull_data_bytes_def pull_code_def name_section_copy_str_def module_pull_magic_version_def
  by (intro readers)+

lemma offset_reader [readers]: "reader pull_offset"
  unfolding pull_offset_def by (intro readers) (simp add: readers split: wasm_value.split)

lemma data_reader [readers]: "reader (pull_data h)" "reader (pull_elem h m)"
  unfolding pull_data_def pull_elem_def by (intro readers)+

lemma generous_readers [readers]:
  "generous h \<Longrightarrow> reader (pull_copied_name h)" "generous h \<Longrightarrow> reader (pull_import h m)"
  "generous h \<Longrightarrow> reader (pull_export h m)"
proof -
  assume h: "generous h"
  then show name: "reader (pull_copied_name h)"
    unfolding pull_copied_name_def by (simp add: readers)
  show "reader (pull_import h m)" "reader (pull_export h m)"
    unfolding pull_import_def pull_export_def by (intro readers name)+
qed

lemma section_readers [readers]:
  "reader (wasm_parse_type_section h m)" "generous h \<Longrightarrow> reader (wasm_parse_import_section h m)"
  "reader (wasm_parse_function_section h m)" "reader (wasm_parse_table_section h m)"
  "reader (wasm_parse_memory_section m)" "reader (wasm_parse_global_section h m)"
  "generous h \<Longrightarrow> reader (wasm_parse_export_section h m)" "reader (wasm_parse_element_section h m)"
  "reader (wasm_parse_code_section h m)" "reader (wasm_parse_data_section h m)"
  unfolding wasm_parse_type_section_def wasm_parse_import_section_def wasm_parse_function_section_def
    wasm_parse_table_section_def wasm_parse_memory_section_def wasm_parse_global_section_def
    wasm_parse_export_section_def wasm_parse_element_section_def wasm_parse_code_section_def
    wasm_parse_data_section_def
  by (intro readers | assumption)+

lemma index_ok: "i < length xs \<Longrightarrow> index xs i = ret (xs ! i)"
  by (simp add: index_def)

lemma start_section_reader:
  assumes "module_ok m"
  shows "reader (wasm_parse_start_section m)"
proof -
  have ok: "list_all (import_ok m) (mod_imports m)" "list_all (typeidx_ok m) (mod_functions m)"
    "length (mod_imports m) < 2 ^ 32" "length (mod_functions m) < 2 ^ 32"
    using assms by (simp_all add: module_ok_def)
  have "\<exists>idx. start_typeidx m s = ret idx \<and> unat idx < length (mod_types m)"
    if s: "s < imports_count m + functions_count m" for s
  proof (cases "s < imports_count m")
    case True
    then show ?thesis using start_index(1) [OF ok s]
      by (intro exI [of _ "import_index (mod_imports m ! unat s)"])
        (simp add: start_typeidx_def index_ok import_ok_def typeidx_ok_def)
  next
    case False
    then show ?thesis using start_index(2) [OF ok s]
      by (intro exI [of _ "mod_functions m ! unat (s - imports_count m)"])
        (simp add: start_typeidx_def index_ok typeidx_ok_def)
  qed
  then have "reader (bind (check (s < imports_count m + functions_count m)) (\<lambda>_.
      bind (start_typeidx m s) (\<lambda>idx.
      bind (index (mod_types m) (unat idx)) (\<lambda>type.
      bind (check (arg_types type = [])) (\<lambda>_.
      bind (check (result_types type = [])) (\<lambda>_.
      ret (m\<lparr>mod_start_func := int (unat s)\<rparr>)))))))" for s
    by (cases "s < imports_count m + functions_count m") (fastforce simp: index_ok readers)+
  then show ?thesis unfolding wasm_parse_start_section_def
    by (rule reader_bind [OF reader_leb(1) reader_bind [OF small_readers(2)]])
qed

section \<open>The name section\<close>

definition names_fit :: "wasm_module \<Rightarrow> bool" where
  "names_fit m \<longleftrightarrow> (case mod_function_names m of None \<Rightarrow> True | Some ns \<Rightarrow> length ns = total_funcs m)"

lemma function_name_entries_reader:
  "(\<And>ns. names = Some ns \<Longrightarrow> n_funcs \<le> length ns) \<Longrightarrow> reader (function_name_entries h n_funcs n names)"
proof (induction n arbitrary: names)
  case 0
  then show ?case by (simp add: readers)
next
  case (Suc n)
  show ?case
  proof (cases names)
    case None
    have "reader (function_name_entries h n_funcs n None)" by (rule Suc.IH) simp
    then show ?thesis using None by (simp add: readers)
  next
    case (Some ns)
    have "reader (function_name_entries h n_funcs n (Some ns'))" if "length ns' = length ns" for ns'
      using Suc.prems Some that by (intro Suc.IH) simp
    then have "reader (if unat i < n_funcs then bind (defined (unat i < length ns)) (\<lambda>_.
        function_name_entries h n_funcs n (Some (ns[unat i := name])))
        else function_name_entries h n_funcs n (Some ns))" for i name
      using Suc.prems Some by simp
    then show ?thesis unfolding Some function_name_entries.simps option.case
      by (rule reader_bind [OF reader_leb(1) reader_bind [OF small_readers(14)]])
  qed
qed

lemma function_name_entries_length:
  "function_name_entries h n_funcs n names b = Inr (names', b') \<Longrightarrow>
     map_option length names' = map_option length names"
proof (induction n arbitrary: names b)
  case (Suc n)
  then show ?case by (cases names) (fastforce simp: bind_run split: if_splits)+
qed simp

lemma name_subsection_reader:
  assumes "names_fit m"
  shows "reader (name_subsection h (total_funcs m) m sec)"
proof -
  have fit: "total_funcs m \<le> length ns" if "mod_function_names m = Some ns" for ns
    using assms that by (simp add: names_fit_def)
  show ?thesis
  proof (cases "mod_function_names m = None \<and> total_funcs m \<noteq> 0")
    case True
    then show ?thesis unfolding name_subsection_def
      by (simp only: if_True simp_thms bind_assoc bind_ret) (intro readers function_name_entries_reader; force)
  next
    case False
    then show ?thesis unfolding name_subsection_def
      by (simp only: if_False bind_ret) (intro readers function_name_entries_reader; simp add: fit)
  qed
qed

lemma name_subsection_fit:
  assumes "names_fit m" and "name_subsection h (total_funcs m) m sec b = Inr (m', b')"
  shows "names_fit m'"
proof (cases "sec = 1")
  case True
  then obtain names b1 b2 n names' where
    names: "(if mod_function_names m = None \<and> total_funcs m \<noteq> 0
        then bind (CALLOC h 8 (total_funcs m)) (\<lambda>_. ret (Some (replicate (total_funcs m) None)))
        else ret (mod_function_names m)) b = Inr (names, b1)"
    and "function_name_entries h (total_funcs m) n names b2 = Inr (names', b')"
    and m': "m' = m\<lparr>mod_function_names := names'\<rparr>"
    using assms(2) by (auto simp: name_subsection_def bind_run)
  then have "map_option length names' = map_option length names"
    using function_name_entries_length by blast
  moreover have "names = None \<or> map_option length names = Some (total_funcs m)"
    using names assms(1) by (auto simp: names_fit_def bind_run split: if_splits option.splits)
  ultimately show ?thesis by (auto simp: names_fit_def m' total_funcs_def split: option.splits)
next
  case False
  then have "mod_function_names m' = mod_function_names m"
    using assms(2) by (auto simp: name_subsection_def bind_run split: if_splits)
  moreover have "total_funcs m' = total_funcs m"
    using assms(2) by (intro only_names_total name_subsection_post)
  ultimately show ?thesis using assms(1) by (simp add: names_fit_def cong: option.case_cong)
qed

lemma within_fault: "reader p \<Longrightarrow> within data p = Inl e \<Longrightarrow> e = Check_failed"
  using reader_fault by (fastforce simp: within_def split: sum.splits)

lemma name_subsections_safe:
  assumes "names_fit m"
  shows "(case name_subsections h (total_funcs m) m b of
      Inl e \<Rightarrow> e = Check_failed | Inr (m', b') \<Rightarrow> names_fit m')"
  using assms
proof (induction "length (rest b)" arbitrary: b m rule: less_induct)
  case less
  show ?case
  proof (cases "rest b = []")
    case True
    then show ?thesis using less.prems by (subst name_subsections.simps) simp
  next
    case False
    show ?thesis
    proof (cases "wasm_pull_section b")
      case (Inl e)
      then show ?thesis using False reader_fault [OF wasm_pull_section_reader Inl]
        by (subst name_subsections.simps) simp
    next
      case (Inr r)
      then obtain sec data b1 where sec: "wasm_pull_section b = Inr ((sec, data), b1)" by (cases r) auto
      show ?thesis
      proof (cases "within data (name_subsection h (total_funcs m) m sec)")
        case (Inl e)
        then have "e = Check_failed"
          using within_fault name_subsection_reader [OF less.prems] by blast
        then show ?thesis using False sec Inl by (subst name_subsections.simps) simp
      next
        case (Inr m1)
        then obtain b2 where m1: "name_subsection h (total_funcs m) m sec (init_buffer data) = Inr (m1, b2)"
          by (auto simp: within_run)
        have "names_fit m1" "total_funcs m1 = total_funcs m"
          using name_subsection_fit [OF less.prems m1] only_names_total [OF name_subsection_post [OF m1]]
          by simp_all
        then show ?thesis using False sec Inr less.hyps [OF wasm_pull_section_shorter [OF sec], of m1]
          by (subst name_subsections.simps) simp
      qed
    qed
  qed
qed

section \<open>The loader\<close>

text \<open>The sections of a module, as far as their headers can be read.\<close>

function sections :: "buffer \<Rightarrow> (u8 \<times> u8 list) list" where
  "sections b =
     (if rest b = [] then []
      else case wasm_pull_section b of Inl _ \<Rightarrow> [] | Inr (s, b') \<Rightarrow> s # sections b')"
  by pat_completeness auto
termination
  by (relation "measure (\<lambda>b. length (rest b))") (auto dest: wasm_pull_section_shorter)

declare sections.simps [simp del]

definition is_name_section :: "u8 \<times> u8 list \<Rightarrow> bool" where
  "is_name_section s \<longleftrightarrow> fst s = 0 \<and>
     (case buffer_pull_name (init_buffer (snd s)) of Inr (n, _) \<Rightarrow> n = name_marker | Inl _ \<Rightarrow> False)"

text \<open>No section that adds functions follows a name section.\<close>

fun names_last :: "(u8 \<times> u8 list) list \<Rightarrow> bool" where
  "names_last [] \<longleftrightarrow> True"
| "names_last (s # ss) \<longleftrightarrow>
     (is_name_section s \<longrightarrow> list_all (\<lambda>(sec, _). sec \<noteq> 2 \<and> sec \<noteq> 3) ss) \<and> names_last ss"

definition module_sections :: "u8 list \<Rightarrow> (u8 \<times> u8 list) list" where
  "module_sections data = sections (consume (take 8 data) (init_buffer data))"

text \<open>Names that were read are as many as the functions, and stay so.\<close>

definition names_settled :: "wasm_module \<Rightarrow> buffer \<Rightarrow> bool" where
  "names_settled m b \<longleftrightarrow> names_last (sections b) \<and>
     (mod_function_names m \<noteq> None \<longrightarrow>
        names_fit m \<and> list_all (\<lambda>(sec, _). sec \<noteq> 2 \<and> sec \<noteq> 3) (sections b))"

lemma names_settled_fit: "names_settled m b \<Longrightarrow> names_fit m"
  by (auto simp: names_settled_def names_fit_def)

lemma custom_section_safe:
  assumes "names_fit m"
  shows "case wasm_parse_custom_section h m b of
      Inl e \<Rightarrow> e = Check_failed
    | Inr (m', _) \<Rightarrow> names_fit m' \<and>
        (mod_function_names m' = mod_function_names m \<or>
         (\<exists>b1. buffer_pull_name b = Inr (name_marker, b1)))"
proof (cases "buffer_pull_name b")
  case (Inl e)
  then show ?thesis using reader_fault [OF reader_name Inl]
    by (simp add: wasm_parse_custom_section_def bind_def)
next
  case (Inr r)
  then obtain name b1 where name: "buffer_pull_name b = Inr (name, b1)" by (cases r) auto
  show ?thesis
  proof (cases "name = name_marker")
    case True
    then show ?thesis using name name_subsections_safe [OF assms, of h b1]
      by (auto simp: wasm_parse_custom_section_def bind_def wasm_parse_name_section_def split: sum.splits)
  next
    case False
    then show ?thesis using name assms
      by (simp add: wasm_parse_custom_section_def bind_def ret_apply)
  qed
qed

lemma parse_section_names:
  assumes "wasm_parse_section h m sec b = Inr (m', b')" and "sec \<noteq> 0" and "loading m c"
  shows "mod_function_names m' = mod_function_names m"
    and "sec \<noteq> 2 \<Longrightarrow> sec \<noteq> 3 \<Longrightarrow> total_funcs m' = total_funcs m"
  using assms
  by (auto simp: wasm_parse_section_def total_funcs_def split: if_splits
      dest!: array_sections_post memory_section_post
      elim!: type_section_post code_section_post [OF _ loading_fields(3)] start_section_post [OF _ loading_fields(1)])

lemma parse_section_fault:
  assumes "generous h" and "module_ok m" and "names_fit m" and "wasm_parse_section h m sec b = Inl e"
  shows "e = Check_failed"
proof (cases "sec = 0")
  case True
  then show ?thesis
    using custom_section_safe [where h = h and b = b, OF assms(3)] assms(4) by (simp add: wasm_parse_section_def)
next
  case False
  then have "reader (wasm_parse_section h m sec)"
    using assms(1) start_section_reader [OF assms(2)]
    by (simp add: wasm_parse_section_def section_readers readers)
  then show ?thesis using assms(4) by (rule reader_fault)
qed

lemma names_settled_step:
  assumes "loading m c" and "names_settled m b" and "rest b \<noteq> []"
    and "wasm_pull_section b = Inr ((sec, data), b1)"
    and "within data (wasm_parse_section h m sec) = Inr m1"
  shows "names_settled m1 b1"
proof -
  have secs: "sections b = (sec, data) # sections b1"
    using assms(3,4) by (subst sections.simps) simp
  then have last: "names_last (sections b1)"
    and rest: "is_name_section (sec, data) \<Longrightarrow> list_all (\<lambda>(sec, _). sec \<noteq> 2 \<and> sec \<noteq> 3) (sections b1)"
    and old: "mod_function_names m \<noteq> None \<Longrightarrow> names_fit m \<and> sec \<noteq> 2 \<and> sec \<noteq> 3 \<and>
      list_all (\<lambda>(sec, _). sec \<noteq> 2 \<and> sec \<noteq> 3) (sections b1)"
    using assms(2) by (auto simp: names_settled_def)
  obtain b2 where m1: "wasm_parse_section h m sec (init_buffer data) = Inr (m1, b2)"
    using assms(5) by (auto simp: within_run)
  show ?thesis
  proof (cases "sec = 0")
    case True
    then have custom: "wasm_parse_custom_section h m (init_buffer data) = Inr (m1, b2)"
      using m1 by (simp add: wasm_parse_section_def)
    have fit: "names_fit m1" "mod_function_names m1 = mod_function_names m \<or> is_name_section (sec, data)"
      using custom_section_safe [where h = h and b = "init_buffer data", OF names_settled_fit [OF assms(2)]] custom True
      by (auto simp: is_name_section_def)
    then show ?thesis using last rest old by (auto simp: names_settled_def)
  next
    case False
    note same = parse_section_names [OF m1 False assms(1)]
    then show ?thesis using last old by (auto simp: names_settled_def names_fit_def)
  qed
qed

lemma load_sections_safe:
  assumes "generous h" and "loading m c" and "names_settled m b"
  shows "case load_sections h m c b of Inl e \<Rightarrow> e = Check_failed | Inr m' \<Rightarrow> names_fit m'"
  using assms(2,3)
proof (induction "length (rest b)" arbitrary: b m c rule: less_induct)
  case less
  show ?case
  proof (cases "rest b = []")
    case True
    then show ?thesis using less.prems(2) names_settled_fit by (subst load_sections.simps) simp
  next
    case False
    show ?thesis
    proof (cases "wasm_pull_section b")
      case (Inl e)
      then show ?thesis using False reader_fault [OF wasm_pull_section_reader Inl]
        by (subst load_sections.simps) simp
    next
      case (Inr r)
      then obtain sec data b1 where sec: "wasm_pull_section b = Inr ((sec, data), b1)" by (cases r) auto
      show ?thesis
      proof (cases "next_index sec c")
        case None
        then show ?thesis using False sec by (subst load_sections.simps) simp
      next
        case (Some c1)
        show ?thesis
        proof (cases "within data (wasm_parse_section h m sec)")
          case (Inl e)
          then have "e = Check_failed"
            using parse_section_fault [OF assms(1) loading_fields(1) [OF less.prems(1)]
                names_settled_fit [OF less.prems(2)]]
            by (auto simp: within_def split: sum.splits)
          then show ?thesis using False sec Some Inl by (subst load_sections.simps) simp
        next
          case (Inr m1)
          have "loading m1 c1"
            using Inr parse_section_step [OF less.prems(1) Some] by (auto simp: within_run)
          moreover have "names_settled m1 b1"
            using names_settled_step [OF less.prems False sec Inr] .
          ultimately show ?thesis
            using False sec Some Inr less.hyps [OF wasm_pull_section_shorter [OF sec], of m1 c1]
            by (subst load_sections.simps) simp
        qed
      qed
    qed
  qed
qed

lemma load_module_safe:
  assumes "generous h" and "names_last (module_sections data)"
  shows "case wasm_load_module h data of Inl e \<Rightarrow> e = Check_failed | Inr m \<Rightarrow> names_fit m"
proof (cases "module_pull_magic_version (init_buffer data)")
  case (Inl e)
  then show ?thesis using reader_fault [OF small_readers(15) Inl] by (simp add: wasm_load_module_def)
next
  case (Inr r)
  then obtain u b where b: "module_pull_magic_version (init_buffer data) = Inr (u, b)" by (cases r) auto
  then obtain bs where "pull_bytes 8 (init_buffer data) = Inr (bs, b)"
    by (auto simp: module_pull_magic_version_def bind_run)
  then have "b = consume (take 8 data) (init_buffer data)"
    by (auto simp: pull_bytes_run init_buffer_def consume_def min_def)
  then have "names_settled (zero_module\<lparr>mod_start_func := - 1\<rparr>) b"
    using assms(2) by (simp add: names_settled_def module_sections_def zero_module_def)
  from load_sections_safe [OF assms(1) empty_module_ok this] b show ?thesis
    by (auto simp: wasm_load_module_def split: sum.splits)
qed

section \<open>Freeing, and the linear memory\<close>

lemma for_each_ret: "(\<And>x. x \<in> set xs \<Longrightarrow> f x = ret ()) \<Longrightarrow> for_each xs f = ret ()"
  by (induction xs) simp_all

lemma for_each_index_ok:
  "n \<le> length xs \<Longrightarrow> for_each [0..<n] (\<lambda>i. bind (index xs i) (\<lambda>_. ret ())) = ret ()"
  by (rule for_each_ret) (simp add: index_ok)

lemma module_free_ok:
  assumes "module_ok m" and "names_fit m"
  shows "wasm_module_free m = Inr ((), zero_module)"
proof -
  have "(case mod_code m of None \<Rightarrow> ret ()
      | Some code \<Rightarrow> for_each [0..<length (mod_functions m)] (\<lambda>i. bind (index code i) (\<lambda>_. ret ()))) = (ret () :: (wasm_module, unit) sm)"
    using assms(1) by (auto simp: module_ok_def code_ok_def for_each_index_ok split: option.splits)
  moreover have "(case mod_function_names m of None \<Rightarrow> ret ()
      | Some names \<Rightarrow> for_each [0..<total_funcs m] (\<lambda>i. bind (index names i) (\<lambda>_. ret ()))) = (ret () :: (wasm_module, unit) sm)"
    using assms(2) by (auto simp: names_fit_def for_each_index_ok split: option.splits)
  ultimately show ?thesis by (simp only: wasm_module_free_def gets_bind bind_ret) (simp add: modify_def)
qed

text \<open>
  The bytes of the linear memory after the active segments were copied in: a byte is the one of
  the last active segment that covers its address, or the old one.
\<close>

definition covers :: "wasm_data \<Rightarrow> nat \<Rightarrow> bool" where
  "covers d a \<longleftrightarrow> data_active d \<and> unat (data_offset d) \<le> a \<and>
     a < unat (data_offset d) + length (data_bytes d)"

fun byte_after :: "wasm_data list \<Rightarrow> u8 list \<Rightarrow> nat \<Rightarrow> u8" where
  "byte_after [] mem a = mem ! a"
| "byte_after (d # ds) mem a =
     (if covers d a \<and> \<not> (\<exists>d' \<in> set ds. covers d' a) then data_bytes d ! (a - unat (data_offset d))
      else byte_after ds mem a)"

definition segment_fits :: "nat \<Rightarrow> wasm_data \<Rightarrow> bool" where
  "segment_fits n d \<longleftrightarrow> (data_active d \<longrightarrow> data_bytes d = [] \<or> unat (data_offset d) + length (data_bytes d) \<le> n)"

definition init_step :: "wasm_data \<Rightarrow> (u8 list, unit) sm" where
  "init_step d = (if data_active d then copy_into (unat (data_offset d)) (data_bytes d) else ret ())"

lemma init_memory_steps: "wasm_module_init_memory m = for_each (mod_data m) init_step"
  by (simp add: wasm_module_init_memory_def init_step_def [abs_def])

lemma init_step_fits:
  assumes "segment_fits (length mem) d"
  obtains mem' where "init_step d mem = Inr ((), mem')" and "length mem' = length mem"
    and "\<And>a. a < length mem \<Longrightarrow>
      mem' ! a = (if covers d a then data_bytes d ! (a - unat (data_offset d)) else mem ! a)"
proof (cases "data_active d \<and> data_bytes d \<noteq> []")
  case False
  then have "init_step d mem = Inr ((), mem)"
    by (auto simp: init_step_def copy_into_def gets_bind modify_def ret_apply)
  moreover have "\<not> covers d a" for a using False by (auto simp: covers_def)
  ultimately show thesis using that by simp
next
  case True
  let ?o = "unat (data_offset d)" and ?b = "data_bytes d"
  have fit: "?o + length ?b \<le> length mem" using assms True by (simp add: segment_fits_def)
  let ?mem = "take ?o mem @ ?b @ drop (?o + length ?b) mem"
  have "init_step d mem = Inr ((), ?mem)"
    using True fit by (simp add: init_step_def copy_into_def gets_bind modify_def)
  moreover have "length ?mem = length mem" using fit by simp
  moreover have "?mem ! a = (if covers d a then ?b ! (a - ?o) else mem ! a)" if "a < length mem" for a
    using True fit that by (auto simp: covers_def nth_append)
  ultimately show thesis by (rule that)
qed

lemma byte_after_covered:
  "byte_after ds mem a = byte_after ds mem' a" if "\<exists>d \<in> set ds. covers d a"
  using that by (induction ds) auto

lemma byte_after_uncovered:
  "byte_after ds mem a = mem ! a" if "\<not> (\<exists>d \<in> set ds. covers d a)"
  using that by (induction ds) auto

lemma init_memory_run:
  "list_all (segment_fits (length mem)) ds \<Longrightarrow>
     \<exists>mem'. for_each ds init_step mem = Inr ((), mem') \<and> length mem' = length mem \<and>
       (\<forall>a < length mem. mem' ! a = byte_after ds mem a)"
proof (induction ds arbitrary: mem)
  case Nil
  then show ?case by (simp add: ret_apply)
next
  case (Cons d ds)
  obtain mem1 where mem1: "init_step d mem = Inr ((), mem1)" "length mem1 = length mem"
    "\<And>a. a < length mem \<Longrightarrow> mem1 ! a = (if covers d a then data_bytes d ! (a - unat (data_offset d)) else mem ! a)"
    using Cons.prems by (auto elim: init_step_fits)
  obtain mem' where mem': "for_each ds init_step mem1 = Inr ((), mem')" "length mem' = length mem1"
    "\<forall>a < length mem1. mem' ! a = byte_after ds mem1 a"
    using Cons.IH [of mem1] Cons.prems mem1(2) by auto
  have "mem' ! a = byte_after (d # ds) mem a" if "a < length mem" for a
    using that mem' mem1 byte_after_covered [of ds a mem1 mem] byte_after_uncovered [of ds a]
    by (cases "\<exists>d \<in> set ds. covers d a") auto
  then show ?case using mem1 mem' by (simp add: bind_def)
qed

lemma init_memory_overrun:
  "\<not> list_all (segment_fits (length mem)) ds \<Longrightarrow> for_each ds init_step mem = Inl Undefined"
proof (induction ds arbitrary: mem)
  case (Cons d ds)
  show ?case
  proof (cases "segment_fits (length mem) d")
    case True
    then obtain mem1 where "init_step d mem = Inr ((), mem1)" "length mem1 = length mem"
      by (rule init_step_fits)
    then show ?thesis using True Cons by (simp add: bind_def)
  next
    case False
    then have "init_step d mem = Inl Undefined"
      by (auto simp: segment_fits_def init_step_def copy_into_def defined_def fail_apply bind_def gets_def)
    then show ?thesis by (simp add: bind_def)
  qed
qed simp

section \<open>Properties\<close>

text \<open>A small module of the witnesses: one import, one function of an empty signature, no name section.\<close>

definition plain_module :: "u8 list" where
  "plain_module = [0x00, 0x61, 0x73, 0x6D, 0x01, 0x00, 0x00, 0x00,
     0x01, 0x04, 0x01, 0x60, 0x00, 0x00,
     0x02, 0x07, 0x01, 0x01, 0x61, 0x01, 0x62, 0x00, 0x00,
     0x03, 0x02, 0x01, 0x00,
     0x08, 0x01, 0x01,
     0x0A, 0x04, 0x01, 0x02, 0x00, 0x0B]"

text \<open>The same with a name section, of one function-name subsection without entries, in its middle.\<close>

definition early_names :: "u8 list" where
  "early_names = [0x00, 0x61, 0x73, 0x6D, 0x01, 0x00, 0x00, 0x00,
     0x01, 0x04, 0x01, 0x60, 0x00, 0x00,
     0x02, 0x07, 0x01, 0x01, 0x61, 0x01, 0x62, 0x00, 0x00,
     0x00, 0x08, 0x04, 0x6E, 0x61, 0x6D, 0x65, 0x01, 0x01, 0x00,
     0x03, 0x02, 0x01, 0x00,
     0x0A, 0x04, 0x01, 0x02, 0x00, 0x0B]"

definition loaded :: "wasm_module res \<Rightarrow> wasm_module" where
  "loaded r = (case r of Inr m \<Rightarrow> m | Inl _ \<Rightarrow> zero_module)"

lemma loads_plain: "wasm_load_module roomy_host plain_module = Inr (loaded (wasm_load_module roomy_host plain_module))"
proof -
  have "case wasm_load_module roomy_host plain_module of Inr _ \<Rightarrow> True | Inl _ \<Rightarrow> False" by code_simp
  then show ?thesis by (simp add: loaded_def split: sum.splits)
qed

lemma names_last_plain: "names_last (module_sections plain_module)"
  by code_simp





text \<open>
  C40: The condition on name sections is needed: a module with a name section between its import and
  function sections is accepted, and its array of function names is then shorter than the number
  of functions, so freeing the module reads outside it.
\<close>

theorem early_names_undefined:
  "(\<exists>m. wasm_load_module roomy_host early_names = Inr m \<and> \<not> names_fit m \<and>
      wasm_module_free m = Inl Undefined)
    \<and> \<not> names_last (module_sections early_names)"
proof
  have "case wasm_load_module roomy_host early_names of Inl _ \<Rightarrow> False
      | Inr m \<Rightarrow> \<not> names_fit m \<and> wasm_module_free m = Inl Undefined"
    by code_simp
  then show "\<exists>m. wasm_load_module roomy_host early_names = Inr m \<and> \<not> names_fit m \<and>
      wasm_module_free m = Inl Undefined"
    by (auto split: sum.splits)
  show "\<not> names_last (module_sections early_names)" by code_simp
qed



text \<open>
  C31: Initialising the memory copies every active segment, in order: if all of them fit, nothing else
  is written and each byte is the one of the last segment that covers its address; if one does
  not fit the code writes outside the memory, since nothing compares the segments with the
  memory's size.
\<close>

theorem init_memory_exact:
  "if list_all (segment_fits (length mem)) (mod_data m)
   then \<exists>mem'. wasm_module_init_memory m mem = Inr ((), mem') \<and> length mem' = length mem \<and>
     (\<forall>a < length mem. mem' ! a = byte_after (mod_data m) mem a)
   else wasm_module_init_memory m mem = Inl Undefined"
  using init_memory_run [of mem "mod_data m"] init_memory_overrun [of mem "mod_data m"]
  by (simp add: init_memory_steps)

theorem init_memory_exact_witness:
  "wasm_module_init_memory (zero_module\<lparr>mod_data := [\<lparr>data_offset = 3, data_bytes = [1, 2], data_active = True\<rparr>]\<rparr>)
     [0, 0, 0, 0] = Inl Undefined"
  using init_memory_exact [of "[0, 0, 0, 0]"
      "zero_module\<lparr>mod_data := [\<lparr>data_offset = 3, data_bytes = [1, 2], data_active = True\<rparr>]\<rparr>"]
  by (simp add: segment_fits_def)

text \<open>
  \<open>wasm_get_func\<close> is total and in bounds on a well-formed module: an index of an import or of a
  function gives a type of the module, anything else nothing.
\<close>

theorem get_func_total:
  assumes "module_ok m"
  shows "\<exists>t. wasm_get_func m i = Inr t \<and>
    (t \<noteq> None \<longleftrightarrow> 0 \<le> i \<and> i < int (total_funcs m)) \<and> (\<forall>ty. t = Some ty \<longrightarrow> ty \<in> set (mod_types m))"
proof -
  have imps: "import_ok m (mod_imports m ! n)" if "n < length (mod_imports m)" for n
    using assms that by (simp add: module_ok_def list_all_length)
  have funcs: "typeidx_ok m (mod_functions m ! n)" if "n < length (mod_functions m)" for n
    using assms that by (simp add: module_ok_def list_all_length)
  consider "i < 0" | n where "i = int n" "n < length (mod_imports m)"
    | n where "i = int n" "length (mod_imports m) \<le> n" "n - length (mod_imports m) < length (mod_functions m)"
    | n where "i = int n" "length (mod_imports m) + length (mod_functions m) \<le> n"
    by (cases i rule: int_cases3) force+
  then show ?thesis
  proof cases
    case 1
    then show ?thesis by (simp add: wasm_get_func_def)
  next
    case 2
    then show ?thesis using imps [OF 2(2)] get_func_import [OF 2(2)]
      by (auto simp: import_ok_def typeidx_ok_def total_funcs_def)
  next
    case 3
    then show ?thesis using funcs [OF 3(3)] get_func_internal [OF 3(2,3)]
      by (auto simp: typeidx_ok_def total_funcs_def)
  next
    case 4
    then show ?thesis by (auto simp: wasm_get_func_def total_funcs_def Let_def)
  qed
qed

theorem get_func_total_witness:
  "\<exists>t. wasm_get_func (loaded (wasm_load_module roomy_host plain_module)) 1 = Inr t"
  using get_func_total [OF load_module_ok [OF loads_plain, THEN conjunct1], of 1] by blast

end
