(* ===== verification/Spidir.thy ===== *)
theory Spidir
  imports Module_Safe
begin

text \<open>
  The interface of the compiler library \<open>spidir\<close> as the JIT uses it. The library is a git
  submodule and not part of this code base, so nothing is assumed here about how it works: a call
  is recorded in a trace, and what it returns is a parameter, a function of all the calls so far.

  \<^item> The enumerations and handles the sources name. A value, block, phi, function or global
    is a struct around an \<open>id\<close>, here the id itself.
  \<^item> \<open>spidir_call\<close>, with one constructor per library function the code calls.
  \<^item> The record \<open>spidir\<close> of replies.
  \<^item> The record \<open>jit_env\<close> of everything the JIT is given: the library, the allocator,
    the module and the callback that resolves imports.
\<close>

datatype spidir_value_type =
    SPIDIR_TYPE_NONE
  | SPIDIR_TYPE_I32
  | SPIDIR_TYPE_I64
  | SPIDIR_TYPE_F32
  | SPIDIR_TYPE_F64
  | SPIDIR_TYPE_PTR

datatype spidir_mem_size =
    SPIDIR_MEM_SIZE_1
  | SPIDIR_MEM_SIZE_2
  | SPIDIR_MEM_SIZE_4
  | SPIDIR_MEM_SIZE_8

datatype spidir_icmp_kind =
    SPIDIR_ICMP_EQ
  | SPIDIR_ICMP_NE
  | SPIDIR_ICMP_SLT
  | SPIDIR_ICMP_ULT
  | SPIDIR_ICMP_SLE
  | SPIDIR_ICMP_ULE

datatype spidir_fcmp_kind =
    SPIDIR_FCMP_OEQ
  | SPIDIR_FCMP_UNE
  | SPIDIR_FCMP_OLT
  | SPIDIR_FCMP_OLE

text \<open>The builder's functions of two values, and those of one.\<close>

datatype spidir_binary =
    Op_iadd | Op_isub | Op_imul | Op_sdiv | Op_udiv | Op_srem | Op_urem
  | Op_and | Op_or | Op_xor | Op_shl | Op_lshr | Op_ashr
  | Op_fadd | Op_fsub | Op_fmul | Op_fdiv

datatype spidir_unary =
    Op_iext | Op_itrunc | Op_sfill u8 | Op_fnarrow | Op_fwiden
  | Op_lzcount spidir_value_type | Op_tzcount spidir_value_type | Op_popcount spidir_value_type
  | Op_bitcast spidir_value_type
  | Op_sinttofloat spidir_value_type | Op_uinttofloat spidir_value_type

datatype spidir_funcref =
    Funcref_external u32
  | Funcref_internal u32

datatype spidir_call =
    Create_extern_function "u8 list" spidir_value_type "spidir_value_type list"
  | Create_function "u8 list" spidir_value_type "spidir_value_type list"
  | Create_extern_global "u8 list"
  | Build_function u32
  | Create_block
  | Set_entry_block u32
  | Set_block u32
  | Build_param_ref u32
  | Build_iconst spidir_value_type u64
  | Build_fconst32 u32
  | Build_fconst64 u64
  | Build_binary spidir_binary u32 u32
  | Build_unary spidir_unary u32
  | Build_icmp spidir_icmp_kind spidir_value_type u32 u32
  | Build_fcmp spidir_fcmp_kind spidir_value_type u32 u32
  | Build_select u32 u32 u32
  | Build_load spidir_mem_size spidir_value_type u32
  | Build_store spidir_mem_size u32 u32
  | Build_ptroff u32 u32
  | Build_globaladdr u32
  | Build_call spidir_funcref "u32 list"
  | Build_callind spidir_value_type "spidir_value_type list" u32 "u32 list"
  | Build_phi spidir_value_type "u32 list"
  | Add_phi_input u32 u32
  | Build_branch u32
  | Build_brcond u32 u32 u32
  | Build_return u32
  | Build_unreachable

text \<open>
  The replies. Each takes the trace, latest call first and including the call that is answered.
  \<open>value_id\<close> is the value a builder function returns, \<open>phi_id\<close> what \<open>build_phi\<close> stores through its
  last argument, \<open>cur_block\<close> the result of \<open>spidir_builder_cur_block\<close>, and \<open>value_invalid\<close> the
  constant \<open>SPIDIR_VALUE_INVALID\<close>.
\<close>

record spidir =
  value_id :: "spidir_call list \<Rightarrow> u32"
  block_id :: "spidir_call list \<Rightarrow> u32"
  phi_id :: "spidir_call list \<Rightarrow> u32"
  func_id :: "spidir_call list \<Rightarrow> u32"
  global_id :: "spidir_call list \<Rightarrow> u32"
  cur_block :: "spidir_call list \<Rightarrow> u32 option"
  value_invalid :: u32

text \<open>
  What the JIT is given. \<open>resolve_import\<close> is the callback of \<open>wasm_jit_config_t\<close>, if there is one;
  it returns an address or null.
\<close>

record jit_env =
  env_spidir :: spidir
  env_host :: host
  env_module :: wasm_module
  env_resolve_import :: "(u8 list \<Rightarrow> u8 list \<Rightarrow> wasm_type \<Rightarrow> u64) option"

definition UINT32_MAX :: u32 where
  "UINT32_MAX = 0xFFFFFFFF"

section \<open>A library for concrete runs\<close>

text \<open>
  The library of the witnesses. A value is numbered by the calls made before it, likewise a
  block, a phi, a function and a global, and the current block is the one selected last.
\<close>

fun last_set_block :: "spidir_call list \<Rightarrow> u32 option" where
  "last_set_block [] = None"
| "last_set_block (c # tr) = (case c of Set_block b \<Rightarrow> Some b | _ \<Rightarrow> last_set_block tr)"

definition counting_spidir :: spidir where
  "counting_spidir = \<lparr>value_id = (\<lambda>tr. word_of_nat (length tr)), block_id = (\<lambda>tr. word_of_nat (length tr)),
     phi_id = (\<lambda>tr. word_of_nat (length tr)), func_id = (\<lambda>tr. word_of_nat (length tr)),
     global_id = (\<lambda>tr. word_of_nat (length tr)), cur_block = last_set_block,
     value_invalid = UINT32_MAX\<rparr>"

end
