(* ===== verification/Jit_State.thy ===== *)
theory Jit_State
  imports Spidir
begin

text \<open>
  The state of the JIT: src/jit/jit_internal.h and src/jit/inst.h.

  \<open>jit_context\<close> is \<open>jit_context_t\<close> together with the trace of calls to spidir; \<open>jit_inst\<close>
  extends it with what the translation of one function adds, the code buffer and
  \<open>jit_function_ctx_t\<close>, so that an operation on the context runs on either.

  The vectors of labels, of operands and of queued functions are lists. \<open>Vec\<close> proves that the
  operations are list operations while the length fits in 32 bits, and these are bounded by
  the length of a body, a \<open>uint32_t\<close>: an opcode pushes at most one operand or label. Running out
  of memory while they grow is left out. The vector of locals can exceed 32 bits, so its
  construction, in \<open>Jit_Function\<close>, uses \<open>Vec\<close> itself.

  Labels and operands are kept innermost first: the code's \<open>labels.elements[length - 1 - i]\<close> is
  \<open>fn_labels ! i\<close>. The pointer \<open>label\<close> every handler receives is the head of \<open>fn_labels\<close>.

  C leaves the order of a call's arguments to the compiler; the model takes the order of clang,
  the compiler of the Makefile: left to right.
\<close>

section \<open>Records\<close>

record jit_function =
  jf_spidir :: "spidir_funcref option"
  jf_cfi_thunk :: u32
  jf_address :: u64
  jf_inited :: bool
  jf_has_cfi :: bool

record jit_global =
  jg_offset :: u64
  jg_type :: spidir_value_type

record jit_table =
  jt_global :: u32
  jt_length :: u32
  jt_used :: bool

record jit_data =
  jd_offset :: u64

text \<open>
  \<open>jit_helper_kind_t\<close> of src/jit/helpers.h. Its regular families are constructors with arguments:
  \<open>JIT_HELPER_F W32 F_ABS\<close> is \<open>JIT_HELPER_F32_ABS\<close>, \<open>JIT_HELPER_TRUNC_SAT W32 W64 True\<close> is
  \<open>JIT_HELPER_I32_TRUNC_SAT_F64_S\<close>, \<open>JIT_HELPER_ATOMIC_RMW RMW_ADD A4\<close> is
  \<open>JIT_HELPER_ATOMIC_RMW_ADD_4\<close>.
\<close>

datatype width = W32 | W64

datatype access_size = A1 | A2 | A4 | A8

datatype float_helper =
    F_ABS | F_NEG | F_CEIL | F_FLOOR | F_TRUNC | F_NEAREST | F_SQRT
  | F_MIN | F_MAX | F_COPYSIGN

datatype rmw_helper =
    RMW_ADD | RMW_SUB | RMW_AND | RMW_OR | RMW_XOR | RMW_XCHG | RMW_CMPXCHG

datatype jit_helper_kind =
    JIT_HELPER_MEMORY_SIZE
  | JIT_HELPER_MEMORY_GROW
  | JIT_HELPER_MEMORY_COPY
  | JIT_HELPER_MEMORY_FILL
  | JIT_HELPER_MEMORY_INIT
  | JIT_HELPER_F width float_helper
  | JIT_HELPER_TRUNC_SAT width width bool
  | JIT_HELPER_TRAP
  | JIT_HELPER_ATOMIC_NOTIFY
  | JIT_HELPER_ATOMIC_WAIT_4
  | JIT_HELPER_ATOMIC_WAIT_8
  | JIT_HELPER_ATOMIC_FENCE
  | JIT_HELPER_ATOMIC_LOAD access_size
  | JIT_HELPER_ATOMIC_STORE access_size
  | JIT_HELPER_ATOMIC_RMW rmw_helper access_size

text \<open>\<open>helpers[kind]\<close> if \<open>helpers_inited[kind]\<close>.\<close>

record jit_context =
  jc_trace :: "spidir_call list"
  jc_functions :: "jit_function list"
  jc_globals :: "jit_global list"
  jc_tables :: "jit_table list"
  jc_data :: "jit_data list"
  jc_queue :: "u32 list"
  jc_helpers :: "jit_helper_kind \<Rightarrow> u32 option"

record jit_value =
  jv_value :: u32
  jv_type :: spidir_value_type

record jit_label =
  lb_block :: u32
  lb_stack :: "jit_value list"
  lb_locals_phis :: "u32 list"
  lb_locals_values :: "u32 list option"
  lb_inputs :: nat
  lb_loop :: bool
  lb_terminated :: bool
  lb_unreachable_depth :: u32
  lb_result_type :: spidir_value_type
  lb_result_phi :: u32
  lb_result_value :: u32

text \<open>A label after \<open>memset(new_label, 0, sizeof(*new_label))\<close>, with the result type then stored.\<close>

definition new_label :: "spidir_value_type \<Rightarrow> jit_label" where
  "new_label type = \<lparr>lb_block = 0, lb_stack = [], lb_locals_phis = [], lb_locals_values = None,
     lb_inputs = 0, lb_loop = False, lb_terminated = False, lb_unreachable_depth = 0,
     lb_result_type = type, lb_result_phi = 0, lb_result_value = 0\<rparr>"

record jit_inst = jit_context +
  fn_code :: buffer
  fn_locals :: "jit_value list"
  fn_ret_type :: spidir_value_type
  fn_labels :: "jit_label list"

type_synonym ('x, 'a) ctx_op = "('x jit_context_scheme, 'a) sm"
type_synonym 'a inst_op = "(jit_inst, 'a) sm"

section \<open>Value types\<close>

fun jit_get_spidir_value_type :: "wasm_value_type \<Rightarrow> ('s, spidir_value_type) sm" where
  "jit_get_spidir_value_type WASM_VALUE_TYPE_F64 = ret SPIDIR_TYPE_F64"
| "jit_get_spidir_value_type WASM_VALUE_TYPE_F32 = ret SPIDIR_TYPE_F32"
| "jit_get_spidir_value_type WASM_VALUE_TYPE_I64 = ret SPIDIR_TYPE_I64"
| "jit_get_spidir_value_type WASM_VALUE_TYPE_I32 = ret SPIDIR_TYPE_I32"
| "jit_get_spidir_value_type WASM_VALUE_TYPE_INVALID = fail Trapped"

fun jit_get_spidir_size :: "spidir_value_type \<Rightarrow> ('s, u64) sm" where
  "jit_get_spidir_size SPIDIR_TYPE_F64 = ret 8"
| "jit_get_spidir_size SPIDIR_TYPE_F32 = ret 4"
| "jit_get_spidir_size SPIDIR_TYPE_I64 = ret 8"
| "jit_get_spidir_size SPIDIR_TYPE_I32 = ret 4"
| "jit_get_spidir_size SPIDIR_TYPE_PTR = fail Trapped"
| "jit_get_spidir_size SPIDIR_TYPE_NONE = fail Trapped"

fun jit_get_spidir_mem_size :: "spidir_value_type \<Rightarrow> ('s, spidir_mem_size) sm" where
  "jit_get_spidir_mem_size SPIDIR_TYPE_F64 = ret SPIDIR_MEM_SIZE_8"
| "jit_get_spidir_mem_size SPIDIR_TYPE_F32 = ret SPIDIR_MEM_SIZE_4"
| "jit_get_spidir_mem_size SPIDIR_TYPE_I64 = ret SPIDIR_MEM_SIZE_8"
| "jit_get_spidir_mem_size SPIDIR_TYPE_I32 = ret SPIDIR_MEM_SIZE_4"
| "jit_get_spidir_mem_size SPIDIR_TYPE_PTR = fail Trapped"
| "jit_get_spidir_mem_size SPIDIR_TYPE_NONE = fail Trapped"

text \<open>The spidir type of a valid wasm type, for statements.\<close>

fun spidir_type :: "wasm_value_type \<Rightarrow> spidir_value_type" where
  "spidir_type WASM_VALUE_TYPE_F64 = SPIDIR_TYPE_F64"
| "spidir_type WASM_VALUE_TYPE_F32 = SPIDIR_TYPE_F32"
| "spidir_type WASM_VALUE_TYPE_I64 = SPIDIR_TYPE_I64"
| "spidir_type WASM_VALUE_TYPE_I32 = SPIDIR_TYPE_I32"
| "spidir_type WASM_VALUE_TYPE_INVALID = SPIDIR_TYPE_NONE"

section \<open>Calling the library\<close>

definition emit :: "spidir_call \<Rightarrow> ('x, unit) ctx_op" where
  "emit c = modify (\<lambda>s. s\<lparr>jc_trace := c # jc_trace s\<rparr>)"

definition reply :: "(spidir_call list \<Rightarrow> 'a) \<Rightarrow> spidir_call \<Rightarrow> ('x, 'a) ctx_op" where
  "reply f c = bind (emit c) (\<lambda>_. gets (\<lambda>s. f (jc_trace s)))"

text \<open>The functions that return a value, and those that return a block.\<close>

definition build :: "jit_env \<Rightarrow> spidir_call \<Rightarrow> ('x, u32) ctx_op" where
  "build E c = reply (value_id (env_spidir E)) c"

definition create_block :: "jit_env \<Rightarrow> ('x, u32) ctx_op" where
  "create_block E = reply (block_id (env_spidir E)) Create_block"

definition set_block :: "u32 \<Rightarrow> ('x, unit) ctx_op" where
  "set_block b = emit (Set_block b)"

text \<open>\<open>spidir_builder_build_phi\<close> returns the phi's value and stores the phi.\<close>

definition build_phi :: "jit_env \<Rightarrow> spidir_value_type \<Rightarrow> u32 list \<Rightarrow> ('x, u32 \<times> u32) ctx_op" where
  "build_phi E type vals =
     reply (\<lambda>tr. (value_id (env_spidir E) tr, phi_id (env_spidir E) tr)) (Build_phi type vals)"

abbreviation invalid :: "jit_env \<Rightarrow> u32" where
  "invalid E \<equiv> value_invalid (env_spidir E)"

abbreviation iconst :: "jit_env \<Rightarrow> spidir_value_type \<Rightarrow> u64 \<Rightarrow> ('x, u32) ctx_op" where
  "iconst E type v \<equiv> build E (Build_iconst type v)"

abbreviation binary :: "jit_env \<Rightarrow> spidir_binary \<Rightarrow> u32 \<Rightarrow> u32 \<Rightarrow> ('x, u32) ctx_op" where
  "binary E f a b \<equiv> build E (Build_binary f a b)"

abbreviation unary :: "jit_env \<Rightarrow> spidir_unary \<Rightarrow> u32 \<Rightarrow> ('x, u32) ctx_op" where
  "unary E f a \<equiv> build E (Build_unary f a)"

section \<open>The buffer, the current label, and the operand stack\<close>

definition pull :: "'a parser \<Rightarrow> 'a inst_op" where
  "pull p = on_part fn_code (\<lambda>b s. s\<lparr>fn_code := b\<rparr>) p"

definition get_label :: "jit_label inst_op" where
  "get_label = bind (gets fn_labels) (\<lambda>ls. index ls 0)"

definition set_label_at :: "nat \<Rightarrow> (jit_label \<Rightarrow> jit_label) \<Rightarrow> unit inst_op" where
  "set_label_at i f =
     bind (gets fn_labels) (\<lambda>ls.
     bind (index ls i) (\<lambda>l.
     modify (\<lambda>s. s\<lparr>fn_labels := ls[i := f l]\<rparr>)))"

abbreviation set_label :: "(jit_label \<Rightarrow> jit_label) \<Rightarrow> unit inst_op" where
  "set_label f \<equiv> set_label_at 0 f"

text \<open>\<open>JIT_PUSH\<close>, \<open>vec_pop(&label->stack)\<close> and \<open>JIT_POP\<close>.\<close>

definition jit_push :: "spidir_value_type \<Rightarrow> u32 \<Rightarrow> unit inst_op" where
  "jit_push type v = set_label (\<lambda>l. l\<lparr>lb_stack := \<lparr>jv_value = v, jv_type = type\<rparr> # lb_stack l\<rparr>)"

definition jit_pop_any :: "jit_value inst_op" where
  "jit_pop_any =
     bind get_label (\<lambda>l.
     bind (check (lb_stack l \<noteq> [])) (\<lambda>_.
     bind (set_label (\<lambda>l. l\<lparr>lb_stack := tl (lb_stack l)\<rparr>)) (\<lambda>_.
     ret (hd (lb_stack l)))))"

definition jit_pop :: "spidir_value_type \<Rightarrow> u32 inst_op" where
  "jit_pop type =
     bind jit_pop_any (\<lambda>v.
     bind (check (jv_type v = type)) (\<lambda>_.
     ret (jv_value v)))"

definition terminate_label :: "unit inst_op" where
  "terminate_label = set_label (\<lambda>l. l\<lparr>lb_terminated := True\<rparr>)"

end
