(* ===== verification/Jit_Helpers.thy ===== *)
theory Jit_Helpers
  imports Jit_State
begin

text \<open>
  The runtime helpers of src/jit/helpers.c: their table of names and signatures, their lazy
  registration with the library, and what the memory and atomic helpers do to the memory of
  the process, here a function from addresses to bytes. The float helpers are C expressions on
  floats and are left to their names.
\<close>

section \<open>The table of definitions\<close>

definition bytes_of :: "string \<Rightarrow> u8 list" where
  "bytes_of s = map of_char s"

fun width_name :: "string \<Rightarrow> width \<Rightarrow> string" where
  "width_name c W32 = c @ ''32''"
| "width_name c W64 = c @ ''64''"

fun float_type :: "width \<Rightarrow> spidir_value_type" where
  "float_type W32 = SPIDIR_TYPE_F32"
| "float_type W64 = SPIDIR_TYPE_F64"

fun int_type :: "width \<Rightarrow> spidir_value_type" where
  "int_type W32 = SPIDIR_TYPE_I32"
| "int_type W64 = SPIDIR_TYPE_I64"

fun size_name :: "access_size \<Rightarrow> string" where
  "size_name A1 = ''1''"
| "size_name A2 = ''2''"
| "size_name A4 = ''4''"
| "size_name A8 = ''8''"

text \<open>The type of the values an atomic helper of that size takes and returns.\<close>

fun access_type :: "access_size \<Rightarrow> spidir_value_type" where
  "access_type A8 = SPIDIR_TYPE_I64"
| "access_type A4 = SPIDIR_TYPE_I32"
| "access_type A2 = SPIDIR_TYPE_I32"
| "access_type A1 = SPIDIR_TYPE_I32"

fun float_helper_name :: "float_helper \<Rightarrow> string" where
  "float_helper_name F_ABS = ''abs''"
| "float_helper_name F_NEG = ''neg''"
| "float_helper_name F_CEIL = ''ceil''"
| "float_helper_name F_FLOOR = ''floor''"
| "float_helper_name F_TRUNC = ''trunc''"
| "float_helper_name F_NEAREST = ''nearest''"
| "float_helper_name F_SQRT = ''sqrt''"
| "float_helper_name F_MIN = ''min''"
| "float_helper_name F_MAX = ''max''"
| "float_helper_name F_COPYSIGN = ''copysign''"

fun float_helper_arity :: "float_helper \<Rightarrow> nat" where
  "float_helper_arity F_MIN = 2"
| "float_helper_arity F_MAX = 2"
| "float_helper_arity F_COPYSIGN = 2"
| "float_helper_arity _ = 1"

fun rmw_name :: "rmw_helper \<Rightarrow> string" where
  "rmw_name RMW_ADD = ''add''"
| "rmw_name RMW_SUB = ''sub''"
| "rmw_name RMW_AND = ''and''"
| "rmw_name RMW_OR = ''or''"
| "rmw_name RMW_XOR = ''xor''"
| "rmw_name RMW_XCHG = ''xchg''"
| "rmw_name RMW_CMPXCHG = ''cmpxchg''"

fun rmw_operands :: "rmw_helper \<Rightarrow> nat" where
  "rmw_operands RMW_CMPXCHG = 2"
| "rmw_operands _ = 1"

text \<open>
  An entry of \<open>m_helper_defs\<close> without its address: the name, the return type and the argument
  types up to the terminating \<open>SPIDIR_TYPE_NONE\<close>. The table has no entry for
  \<open>JIT_HELPER_ATOMIC_FENCE\<close>, whose name is therefore null.
\<close>

fun m_helper_defs :: "jit_helper_kind \<Rightarrow> (string \<times> spidir_value_type \<times> spidir_value_type list) option" where
  "m_helper_defs JIT_HELPER_MEMORY_SIZE =
     Some (''wasm_host_memory_size'', SPIDIR_TYPE_I32, [SPIDIR_TYPE_PTR, SPIDIR_TYPE_PTR])"
| "m_helper_defs JIT_HELPER_MEMORY_GROW =
     Some (''wasm_host_memory_grow'', SPIDIR_TYPE_I32, [SPIDIR_TYPE_PTR, SPIDIR_TYPE_PTR, SPIDIR_TYPE_I32])"
| "m_helper_defs JIT_HELPER_MEMORY_COPY =
     Some (''jit_helper_memory_copy'', SPIDIR_TYPE_NONE, [SPIDIR_TYPE_PTR, SPIDIR_TYPE_PTR, SPIDIR_TYPE_I32])"
| "m_helper_defs JIT_HELPER_MEMORY_FILL =
     Some (''jit_helper_memory_fill'', SPIDIR_TYPE_NONE, [SPIDIR_TYPE_PTR, SPIDIR_TYPE_I32, SPIDIR_TYPE_I32])"
| "m_helper_defs JIT_HELPER_MEMORY_INIT =
     Some (''jit_helper_memory_init'', SPIDIR_TYPE_NONE,
       [SPIDIR_TYPE_PTR, SPIDIR_TYPE_PTR, SPIDIR_TYPE_I32, SPIDIR_TYPE_I32, SPIDIR_TYPE_I32])"
| "m_helper_defs (JIT_HELPER_F w f) =
     Some (width_name ''f'' w @ ''_'' @ float_helper_name f, float_type w,
       replicate (float_helper_arity f) (float_type w))"
| "m_helper_defs (JIT_HELPER_TRUNC_SAT to from sx) =
     Some (width_name ''i'' to @ ''_trunc_sat_'' @ width_name ''f'' from @ (if sx then ''_s'' else ''_u''),
       int_type to, [float_type from])"
| "m_helper_defs JIT_HELPER_TRAP = Some (''jit_helper_trap'', SPIDIR_TYPE_NONE, [])"
| "m_helper_defs JIT_HELPER_ATOMIC_NOTIFY =
     Some (''wasm_host_atomic_notify'', SPIDIR_TYPE_I32, [SPIDIR_TYPE_PTR, SPIDIR_TYPE_I32])"
| "m_helper_defs JIT_HELPER_ATOMIC_WAIT_4 =
     Some (''wasm_host_atomic_wait_4'', SPIDIR_TYPE_I32, [SPIDIR_TYPE_PTR, SPIDIR_TYPE_I32, SPIDIR_TYPE_I64])"
| "m_helper_defs JIT_HELPER_ATOMIC_WAIT_8 =
     Some (''wasm_host_atomic_wait_8'', SPIDIR_TYPE_I32, [SPIDIR_TYPE_PTR, SPIDIR_TYPE_I64, SPIDIR_TYPE_I64])"
| "m_helper_defs JIT_HELPER_ATOMIC_FENCE = None"
| "m_helper_defs (JIT_HELPER_ATOMIC_LOAD sz) =
     Some (''atomic_load_'' @ size_name sz, access_type sz, [SPIDIR_TYPE_PTR])"
| "m_helper_defs (JIT_HELPER_ATOMIC_STORE sz) =
     Some (''atomic_store_'' @ size_name sz, SPIDIR_TYPE_NONE, [SPIDIR_TYPE_PTR, access_type sz])"
| "m_helper_defs (JIT_HELPER_ATOMIC_RMW f sz) =
     Some (''atomic_rmw_'' @ rmw_name f @ ''_'' @ size_name sz, access_type sz,
       SPIDIR_TYPE_PTR # replicate (rmw_operands f) (access_type sz))"

section \<open>Registration and lookup\<close>

definition jit_get_helper :: "jit_env \<Rightarrow> jit_helper_kind \<Rightarrow> ('x, spidir_funcref) ctx_op" where
  "jit_get_helper E kind =
     bind (gets (\<lambda>s. jc_helpers s kind)) (\<lambda>known.
     case known of
       Some f \<Rightarrow> ret (Funcref_external f)
     | None \<Rightarrow>
         (case m_helper_defs kind of
            None \<Rightarrow> fail Check_failed
          | Some (name, ret_type, args) \<Rightarrow>
              bind (reply (func_id (env_spidir E))
                (Create_extern_function (bytes_of name) ret_type args)) (\<lambda>f.
              bind (modify (\<lambda>s. s\<lparr>jc_helpers := (jc_helpers s)(kind \<mapsto> f)\<rparr>)) (\<lambda>_.
              ret (Funcref_external f)))))"

text \<open>The kinds in the order of the enumeration, for the loops over \<open>JIT_HELPER_COUNT\<close>.\<close>

definition helper_kinds :: "jit_helper_kind list" where
  "helper_kinds =
     [JIT_HELPER_MEMORY_SIZE, JIT_HELPER_MEMORY_GROW, JIT_HELPER_MEMORY_COPY, JIT_HELPER_MEMORY_FILL,
      JIT_HELPER_MEMORY_INIT] @
     concat (map (\<lambda>w. map (JIT_HELPER_F w) [F_ABS, F_NEG, F_CEIL, F_FLOOR, F_TRUNC, F_NEAREST, F_SQRT,
       F_MIN, F_MAX, F_COPYSIGN]) [W32, W64]) @
     concat (map (\<lambda>to. concat (map (\<lambda>from. map (JIT_HELPER_TRUNC_SAT to from) [True, False])
       [W32, W64])) [W32, W64]) @
     [JIT_HELPER_TRAP, JIT_HELPER_ATOMIC_NOTIFY, JIT_HELPER_ATOMIC_WAIT_4, JIT_HELPER_ATOMIC_WAIT_8,
      JIT_HELPER_ATOMIC_FENCE] @
     map JIT_HELPER_ATOMIC_LOAD [A1, A2, A4, A8] @
     map JIT_HELPER_ATOMIC_STORE [A1, A2, A4, A8] @
     concat (map (\<lambda>f. map (JIT_HELPER_ATOMIC_RMW f) [A1, A2, A4, A8])
       [RMW_ADD, RMW_SUB, RMW_AND, RMW_OR, RMW_XOR, RMW_XCHG, RMW_CMPXCHG])"

text \<open>
  \<open>address\<close> gives the addresses of the helpers, which the C compiler chooses; null is 0. The entry
  without a definition has a null address.
\<close>

definition jit_helper_lookup_address ::
    "(jit_helper_kind \<Rightarrow> u64) \<Rightarrow> (jit_helper_kind \<Rightarrow> u32 option) \<Rightarrow> u32 \<Rightarrow> u64" where
  "jit_helper_lookup_address address helpers external_id =
     (case List.find (\<lambda>k. helpers k = Some external_id) helper_kinds of
        Some k \<Rightarrow> address k | None \<Rightarrow> 0)"

definition jit_get_helper_name :: "(jit_helper_kind \<Rightarrow> u64) \<Rightarrow> u64 \<Rightarrow> string option" where
  "jit_get_helper_name address a =
     (case List.find (\<lambda>k. address k = a) helper_kinds of
        Some k \<Rightarrow> map_option fst (m_helper_defs k) | None \<Rightarrow> None)"

section \<open>The memory helpers\<close>

type_synonym host_memory = "u64 \<Rightarrow> u8"

text \<open>\<open>memmove(d, s, n)\<close>, which is also \<open>memcpy\<close> on ranges that do not overlap.\<close>

definition memmove :: "u64 \<Rightarrow> u64 \<Rightarrow> u64 \<Rightarrow> host_memory \<Rightarrow> host_memory" where
  "memmove d src n mem = (\<lambda>a. if a - d < n then mem (src + (a - d)) else mem a)"

definition jit_helper_memory_copy :: "u64 \<Rightarrow> u64 \<Rightarrow> u32 \<Rightarrow> (host_memory, unit) sm" where
  "jit_helper_memory_copy d src n = (if n \<noteq> 0 then modify (memmove d src (ucast n)) else ret ())"

definition jit_helper_memory_fill :: "u64 \<Rightarrow> u32 \<Rightarrow> u32 \<Rightarrow> (host_memory, unit) sm" where
  "jit_helper_memory_fill d val n =
     (if n \<noteq> 0 then modify (\<lambda>mem a. if a - d < ucast n then ucast val else mem a) else ret ())"

definition jit_helper_memory_init :: "u64 \<Rightarrow> u64 \<Rightarrow> u32 \<Rightarrow> u32 \<Rightarrow> u32 \<Rightarrow> (host_memory, unit) sm" where
  "jit_helper_memory_init dst data data_len offset len =
     (let top_offset = (ucast offset :: u64) + ucast len in
      bind (assert_that (top_offset \<le> ucast data_len)) (\<lambda>_.
      if len \<noteq> 0 then
        bind (assert_that (data \<noteq> 0)) (\<lambda>_.
        modify (memmove dst (data + ucast offset) (ucast len)))
      else ret ()))"

definition jit_helper_trap :: "(host_memory, unit) sm" where
  "jit_helper_trap = fail Trapped"

section \<open>The atomic helpers\<close>

text \<open>
  Each helper is one atomic step on the memory. The narrow ones convert their \<open>uint32_t\<close> operands
  to the width of the access, and their result is zero-extended.
\<close>

fun access_bytes :: "access_size \<Rightarrow> nat" where
  "access_bytes A1 = 1"
| "access_bytes A2 = 2"
| "access_bytes A4 = 4"
| "access_bytes A8 = 8"

definition read_mem :: "access_size \<Rightarrow> u64 \<Rightarrow> host_memory \<Rightarrow> u64" where
  "read_mem sz a mem = le_word (map (\<lambda>i. mem (a + word_of_nat i)) [0..<access_bytes sz])"

definition write_mem :: "access_size \<Rightarrow> u64 \<Rightarrow> u64 \<Rightarrow> host_memory \<Rightarrow> host_memory" where
  "write_mem sz a v mem =
     (\<lambda>b. if unat (b - a) < access_bytes sz then le_bytes (access_bytes sz) v ! unat (b - a) else mem b)"

definition atomic_load_sz :: "access_size \<Rightarrow> u64 \<Rightarrow> (host_memory, u64) sm" where
  "atomic_load_sz sz a = gets (read_mem sz a)"

definition atomic_store_sz :: "access_size \<Rightarrow> u64 \<Rightarrow> u64 \<Rightarrow> (host_memory, unit) sm" where
  "atomic_store_sz sz a v = modify (write_mem sz a v)"

fun rmw_result :: "rmw_helper \<Rightarrow> u64 \<Rightarrow> u64 \<Rightarrow> u64" where
  "rmw_result RMW_ADD old v = old + v"
| "rmw_result RMW_SUB old v = old - v"
| "rmw_result RMW_AND old v = old AND v"
| "rmw_result RMW_OR old v = old OR v"
| "rmw_result RMW_XOR old v = old XOR v"
| "rmw_result RMW_XCHG old v = v"
| "rmw_result RMW_CMPXCHG old v = v"

definition atomic_rmw_sz :: "rmw_helper \<Rightarrow> access_size \<Rightarrow> u64 \<Rightarrow> u64 \<Rightarrow> (host_memory, u64) sm" where
  "atomic_rmw_sz f sz a v =
     bind (gets (read_mem sz a)) (\<lambda>old.
     bind (modify (write_mem sz a (rmw_result f old v))) (\<lambda>_.
     ret old))"

definition atomic_rmw_cmpxchg_sz :: "access_size \<Rightarrow> u64 \<Rightarrow> u64 \<Rightarrow> u64 \<Rightarrow> (host_memory, u64) sm" where
  "atomic_rmw_cmpxchg_sz sz a expected replacement =
     bind (gets (read_mem sz a)) (\<lambda>old.
     if old = take_bit (8 * access_bytes sz) expected then
       bind (modify (write_mem sz a replacement)) (\<lambda>_.
       ret old)
     else ret old)"

end
