(* ===== verification/Jit_Prepare.thy ===== *)
theory Jit_Prepare
  imports Jit_Helpers
begin

text \<open>
  Declaring a function to the library, \<open>jit_prepare_function\<close> of src/jit/function.c, with the
  decimal formatting of src/util/string.c that its generated names use, and the lookups of a
  function's type in src/jit/inst.c and src/jit/cfi.c.
\<close>

section \<open>Decimal numbers\<close>

text \<open>The \<open>do ... while\<close> loop of \<open>u64toa\<close>, which writes the digits lowest first.\<close>

function digits_loop :: "u64 \<Rightarrow> u8 list" where
  "digits_loop n =
     (let dig = n mod 10; n' = n div 10
      in (0x30 + ucast dig) # (if n' \<noteq> 0 then digits_loop n' else []))"
  by pat_completeness auto
termination
proof (relation "measure unat")
  fix n dig n' :: u64
  assume "n' = n div 10" "n' \<noteq> 0"
  then have "unat n \<noteq> 0" by (auto simp: unat_eq_zero)
  with \<open>n' = n div 10\<close> show "(n', n) \<in> measure unat" by (simp add: unat_div)
qed simp

declare digits_loop.simps [simp del]

text \<open>The loop that swaps the digits between the two pointers as they approach each other.\<close>

function swap_loop :: "nat \<Rightarrow> nat \<Rightarrow> 'a list \<Rightarrow> 'a list" where
  "swap_loop i p xs =
     (if i < p then swap_loop (Suc i) (p - 1) (xs[i := xs ! p, p := xs ! i]) else xs)"
  by pat_completeness auto
termination
  by (relation "measure (\<lambda>(i, p, xs). p - i)") auto

declare swap_loop.simps [simp del]

definition u64toa :: "u64 \<Rightarrow> u8 list" where
  "u64toa n = (let ds = digits_loop n in swap_loop 0 (length ds - 1) ds)"

section \<open>Function types\<close>

text \<open>
  The code passes pointers into \<open>module->types\<close>; the model passes the index of the entry.
  \<open>wasm_get_func_type\<close> is the unchecked lookup of src/jit/inst.c, and \<open>func_typeidx\<close> what it finds
  in bounds, the entry that the pointer returned by \<open>wasm_get_func\<close> points to.
\<close>

definition wasm_get_func_type :: "wasm_module \<Rightarrow> u32 \<Rightarrow> ('s, u32) sm" where
  "wasm_get_func_type m funcidx =
     bind (if unat funcidx < length (mod_imports m) then
             bind (index (mod_imports m) (unat funcidx)) (\<lambda>i. ret (import_index i))
           else index (mod_functions m) (unat funcidx - length (mod_imports m))) (\<lambda>typeidx.
     bind (defined (unat typeidx < length (mod_types m))) (\<lambda>_.
     ret typeidx))"

definition func_typeidx :: "wasm_module \<Rightarrow> u32 \<Rightarrow> u32" where
  "func_typeidx m funcidx =
     (if unat funcidx < length (mod_imports m) then import_index (mod_imports m ! unat funcidx)
      else mod_functions m ! (unat funcidx - length (mod_imports m)))"

definition jit_cfi_get_type_id :: "u32 \<Rightarrow> u64" where
  "jit_cfi_get_type_id typeidx = ucast typeidx"

text \<open>The return type of a declaration: at most one result.\<close>

definition spidir_ret_type :: "wasm_type \<Rightarrow> ('s, spidir_value_type) sm" where
  "spidir_ret_type type =
     (if length (result_types type) = 1 then jit_get_spidir_value_type (hd (result_types type))
      else bind (check (result_types type = [])) (\<lambda>_. ret SPIDIR_TYPE_NONE))"

section \<open>Declaring a function\<close>

definition set_function :: "u32 \<Rightarrow> (jit_function \<Rightarrow> jit_function) \<Rightarrow> ('x, unit) ctx_op" where
  "set_function i f =
     bind (gets jc_functions) (\<lambda>fs.
     bind (index fs (unat i)) (\<lambda>x.
     modify (\<lambda>s. s\<lparr>jc_functions := fs[unat i := f x]\<rparr>)))"

definition generated_name :: "string \<Rightarrow> u32 \<Rightarrow> u8 list" where
  "generated_name prefix n = bytes_of prefix @ u64toa (ucast n)"

definition debug_name :: "wasm_module \<Rightarrow> u32 \<Rightarrow> ('s, u8 list) sm" where
  "debug_name m funcidx =
     (case mod_function_names m of
        None \<Rightarrow> ret (generated_name ''func'' funcidx)
      | Some names \<Rightarrow>
          bind (index names (unat funcidx)) (\<lambda>name.
          ret (case name of Some n \<Rightarrow> n | None \<Rightarrow> generated_name ''func'' funcidx)))"

definition declare_import :: "jit_env \<Rightarrow> u32 \<Rightarrow> wasm_type \<Rightarrow> spidir_call \<Rightarrow> ('x, unit) ctx_op" where
  "declare_import E funcidx type c =
     bind (index (mod_imports (env_module E)) (unat funcidx)) (\<lambda>import.
     bind (check (import_kind import = WASM_EXTERN_FUNC)) (\<lambda>_.
     let addr = (case env_resolve_import E of
          Some resolve \<Rightarrow> resolve (import_module_name import) (import_item_name import) type
        | None \<Rightarrow> 0) in
     bind (check (addr \<noteq> 0)) (\<lambda>_.
     bind (reply (func_id (env_spidir E)) c) (\<lambda>f.
     set_function funcidx (\<lambda>x. x\<lparr>jf_spidir := Some (Funcref_external f), jf_address := addr\<rparr>)))))"

definition declare_function :: "jit_env \<Rightarrow> u32 \<Rightarrow> spidir_call \<Rightarrow> ('x, unit) ctx_op" where
  "declare_function E funcidx c =
     bind (reply (func_id (env_spidir E)) c) (\<lambda>f.
     bind (set_function funcidx (\<lambda>x. x\<lparr>jf_spidir := Some (Funcref_internal f)\<rparr>)) (\<lambda>_.
     modify (\<lambda>s. s\<lparr>jc_queue := funcidx # jc_queue s\<rparr>)))"

definition prepare_new_function :: "jit_env \<Rightarrow> u32 \<Rightarrow> ('x, unit) ctx_op" where
  "prepare_new_function E funcidx =
     (let m = env_module E in
     bind (lift_res (wasm_get_func m (int (unat funcidx)))) (\<lambda>found.
     bind (case found of None \<Rightarrow> fail Check_failed | Some type \<Rightarrow> ret type) (\<lambda>type.
     bind (spidir_ret_type type) (\<lambda>ret_type.
     bind (calloc_unchecked (env_host E) 4 (length (arg_types type) + 2)) (\<lambda>_.
     bind (map_each (arg_types type) jit_get_spidir_value_type) (\<lambda>wasm_args.
     let args = SPIDIR_TYPE_PTR # SPIDIR_TYPE_PTR # wasm_args in
     bind (debug_name m funcidx) (\<lambda>name.
     bind (if unat funcidx < length (mod_imports m)
           then declare_import E funcidx type (Create_extern_function name ret_type args)
           else declare_function E funcidx (Create_function name ret_type args)) (\<lambda>_.
     set_function funcidx (\<lambda>x. x\<lparr>jf_inited := True\<rparr>)))))))))"

definition jit_prepare_function :: "jit_env \<Rightarrow> u32 \<Rightarrow> ('x, unit) ctx_op" where
  "jit_prepare_function E funcidx =
     bind (check (unat funcidx < total_funcs (env_module E))) (\<lambda>_.
     bind (gets jc_functions) (\<lambda>fs.
     bind (index fs (unat funcidx)) (\<lambda>f.
     if jf_inited f then ret () else prepare_new_function E funcidx)))"

end
