(* ===== verification/Jit_Control.thy ===== *)
theory Jit_Control
  imports Jit_Prepare
begin

text \<open>
  The translation of instructions, src/jit/inst.c, first part: traps, the parametric and the
  control instructions.
\<close>

section \<open>Shared pieces\<close>

definition jit_emit_trap :: "jit_env \<Rightarrow> ('x, unit) ctx_op" where
  "jit_emit_trap E =
     bind (jit_get_helper E JIT_HELPER_TRAP) (\<lambda>trap.
     bind (build E (Build_call trap [])) (\<lambda>_.
     emit Build_unreachable))"

definition jit_emit_zext64 :: "jit_env \<Rightarrow> u32 \<Rightarrow> ('x, u32) ctx_op" where
  "jit_emit_zext64 E v =
     bind (unary E Op_iext v) (\<lambda>e.
     bind (iconst E SPIDIR_TYPE_I64 0xFFFFFFFF) (\<lambda>mask.
     binary E Op_and e mask))"

section \<open>Parametric instructions\<close>

definition jit_wasm_unreachable :: "jit_env \<Rightarrow> unit inst_op" where
  "jit_wasm_unreachable E = bind (jit_emit_trap E) (\<lambda>_. terminate_label)"

definition jit_wasm_nop :: "unit inst_op" where
  "jit_wasm_nop = ret ()"

definition jit_wasm_drop :: "unit inst_op" where
  "jit_wasm_drop =
     bind get_label (\<lambda>l.
     bind (check (length (lb_stack l) \<ge> 1)) (\<lambda>_.
     bind jit_pop_any (\<lambda>_.
     ret ())))"

definition jit_wasm_select :: "jit_env \<Rightarrow> unit inst_op" where
  "jit_wasm_select E =
     bind (jit_pop SPIDIR_TYPE_I32) (\<lambda>c.
     bind jit_pop_any (\<lambda>val2.
     bind jit_pop_any (\<lambda>val1.
     bind (check (jv_type val1 = jv_type val2)) (\<lambda>_.
     bind (build E (Build_select c (jv_value val1) (jv_value val2))) (\<lambda>v.
     jit_push (jv_type val1) v)))))"

section \<open>Blocks and loops\<close>

definition block_type :: "u8 \<Rightarrow> spidir_value_type option" where
  "block_type = map_of
     [(0x40, SPIDIR_TYPE_NONE), (0x7F, SPIDIR_TYPE_I32), (0x7E, SPIDIR_TYPE_I64),
      (0x7D, SPIDIR_TYPE_F32), (0x7C, SPIDIR_TYPE_F64)]"

definition some_or_fail :: "'a option \<Rightarrow> ('s, 'a) sm" where
  "some_or_fail x = (case x of None \<Rightarrow> fail Check_failed | Some a \<Rightarrow> ret a)"

definition jit_wasm_pull_block_type :: "spidir_value_type inst_op" where
  "jit_wasm_pull_block_type = bind (pull pull_u8) (\<lambda>byte. some_or_fail (block_type byte))"

text \<open>\<open>vec_add(&func->labels, 1)\<close>.\<close>

definition push_label :: "jit_label \<Rightarrow> unit inst_op" where
  "push_label l = modify (\<lambda>s. s\<lparr>fn_labels := l # fn_labels s\<rparr>)"

definition jit_wasm_block :: "jit_env \<Rightarrow> unit inst_op" where
  "jit_wasm_block E =
     bind jit_wasm_pull_block_type (\<lambda>type.
     bind (push_label (new_label type)) (\<lambda>_.
     bind (create_block E) (\<lambda>b.
     set_label (\<lambda>l. l\<lparr>lb_block := b\<rparr>))))"

text \<open>One turn of the loop over the locals of a new loop label.\<close>

definition loop_phi :: "jit_env \<Rightarrow> nat \<Rightarrow> unit inst_op" where
  "loop_phi E i =
     bind (gets fn_locals) (\<lambda>ls.
     bind (index ls i) (\<lambda>local.
     bind (build_phi E (jv_type local) [jv_value local]) (\<lambda>(v, phi).
     bind (set_label (\<lambda>l. l\<lparr>lb_locals_phis := (lb_locals_phis l)[i := phi]\<rparr>)) (\<lambda>_.
     modify (\<lambda>s. s\<lparr>fn_locals := (fn_locals s)[i := local\<lparr>jv_value := v\<rparr>]\<rparr>)))))"

definition jit_wasm_loop :: "jit_env \<Rightarrow> unit inst_op" where
  "jit_wasm_loop E =
     bind jit_wasm_pull_block_type (\<lambda>type.
     bind (push_label (new_label type)) (\<lambda>_.
     bind (create_block E) (\<lambda>b.
     bind (emit (Build_branch b)) (\<lambda>_.
     bind (set_block b) (\<lambda>_.
     bind (set_label (\<lambda>l. l\<lparr>lb_block := b, lb_loop := True\<rparr>)) (\<lambda>_.
     bind (gets (\<lambda>s. length (fn_locals s))) (\<lambda>n.
     bind (CALLOC (env_host E) 4 n) (\<lambda>_.
     bind (CALLOC (env_host E) 4 n) (\<lambda>_.
     bind (set_label (\<lambda>l. l\<lparr>lb_locals_values := Some (replicate n (invalid E)),
       lb_locals_phis := replicate n 0\<rparr>)) (\<lambda>_.
     for_each [0..<n] (loop_phi E)))))))))))"

section \<open>Branches\<close>

definition merge_result :: "jit_label \<Rightarrow> bool" where
  "merge_result target \<longleftrightarrow> lb_result_type target \<noteq> SPIDIR_TYPE_NONE \<and> \<not> lb_loop target"

definition get_label_at :: "nat \<Rightarrow> jit_label inst_op" where
  "get_label_at t = bind (gets fn_labels) (\<lambda>ls. index ls t)"

text \<open>The first branch to a label copies the locals and the result.\<close>

definition first_branch :: "jit_env \<Rightarrow> nat \<Rightarrow> u32 \<Rightarrow> unit inst_op" where
  "first_branch E t result_value =
     bind (gets fn_locals) (\<lambda>ls.
     bind (CALLOC (env_host E) 4 (length ls)) (\<lambda>_.
     bind (CALLOC (env_host E) 4 (length ls)) (\<lambda>_.
     bind (set_label_at t (\<lambda>l. l\<lparr>lb_locals_values := Some (map jv_value ls),
       lb_locals_phis := replicate (length ls) UINT32_MAX\<rparr>)) (\<lambda>_.
     set_label_at t (\<lambda>l. if merge_result l
       then l\<lparr>lb_result_value := result_value, lb_result_phi := UINT32_MAX\<rparr> else l)))))"

text \<open>
  A phi for a value that has been the same on every branch so far: created without inputs, it
  then receives that value once per branch.
\<close>

definition fill_phi :: "jit_env \<Rightarrow> spidir_value_type \<Rightarrow> nat \<Rightarrow> u32 \<Rightarrow> ('x, u32 \<times> u32) ctx_op" where
  "fill_phi E type inputs old =
     bind (build_phi E type []) (\<lambda>(v, phi).
     bind (for_each [0..<inputs] (\<lambda>_. emit (Add_phi_input phi old))) (\<lambda>_.
     ret (v, phi)))"

text \<open>One turn of the loop over the locals on a later branch.\<close>

definition merge_local :: "jit_env \<Rightarrow> nat \<Rightarrow> nat \<Rightarrow> unit inst_op" where
  "merge_local E t i =
     bind (gets fn_locals) (\<lambda>ls.
     bind (index ls i) (\<lambda>local.
     bind (get_label_at t) (\<lambda>target.
     bind (case lb_locals_values target of None \<Rightarrow> fail Undefined | Some vs \<Rightarrow> index vs i) (\<lambda>old.
     if jv_value local = old then ret ()
     else
       bind (index (lb_locals_phis target) i) (\<lambda>phi.
       bind (if phi = UINT32_MAX then
               bind (fill_phi E (jv_type local) (lb_inputs target) old) (\<lambda>(v, phi').
               bind (set_label_at t (\<lambda>l. l\<lparr>lb_locals_phis := (lb_locals_phis l)[i := phi'],
                 lb_locals_values := map_option (\<lambda>vs. vs[i := v]) (lb_locals_values l)\<rparr>)) (\<lambda>_.
               ret phi'))
             else ret phi) (\<lambda>phi.
       emit (Add_phi_input phi (jv_value local))))))))"

definition merge_branch_result :: "jit_env \<Rightarrow> nat \<Rightarrow> u32 \<Rightarrow> unit inst_op" where
  "merge_branch_result E t result_value =
     bind (get_label_at t) (\<lambda>target.
     if merge_result target \<and> result_value \<noteq> lb_result_value target then
       bind (if lb_result_phi target = UINT32_MAX then
               bind (fill_phi E (lb_result_type target) (lb_inputs target) (lb_result_value target))
                 (\<lambda>(v, phi').
               bind (set_label_at t (\<lambda>l. l\<lparr>lb_result_phi := phi', lb_result_value := v\<rparr>)) (\<lambda>_.
               ret phi'))
             else ret (lb_result_phi target)) (\<lambda>phi.
       emit (Add_phi_input phi result_value))
     else ret ())"

definition later_branch :: "jit_env \<Rightarrow> nat \<Rightarrow> u32 \<Rightarrow> unit inst_op" where
  "later_branch E t result_value =
     bind (gets (\<lambda>s. cur_block (env_spidir E) (jc_trace s))) (\<lambda>cur.
     bind (some_or_fail cur) (\<lambda>current.
     bind (get_label_at t) (\<lambda>target.
     bind (set_block (lb_block target)) (\<lambda>_.
     bind (gets (\<lambda>s. length (fn_locals s))) (\<lambda>n.
     bind (for_each [0..<n] (merge_local E t)) (\<lambda>_.
     bind (merge_branch_result E t result_value) (\<lambda>_.
     set_block current)))))))"

definition jit_wasm_prepare_branch :: "jit_env \<Rightarrow> nat \<Rightarrow> u32 \<Rightarrow> unit inst_op" where
  "jit_wasm_prepare_branch E t result_value =
     bind (get_label_at t) (\<lambda>target.
     bind (if lb_locals_values target = None then first_branch E t result_value
           else later_branch E t result_value) (\<lambda>_.
     set_label_at t (\<lambda>l. l\<lparr>lb_inputs := lb_inputs l + 1\<rparr>)))"

text \<open>The outermost label, \<open>labels.elements[0]\<close>, is the function body.\<close>

definition jit_is_funcbody_label :: "jit_inst \<Rightarrow> nat \<Rightarrow> bool" where
  "jit_is_funcbody_label s t \<longleftrightarrow> t + 1 = length (fn_labels s)"

text \<open>\<open>index = BUFFER_PULL_U32(code); CHECK(index < func->labels.length)\<close>.\<close>

definition pull_target :: "nat inst_op" where
  "pull_target =
     bind (pull buffer_pull_u32) (\<lambda>i.
     bind (gets (\<lambda>s. length (fn_labels s))) (\<lambda>n.
     bind (check (unat i < n)) (\<lambda>_.
     ret (unat i))))"

text \<open>The function result, if the function has one.\<close>

definition pop_function_result :: "jit_env \<Rightarrow> u32 inst_op" where
  "pop_function_result E =
     bind (gets fn_ret_type) (\<lambda>type.
     if type \<noteq> SPIDIR_TYPE_NONE then jit_pop type else ret (invalid E))"

definition pop_label_result :: "jit_env \<Rightarrow> jit_label \<Rightarrow> u32 inst_op" where
  "pop_label_result E target =
     (if merge_result target then jit_pop (lb_result_type target) else ret (invalid E))"

text \<open>\<open>br_if\<close> reads its operand without removing it, and without looking at its type.\<close>

definition peek_if :: "jit_env \<Rightarrow> bool \<Rightarrow> u32 inst_op" where
  "peek_if E b =
     (if b then
        bind get_label (\<lambda>l.
        bind (check (length (lb_stack l) \<ge> 1)) (\<lambda>_.
        ret (jv_value (hd (lb_stack l)))))
      else ret (invalid E))"

definition jit_wasm_br :: "jit_env \<Rightarrow> unit inst_op" where
  "jit_wasm_br E =
     bind pull_target (\<lambda>t.
     bind (gets (\<lambda>s. jit_is_funcbody_label s t)) (\<lambda>funcbody.
     bind (if funcbody then
             bind (pop_function_result E) (\<lambda>v.
             emit (Build_return v))
           else
             bind (get_label_at t) (\<lambda>target.
             bind (pop_label_result E target) (\<lambda>result.
             bind (jit_wasm_prepare_branch E t result) (\<lambda>_.
             emit (Build_branch (lb_block target)))))) (\<lambda>_.
     terminate_label)))"

definition jit_wasm_br_if :: "jit_env \<Rightarrow> unit inst_op" where
  "jit_wasm_br_if E =
     bind pull_target (\<lambda>t.
     bind (jit_pop SPIDIR_TYPE_I32) (\<lambda>c.
     bind (create_block E) (\<lambda>continuation.
     bind (gets (\<lambda>s. jit_is_funcbody_label s t)) (\<lambda>funcbody.
     bind (if funcbody then
             bind (gets fn_ret_type) (\<lambda>type.
             bind (peek_if E (type \<noteq> SPIDIR_TYPE_NONE)) (\<lambda>v.
             bind (create_block E) (\<lambda>ret_block.
             bind (emit (Build_brcond c ret_block continuation)) (\<lambda>_.
             bind (set_block ret_block) (\<lambda>_.
             emit (Build_return v))))))
           else
             bind (get_label_at t) (\<lambda>target.
             bind (peek_if E (merge_result target)) (\<lambda>result.
             bind (jit_wasm_prepare_branch E t result) (\<lambda>_.
             emit (Build_brcond c (lb_block target) continuation))))) (\<lambda>_.
     set_block continuation)))))"

subsection \<open>br_table\<close>

definition branch_to_table_entry :: "jit_env \<Rightarrow> u32 \<Rightarrow> nat \<Rightarrow> unit inst_op" where
  "branch_to_table_entry E branch_value t =
     bind (gets (\<lambda>s. jit_is_funcbody_label s t)) (\<lambda>funcbody.
     if funcbody then ret ()
     else
       bind (get_label_at t) (\<lambda>target.
       jit_wasm_prepare_branch E t (if lb_loop target then invalid E else branch_value)))"

text \<open>\<open>RESOLVE_TARGET\<close>: the block of a target, and the shared return block once there is one.\<close>

definition resolve_target :: "jit_env \<Rightarrow> nat \<Rightarrow> u32 option \<Rightarrow> (u32 \<times> u32 option) inst_op" where
  "resolve_target E t ret_block =
     bind (gets (\<lambda>s. jit_is_funcbody_label s t)) (\<lambda>funcbody.
     if funcbody then
       (case ret_block of
          Some b \<Rightarrow> ret (b, ret_block)
        | None \<Rightarrow> bind (create_block E) (\<lambda>b. ret (b, Some b)))
     else bind (get_label_at t) (\<lambda>target. ret (lb_block target, ret_block)))"

text \<open>The loop over the cases; \<open>i\<close> counts them, \<open>try_next_case\<close> is the block to fill.\<close>

fun br_table_cases :: "jit_env \<Rightarrow> u32 \<Rightarrow> nat \<Rightarrow> nat list \<Rightarrow> u32 \<Rightarrow> u32 option \<Rightarrow> u32 option inst_op" where
  "br_table_cases E idx i [] try_next_case ret_block = ret ret_block"
| "br_table_cases E idx i (t # ts) try_next_case ret_block =
     bind (set_block try_next_case) (\<lambda>_.
     bind (resolve_target E t ret_block) (\<lambda>(target, ret_block').
     if ts = [] then
       bind (emit (Build_branch target)) (\<lambda>_.
       ret ret_block')
     else
       bind (create_block E) (\<lambda>next_case.
       bind (iconst E SPIDIR_TYPE_I32 (word_of_nat i)) (\<lambda>k.
       bind (build E (Build_icmp SPIDIR_ICMP_EQ SPIDIR_TYPE_I32 idx k)) (\<lambda>c.
       bind (emit (Build_brcond c target next_case)) (\<lambda>_.
       br_table_cases E idx (i + 1) ts next_case ret_block'))))))"

definition br_table_dispatch :: "jit_env \<Rightarrow> u32 \<Rightarrow> nat list \<Rightarrow> nat \<Rightarrow> u32 option inst_op" where
  "br_table_dispatch E idx table dflt =
     bind (create_block E) (\<lambda>try_next_case.
     bind (iconst E SPIDIR_TYPE_I32 (word_of_nat (length table))) (\<lambda>n.
     bind (build E (Build_icmp SPIDIR_ICMP_ULT SPIDIR_TYPE_I32 idx n)) (\<lambda>c.
     bind (resolve_target E dflt None) (\<lambda>(default_block, ret_block).
     bind (emit (Build_brcond c try_next_case default_block)) (\<lambda>_.
     br_table_cases E idx 0 table try_next_case ret_block)))))"

definition pull_br_table :: "jit_env \<Rightarrow> (nat list \<times> nat) inst_op" where
  "pull_br_table E =
     bind (pull buffer_pull_u32) (\<lambda>table_size.
     bind (CALLOC (env_host E) 8 (unat table_size)) (\<lambda>_.
     bind (repeat_sm (unat table_size) pull_target) (\<lambda>table.
     bind pull_target (\<lambda>dflt.
     ret (table, dflt)))))"

definition jit_wasm_br_table :: "jit_env \<Rightarrow> unit inst_op" where
  "jit_wasm_br_table E =
     bind (pull_br_table E) (\<lambda>(table, dflt).
     bind (jit_pop SPIDIR_TYPE_I32) (\<lambda>idx.
     bind (gets (\<lambda>s. jit_is_funcbody_label s dflt)) (\<lambda>funcbody.
     bind (if funcbody then pop_function_result E
           else bind (get_label_at dflt) (pop_label_result E)) (\<lambda>branch_value.
     bind (for_each table (branch_to_table_entry E branch_value)) (\<lambda>_.
     bind (branch_to_table_entry E branch_value dflt) (\<lambda>_.
     bind (br_table_dispatch E idx table dflt) (\<lambda>ret_block.
     bind (case ret_block of
             None \<Rightarrow> ret ()
           | Some b \<Rightarrow> bind (set_block b) (\<lambda>_. emit (Build_return branch_value))) (\<lambda>_.
     terminate_label))))))))"

definition jit_wasm_return :: "jit_env \<Rightarrow> unit inst_op" where
  "jit_wasm_return E =
     bind (pop_function_result E) (\<lambda>v.
     bind (set_label (\<lambda>l. l\<lparr>lb_stack := []\<rparr>)) (\<lambda>_.
     bind (emit (Build_return v)) (\<lambda>_.
     terminate_label)))"

section \<open>Calls\<close>

text \<open>The arguments are popped last to first, and passed first to last.\<close>

definition pop_args :: "wasm_value_type list \<Rightarrow> (spidir_value_type \<times> u32) list inst_op" where
  "pop_args types =
     bind (map_each (rev types) (\<lambda>t.
       bind (jit_get_spidir_value_type t) (\<lambda>stype.
       bind (jit_pop stype) (\<lambda>v.
       ret (stype, v))))) (\<lambda>popped.
     ret (rev popped))"

definition get_function :: "u32 \<Rightarrow> ('x, jit_function) ctx_op" where
  "get_function i = bind (gets jc_functions) (\<lambda>fs. index fs (unat i))"

definition funcref_of :: "jit_function \<Rightarrow> ('s, spidir_funcref) sm" where
  "funcref_of f = (case jf_spidir f of None \<Rightarrow> fail Undefined | Some r \<Rightarrow> ret r)"

definition jit_wasm_call :: "jit_env \<Rightarrow> unit inst_op" where
  "jit_wasm_call E =
     bind (pull buffer_pull_u32) (\<lambda>funcidx.
     bind (jit_prepare_function E funcidx) (\<lambda>_.
     bind (wasm_get_func_type (env_module E) funcidx) (\<lambda>typeidx.
     bind (index (mod_types (env_module E)) (unat typeidx)) (\<lambda>type.
     bind (CALLOC (env_host E) 4 (length (arg_types type) + 2)) (\<lambda>_.
     bind (build E (Build_param_ref 0)) (\<lambda>mem.
     bind (build E (Build_param_ref 1)) (\<lambda>state.
     bind (pop_args (arg_types type)) (\<lambda>args.
     bind (get_function funcidx) (\<lambda>f.
     bind (funcref_of f) (\<lambda>callee.
     bind (build E (Build_call callee (mem # state # map snd args))) (\<lambda>ret_val.
     if length (result_types type) > 0 then
       bind (check (length (result_types type) = 1)) (\<lambda>_.
       bind (jit_get_spidir_value_type (hd (result_types type))) (\<lambda>stype.
       jit_push stype ret_val))
     else ret ())))))))))))"

definition set_table_used :: "nat \<Rightarrow> ('x, unit) ctx_op" where
  "set_table_used i =
     bind (gets jc_tables) (\<lambda>ts.
     bind (index ts i) (\<lambda>t.
     modify (\<lambda>s. s\<lparr>jc_tables := ts[i := t\<lparr>jt_used := True\<rparr>]\<rparr>)))"

text \<open>The trap on an index outside the table, and the load of the table's entry.\<close>

definition call_indirect_target :: "jit_env \<Rightarrow> jit_table \<Rightarrow> u32 \<Rightarrow> u32 inst_op" where
  "call_indirect_target E table idx =
     bind (iconst E SPIDIR_TYPE_I32 (ucast (jt_length table))) (\<lambda>n.
     bind (build E (Build_icmp SPIDIR_ICMP_ULT SPIDIR_TYPE_I32 idx n)) (\<lambda>in_bounds.
     bind (create_block E) (\<lambda>ok_block.
     bind (create_block E) (\<lambda>trap_block.
     bind (emit (Build_brcond in_bounds ok_block trap_block)) (\<lambda>_.
     bind (set_block trap_block) (\<lambda>_.
     bind (jit_emit_trap E) (\<lambda>_.
     bind (set_block ok_block) (\<lambda>_.
     bind (build E (Build_globaladdr (jt_global table))) (\<lambda>table_ptr.
     bind (jit_emit_zext64 E idx) (\<lambda>idx64.
     bind (iconst E SPIDIR_TYPE_I64 8) (\<lambda>eight.
     bind (binary E Op_imul idx64 eight) (\<lambda>slot_offset.
     bind (build E (Build_ptroff table_ptr slot_offset)) (\<lambda>slot_ptr.
     build E (Build_load SPIDIR_MEM_SIZE_8 SPIDIR_TYPE_PTR slot_ptr))))))))))))))"

definition jit_wasm_call_indirect :: "jit_env \<Rightarrow> unit inst_op" where
  "jit_wasm_call_indirect E =
     bind (pull buffer_pull_u32) (\<lambda>typeidx.
     bind (pull buffer_pull_u32) (\<lambda>tableidx.
     bind (check (unat typeidx < length (mod_types (env_module E)))) (\<lambda>_.
     bind (check (unat tableidx < length (mod_tables (env_module E)))) (\<lambda>_.
     bind (index (mod_types (env_module E)) (unat typeidx)) (\<lambda>type.
     bind (gets jc_tables) (\<lambda>tables.
     bind (index tables (unat tableidx)) (\<lambda>table.
     bind (set_table_used (unat tableidx)) (\<lambda>_.
     bind (jit_pop SPIDIR_TYPE_I32) (\<lambda>idx.
     bind (call_indirect_target E table idx) (\<lambda>target.
     bind (CALLOC (env_host E) 4 (length (arg_types type) + 3)) (\<lambda>_.
     bind (CALLOC (env_host E) 4 (length (arg_types type) + 3)) (\<lambda>_.
     bind (build E (Build_param_ref 0)) (\<lambda>mem.
     bind (build E (Build_param_ref 1)) (\<lambda>state.
     bind (iconst E SPIDIR_TYPE_I64 (jit_cfi_get_type_id typeidx)) (\<lambda>type_id.
     bind (pop_args (arg_types type)) (\<lambda>args.
     bind (spidir_ret_type type) (\<lambda>ret_type.
     bind (build E (Build_callind ret_type
         (SPIDIR_TYPE_PTR # SPIDIR_TYPE_PTR # SPIDIR_TYPE_I64 # map fst args)
         target (mem # state # type_id # map snd args))) (\<lambda>result.
     if ret_type \<noteq> SPIDIR_TYPE_NONE then jit_push ret_type result else ret ()))))))))))))))))))"

end
