(* ===== verification/Jit_Memory.thy ===== *)
theory Jit_Memory
  imports Jit_Control
begin

text \<open>
  The translation of instructions, src/jit/inst.c, second part: locals, globals and linear
  memory, with the atomic instructions.
\<close>

section \<open>Locals\<close>

text \<open>\<open>index = BUFFER_PULL_U32(code); CHECK(index < func->locals.length)\<close>.\<close>

definition pull_local :: "(nat \<times> jit_value) inst_op" where
  "pull_local =
     bind (pull buffer_pull_u32) (\<lambda>i.
     bind (gets fn_locals) (\<lambda>ls.
     bind (check (unat i < length ls)) (\<lambda>_.
     bind (index ls (unat i)) (\<lambda>l.
     ret (unat i, l)))))"

definition set_local_value :: "nat \<Rightarrow> u32 \<Rightarrow> unit inst_op" where
  "set_local_value i v =
     bind (gets fn_locals) (\<lambda>ls.
     bind (index ls i) (\<lambda>l.
     modify (\<lambda>s. s\<lparr>fn_locals := ls[i := l\<lparr>jv_value := v\<rparr>]\<rparr>)))"

definition jit_wasm_local_get :: "jit_env \<Rightarrow> unit inst_op" where
  "jit_wasm_local_get E =
     bind pull_local (\<lambda>(i, local).
     bind (check (jv_value local \<noteq> invalid E)) (\<lambda>_.
     jit_push (jv_type local) (jv_value local)))"

definition jit_wasm_local_set :: "unit inst_op" where
  "jit_wasm_local_set =
     bind pull_local (\<lambda>(i, local).
     bind (jit_pop (jv_type local)) (\<lambda>v.
     set_local_value i v))"

definition jit_wasm_local_tee :: "unit inst_op" where
  "jit_wasm_local_tee =
     bind pull_local (\<lambda>(i, local).
     bind (jit_pop (jv_type local)) (\<lambda>v.
     bind (set_local_value i v) (\<lambda>_.
     jit_push (jv_type local) v)))"

section \<open>Globals\<close>

text \<open>
  The constant for an immutable global. Reading the union through the member that was not written
  cannot happen when the type agrees with the value; it is undefined in the model.
\<close>

definition global_constant :: "jit_env \<Rightarrow> spidir_value_type \<Rightarrow> wasm_value \<Rightarrow> ('x, u32) ctx_op" where
  "global_constant E type v =
     (case type of
        SPIDIR_TYPE_I32 \<Rightarrow> (case v of Value_i32 i \<Rightarrow> iconst E type (ucast i) | _ \<Rightarrow> fail Undefined)
      | SPIDIR_TYPE_I64 \<Rightarrow> (case v of Value_i64 i \<Rightarrow> iconst E type i | _ \<Rightarrow> fail Undefined)
      | SPIDIR_TYPE_F32 \<Rightarrow> (case v of Value_f32 f \<Rightarrow> build E (Build_fconst32 f) | _ \<Rightarrow> fail Undefined)
      | SPIDIR_TYPE_F64 \<Rightarrow> (case v of Value_f64 f \<Rightarrow> build E (Build_fconst64 f) | _ \<Rightarrow> fail Undefined)
      | _ \<Rightarrow> fail Check_failed)"

text \<open>The address of a slot of the state, whose base is the second hidden parameter.\<close>

definition state_slot :: "jit_env \<Rightarrow> u64 \<Rightarrow> ('x, u32) ctx_op" where
  "state_slot E off =
     bind (build E (Build_param_ref 1)) (\<lambda>base.
     bind (iconst E SPIDIR_TYPE_I64 off) (\<lambda>k.
     build E (Build_ptroff base k)))"

definition pull_global_index :: "jit_env \<Rightarrow> (nat \<times> jit_global) inst_op" where
  "pull_global_index E =
     bind (pull buffer_pull_u32) (\<lambda>i.
     bind (check (unat i < length (mod_globals (env_module E)))) (\<lambda>_.
     bind (gets jc_globals) (\<lambda>gs.
     bind (index gs (unat i)) (\<lambda>g.
     ret (unat i, g)))))"

definition jit_wasm_global_get :: "jit_env \<Rightarrow> unit inst_op" where
  "jit_wasm_global_get E =
     bind (pull_global_index E) (\<lambda>(i, g).
     bind (if jg_offset g = - 1
           then
             bind (index (mod_globals (env_module E)) i) (\<lambda>wasm_global.
             global_constant E (jg_type g) (global_value wasm_global))
           else
             bind (state_slot E (jg_offset g)) (\<lambda>p.
             bind (jit_get_spidir_mem_size (jg_type g)) (\<lambda>sz.
             build E (Build_load sz (jg_type g) p)))) (\<lambda>v.
     jit_push (jg_type g) v))"

definition jit_wasm_global_set :: "jit_env \<Rightarrow> unit inst_op" where
  "jit_wasm_global_set E =
     bind (pull_global_index E) (\<lambda>(i, g).
     bind (check (jg_offset g \<noteq> - 1)) (\<lambda>_.
     bind (state_slot E (jg_offset g)) (\<lambda>p.
     bind (jit_pop (jg_type g)) (\<lambda>v.
     bind (jit_get_spidir_mem_size (jg_type g)) (\<lambda>sz.
     emit (Build_store sz v p))))))"

section \<open>Memory arguments and addresses\<close>

record wasm_mem_arg =
  ma_index :: u32
  ma_align :: u32
  ma_offset :: u64

definition jit_pull_memarg :: "wasm_mem_arg parser" where
  "jit_pull_memarg =
     bind buffer_pull_u32 (\<lambda>align.
     bind (if align \<ge> 64 then bind buffer_pull_u32 (\<lambda>idx. ret (idx, align - 64))
           else ret (0, align)) (\<lambda>(idx, align).
     bind (check (align < 64)) (\<lambda>_.
     bind buffer_pull_u64 (\<lambda>offset.
     ret \<lparr>ma_index = idx, ma_align = align, ma_offset = offset\<rparr>))))"

definition jit_wasm_calculate_addr :: "jit_env \<Rightarrow> wasm_mem_arg \<Rightarrow> u32 \<Rightarrow> ('x, u32) ctx_op" where
  "jit_wasm_calculate_addr E mem_arg offset =
     bind (jit_emit_zext64 E offset) (\<lambda>offset.
     bind (if ma_offset mem_arg \<noteq> 0 then
             bind (check (ma_offset mem_arg \<le> 0xFFFFFFFF)) (\<lambda>_.
             bind (iconst E SPIDIR_TYPE_I64 (ma_offset mem_arg)) (\<lambda>k.
             binary E Op_iadd offset k))
           else ret offset) (\<lambda>offset.
     bind (build E (Build_param_ref 0)) (\<lambda>mem_base.
     build E (Build_ptroff mem_base offset))))"

section \<open>Loads and stores\<close>

datatype extension = No_extension | Sign_extend u8 | Zero_extend nat

definition load_op :: "u8 \<Rightarrow> (spidir_value_type \<times> spidir_mem_size \<times> extension) option" where
  "load_op = map_of
     [(0x28, SPIDIR_TYPE_I32, SPIDIR_MEM_SIZE_4, No_extension),
      (0x29, SPIDIR_TYPE_I64, SPIDIR_MEM_SIZE_8, No_extension),
      (0x2A, SPIDIR_TYPE_F32, SPIDIR_MEM_SIZE_4, No_extension),
      (0x2B, SPIDIR_TYPE_F64, SPIDIR_MEM_SIZE_8, No_extension),
      (0x2C, SPIDIR_TYPE_I32, SPIDIR_MEM_SIZE_1, Sign_extend 8),
      (0x2D, SPIDIR_TYPE_I32, SPIDIR_MEM_SIZE_1, Zero_extend 8),
      (0x2E, SPIDIR_TYPE_I32, SPIDIR_MEM_SIZE_2, Sign_extend 16),
      (0x2F, SPIDIR_TYPE_I32, SPIDIR_MEM_SIZE_2, Zero_extend 16),
      (0x30, SPIDIR_TYPE_I64, SPIDIR_MEM_SIZE_1, Sign_extend 8),
      (0x31, SPIDIR_TYPE_I64, SPIDIR_MEM_SIZE_1, Zero_extend 8),
      (0x32, SPIDIR_TYPE_I64, SPIDIR_MEM_SIZE_2, Sign_extend 16),
      (0x33, SPIDIR_TYPE_I64, SPIDIR_MEM_SIZE_2, Zero_extend 16),
      (0x34, SPIDIR_TYPE_I64, SPIDIR_MEM_SIZE_4, Sign_extend 32),
      (0x35, SPIDIR_TYPE_I64, SPIDIR_MEM_SIZE_4, Zero_extend 32)]"

definition extend_loaded :: "jit_env \<Rightarrow> spidir_value_type \<Rightarrow> extension \<Rightarrow> u32 \<Rightarrow> ('x, u32) ctx_op" where
  "extend_loaded E type ext v =
     (case ext of
        No_extension \<Rightarrow> ret v
      | Sign_extend w \<Rightarrow> unary E (Op_sfill w) v
      | Zero_extend n \<Rightarrow>
          bind (iconst E (if type = SPIDIR_TYPE_I32 then SPIDIR_TYPE_I32 else SPIDIR_TYPE_I64)
            (push_bit n 1 - 1)) (\<lambda>mask.
          binary E Op_and v mask))"

definition jit_wasm_load :: "jit_env \<Rightarrow> unit inst_op" where
  "jit_wasm_load E =
     bind (pull last_byte) (\<lambda>opcode.
     bind (pull jit_pull_memarg) (\<lambda>mem_arg.
     bind (some_or_fail (load_op opcode)) (\<lambda>(type, mem_size, ext).
     bind (jit_pop SPIDIR_TYPE_I32) (\<lambda>offset.
     bind (jit_wasm_calculate_addr E mem_arg offset) (\<lambda>addr.
     bind (build E (Build_load mem_size type addr)) (\<lambda>v.
     bind (extend_loaded E type ext v) (\<lambda>v.
     jit_push type v)))))))"

definition store_op :: "u8 \<Rightarrow> (spidir_value_type \<times> spidir_mem_size) option" where
  "store_op = map_of
     [(0x36, SPIDIR_TYPE_I32, SPIDIR_MEM_SIZE_4), (0x37, SPIDIR_TYPE_I64, SPIDIR_MEM_SIZE_8),
      (0x38, SPIDIR_TYPE_F32, SPIDIR_MEM_SIZE_4), (0x39, SPIDIR_TYPE_F64, SPIDIR_MEM_SIZE_8),
      (0x3A, SPIDIR_TYPE_I32, SPIDIR_MEM_SIZE_1), (0x3B, SPIDIR_TYPE_I32, SPIDIR_MEM_SIZE_2),
      (0x3C, SPIDIR_TYPE_I64, SPIDIR_MEM_SIZE_1), (0x3D, SPIDIR_TYPE_I64, SPIDIR_MEM_SIZE_2),
      (0x3E, SPIDIR_TYPE_I64, SPIDIR_MEM_SIZE_4)]"

definition jit_wasm_store :: "jit_env \<Rightarrow> unit inst_op" where
  "jit_wasm_store E =
     bind (pull last_byte) (\<lambda>opcode.
     bind (pull jit_pull_memarg) (\<lambda>mem_arg.
     bind (some_or_fail (store_op opcode)) (\<lambda>(type, mem_size).
     bind (jit_pop type) (\<lambda>v.
     bind (jit_pop SPIDIR_TYPE_I32) (\<lambda>offset.
     bind (jit_wasm_calculate_addr E mem_arg offset) (\<lambda>addr.
     emit (Build_store mem_size v addr)))))))"

section \<open>Memory size, growth and bulk operations\<close>

text \<open>\<open>CHECK(BUFFER_PULL(uint8_t, code) == 0)\<close>: the index of the only memory.\<close>

definition pull_memory_zero :: "unit parser" where
  "pull_memory_zero = bind pull_u8 (\<lambda>b. check (b = 0))"

definition jit_wasm_memory_size :: "jit_env \<Rightarrow> unit inst_op" where
  "jit_wasm_memory_size E =
     bind (pull pull_memory_zero) (\<lambda>_.
     bind (jit_get_helper E JIT_HELPER_MEMORY_SIZE) (\<lambda>helper.
     bind (build E (Build_param_ref 0)) (\<lambda>mem_base.
     bind (build E (Build_param_ref 1)) (\<lambda>state_base.
     bind (build E (Build_call helper [mem_base, state_base])) (\<lambda>result.
     jit_push SPIDIR_TYPE_I32 result)))))"

definition jit_wasm_memory_grow :: "jit_env \<Rightarrow> unit inst_op" where
  "jit_wasm_memory_grow E =
     bind (pull pull_memory_zero) (\<lambda>_.
     bind (jit_pop SPIDIR_TYPE_I32) (\<lambda>n.
     bind (jit_get_helper E JIT_HELPER_MEMORY_GROW) (\<lambda>helper.
     bind (build E (Build_param_ref 0)) (\<lambda>mem_base.
     bind (build E (Build_param_ref 1)) (\<lambda>state_base.
     bind (build E (Build_call helper [mem_base, state_base, n])) (\<lambda>result.
     jit_push SPIDIR_TYPE_I32 result))))))"

text \<open>A pointer into the linear memory.\<close>

definition mem_pointer :: "jit_env \<Rightarrow> u32 \<Rightarrow> u32 \<Rightarrow> ('x, u32) ctx_op" where
  "mem_pointer E mem_base v =
     bind (jit_emit_zext64 E v) (\<lambda>off.
     build E (Build_ptroff mem_base off))"

text \<open>The checks on a data segment: it exists, and it is passive.\<close>

definition passive_data :: "jit_env \<Rightarrow> u32 \<Rightarrow> ('x, u64) ctx_op" where
  "passive_data E dataidx =
     bind (check (unat dataidx < length (mod_data (env_module E)))) (\<lambda>_.
     bind (gets jc_data) (\<lambda>ds.
     bind (index ds (unat dataidx)) (\<lambda>d.
     bind (check (jd_offset d \<noteq> - 1)) (\<lambda>_.
     ret (jd_offset d)))))"

definition jit_wasm_memory_init :: "jit_env \<Rightarrow> unit inst_op" where
  "jit_wasm_memory_init E =
     bind (pull buffer_pull_u32) (\<lambda>dataidx.
     bind (pull pull_memory_zero) (\<lambda>_.
     bind (passive_data E dataidx) (\<lambda>off.
     bind (jit_pop SPIDIR_TYPE_I32) (\<lambda>n.
     bind (jit_pop SPIDIR_TYPE_I32) (\<lambda>src_offset.
     bind (jit_pop SPIDIR_TYPE_I32) (\<lambda>dst.
     bind (state_slot E off) (\<lambda>slot.
     bind (build E (Build_load SPIDIR_MEM_SIZE_8 SPIDIR_TYPE_PTR slot)) (\<lambda>data_ptr.
     bind (jit_get_helper E JIT_HELPER_MEMORY_INIT) (\<lambda>helper.
     bind (build E (Build_param_ref 0)) (\<lambda>mem_base.
     bind (index (mod_data (env_module E)) (unat dataidx)) (\<lambda>data.
     bind (iconst E SPIDIR_TYPE_I32 (word_of_nat (length (data_bytes data)))) (\<lambda>data_len.
     bind (mem_pointer E mem_base dst) (\<lambda>d.
     bind (build E (Build_call helper [d, data_ptr, data_len, src_offset, n])) (\<lambda>_.
     ret ()))))))))))))))"

definition jit_wasm_data_drop :: "jit_env \<Rightarrow> unit inst_op" where
  "jit_wasm_data_drop E =
     bind (pull buffer_pull_u32) (\<lambda>dataidx.
     bind (passive_data E dataidx) (\<lambda>off.
     bind (state_slot E off) (\<lambda>slot.
     bind (iconst E SPIDIR_TYPE_PTR 0) (\<lambda>null.
     emit (Build_store SPIDIR_MEM_SIZE_8 null slot)))))"

definition jit_wasm_memory_copy :: "jit_env \<Rightarrow> unit inst_op" where
  "jit_wasm_memory_copy E =
     bind (pull pull_memory_zero) (\<lambda>_.
     bind (pull pull_memory_zero) (\<lambda>_.
     bind (jit_pop SPIDIR_TYPE_I32) (\<lambda>n.
     bind (jit_pop SPIDIR_TYPE_I32) (\<lambda>src.
     bind (jit_pop SPIDIR_TYPE_I32) (\<lambda>dst.
     bind (jit_get_helper E JIT_HELPER_MEMORY_COPY) (\<lambda>helper.
     bind (build E (Build_param_ref 0)) (\<lambda>mem_base.
     bind (mem_pointer E mem_base dst) (\<lambda>d.
     bind (mem_pointer E mem_base src) (\<lambda>p.
     bind (build E (Build_call helper [d, p, n])) (\<lambda>_.
     ret ()))))))))))"

definition jit_wasm_memory_fill :: "jit_env \<Rightarrow> unit inst_op" where
  "jit_wasm_memory_fill E =
     bind (pull pull_memory_zero) (\<lambda>_.
     bind (jit_pop SPIDIR_TYPE_I32) (\<lambda>n.
     bind (jit_pop SPIDIR_TYPE_I32) (\<lambda>val.
     bind (jit_pop SPIDIR_TYPE_I32) (\<lambda>dst.
     bind (jit_get_helper E JIT_HELPER_MEMORY_FILL) (\<lambda>helper.
     bind (build E (Build_param_ref 0)) (\<lambda>mem_base.
     bind (mem_pointer E mem_base dst) (\<lambda>d.
     bind (build E (Build_call helper [d, val, n])) (\<lambda>_.
     ret ()))))))))"

section \<open>Atomic instructions\<close>

text \<open>
  Every atomic instruction reads a memory argument, pops its operands and then the offset, and
  calls a helper with the address and the operands in the order they were pushed.
\<close>

definition atomic_call :: "jit_env \<Rightarrow> wasm_mem_arg \<Rightarrow> u32 \<Rightarrow> jit_helper_kind \<Rightarrow> u32 list \<Rightarrow> ('x, u32) ctx_op" where
  "atomic_call E mem_arg offset kind operands =
     bind (jit_wasm_calculate_addr E mem_arg offset) (\<lambda>addr.
     bind (jit_get_helper E kind) (\<lambda>helper.
     build E (Build_call helper (addr # operands))))"

definition jit_wasm_atomic_notify :: "jit_env \<Rightarrow> unit inst_op" where
  "jit_wasm_atomic_notify E =
     bind (pull jit_pull_memarg) (\<lambda>mem_arg.
     bind (jit_pop SPIDIR_TYPE_I32) (\<lambda>count.
     bind (jit_pop SPIDIR_TYPE_I32) (\<lambda>offset.
     bind (atomic_call E mem_arg offset JIT_HELPER_ATOMIC_NOTIFY [count]) (\<lambda>v.
     jit_push SPIDIR_TYPE_I32 v))))"

definition wait_op :: "u8 \<Rightarrow> (spidir_value_type \<times> jit_helper_kind) option" where
  "wait_op = map_of
     [(0x01, SPIDIR_TYPE_I32, JIT_HELPER_ATOMIC_WAIT_4),
      (0x02, SPIDIR_TYPE_I64, JIT_HELPER_ATOMIC_WAIT_8)]"

definition jit_wasm_atomic_wait :: "jit_env \<Rightarrow> unit inst_op" where
  "jit_wasm_atomic_wait E =
     bind (pull last_byte) (\<lambda>sub_opcode.
     bind (pull jit_pull_memarg) (\<lambda>mem_arg.
     bind (some_or_fail (wait_op sub_opcode)) (\<lambda>(type, kind).
     bind (jit_pop SPIDIR_TYPE_I64) (\<lambda>timeout.
     bind (jit_pop type) (\<lambda>expected.
     bind (jit_pop SPIDIR_TYPE_I32) (\<lambda>offset.
     bind (atomic_call E mem_arg offset kind [expected, timeout]) (\<lambda>v.
     jit_push SPIDIR_TYPE_I32 v)))))))"

definition atomic_store_op :: "u8 \<Rightarrow> (spidir_value_type \<times> jit_helper_kind) option" where
  "atomic_store_op = map_of
     [(0x17, SPIDIR_TYPE_I32, JIT_HELPER_ATOMIC_STORE A4),
      (0x18, SPIDIR_TYPE_I64, JIT_HELPER_ATOMIC_STORE A8),
      (0x19, SPIDIR_TYPE_I32, JIT_HELPER_ATOMIC_STORE A1),
      (0x1A, SPIDIR_TYPE_I32, JIT_HELPER_ATOMIC_STORE A2)]"

definition jit_wasm_atomic_store :: "jit_env \<Rightarrow> unit inst_op" where
  "jit_wasm_atomic_store E =
     bind (pull last_byte) (\<lambda>sub_opcode.
     bind (pull jit_pull_memarg) (\<lambda>mem_arg.
     bind (some_or_fail (atomic_store_op sub_opcode)) (\<lambda>(type, kind).
     bind (jit_pop type) (\<lambda>v.
     bind (jit_pop SPIDIR_TYPE_I32) (\<lambda>offset.
     bind (atomic_call E mem_arg offset kind [v]) (\<lambda>_.
     ret ()))))))"

definition atomic_load_op :: "u8 \<Rightarrow> (spidir_value_type \<times> jit_helper_kind) option" where
  "atomic_load_op = map_of
     [(0x10, SPIDIR_TYPE_I32, JIT_HELPER_ATOMIC_LOAD A4),
      (0x11, SPIDIR_TYPE_I64, JIT_HELPER_ATOMIC_LOAD A8),
      (0x12, SPIDIR_TYPE_I32, JIT_HELPER_ATOMIC_LOAD A1),
      (0x13, SPIDIR_TYPE_I32, JIT_HELPER_ATOMIC_LOAD A2)]"

definition jit_wasm_atomic_load :: "jit_env \<Rightarrow> unit inst_op" where
  "jit_wasm_atomic_load E =
     bind (pull last_byte) (\<lambda>sub_opcode.
     bind (pull jit_pull_memarg) (\<lambda>mem_arg.
     bind (some_or_fail (atomic_load_op sub_opcode)) (\<lambda>(type, kind).
     bind (jit_pop SPIDIR_TYPE_I32) (\<lambda>offset.
     bind (atomic_call E mem_arg offset kind []) (\<lambda>v.
     jit_push type v)))))"

definition cmpxchg_op :: "u8 \<Rightarrow> (spidir_value_type \<times> jit_helper_kind) option" where
  "cmpxchg_op = map_of
     [(0x48, SPIDIR_TYPE_I32, JIT_HELPER_ATOMIC_RMW RMW_CMPXCHG A4),
      (0x49, SPIDIR_TYPE_I64, JIT_HELPER_ATOMIC_RMW RMW_CMPXCHG A8),
      (0x4A, SPIDIR_TYPE_I32, JIT_HELPER_ATOMIC_RMW RMW_CMPXCHG A1),
      (0x4B, SPIDIR_TYPE_I32, JIT_HELPER_ATOMIC_RMW RMW_CMPXCHG A2)]"

definition jit_wasm_atomic_rmw_cmpexchg :: "jit_env \<Rightarrow> unit inst_op" where
  "jit_wasm_atomic_rmw_cmpexchg E =
     bind (pull last_byte) (\<lambda>sub_opcode.
     bind (pull jit_pull_memarg) (\<lambda>mem_arg.
     bind (some_or_fail (cmpxchg_op sub_opcode)) (\<lambda>(type, kind).
     bind (jit_pop type) (\<lambda>replacement.
     bind (jit_pop type) (\<lambda>expected.
     bind (jit_pop SPIDIR_TYPE_I32) (\<lambda>offset.
     bind (atomic_call E mem_arg offset kind [expected, replacement]) (\<lambda>v.
     jit_push type v)))))))"

text \<open>Each operation has four sub-opcodes in a row, of widths 4, 8, 1 and 2.\<close>

definition rmw_row :: "u8 \<Rightarrow> rmw_helper \<Rightarrow> (u8 \<times> spidir_value_type \<times> jit_helper_kind) list" where
  "rmw_row first f =
     [(first, SPIDIR_TYPE_I32, JIT_HELPER_ATOMIC_RMW f A4),
      (first + 1, SPIDIR_TYPE_I64, JIT_HELPER_ATOMIC_RMW f A8),
      (first + 2, SPIDIR_TYPE_I32, JIT_HELPER_ATOMIC_RMW f A1),
      (first + 3, SPIDIR_TYPE_I32, JIT_HELPER_ATOMIC_RMW f A2)]"

definition rmw_op :: "u8 \<Rightarrow> (spidir_value_type \<times> jit_helper_kind) option" where
  "rmw_op = map_of (rmw_row 0x1E RMW_ADD @ rmw_row 0x25 RMW_SUB @ rmw_row 0x2C RMW_AND @
     rmw_row 0x33 RMW_OR @ rmw_row 0x3A RMW_XOR @ rmw_row 0x41 RMW_XCHG)"

definition jit_wasm_atomic_rmw_binop :: "jit_env \<Rightarrow> unit inst_op" where
  "jit_wasm_atomic_rmw_binop E =
     bind (pull last_byte) (\<lambda>sub_opcode.
     bind (pull jit_pull_memarg) (\<lambda>mem_arg.
     bind (some_or_fail (rmw_op sub_opcode)) (\<lambda>(type, kind).
     bind (jit_pop type) (\<lambda>arg2.
     bind (jit_pop SPIDIR_TYPE_I32) (\<lambda>offset.
     bind (atomic_call E mem_arg offset kind [arg2]) (\<lambda>v.
     jit_push type v))))))"

definition between :: "'w::len word \<Rightarrow> 'w word \<Rightarrow> 'w word \<Rightarrow> bool" where
  "between a b x \<longleftrightarrow> a \<le> x \<and> x \<le> b"

definition jit_wasm_atomic_prefix :: "jit_env \<Rightarrow> unit inst_op" where
  "jit_wasm_atomic_prefix E =
     bind (pull buffer_pull_u32) (\<lambda>sub_opcode.
     if sub_opcode = 0 then jit_wasm_atomic_notify E
     else if between 0x01 0x02 sub_opcode then jit_wasm_atomic_wait E
     else if between 0x10 0x16 sub_opcode then jit_wasm_atomic_load E
     else if between 0x17 0x1D sub_opcode then jit_wasm_atomic_store E
     else if between 0x1E 0x47 sub_opcode then jit_wasm_atomic_rmw_binop E
     else if between 0x48 0x4E sub_opcode then jit_wasm_atomic_rmw_cmpexchg E
     else fail Check_failed)"

end
