(* ===== verification/Jit_Numeric.thy ===== *)
theory Jit_Numeric
  imports Jit_Memory
begin

text \<open>
  The translation of instructions, src/jit/inst.c, third part: constants, comparisons,
  conversions and arithmetic. Each handler serves a range of opcodes, reads its own opcode back
  from the buffer and subtracts the start of its range.
\<close>

section \<open>Constants\<close>

definition jit_wasm_i32_const :: "jit_env \<Rightarrow> unit inst_op" where
  "jit_wasm_i32_const E =
     bind (pull buffer_pull_i32) (\<lambda>k.
     bind (iconst E SPIDIR_TYPE_I32 (ucast k)) (\<lambda>v.
     jit_push SPIDIR_TYPE_I32 v))"

definition jit_wasm_i64_const :: "jit_env \<Rightarrow> unit inst_op" where
  "jit_wasm_i64_const E =
     bind (pull buffer_pull_i64) (\<lambda>k.
     bind (iconst E SPIDIR_TYPE_I64 k) (\<lambda>v.
     jit_push SPIDIR_TYPE_I64 v))"

definition jit_wasm_f32_const :: "jit_env \<Rightarrow> unit inst_op" where
  "jit_wasm_f32_const E =
     bind (pull pull_f32) (\<lambda>k.
     bind (build E (Build_fconst32 k)) (\<lambda>v.
     jit_push SPIDIR_TYPE_F32 v))"

definition jit_wasm_f64_const :: "jit_env \<Rightarrow> unit inst_op" where
  "jit_wasm_f64_const E =
     bind (pull pull_f64) (\<lambda>k.
     bind (build E (Build_fconst64 k)) (\<lambda>v.
     jit_push SPIDIR_TYPE_F64 v))"

section \<open>Opcode ranges\<close>

text \<open>
  \<open>switch (opcode) { case a ... b: type = t; opcode -= a; break; ... default: CHECK_FAIL(); }\<close>
\<close>

fun opcode_in :: "(u8 \<times> u8 \<times> 'a) list \<Rightarrow> u8 \<Rightarrow> ('a \<times> u8) option" where
  "opcode_in [] opcode = None"
| "opcode_in ((a, b, t) # ranges) opcode =
     (if between a b opcode then Some (t, opcode - a) else opcode_in ranges opcode)"

definition pull_ranged :: "(u8 \<times> u8 \<times> 'a) list \<Rightarrow> ('a \<times> u8) inst_op" where
  "pull_ranged ranges = bind (pull last_byte) (\<lambda>opcode. some_or_fail (opcode_in ranges opcode))"

text \<open>An opcode by its position in a range of \<open>n\<close> cases.\<close>

definition nth_op :: "'a list \<Rightarrow> u8 \<Rightarrow> ('s, 'a) sm" where
  "nth_op xs opcode = (if unat opcode < length xs then ret (xs ! unat opcode) else fail Check_failed)"

section \<open>Comparisons\<close>

text \<open>The kind of comparison, and whether the arguments are swapped.\<close>

definition cmpi_kinds :: "(spidir_icmp_kind \<times> bool) list" where
  "cmpi_kinds =
     [(SPIDIR_ICMP_EQ, False), (SPIDIR_ICMP_EQ, False), (SPIDIR_ICMP_NE, False),
      (SPIDIR_ICMP_SLT, False), (SPIDIR_ICMP_ULT, False), (SPIDIR_ICMP_SLT, True), (SPIDIR_ICMP_ULT, True),
      (SPIDIR_ICMP_SLE, False), (SPIDIR_ICMP_ULE, False), (SPIDIR_ICMP_SLE, True), (SPIDIR_ICMP_ULE, True)]"

definition jit_wasm_cmpi :: "jit_env \<Rightarrow> unit inst_op" where
  "jit_wasm_cmpi E =
     bind (pull_ranged [(0x45, 0x4F, SPIDIR_TYPE_I32), (0x50, 0x5A, SPIDIR_TYPE_I64)]) (\<lambda>(type, opcode).
     bind (jit_pop type) (\<lambda>arg2.
     bind (if opcode = 0 then iconst E type 0 else jit_pop type) (\<lambda>arg1.
     bind (nth_op cmpi_kinds opcode) (\<lambda>(kind, swap).
     bind (build E (if swap then Build_icmp kind SPIDIR_TYPE_I32 arg2 arg1
                    else Build_icmp kind SPIDIR_TYPE_I32 arg1 arg2)) (\<lambda>v.
     jit_push SPIDIR_TYPE_I32 v)))))"

definition cmpf_kinds :: "(spidir_fcmp_kind \<times> bool) list" where
  "cmpf_kinds =
     [(SPIDIR_FCMP_OEQ, False), (SPIDIR_FCMP_UNE, False), (SPIDIR_FCMP_OLT, False),
      (SPIDIR_FCMP_OLT, True), (SPIDIR_FCMP_OLE, False), (SPIDIR_FCMP_OLE, True)]"

definition jit_wasm_cmpf :: "jit_env \<Rightarrow> unit inst_op" where
  "jit_wasm_cmpf E =
     bind (pull_ranged [(0x5B, 0x60, SPIDIR_TYPE_F32), (0x61, 0x66, SPIDIR_TYPE_F64)]) (\<lambda>(type, opcode).
     bind (jit_pop type) (\<lambda>arg2.
     bind (jit_pop type) (\<lambda>arg1.
     bind (nth_op cmpf_kinds opcode) (\<lambda>(kind, swap).
     bind (build E (if swap then Build_fcmp kind SPIDIR_TYPE_I32 arg2 arg1
                    else Build_fcmp kind SPIDIR_TYPE_I32 arg1 arg2)) (\<lambda>v.
     jit_push SPIDIR_TYPE_I32 v)))))"

section \<open>Conversions\<close>

definition jit_wasm_iconv :: "jit_env \<Rightarrow> unit inst_op" where
  "jit_wasm_iconv E =
     bind (pull last_byte) (\<lambda>opcode.
     if opcode = 0xA7 then
       bind (jit_pop SPIDIR_TYPE_I64) (\<lambda>v.
       bind (unary E Op_itrunc v) (\<lambda>r.
       jit_push SPIDIR_TYPE_I32 r))
     else if opcode = 0xAC then
       bind (jit_pop SPIDIR_TYPE_I32) (\<lambda>v.
       bind (unary E Op_iext v) (\<lambda>e.
       bind (unary E (Op_sfill 32) e) (\<lambda>r.
       jit_push SPIDIR_TYPE_I64 r)))
     else if opcode = 0xAD then
       bind (jit_pop SPIDIR_TYPE_I32) (\<lambda>v.
       bind (jit_emit_zext64 E v) (\<lambda>r.
       jit_push SPIDIR_TYPE_I64 r))
     else if between 0xC0 0xC4 opcode then
       (let type = (if opcode \<le> 0xC1 then SPIDIR_TYPE_I32 else SPIDIR_TYPE_I64) in
        bind (nth_op [8, 16, 8, 16, 32] (opcode - 0xC0)) (\<lambda>width.
        bind (jit_pop type) (\<lambda>v.
        bind (unary E (Op_sfill width) v) (\<lambda>r.
        jit_push type r))))
     else fail Check_failed)"

text \<open>The eight saturating truncations: the types and the helper.\<close>

definition trunc_sat_ops :: "(spidir_value_type \<times> spidir_value_type \<times> jit_helper_kind) list" where
  "trunc_sat_ops =
     [(SPIDIR_TYPE_F32, SPIDIR_TYPE_I32, JIT_HELPER_TRUNC_SAT W32 W32 True),
      (SPIDIR_TYPE_F32, SPIDIR_TYPE_I32, JIT_HELPER_TRUNC_SAT W32 W32 False),
      (SPIDIR_TYPE_F64, SPIDIR_TYPE_I32, JIT_HELPER_TRUNC_SAT W32 W64 True),
      (SPIDIR_TYPE_F64, SPIDIR_TYPE_I32, JIT_HELPER_TRUNC_SAT W32 W64 False),
      (SPIDIR_TYPE_F32, SPIDIR_TYPE_I64, JIT_HELPER_TRUNC_SAT W64 W32 True),
      (SPIDIR_TYPE_F32, SPIDIR_TYPE_I64, JIT_HELPER_TRUNC_SAT W64 W32 False),
      (SPIDIR_TYPE_F64, SPIDIR_TYPE_I64, JIT_HELPER_TRUNC_SAT W64 W64 True),
      (SPIDIR_TYPE_F64, SPIDIR_TYPE_I64, JIT_HELPER_TRUNC_SAT W64 W64 False)]"

text \<open>The result of a call to a helper.\<close>

definition call_helper :: "jit_env \<Rightarrow> jit_helper_kind \<Rightarrow> u32 list \<Rightarrow> ('x, u32) ctx_op" where
  "call_helper E kind args =
     bind (jit_get_helper E kind) (\<lambda>helper.
     build E (Build_call helper args))"

definition jit_wasm_trunc_sat :: "jit_env \<Rightarrow> unit inst_op" where
  "jit_wasm_trunc_sat E =
     bind (pull last_byte) (\<lambda>sub_opcode.
     bind (nth_op trunc_sat_ops sub_opcode) (\<lambda>(in_type, out_type, kind).
     bind (jit_pop in_type) (\<lambda>arg.
     bind (call_helper E kind [arg]) (\<lambda>r.
     jit_push out_type r))))"

definition jit_wasm_itof :: "jit_env \<Rightarrow> unit inst_op" where
  "jit_wasm_itof E =
     bind (pull_ranged [(0xB2, 0xB5, SPIDIR_TYPE_F32), (0xB7, 0xBA, SPIDIR_TYPE_F64)]) (\<lambda>(out_type, opcode).
     let in_type = (if opcode AND 2 \<noteq> 0 then SPIDIR_TYPE_I64 else SPIDIR_TYPE_I32);
         is_unsigned = (opcode AND 1 \<noteq> 0) in
     bind (jit_pop in_type) (\<lambda>v.
     bind (unary E (if is_unsigned then Op_uinttofloat out_type else Op_sinttofloat out_type) v) (\<lambda>r.
     jit_push out_type r)))"

definition jit_wasm_fconv :: "jit_env \<Rightarrow> unit inst_op" where
  "jit_wasm_fconv E =
     bind (pull last_byte) (\<lambda>opcode.
     if opcode = 0xB6 then
       bind (jit_pop SPIDIR_TYPE_F64) (\<lambda>v.
       bind (unary E Op_fnarrow v) (\<lambda>r.
       jit_push SPIDIR_TYPE_F32 r))
     else if opcode = 0xBB then
       bind (jit_pop SPIDIR_TYPE_F32) (\<lambda>v.
       bind (unary E Op_fwiden v) (\<lambda>r.
       jit_push SPIDIR_TYPE_F64 r))
     else fail Check_failed)"

definition bitcast_op :: "u8 \<Rightarrow> (spidir_value_type \<times> spidir_value_type) option" where
  "bitcast_op = map_of
     [(0xBC, SPIDIR_TYPE_F32, SPIDIR_TYPE_I32), (0xBD, SPIDIR_TYPE_F64, SPIDIR_TYPE_I64),
      (0xBE, SPIDIR_TYPE_I32, SPIDIR_TYPE_F32), (0xBF, SPIDIR_TYPE_I64, SPIDIR_TYPE_F64)]"

definition jit_wasm_bitcast :: "jit_env \<Rightarrow> unit inst_op" where
  "jit_wasm_bitcast E =
     bind (pull last_byte) (\<lambda>opcode.
     bind (some_or_fail (bitcast_op opcode)) (\<lambda>(from_type, to_type).
     bind (jit_pop from_type) (\<lambda>v.
     bind (unary E (Op_bitcast to_type) v) (\<lambda>r.
     jit_push to_type r))))"

section \<open>Shifts and rotations\<close>

text \<open>\<open>mask & (bit_count - n)\<close>.\<close>

definition counter_shift :: "jit_env \<Rightarrow> u32 \<Rightarrow> u32 \<Rightarrow> u32 \<Rightarrow> ('x, u32) ctx_op" where
  "counter_shift E msk bit_count shift_amt =
     bind (binary E Op_isub bit_count shift_amt) (\<lambda>d.
     binary E Op_and msk d)"

definition jit_wasm_shift :: "jit_env \<Rightarrow> unit inst_op" where
  "jit_wasm_shift E =
     bind (pull_ranged [(0x74, 0x78, (SPIDIR_TYPE_I32, 31)), (0x86, 0x8A, (SPIDIR_TYPE_I64, 63))])
       (\<lambda>((type, mask_value), opcode).
     bind (jit_pop type) (\<lambda>shift_amt.
     bind (jit_pop type) (\<lambda>v.
     bind (iconst E type mask_value) (\<lambda>msk.
     bind (binary E Op_and shift_amt msk) (\<lambda>shift_amt.
     bind (if opcode = 0 then binary E Op_shl v shift_amt
           else if opcode = 1 then binary E Op_ashr v shift_amt
           else if opcode = 2 then binary E Op_lshr v shift_amt
           else if opcode = 3 then
             bind (iconst E type (mask_value + 1)) (\<lambda>bit_count.
             bind (binary E Op_shl v shift_amt) (\<lambda>left.
             bind (counter_shift E msk bit_count shift_amt) (\<lambda>n.
             bind (binary E Op_lshr v n) (\<lambda>right.
             binary E Op_or left right))))
           else if opcode = 4 then
             bind (iconst E type (mask_value + 1)) (\<lambda>bit_count.
             bind (binary E Op_lshr v shift_amt) (\<lambda>left.
             bind (counter_shift E msk bit_count shift_amt) (\<lambda>n.
             bind (binary E Op_shl v n) (\<lambda>right.
             binary E Op_or left right))))
           else fail Check_failed) (\<lambda>result.
     jit_push type result))))))"

section \<open>Arithmetic\<close>

definition jit_wasm_unaryopf :: "jit_env \<Rightarrow> unit inst_op" where
  "jit_wasm_unaryopf E =
     bind (pull_ranged [(0x8B, 0x91, W32), (0x99, 0x9F, W64)]) (\<lambda>(w, opcode).
     bind (jit_pop (float_type w)) (\<lambda>arg.
     bind (nth_op [F_ABS, F_NEG, F_CEIL, F_FLOOR, F_TRUNC, F_NEAREST, F_SQRT] opcode) (\<lambda>f.
     bind (call_helper E (JIT_HELPER_F w f) [arg]) (\<lambda>v.
     jit_push (float_type w) v))))"

text \<open>A binary float operation is a node, or a helper where spidir has none.\<close>

definition binopf_ops :: "(spidir_binary + float_helper) list" where
  "binopf_ops = [Inl Op_fadd, Inl Op_fsub, Inl Op_fmul, Inl Op_fdiv, Inr F_MIN, Inr F_MAX, Inr F_COPYSIGN]"

definition jit_wasm_binopf :: "jit_env \<Rightarrow> unit inst_op" where
  "jit_wasm_binopf E =
     bind (pull_ranged [(0x92, 0x98, W32), (0xA0, 0xA6, W64)]) (\<lambda>(w, opcode).
     bind (jit_pop (float_type w)) (\<lambda>arg2.
     bind (jit_pop (float_type w)) (\<lambda>arg1.
     bind (nth_op binopf_ops opcode) (\<lambda>f.
     bind (case f of
             Inl node \<Rightarrow> binary E node arg1 arg2
           | Inr helper \<Rightarrow> call_helper E (JIT_HELPER_F w helper) [arg1, arg2]) (\<lambda>v.
     jit_push (float_type w) v)))))"

definition jit_wasm_unaryopi :: "jit_env \<Rightarrow> unit inst_op" where
  "jit_wasm_unaryopi E =
     bind (pull_ranged [(0x67, 0x69, SPIDIR_TYPE_I32), (0x79, 0x7B, SPIDIR_TYPE_I64)]) (\<lambda>(type, opcode).
     bind (jit_pop type) (\<lambda>arg.
     bind (nth_op [Op_lzcount type, Op_tzcount type, Op_popcount type] opcode) (\<lambda>f.
     bind (unary E f arg) (\<lambda>v.
     jit_push type v))))"

text \<open>\<open>(arg1 & ((arg2 == -1) - 1)) % arg2\<close>: the remainder by -1 would trap on x86.\<close>

definition emit_srem :: "jit_env \<Rightarrow> spidir_value_type \<Rightarrow> u32 \<Rightarrow> u32 \<Rightarrow> ('x, u32) ctx_op" where
  "emit_srem E type arg1 arg2 =
     bind (iconst E type (if type = SPIDIR_TYPE_I32 then 0xFFFFFFFF else - 1)) (\<lambda>minus_one.
     bind (build E (Build_icmp SPIDIR_ICMP_EQ type arg2 minus_one)) (\<lambda>is_neg_one.
     bind (iconst E type 1) (\<lambda>one.
     bind (binary E Op_isub is_neg_one one) (\<lambda>arg1_mask.
     bind (binary E Op_and arg1 arg1_mask) (\<lambda>arg1.
     binary E Op_srem arg1 arg2)))))"

definition binopi_ops :: "spidir_binary list" where
  "binopi_ops = [Op_iadd, Op_isub, Op_imul, Op_sdiv, Op_udiv, Op_srem, Op_urem, Op_and, Op_or, Op_xor]"

definition jit_wasm_binopi :: "jit_env \<Rightarrow> unit inst_op" where
  "jit_wasm_binopi E =
     bind (pull_ranged [(0x6A, 0x73, SPIDIR_TYPE_I32), (0x7C, 0x85, SPIDIR_TYPE_I64)]) (\<lambda>(type, opcode).
     bind (jit_pop type) (\<lambda>arg2.
     bind (jit_pop type) (\<lambda>arg1.
     bind (nth_op binopi_ops opcode) (\<lambda>f.
     bind (if opcode = 5 then emit_srem E type arg1 arg2 else binary E f arg1 arg2) (\<lambda>v.
     jit_push type v)))))"

end
