(* ===== verification/Jit_Opcode.thy ===== *)
theory Jit_Opcode
  imports Jit_Numeric
begin

text \<open>
  The translation of instructions, src/jit/inst.c, last part: the end of a block, the skipping of
  dead code, and the dispatch on the opcode.
\<close>

section \<open>The 0xFC prefix\<close>

definition jit_wasm_fc_prefix :: "jit_env \<Rightarrow> unit inst_op" where
  "jit_wasm_fc_prefix E =
     bind (pull buffer_pull_u32) (\<lambda>sub_opcode.
     if between 0 7 sub_opcode then jit_wasm_trunc_sat E
     else if sub_opcode = 8 then jit_wasm_memory_init E
     else if sub_opcode = 9 then jit_wasm_data_drop E
     else if sub_opcode = 10 then jit_wasm_memory_copy E
     else if sub_opcode = 11 then jit_wasm_memory_fill E
     else fail Check_failed)"

section \<open>The end of a block\<close>

text \<open>
  The three cases return the result to hand to the enclosing label, if any, and whether the code
  after the block is unreachable. First the function body.
\<close>

type_synonym block_end = "(spidir_value_type \<times> u32) option \<times> bool"

definition end_function :: "jit_env \<Rightarrow> jit_label \<Rightarrow> block_end inst_op" where
  "end_function E label =
     bind (check (\<not> lb_loop label)) (\<lambda>_.
     bind (if \<not> lb_terminated label then
             bind (pop_function_result E) (\<lambda>v.
             emit (Build_return v))
           else ret ()) (\<lambda>_.
     ret (None, False)))"

text \<open>One turn of the loop that takes the locals over from the merge.\<close>

definition take_local :: "u32 list \<Rightarrow> nat \<Rightarrow> unit inst_op" where
  "take_local vs i =
     bind (index vs i) (\<lambda>v.
     set_local_value i v)"

definition end_block :: "jit_env \<Rightarrow> jit_label \<Rightarrow> block_end inst_op" where
  "end_block E label =
     bind (if \<not> lb_terminated label then
             bind (if lb_result_type label \<noteq> SPIDIR_TYPE_NONE then jit_pop (lb_result_type label)
                   else ret (invalid E)) (\<lambda>result.
             bind (jit_wasm_prepare_branch E 0 result) (\<lambda>_.
             emit (Build_branch (lb_block label))))
           else ret ()) (\<lambda>_.
     bind get_label (\<lambda>l.
     case lb_locals_values l of
       None \<Rightarrow>
         bind (set_block (lb_block l)) (\<lambda>_.
         bind (emit Build_unreachable) (\<lambda>_.
         ret (None, True)))
     | Some vs \<Rightarrow>
         bind (gets (\<lambda>s. length (fn_locals s))) (\<lambda>n.
         bind (for_each [0..<n] (take_local vs)) (\<lambda>_.
         bind (set_block (lb_block l)) (\<lambda>_.
         ret (if lb_result_type l \<noteq> SPIDIR_TYPE_NONE then Some (lb_result_type l, lb_result_value l) else None,
              False))))))"

definition end_loop :: "jit_env \<Rightarrow> jit_label \<Rightarrow> block_end inst_op" where
  "end_loop E label =
     bind (create_block E) (\<lambda>next_block.
     if \<not> lb_terminated label then
       bind (if lb_result_type label \<noteq> SPIDIR_TYPE_NONE then jit_pop (lb_result_type label)
             else ret (invalid E)) (\<lambda>result.
       bind (emit (Build_branch next_block)) (\<lambda>_.
       bind (set_block next_block) (\<lambda>_.
       ret (if lb_result_type label \<noteq> SPIDIR_TYPE_NONE then Some (lb_result_type label, result) else None,
            False))))
     else
       bind (set_block next_block) (\<lambda>_.
       bind (emit Build_unreachable) (\<lambda>_.
       ret (None, True))))"

text \<open>
  What all three share: the operands must be balanced, the label goes, and the enclosing label gets
  the result or becomes unreachable. \<open>vec_last\<close> checks that there is an enclosing label.
\<close>

definition close_label :: "block_end \<Rightarrow> unit inst_op" where
  "close_label e =
     (case e of (push_result, propagate_terminated) \<Rightarrow>
     bind get_label (\<lambda>label.
     bind (check (lb_terminated label \<or> lb_stack label = [])) (\<lambda>_.
     bind (modify (\<lambda>s. s\<lparr>fn_labels := tl (fn_labels s)\<rparr>)) (\<lambda>_.
     bind (gets fn_labels) (\<lambda>ls.
     bind (case push_result of
             None \<Rightarrow> ret ()
           | Some (type, v) \<Rightarrow> bind (check (ls \<noteq> [])) (\<lambda>_. jit_push type v)) (\<lambda>_.
     if propagate_terminated then bind (check (ls \<noteq> [])) (\<lambda>_. terminate_label) else ret ()))))))"

definition jit_wasm_end :: "jit_env \<Rightarrow> unit inst_op" where
  "jit_wasm_end E =
     bind get_label (\<lambda>label.
     bind (gets (\<lambda>s. length (fn_labels s))) (\<lambda>n.
     bind (if n = 1 then end_function E label
           else if \<not> lb_loop label then end_block E label
           else end_loop E label) close_label))"

section \<open>Dead code\<close>

function jit_skip_leb :: "unit parser" where
  "jit_skip_leb b =
     (case pull_u8 b of
        Inl e \<Rightarrow> Inl e
      | Inr (byte, b') \<Rightarrow> if byte AND 0x80 \<noteq> 0 then jit_skip_leb b' else Inr ((), b'))"
  by pat_completeness auto
termination
  by (relation "measure (\<lambda>b. length (rest b))") (auto dest: pull_u8_shorter)

declare jit_skip_leb.simps [simp del]

definition skip_bytes :: "nat \<Rightarrow> unit parser" where
  "skip_bytes n = bind (pull_bytes n) (\<lambda>_. ret ())"

definition skip_memarg :: "unit parser" where
  "skip_memarg = bind jit_pull_memarg (\<lambda>_. ret ())"

text \<open>
  The loop \<open>for (uint32_t i = 0; i <= count; i++)\<close> skips \<open>count + 1\<close> numbers. For the largest count its
  condition always holds and it goes on until the bytes run out, which fails; skipping
  \<open>2 ^ 32\<close> numbers fails as well, since a body has fewer bytes.
\<close>

definition skip_br_table :: "unit parser" where
  "skip_br_table =
     bind buffer_pull_u32 (\<lambda>count.
     bind (repeat_sm (Suc (unat count)) jit_skip_leb) (\<lambda>_.
     ret ()))"

definition skip_fc :: "unit parser" where
  "skip_fc =
     bind buffer_pull_u32 (\<lambda>sub_opcode.
     if between 0 7 sub_opcode then ret ()
     else if sub_opcode = 8 then bind jit_skip_leb (\<lambda>_. skip_bytes 1)
     else if sub_opcode = 9 then jit_skip_leb
     else if sub_opcode = 10 then skip_bytes 2
     else if sub_opcode = 11 then skip_bytes 1
     else fail Check_failed)"

definition skip_fe :: "unit parser" where
  "skip_fe =
     bind buffer_pull_u32 (\<lambda>sub_opcode.
     if sub_opcode = 0 \<or> between 0x01 0x02 sub_opcode \<or> between 0x10 0x4E sub_opcode then skip_memarg
     else fail Check_failed)"

text \<open>The opcodes that neither open nor close a block: only their immediates matter.\<close>

definition skip_immediates :: "u8 \<Rightarrow> unit parser" where
  "skip_immediates opcode =
     (if opcode = 0x05 then ret ()
      else if opcode \<in> {0x0C, 0x0D, 0x10, 0x41, 0x42} \<or> between 0x20 0x24 opcode then jit_skip_leb
      else if opcode = 0x0E then skip_br_table
      else if opcode = 0x11 then bind jit_skip_leb (\<lambda>_. jit_skip_leb)
      else if between 0x28 0x3E opcode then skip_memarg
      else if opcode \<in> {0x3F, 0x40} then skip_bytes 1
      else if opcode = 0x43 then skip_bytes 4
      else if opcode = 0x44 then skip_bytes 8
      else if opcode \<in> {0x00, 0x01, 0x0F, 0x1A, 0x1B} \<or> between 0x45 0xC4 opcode then ret ()
      else if opcode = 0xFC then skip_fc
      else if opcode = 0xFE then skip_fe
      else fail Check_failed)"

definition jit_skip_unreachable :: "jit_env \<Rightarrow> u8 \<Rightarrow> unit inst_op" where
  "jit_skip_unreachable E opcode =
     (if opcode \<in> {0x02, 0x03, 0x04} then
        bind jit_wasm_pull_block_type (\<lambda>_.
        set_label (\<lambda>l. l\<lparr>lb_unreachable_depth := lb_unreachable_depth l + 1\<rparr>))
      else if opcode = 0x0B then
        bind get_label (\<lambda>label.
        if lb_unreachable_depth label = 0 then jit_wasm_end E
        else set_label (\<lambda>l. l\<lparr>lb_unreachable_depth := lb_unreachable_depth l - 1\<rparr>))
      else pull (skip_immediates opcode))"

section \<open>Dispatch\<close>

definition jit_dispatch :: "jit_env \<Rightarrow> u8 \<Rightarrow> unit inst_op" where
  "jit_dispatch E opcode =
     (if opcode = 0x0B then jit_wasm_end E
      else if opcode = 0x00 then jit_wasm_unreachable E
      else if opcode = 0x01 then jit_wasm_nop
      else if opcode = 0x1A then jit_wasm_drop
      else if opcode = 0x1B then jit_wasm_select E
      else if opcode = 0x02 then jit_wasm_block E
      else if opcode = 0x03 then jit_wasm_loop E
      else if opcode = 0x0C then jit_wasm_br E
      else if opcode = 0x0D then jit_wasm_br_if E
      else if opcode = 0x0E then jit_wasm_br_table E
      else if opcode = 0x0F then jit_wasm_return E
      else if opcode = 0x10 then jit_wasm_call E
      else if opcode = 0x11 then jit_wasm_call_indirect E
      else if opcode = 0x20 then jit_wasm_local_get E
      else if opcode = 0x21 then jit_wasm_local_set
      else if opcode = 0x22 then jit_wasm_local_tee
      else if opcode = 0x23 then jit_wasm_global_get E
      else if opcode = 0x24 then jit_wasm_global_set E
      else if between 0x28 0x35 opcode then jit_wasm_load E
      else if between 0x36 0x3E opcode then jit_wasm_store E
      else if opcode = 0x3F then jit_wasm_memory_size E
      else if opcode = 0x40 then jit_wasm_memory_grow E
      else if opcode = 0x41 then jit_wasm_i32_const E
      else if opcode = 0x42 then jit_wasm_i64_const E
      else if opcode = 0x43 then jit_wasm_f32_const E
      else if opcode = 0x44 then jit_wasm_f64_const E
      else if between 0x45 0x5A opcode then jit_wasm_cmpi E
      else if between 0x5B 0x66 opcode then jit_wasm_cmpf E
      else if between 0x67 0x69 opcode then jit_wasm_unaryopi E
      else if between 0x6A 0x73 opcode then jit_wasm_binopi E
      else if between 0x74 0x78 opcode then jit_wasm_shift E
      else if between 0x79 0x7B opcode then jit_wasm_unaryopi E
      else if between 0x7C 0x85 opcode then jit_wasm_binopi E
      else if between 0x86 0x8A opcode then jit_wasm_shift E
      else if between 0x8B 0x91 opcode then jit_wasm_unaryopf E
      else if between 0x92 0x98 opcode then jit_wasm_binopf E
      else if between 0x99 0x9F opcode then jit_wasm_unaryopf E
      else if between 0xA0 0xA6 opcode then jit_wasm_binopf E
      else if opcode = 0xA7 then jit_wasm_iconv E
      else if between 0xAC 0xAD opcode then jit_wasm_iconv E
      else if between 0xB2 0xB5 opcode then jit_wasm_itof E
      else if opcode = 0xB6 then jit_wasm_fconv E
      else if between 0xB7 0xBA opcode then jit_wasm_itof E
      else if opcode = 0xBB then jit_wasm_fconv E
      else if between 0xBC 0xBF opcode then jit_wasm_bitcast E
      else if between 0xC0 0xC4 opcode then jit_wasm_iconv E
      else if opcode = 0xFC then jit_wasm_fc_prefix E
      else if opcode = 0xFE then jit_wasm_atomic_prefix E
      else fail Check_failed)"

definition jit_wasm_opcode :: "jit_env \<Rightarrow> unit inst_op" where
  "jit_wasm_opcode E =
     bind (pull pull_u8) (\<lambda>opcode.
     bind get_label (\<lambda>label.
     if lb_terminated label then jit_skip_unreachable E opcode
     else jit_dispatch E opcode))"

end
