(* ===== verification/Jit_Progress.thy ===== *)
theory Jit_Progress
  imports Jit_Opcode
begin

text \<open>
  What every instruction respects. The locales list what a preorder on the state must allow, a call
  to the library, a change of labels or locals and so on; inside, every handler is shown to
  stay within the preorder, once for all of them. Interpretations:

  \<^item> \<open>code\<close>: the code buffer never grows. With the opcode itself, every turn of the loop over a
    body consumes a byte, so the loop ends.
  \<^item> \<open>work\<close>: functions not yet prepared and functions queued are never more than before, so the
    queue is drained in at most as many turns as there are functions.
\<close>

lemma memarg_reader [readers]: "reader jit_pull_memarg"
  unfolding jit_pull_memarg_def by (intro readers) (auto simp: readers split: prod.split)

lemma jit_skip_leb_step:
  "jit_skip_leb b = Inr (u, b') \<Longrightarrow> \<exists>bs. step_over bs b b'"
proof (induction b rule: jit_skip_leb.induct)
  case (1 b)
  from "1.prems" obtain x b1 where x: "pull_u8 b = Inr (x, b1)"
    by (subst (asm) jit_skip_leb.simps) (auto split: sum.splits)
  then have one: "step_over [x] b b1" by (auto simp: pull_u8_run step_over_def)
  show ?case
  proof (cases "x AND 0x80 \<noteq> 0")
    case True
    with "1.prems" x have "jit_skip_leb b1 = Inr (u, b')" by (subst (asm) jit_skip_leb.simps) simp
    then obtain bs where "step_over bs b1 b'" using "1.IH" [OF x refl True] by blast
    with one show ?thesis by (blast intro: step_over_trans)
  next
    case False
    with "1.prems" x have "b' = b1" by (subst (asm) jit_skip_leb.simps) simp
    with one show ?thesis by blast
  qed
qed

lemma jit_skip_leb_fault: "jit_skip_leb b = Inl e \<Longrightarrow> e = Check_failed"
proof (induction b rule: jit_skip_leb.induct)
  case (1 b)
  then show ?case
    by (subst (asm) jit_skip_leb.simps) (auto simp: pull_u8_fault split: sum.splits if_splits)
qed

lemma skip_readers [readers]:
  "reader jit_skip_leb" "reader (skip_bytes n)" "reader skip_memarg" "reader skip_br_table"
  "reader skip_fc" "reader skip_fe" "reader pull_memory_zero"
proof -
  show leb: "reader jit_skip_leb"
    by (rule readerI, erule jit_skip_leb_fault, erule jit_skip_leb_step)
  show "reader (skip_bytes n)" "reader skip_memarg" "reader skip_br_table"
    "reader skip_fc" "reader skip_fe" "reader pull_memory_zero"
    unfolding skip_bytes_def skip_memarg_def skip_br_table_def skip_fc_def skip_fe_def pull_memory_zero_def
    by (intro readers leb)+
qed

lemma skip_immediates_reader [readers]: "reader (skip_immediates opcode)"
  unfolding skip_immediates_def by (simp add: readers)

section \<open>What a preorder must allow\<close>

locale ctx_preorder = run_preorder R
  for R :: "'x jit_context_scheme \<Rightarrow> 'x jit_context_scheme \<Rightarrow> bool" +
  assumes emits [along]: "along R (emit c)"
    and registers [along]: "along R (jit_get_helper E kind)"
    and prepares [along]: "along R (jit_prepare_function E i)"
begin

lemma reply_along [along]: "along R (reply f c)"
  unfolding reply_def by (intro along)

lemma context_along [along]:
  "along R (build E c)" "along R (create_block E)" "along R (set_block b)" "along R (build_phi E ty vs)"
  "along R (jit_get_spidir_value_type t)" "along R (jit_get_spidir_mem_size st)"
  "along R (some_or_fail x)" "along R (nth_op xs op)"
  "along R (CALLOC h sz n)" "along R (calloc_unchecked h n sz)"
proof -
  show "along R (build E c)" "along R (create_block E)" "along R (set_block b)" "along R (build_phi E ty vs)"
    unfolding build_def create_block_def set_block_def build_phi_def by (intro along)+
  show "along R (jit_get_spidir_value_type t)" by (cases t) (simp_all add: along)
  show "along R (jit_get_spidir_mem_size st)" by (cases st) (simp_all add: along)
  show "along R (some_or_fail x)" "along R (nth_op xs op)"
    "along R (CALLOC h sz n)" "along R (calloc_unchecked h n sz)"
    unfolding some_or_fail_def nth_op_def CALLOC_def calloc_unchecked_def by (intro along)+
qed

lemma piece_along [along]:
  "along R (jit_emit_trap E)" "along R (jit_emit_zext64 E v)"
  "along R (call_helper E kind args)" "along R (state_slot E off)"
  "along R (jit_wasm_calculate_addr E a v)" "along R (mem_pointer E base v)" "along R (passive_data E d)"
  "along R (emit_srem E ty v w)" "along R (counter_shift E m bc n)" "along R (spidir_ret_type type)"
  "along R (wasm_get_func_type md i)" "along R (get_function i)" "along R (funcref_of f)"
  "along R (fill_phi E ty inputs v)"
  unfolding jit_emit_trap_def jit_emit_zext64_def call_helper_def state_slot_def jit_wasm_calculate_addr_def
    mem_pointer_def passive_data_def emit_srem_def counter_shift_def spidir_ret_type_def wasm_get_func_type_def
    get_function_def funcref_of_def fill_phi_def
  by (intro along)+

lemma extend_loaded_along [along]: "along R (extend_loaded E ty ext v)"
  by (cases ext; simp add: extend_loaded_def along)

lemma atomic_call_along [along]: "along R (atomic_call E a off kind ops)"
  unfolding atomic_call_def by (intro along)

lemma global_constant_along [along]: "along R (global_constant E ty v)"
  by (cases ty; cases v) (simp_all add: global_constant_def along)

end

text \<open>What an instruction does besides reading its own bytes.\<close>

locale label_preorder = ctx_preorder R
  for R :: "jit_inst \<Rightarrow> jit_inst \<Rightarrow> bool" +
  assumes sets_labels: "R s (s\<lparr>fn_labels := ls\<rparr>)"
    and sets_locals: "R s (s\<lparr>fn_locals := vs\<rparr>)"
    and sets_tables: "R s (s\<lparr>jc_tables := ts\<rparr>)"
begin

lemma basic_along [along]:
  "along R (set_label_at i f)" "along R (push_label l)" "along R (set_local_value i v)" "along R (set_table_used i)"
  unfolding set_label_at_def push_label_def set_local_value_def set_table_used_def
  by (intro along along_modify sets_labels sets_locals sets_tables)+

lemma label_along [along]:
  "along R get_label" "along R (get_label_at t)" "along R (jit_push ty v)"
  "along R jit_pop_any" "along R (jit_pop ty)" "along R terminate_label"
proof -
  show *: "along R get_label" "along R (get_label_at t)" "along R (jit_push ty v)"
    unfolding get_label_def get_label_at_def jit_push_def by (intro along)+
  show **: "along R jit_pop_any" unfolding jit_pop_any_def by (intro along *)
  show "along R (jit_pop ty)" "along R terminate_label"
    unfolding jit_pop_def terminate_label_def by (intro along * **)+
qed

lemma result_along [along]:
  "along R (pop_function_result E)" "along R (pop_label_result E target)"
  "along R (peek_if E c)" "along R (pop_args types)"
  unfolding pop_function_result_def pop_label_result_def peek_if_def pop_args_def
  by (intro along)+

lemma branch_along [along]:
  "along R (first_branch E t v)"
  "along R (later_branch E t v)" "along R (jit_wasm_prepare_branch E t v)"
proof -
  have *: "along R (merge_local E t i)" "along R (merge_branch_result E t v)" for i
    unfolding merge_local_def merge_branch_result_def by (intro along)+
  show **: "along R (first_branch E t v)" "along R (later_branch E t v)"
    unfolding first_branch_def later_branch_def by (intro along *)+
  show "along R (jit_wasm_prepare_branch E t v)"
    unfolding jit_wasm_prepare_branch_def by (intro along **)
qed

lemma br_table_cases_along [along]: "along R (br_table_cases E idx i ts next ret_block)"
proof (induction ts arbitrary: i "next" ret_block)
  case Nil
  show ?case by (simp add: along)
next
  case (Cons t ts)
  have "along R (resolve_target E t ret_block)" unfolding resolve_target_def by (intro along)
  then show ?case by (simp only: br_table_cases.simps) (intro along Cons.IH)
qed

lemma table_along [along]:
  "along R (branch_to_table_entry E v t)" "along R (br_table_dispatch E idx table dflt)"
  unfolding branch_to_table_entry_def br_table_dispatch_def resolve_target_def by (intro along)+

lemma indirect_along [along]: "along R (call_indirect_target E table idx)"
  unfolding call_indirect_target_def by (intro along)

lemma plain_along [along]:
  "along R (jit_wasm_unreachable E)" "along R jit_wasm_nop" "along R jit_wasm_drop"
  "along R (jit_wasm_select E)" "along R (jit_wasm_return E)" "along R (loop_phi E i)"
  unfolding jit_wasm_unreachable_def jit_wasm_nop_def jit_wasm_drop_def jit_wasm_select_def jit_wasm_return_def
    loop_phi_def
  by (intro along along_modify sets_locals)+

lemma end_along [along]: "along R (jit_wasm_end E)"
  unfolding jit_wasm_end_def end_function_def end_block_def end_loop_def take_local_def close_label_def
  by (intro along along_modify sets_labels sets_locals sets_tables)

end

text \<open>Instructions also read their immediates.\<close>

locale inst_preorder = label_preorder R
  for R :: "jit_inst \<Rightarrow> jit_inst \<Rightarrow> bool" +
  assumes steps_over: "step_over bs (fn_code s) b \<Longrightarrow> R s (s\<lparr>fn_code := b\<rparr>)"
begin

lemma pulls: "reader p \<Longrightarrow> along R (pull p)"
  by (rule alongI) (auto simp: pull_def on_part_run elim: reader_consumes intro: steps_over)

lemmas pulls_along [along] = readers [THEN pulls]

lemma last_byte_along [along]: "along R (pull last_byte)"
  by (rule alongI) (auto simp: pull_def on_part_run last_byte_def bind_run refl)

lemma immediate_along [along]:
  "along R pull_target" "along R pull_local" "along R (pull_global_index E)"
  "along R (pull_ranged ranges)" "along R jit_wasm_pull_block_type" "along R (pull_br_table E)"
proof -
  show *: "along R pull_target" unfolding pull_target_def by (intro along)
  show "along R pull_local" "along R (pull_global_index E)"
    "along R (pull_ranged ranges)" "along R jit_wasm_pull_block_type" "along R (pull_br_table E)"
    unfolding pull_local_def pull_global_index_def pull_ranged_def jit_wasm_pull_block_type_def pull_br_table_def
    by (intro along *)+
qed

lemma control_along [along]:
  "along R (jit_wasm_block E)" "along R (jit_wasm_loop E)" "along R (jit_wasm_br E)"
  "along R (jit_wasm_br_if E)" "along R (jit_wasm_br_table E)"
  "along R (jit_wasm_call E)" "along R (jit_wasm_call_indirect E)"
  unfolding jit_wasm_block_def jit_wasm_loop_def jit_wasm_br_def jit_wasm_br_if_def jit_wasm_br_table_def
    jit_wasm_call_def jit_wasm_call_indirect_def
  by (intro along)+

lemma memory_along [along]:
  "along R (jit_wasm_local_get E)" "along R jit_wasm_local_set"
  "along R jit_wasm_local_tee" "along R (jit_wasm_global_get E)"
  "along R (jit_wasm_global_set E)" "along R (jit_wasm_load E)"
  "along R (jit_wasm_store E)" "along R (jit_wasm_memory_size E)"
  "along R (jit_wasm_memory_grow E)" "along R (jit_wasm_memory_init E)"
  "along R (jit_wasm_data_drop E)" "along R (jit_wasm_memory_copy E)"
  "along R (jit_wasm_memory_fill E)"
  unfolding jit_wasm_local_get_def jit_wasm_local_set_def jit_wasm_local_tee_def jit_wasm_global_get_def
    jit_wasm_global_set_def jit_wasm_load_def jit_wasm_store_def jit_wasm_memory_size_def
    jit_wasm_memory_grow_def jit_wasm_memory_init_def jit_wasm_data_drop_def jit_wasm_memory_copy_def
    jit_wasm_memory_fill_def
  by (intro along)+

lemma atomic_along [along]: "along R (jit_wasm_atomic_prefix E)"
  unfolding jit_wasm_atomic_prefix_def jit_wasm_atomic_notify_def jit_wasm_atomic_wait_def
    jit_wasm_atomic_load_def jit_wasm_atomic_store_def jit_wasm_atomic_rmw_binop_def
    jit_wasm_atomic_rmw_cmpexchg_def
  by (intro along)

lemma numeric_along [along]:
  "along R (jit_wasm_i32_const E)" "along R (jit_wasm_i64_const E)"
  "along R (jit_wasm_f32_const E)" "along R (jit_wasm_f64_const E)"
  "along R (jit_wasm_cmpi E)" "along R (jit_wasm_cmpf E)"
  "along R (jit_wasm_iconv E)" "along R (jit_wasm_trunc_sat E)"
  "along R (jit_wasm_itof E)" "along R (jit_wasm_fconv E)"
  "along R (jit_wasm_bitcast E)" "along R (jit_wasm_shift E)"
  "along R (jit_wasm_unaryopf E)" "along R (jit_wasm_binopf E)"
  "along R (jit_wasm_unaryopi E)" "along R (jit_wasm_binopi E)"
  unfolding jit_wasm_i32_const_def jit_wasm_i64_const_def jit_wasm_f32_const_def jit_wasm_f64_const_def
    jit_wasm_cmpi_def jit_wasm_cmpf_def jit_wasm_iconv_def jit_wasm_trunc_sat_def jit_wasm_itof_def
    jit_wasm_fconv_def jit_wasm_bitcast_def jit_wasm_shift_def jit_wasm_unaryopf_def jit_wasm_binopf_def
    jit_wasm_unaryopi_def jit_wasm_binopi_def
  by (intro along)+

lemma fc_along [along]: "along R (jit_wasm_fc_prefix E)"
  unfolding jit_wasm_fc_prefix_def by (intro along)

lemma dispatch_along [along]:
  "along R (jit_dispatch E opcode)" "along R (jit_skip_unreachable E opcode)"
  unfolding jit_dispatch_def jit_skip_unreachable_def by (intro along)+

lemma opcode_along [along]: "along R (jit_wasm_opcode E)"
  unfolding jit_wasm_opcode_def by (intro along)

end

section \<open>The code buffer\<close>

definition code_shrinks :: "jit_inst \<Rightarrow> jit_inst \<Rightarrow> bool" where
  "code_shrinks s s' \<longleftrightarrow> length (rest (fn_code s')) \<le> length (rest (fn_code s))"

text \<open>Operations on the context leave the buffer alone.\<close>

interpretation code_order: run_preorder code_shrinks
  by unfold_locales (simp_all add: code_shrinks_def)

lemma context_shrinks:
  "along code_shrinks (emit c)" "along code_shrinks (jit_get_helper E kind)"
  "along code_shrinks (jit_prepare_function E i)"
proof -
  show emits: "along code_shrinks (emit c)" for c
    unfolding emit_def by (rule code_order.along_modify) (simp add: code_shrinks_def)
  have replies: "along code_shrinks (reply f c)" for f :: "spidir_call list \<Rightarrow> 'z" and c
    unfolding reply_def by (intro along emits)
  have types: "along code_shrinks (jit_get_spidir_value_type t)" for t
    by (cases t) (simp_all add: along)
  show "along code_shrinks (jit_get_helper E kind)"
    unfolding jit_get_helper_def
    by (intro along replies code_order.along_modify; simp add: code_shrinks_def)
  show "along code_shrinks (jit_prepare_function E i)"
    unfolding jit_prepare_function_def prepare_new_function_def spidir_ret_type_def debug_name_def
      declare_import_def declare_function_def set_function_def calloc_unchecked_def
    by (intro along replies types code_order.along_modify; simp add: code_shrinks_def)
qed

interpretation code: inst_preorder code_shrinks
  by unfold_locales (simp_all add: context_shrinks, auto simp: code_shrinks_def step_over_def)

lemma jit_wasm_opcode_shorter:
  assumes "jit_wasm_opcode E s = Inr (u, s')"
  shows "length (rest (fn_code s')) < length (rest (fn_code s))"
proof -
  have tail: "along code_shrinks (bind get_label (\<lambda>label.
      if lb_terminated label then jit_skip_unreachable E opcode else jit_dispatch E opcode))" for opcode
    by (intro along)
  from assms obtain opcode s1 where "pull pull_u8 s = Inr (opcode, s1)" and
    "bind get_label (\<lambda>label.
      if lb_terminated label then jit_skip_unreachable E opcode else jit_dispatch E opcode) s1 = Inr (u, s')"
    unfolding jit_wasm_opcode_def by (rule bind_runE)
  from this(1) alongD [OF tail this(2)] show ?thesis
    by (auto simp: pull_def on_part_run code_shrinks_def dest!: pull_u8_shorter)
qed

end
