(* ===== verification/Jit_Function.thy ===== *)
theory Jit_Function
  imports Jit_Progress Vec
begin

text \<open>
  Translating one function: \<open>jit_build_function\<close> and \<open>jit_function\<close> of src/jit/function.c, and the
  type-checking thunks of src/jit/cfi.c.

  The locals are declared in a vector whose length is a \<open>uint32_t\<close>, taken from the module's bytes;
  this part runs on the vector of \<open>Vec\<close>. The body then runs on the list the vector holds.
\<close>

section \<open>The locals of a function\<close>

record jit_setup = jit_context +
  su_code :: buffer
  su_locals :: "jit_value vec"

definition on_code :: "'a parser \<Rightarrow> (jit_setup, 'a) sm" where
  "on_code p = on_part su_code (\<lambda>b s. s\<lparr>su_code := b\<rparr>) p"

definition on_locals :: "(jit_value vec, 'a) sm \<Rightarrow> (jit_setup, 'a) sm" where
  "on_locals p = on_part su_locals (\<lambda>v s. s\<lparr>su_locals := v\<rparr>) p"

text \<open>The wasm parameters follow the two hidden ones.\<close>

definition setup_arg :: "jit_env \<Rightarrow> wasm_type \<Rightarrow> nat \<Rightarrow> nat \<Rightarrow> (jit_setup, unit) sm" where
  "setup_arg E type base i =
     bind (index (arg_types type) i) (\<lambda>t.
     bind (jit_get_spidir_value_type t) (\<lambda>stype.
     bind (build E (Build_param_ref (word_of_nat (i + 2)))) (\<lambda>v.
     on_locals (vec_store (base + i) \<lparr>jv_value = v, jv_type = stype\<rparr>))))"

definition setup_args :: "jit_env \<Rightarrow> wasm_type \<Rightarrow> (jit_setup, unit) sm" where
  "setup_args E type =
     (let args_count = length (arg_types type) in
      bind (on_locals (vec_add (env_host E) 8 (word_of_nat args_count))) (\<lambda>base.
      for_each [0..<args_count] (setup_arg E type base)))"

text \<open>A local starts as zero.\<close>

definition zero_constant :: "spidir_value_type \<Rightarrow> spidir_call" where
  "zero_constant type =
     (if type = SPIDIR_TYPE_F32 then Build_fconst32 0
      else if type = SPIDIR_TYPE_F64 then Build_fconst64 0
      else Build_iconst type 0)"

definition setup_local :: "jit_env \<Rightarrow> wasm_value_type \<Rightarrow> nat \<Rightarrow> nat \<Rightarrow> (jit_setup, unit) sm" where
  "setup_local E t base j =
     bind (jit_get_spidir_value_type t) (\<lambda>stype.
     bind (build E (zero_constant stype)) (\<lambda>v.
     on_locals (vec_store (base + j) \<lparr>jv_value = v, jv_type = stype\<rparr>)))"

definition setup_local_group :: "jit_env \<Rightarrow> (jit_setup, unit) sm" where
  "setup_local_group E =
     bind (on_code buffer_pull_u32) (\<lambda>count.
     bind (on_code buffer_pull_val_type) (\<lambda>t.
     bind (on_locals (vec_add (env_host E) 8 count)) (\<lambda>base.
     for_each [0..<unat count] (setup_local E t base))))"

definition setup_locals :: "jit_env \<Rightarrow> wasm_type \<Rightarrow> (jit_setup, spidir_value_type) sm" where
  "setup_locals E type =
     bind (setup_args E type) (\<lambda>_.
     bind (check (length (result_types type) \<le> 1)) (\<lambda>_.
     bind (case result_types type of [] \<Rightarrow> ret SPIDIR_TYPE_NONE
           | t # _ \<Rightarrow> jit_get_spidir_value_type t) (\<lambda>ret_type.
     bind (on_code buffer_pull_u32) (\<lambda>locals_count.
     bind (repeat_sm (unat locals_count) (setup_local_group E)) (\<lambda>_.
     ret ret_type)))))"

section \<open>The body\<close>

text \<open>The loop \<open>while (code.len != 0)\<close>; every opcode consumes at least a byte.\<close>

function translate_body :: "jit_env \<Rightarrow> unit inst_op" where
  "translate_body E s =
     (if rest (fn_code s) = [] then Inr ((), s)
      else if fn_labels s = [] then Inl Check_failed
      else case jit_wasm_opcode E s of
        Inl e \<Rightarrow> Inl e
      | Inr (_, s') \<Rightarrow> translate_body E s')"
  by pat_completeness auto
termination
  by (relation "measure (\<lambda>(E, s). length (rest (fn_code s)))") (auto dest: jit_wasm_opcode_shorter)

declare translate_body.simps [simp del]

definition entry_block :: "jit_env \<Rightarrow> ('x, unit) ctx_op" where
  "entry_block E =
     bind (create_block E) (\<lambda>b.
     bind (emit (Set_entry_block b)) (\<lambda>_.
     set_block b))"

definition translate_function :: "jit_env \<Rightarrow> unit inst_op" where
  "translate_function E =
     bind (entry_block E) (\<lambda>_.
     bind (push_label (new_label SPIDIR_TYPE_NONE)) (\<lambda>_.
     bind (translate_body E) (\<lambda>_.
     bind (gets fn_labels) (\<lambda>ls.
     check (ls = [])))))"

text \<open>
  From the context to a larger state and back. A failed run leaves no context: every caller gives
  up on the whole module.
\<close>

definition start_setup :: "buffer \<Rightarrow> jit_context \<Rightarrow> jit_setup" where
  "start_setup b s = jit_context.extend s (jit_setup.fields b vec_empty)"

definition start_inst :: "spidir_value_type \<Rightarrow> jit_setup \<Rightarrow> jit_inst" where
  "start_inst ret_type s =
     jit_context.extend (jit_context.truncate s)
       (jit_inst.fields (su_code s) (vec_list (su_locals s)) ret_type [])"

definition run_function :: "jit_env \<Rightarrow> wasm_type \<Rightarrow> u8 list \<Rightarrow> (jit_context, unit) sm" where
  "run_function E type body = (\<lambda>s.
     case setup_locals E type (start_setup (init_buffer body) s) of
       Inl e \<Rightarrow> Inl e
     | Inr (ret_type, s1) \<Rightarrow>
         (case translate_function E (start_inst ret_type s1) of
            Inl e \<Rightarrow> Inl e
          | Inr (_, s2) \<Rightarrow> Inr ((), jit_context.truncate s2)))"

definition jit_build_function :: "jit_env \<Rightarrow> u32 \<Rightarrow> (jit_context, unit) sm" where
  "jit_build_function E funcidx =
     (let m = env_module E in
     bind (check (length (mod_imports m) \<le> unat funcidx)) (\<lambda>_.
     let f = unat funcidx - length (mod_imports m) in
     bind (index (mod_functions m) f) (\<lambda>typeidx.
     bind (index (mod_types m) (unat typeidx)) (\<lambda>type.
     bind (case mod_code m of None \<Rightarrow> fail Undefined | Some code \<Rightarrow> index code f) (\<lambda>body.
     run_function E type body)))))"

text \<open>\<open>jit_function\<close>; \<open>spidir_module_build_function\<close> calls back once, for the function it is given.\<close>

definition jit_function_run :: "jit_env \<Rightarrow> u32 \<Rightarrow> (jit_context, unit) sm" where
  "jit_function_run E funcidx =
     bind (get_function funcidx) (\<lambda>f.
     bind (check (jf_inited f)) (\<lambda>_.
     bind (funcref_of f) (\<lambda>r.
     case r of
       Funcref_external _ \<Rightarrow> fail Check_failed
     | Funcref_internal i \<Rightarrow>
         bind (emit (Build_function i)) (\<lambda>_.
         jit_build_function E funcidx))))"

section \<open>Type-checking thunks\<close>

definition jit_build_cfi_thunk :: "jit_env \<Rightarrow> u32 \<Rightarrow> wasm_type \<Rightarrow> spidir_funcref \<Rightarrow> ('x, unit) ctx_op" where
  "jit_build_cfi_thunk E typeidx type target =
     bind (create_block E) (\<lambda>entry.
     bind (create_block E) (\<lambda>cfi_failed.
     bind (create_block E) (\<lambda>cfi_success.
     bind (emit (Set_entry_block entry)) (\<lambda>_.
     bind (set_block entry) (\<lambda>_.
     bind (iconst E SPIDIR_TYPE_I64 (jit_cfi_get_type_id typeidx)) (\<lambda>expected_type_id.
     bind (build E (Build_param_ref 2)) (\<lambda>got_type_id.
     bind (build E (Build_icmp SPIDIR_ICMP_EQ SPIDIR_TYPE_I32 expected_type_id got_type_id)) (\<lambda>c.
     bind (emit (Build_brcond c cfi_success cfi_failed)) (\<lambda>_.
     bind (set_block cfi_failed) (\<lambda>_.
     bind (jit_emit_trap E) (\<lambda>_.
     bind (set_block cfi_success) (\<lambda>_.
     bind (CALLOC (env_host E) 4 (length (arg_types type) + 2)) (\<lambda>_.
     bind (build E (Build_param_ref 0)) (\<lambda>mem.
     bind (build E (Build_param_ref 1)) (\<lambda>state.
     bind (map_each [0..<length (arg_types type)]
       (\<lambda>i. build E (Build_param_ref (word_of_nat (3 + i))))) (\<lambda>args.
     bind (build E (Build_call target (mem # state # args))) (\<lambda>res.
     emit (Build_return res))))))))))))))))))"

definition jit_create_cfi_thunk :: "jit_env \<Rightarrow> u32 \<Rightarrow> ('x, unit) ctx_op" where
  "jit_create_cfi_thunk E funcidx =
     bind (lift_res (wasm_get_func (env_module E) (int (unat funcidx)))) (\<lambda>found.
     bind (some_or_fail found) (\<lambda>type.
     bind (spidir_ret_type type) (\<lambda>ret_type.
     bind (calloc_unchecked (env_host E) 4 (length (arg_types type) + 3)) (\<lambda>_.
     bind (map_each (arg_types type) jit_get_spidir_value_type) (\<lambda>wasm_args.
     bind (set_function funcidx (\<lambda>f. f\<lparr>jf_has_cfi := True\<rparr>)) (\<lambda>_.
     bind (reply (func_id (env_spidir E)) (Create_function (generated_name ''cfi.'' funcidx) ret_type
       (SPIDIR_TYPE_PTR # SPIDIR_TYPE_PTR # SPIDIR_TYPE_I64 # wasm_args))) (\<lambda>thunk.
     bind (set_function funcidx (\<lambda>f. f\<lparr>jf_cfi_thunk := thunk\<rparr>)) (\<lambda>_.
     bind (get_function funcidx) (\<lambda>f.
     bind (funcref_of f) (\<lambda>target.
     bind (emit (Build_function thunk)) (\<lambda>_.
     bind (wasm_get_func_type (env_module E) funcidx) (\<lambda>typeidx.
     jit_build_cfi_thunk E typeidx type target))))))))))))"

section \<open>Thunks and preorders\<close>

context ctx_preorder
begin

lemma thunk_along [along]: "along R (jit_build_cfi_thunk E ti type target)"
  unfolding jit_build_cfi_thunk_def by (intro along)

end

end
