(* ===== verification/Jit_Driver.thy ===== *)
theory Jit_Driver
  imports Jit_Function
begin

text \<open>
  The driver, src/jit/jit.c: the layout of the runtime state, its initial contents, the tables, and
  the loop that translates every function that can be reached.
\<close>

section \<open>The layout of the state\<close>

text \<open>\<open>ALIGN_UP\<close> of src/util/defs.h, for a power of two.\<close>

definition align_up :: "u64 \<Rightarrow> u64 \<Rightarrow> u64" where
  "align_up x a = (x + (a - 1)) AND NOT (a - 1)"

definition layout_global :: "wasm_global \<Rightarrow> (u64, jit_global) sm" where
  "layout_global g =
     bind (jit_get_spidir_value_type (value_kind (global_value g))) (\<lambda>type.
     if global_mutable g then
       bind (jit_get_spidir_size type) (\<lambda>sz.
       bind (modify (\<lambda>offset. align_up offset sz)) (\<lambda>_.
       bind (gets (\<lambda>offset. offset)) (\<lambda>off.
       bind (modify (\<lambda>offset. offset + sz)) (\<lambda>_.
       ret \<lparr>jg_offset = off, jg_type = type\<rparr>))))
     else ret \<lparr>jg_offset = - 1, jg_type = type\<rparr>)"

definition layout_data :: "wasm_data \<Rightarrow> (u64, jit_data) sm" where
  "layout_data d =
     (if \<not> data_active d then
        bind (modify (\<lambda>offset. align_up offset 8)) (\<lambda>_.
        bind (gets (\<lambda>offset. offset)) (\<lambda>off.
        bind (modify (\<lambda>offset. offset + 8)) (\<lambda>_.
        ret \<lparr>jd_offset = off\<rparr>)))
      else ret \<lparr>jd_offset = - 1\<rparr>)"

text \<open>The result is what the function stores in the context, and \<open>state_size\<close>.\<close>

definition jit_prepare_state :: "host \<Rightarrow> wasm_module \<Rightarrow> (jit_global list \<times> jit_data list \<times> u64) res" where
  "jit_prepare_state h m =
     (case bind (check (mod_globals m = [] \<or> calloc_ok h 16 (length (mod_globals m)))) (\<lambda>_.
           bind (map_each (mod_globals m) layout_global) (\<lambda>gs.
           bind (check (mod_data m = [] \<or> calloc_ok h 8 (length (mod_data m)))) (\<lambda>_.
           bind (map_each (mod_data m) layout_data) (\<lambda>ds.
           ret (gs, ds))))) 0 of
        Inl e \<Rightarrow> Inl e
      | Inr ((gs, ds), offset) \<Rightarrow> Inr (gs, ds, offset))"

section \<open>The initial state\<close>

text \<open>A store of bytes into the block \<open>state_init\<close>: undefined outside it.\<close>

definition poke :: "u64 \<Rightarrow> u8 list \<Rightarrow> (u8 list, unit) sm" where
  "poke off bs =
     bind (gets length) (\<lambda>len.
     bind (defined (unat off + length bs \<le> len)) (\<lambda>_.
     modify (\<lambda>mem. take (unat off) mem @ bs @ drop (unat off + length bs) mem)))"

fun value_bytes :: "wasm_value \<Rightarrow> u8 list option" where
  "value_bytes (Value_f32 v) = Some (le_bytes 4 v)"
| "value_bytes (Value_f64 v) = Some (le_bytes 8 v)"
| "value_bytes (Value_i32 v) = Some (le_bytes 4 v)"
| "value_bytes (Value_i64 v) = Some (le_bytes 8 v)"
| "value_bytes No_value = None"

definition init_global :: "wasm_global \<times> jit_global \<Rightarrow> (u8 list, unit) sm" where
  "init_global g =
     (if global_mutable (fst g) then
        bind (some_or_fail (value_bytes (global_value (fst g)))) (\<lambda>bs.
        poke (jg_offset (snd g)) bs)
      else ret ())"

text \<open>A passive segment's slot holds the address of its bytes; \<open>data_address\<close> gives it.\<close>

definition init_data :: "(nat \<Rightarrow> u64) \<Rightarrow> nat \<times> wasm_data \<times> jit_data \<Rightarrow> (u8 list, unit) sm" where
  "init_data data_address d =
     (case d of (i, data, slot) \<Rightarrow>
        if \<not> data_active data then poke (jd_offset slot) (le_bytes 8 (data_address i)) else ret ())"

definition jit_build_state_init ::
    "host \<Rightarrow> wasm_module \<Rightarrow> (nat \<Rightarrow> u64) \<Rightarrow> jit_global list \<Rightarrow> jit_data list \<Rightarrow> u64 \<Rightarrow> u8 list option res" where
  "jit_build_state_init h m data_address gs ds state_size =
     (if state_size = 0 then Inr None
      else if \<not> calloc_ok h 1 (unat state_size) then Inl Check_failed
      else
        (case bind (for_each (zip (mod_globals m) gs) init_global) (\<lambda>_.
              for_each (zip [0..<length (mod_data m)] (zip (mod_data m) ds)) (init_data data_address))
            (replicate (unat state_size) 0) of
           Inl e \<Rightarrow> Inl e
         | Inr (_, mem) \<Rightarrow> Inr (Some mem)))"

section \<open>Tables\<close>

definition jit_prepare_table :: "jit_env \<Rightarrow> nat \<Rightarrow> ('x, unit) ctx_op" where
  "jit_prepare_table E i =
     bind (reply (global_id (env_spidir E)) (Create_extern_global (generated_name ''table_'' (word_of_nat i)))) (\<lambda>g.
     bind (index (mod_tables (env_module E)) i) (\<lambda>t.
     bind (gets jc_tables) (\<lambda>ts.
     bind (index ts i) (\<lambda>x.
     modify (\<lambda>s. s\<lparr>jc_tables := ts[i := x\<lparr>jt_global := g, jt_length := table_min t\<rparr>]\<rparr>)))))"

section \<open>Everything reachable\<close>

definition prepare_export :: "jit_env \<Rightarrow> wasm_export \<Rightarrow> ('x, unit) ctx_op" where
  "prepare_export E e =
     (if export_kind e = WASM_EXPORT_FUNC then jit_prepare_function E (export_index e) else ret ())"

definition prepare_elem :: "jit_env \<Rightarrow> wasm_elem_segment \<Rightarrow> ('x, unit) ctx_op" where
  "prepare_elem E e = for_each (elem_funcs e) (\<lambda>funcidx.
     bind (jit_prepare_function E funcidx) (\<lambda>_.
     jit_create_cfi_thunk E funcidx))"

definition prepare_roots :: "jit_env \<Rightarrow> ('x, unit) ctx_op" where
  "prepare_roots E =
     (let m = env_module E in
     bind (for_each (mod_exports m) (prepare_export E)) (\<lambda>_.
     bind (for_each [0..<length (mod_tables m)] (jit_prepare_table E)) (\<lambda>_.
     bind (for_each (mod_elems m) (prepare_elem E)) (\<lambda>_.
     if mod_start_func m \<ge> 0 then jit_prepare_function E (word_of_int (mod_start_func m)) else ret ()))))"

text \<open>
  The loop \<open>while (ctx->queue.length != 0)\<close>. A function enters the queue when it is first prepared,
  which happens once for each, so as many turns as there are functions are enough; the fuel bounds
  the number of turns, and running out of it is \<open>None\<close>.
\<close>

fun drain_queue :: "jit_env \<Rightarrow> nat \<Rightarrow> jit_context \<Rightarrow> (unit \<times> jit_context) res option" where
  "drain_queue E fuel s =
     (case jc_queue s of
        [] \<Rightarrow> Some (Inr ((), s))
      | funcidx # queue \<Rightarrow>
          (case fuel of
             0 \<Rightarrow> None
           | Suc fuel' \<Rightarrow>
               (case jit_function_run E funcidx (s\<lparr>jc_queue := queue\<rparr>) of
                  Inl e \<Rightarrow> Some (Inl e)
                | Inr (_, s') \<Rightarrow> drain_queue E fuel' s')))"

declare drain_queue.simps [simp del]

definition jit_emit_spidir :: "jit_env \<Rightarrow> jit_context \<Rightarrow> (unit \<times> jit_context) res option" where
  "jit_emit_spidir E s =
     (case prepare_roots E s of
        Inl e \<Rightarrow> Some (Inl e)
      | Inr (_, s') \<Rightarrow> drain_queue E (total_funcs (env_module E)) s')"

text \<open>The context at the start: \<open>CALLOC\<close> zeroes the arrays.\<close>

definition zero_function :: jit_function where
  "zero_function = \<lparr>jf_spidir = None, jf_cfi_thunk = 0, jf_address = 0, jf_inited = False, jf_has_cfi = False\<rparr>"

definition start_context :: "wasm_module \<Rightarrow> jit_global list \<Rightarrow> jit_data list \<Rightarrow> jit_context" where
  "start_context m gs ds = \<lparr>jc_trace = [], jc_functions = replicate (total_funcs m) zero_function,
     jc_globals = gs, jc_tables = replicate (length (mod_tables m)) \<lparr>jt_global = 0, jt_length = 0, jt_used = False\<rparr>,
     jc_data = ds, jc_queue = [], jc_helpers = (\<lambda>_. None)\<rparr>"

text \<open>
  \<open>wasm_module_jit\<close> up to code generation: the layout, the IR of every reachable function, and the
  initial state. The result is the context, the size of the state and its contents.
\<close>

definition jit_translate_module ::
    "jit_env \<Rightarrow> (nat \<Rightarrow> u64) \<Rightarrow> (jit_context \<times> u64 \<times> u8 list option) res option" where
  "jit_translate_module E data_address =
     (let m = env_module E; h = env_host E in
      if \<not> calloc_ok h 40 (length (mod_functions m) + length (mod_imports m)) \<or>
         \<not> calloc_ok h 12 (length (mod_tables m)) then Some (Inl Check_failed)
      else
        (case jit_prepare_state h m of
           Inl e \<Rightarrow> Some (Inl e)
         | Inr (gs, ds, state_size) \<Rightarrow>
             (case jit_emit_spidir E (start_context m gs ds) of
                None \<Rightarrow> None
              | Some (Inl e) \<Rightarrow> Some (Inl e)
              | Some (Inr (_, s)) \<Rightarrow>
                  (case jit_build_state_init h m data_address gs ds state_size of
                     Inl e \<Rightarrow> Some (Inl e)
                   | Inr state_init \<Rightarrow> Some (Inr (s, state_size, state_init))))))"

end
