(* ===== verification/Jit_Invariant.thy ===== *)
theory Jit_Invariant
  imports Jit_Driver
begin

text \<open>
  The invariants of the translation: of the context, which every operation on it keeps, and of the
  translation of one function, with its labels and locals. \<open>keeps I m\<close> says that \<open>m\<close> keeps \<open>I\<close> and does
  nothing undefined.
\<close>

section \<open>The invariant of the context\<close>

definition env_ok :: "jit_env \<Rightarrow> bool" where
  "env_ok E \<longleftrightarrow> module_ok (env_module E) \<and> names_fit (env_module E) \<and> generous (env_host E) \<and>
     (mod_functions (env_module E) = [] \<or> mod_code (env_module E) \<noteq> None)"

definition function_ok :: "jit_function \<Rightarrow> bool" where
  "function_ok f \<longleftrightarrow> (jf_inited f \<longrightarrow> jf_spidir f \<noteq> None)"

definition global_matches :: "jit_global \<Rightarrow> wasm_global \<Rightarrow> bool" where
  "global_matches g w \<longleftrightarrow> jg_type g = spidir_type (value_kind (global_value w))"

definition ctx_ok :: "jit_env \<Rightarrow> 'x jit_context_scheme \<Rightarrow> bool" where
  "ctx_ok E s \<longleftrightarrow> env_ok E \<and>
     length (jc_functions s) = total_funcs (env_module E) \<and> list_all function_ok (jc_functions s) \<and>
     list_all2 global_matches (jc_globals s) (mod_globals (env_module E)) \<and>
     length (jc_tables s) = length (mod_tables (env_module E)) \<and>
     length (jc_data s) = length (mod_data (env_module E))"

lemma ctx_ok_simps [simp]:
  "ctx_ok E (s\<lparr>jc_trace := tr\<rparr>) = ctx_ok E s"
  "ctx_ok E (s\<lparr>jc_queue := q\<rparr>) = ctx_ok E s"
  "ctx_ok E (s\<lparr>jc_helpers := hs\<rparr>) = ctx_ok E s"
  by (simp_all add: ctx_ok_def)

lemma value_type_keeps [keeps]:
  "keeps I (jit_get_spidir_value_type t)" "keeps I (jit_get_spidir_mem_size st)" "keeps I (some_or_fail x)"
  "keeps I (nth_op xs opc)" "keeps I (spidir_ret_type type)" "keeps I (CALLOC h sz cnt)"
proof -
  show *: "keeps I (jit_get_spidir_value_type t)" for t by (cases t) (simp_all add: keeps)
  show "keeps I (jit_get_spidir_mem_size st)" by (cases st) (simp_all add: keeps)
  show "keeps I (some_or_fail x)" "keeps I (nth_op xs opc)" "keeps I (spidir_ret_type type)"
    "keeps I (CALLOC h sz cnt)"
    unfolding some_or_fail_def nth_op_def spidir_ret_type_def CALLOC_def by (intro keeps *; simp)+
qed

section \<open>Preparing functions\<close>

lemma function_type:
  assumes "module_ok m" and "unat i < total_funcs m"
  shows "unat (func_typeidx m i) < length (mod_types m)"
    and "wasm_get_func m (int (unat i)) = Inr (Some (mod_types m ! unat (func_typeidx m i)))"
    and "wasm_get_func_type m i = ret (func_typeidx m i)"
proof -
  have parts: "list_all (import_ok m) (mod_imports m)" "list_all (typeidx_ok m) (mod_functions m)"
    using assms(1) by (simp_all add: module_ok_def)
  show *: "unat (func_typeidx m i) < length (mod_types m)"
    using parts assms(2)
    by (auto simp: func_typeidx_def list_all_length import_ok_def typeidx_ok_def total_funcs_def)
  show "wasm_get_func m (int (unat i)) = Inr (Some (mod_types m ! unat (func_typeidx m i)))"
  proof (cases "unat i < length (mod_imports m)")
    case True
    then show ?thesis using get_func_import [OF True] parts
      by (simp add: func_typeidx_def list_all_length)
  next
    case False
    then have "unat i - length (mod_imports m) < length (mod_functions m)"
      using assms(2) by (simp add: total_funcs_def)
    then show ?thesis using get_func_internal [of m "unat i"] False parts
      by (simp add: func_typeidx_def list_all_length)
  qed
  show "wasm_get_func_type m i = ret (func_typeidx m i)"
    using assms(2) * by (auto simp: wasm_get_func_type_def func_typeidx_def index_def total_funcs_def)
qed

lemma set_function_valid:
  assumes "unat i < total_funcs (env_module E)"
    and "\<And>x. function_ok x \<Longrightarrow> P x \<Longrightarrow> function_ok (f x) \<and> Q (f x)"
  shows "valid (\<lambda>s. ctx_ok E s \<and> P (jc_functions s ! unat i)) (set_function i f)
    (\<lambda>_ s. ctx_ok E s \<and> Q (jc_functions s ! unat i))"
  using assms
  by (auto simp: set_function_def valid_def bind_def gets_def index_def modify_def ret_def ctx_ok_def
      list_all_length nth_list_update)


lemma debug_name_keeps:
  assumes "names_fit m" and "unat i < total_funcs m"
  shows "keeps I (debug_name m i)"
  unfolding debug_name_def using assms by (auto intro!: keeps keeps_index simp: names_fit_def)

lemma emit_keeps [keeps]: "keeps (ctx_ok E) (emit c)"
  unfolding emit_def by (rule keeps_modify) simp

lemma reply_keeps [keeps]: "keeps (ctx_ok E) (reply f c)"
  unfolding reply_def by (intro keeps)

definition declared :: "jit_function \<Rightarrow> bool" where
  "declared f \<longleftrightarrow> jf_spidir f \<noteq> None"

lemma declare_valid:
  assumes "unat i < total_funcs (env_module E)"
  shows "unat i < length (mod_imports (env_module E)) \<Longrightarrow>
      valid (ctx_ok E) (declare_import E i type c) (\<lambda>_ s. ctx_ok E s \<and> declared (jc_functions s ! unat i))"
    and "valid (ctx_ok E) (declare_function E i c) (\<lambda>_ s. ctx_ok E s \<and> declared (jc_functions s ! unat i))"
proof -
  have set: "valid (ctx_ok E) (set_function i f) (\<lambda>_ s. ctx_ok E s \<and> declared (jc_functions s ! unat i))"
    if "\<And>x. declared (f x)" for f
    using set_function_valid [OF assms, of "\<lambda>_. True" f declared] that
    by (simp add: declared_def function_ok_def)
  have replies: "valid (ctx_ok E) (reply (func_id (env_spidir E)) c) (\<lambda>_. ctx_ok E)" for c
    using reply_keeps by (simp add: keeps_def)
  have decl: "valid (ctx_ok E) (bind (reply (func_id (env_spidir E)) c) (\<lambda>f. set_function i (g f)))
      (\<lambda>_ s. ctx_ok E s \<and> declared (jc_functions s ! unat i))"
    if "\<And>f x. declared (g f x)" for g c
    by (rule valid_bind [OF replies], rule set) (rule that)
  show "valid (ctx_ok E) (declare_function E i c) (\<lambda>_ s. ctx_ok E s \<and> declared (jc_functions s ! unat i))"
    unfolding declare_function_def
    by (rule valid_bind [OF replies], rule valid_bind [OF set]) (auto simp: declared_def valid_def modify_def)
  assume *: "unat i < length (mod_imports (env_module E))"
  show "valid (ctx_ok E) (declare_import E i type c) (\<lambda>_ s. ctx_ok E s \<and> declared (jc_functions s ! unat i))"
    unfolding declare_import_def index_def using *
    by (simp only: if_True bind_ret Let_def) (intro valid_bind_check decl; simp add: declared_def)
qed

lemma prepare_new_function_valid:
  assumes "unat i < total_funcs (env_module E)"
  shows "valid (ctx_ok E) (prepare_new_function E i) (\<lambda>_ s. ctx_ok E s \<and> jf_inited (jc_functions s ! unat i))"
proof (cases "env_ok E")
  case True
  have finish: "valid (\<lambda>s. ctx_ok E s \<and> declared (jc_functions s ! unat i))
      (set_function i (\<lambda>x. x\<lparr>jf_inited := True\<rparr>)) (\<lambda>_ s. ctx_ok E s \<and> jf_inited (jc_functions s ! unat i))"
    by (rule set_function_valid [OF assms]) (auto simp: declared_def function_ok_def)
  have type: "wasm_get_func (env_module E) (int (unat i)) =
      Inr (Some (mod_types (env_module E) ! unat (func_typeidx (env_module E) i)))"
    by (rule function_type(2)) (use True assms in \<open>simp_all add: env_ok_def\<close>)
  have last: "valid (ctx_ok E)
      (bind (if unat i < length (mod_imports (env_module E)) then declare_import E i type c
             else declare_function E i c') (\<lambda>_. set_function i (\<lambda>x. x\<lparr>jf_inited := True\<rparr>)))
      (\<lambda>_ s. ctx_ok E s \<and> jf_inited (jc_functions s ! unat i))" for type c c'
    by (rule valid_bind [OF _ finish], rule valid_if) (simp_all only: declare_valid [OF assms])
  have "names_fit (env_module E)" "generous (env_host E)" using True by (simp_all add: env_ok_def)
  then show ?thesis
    unfolding prepare_new_function_def Let_def type lift_res_def
    by (simp flip: ret_def)
      (intro valid_bind_keeps [OF value_type_keeps(5)] valid_bind_keeps [OF keeps_map_each]
        valid_bind_keeps [OF debug_name_keeps] value_type_keeps(1) last; (assumption | rule assms))
next
  case False
  then show ?thesis by (simp add: valid_def ctx_ok_def)
qed

lemma jit_prepare_function_valid:
  "valid (ctx_ok E) (jit_prepare_function E i)
    (\<lambda>_ s. ctx_ok E s \<and> unat i < total_funcs (env_module E) \<and> jf_inited (jc_functions s ! unat i))"
proof (cases "unat i < total_funcs (env_module E)")
  case True
  have "valid (\<lambda>s. ctx_ok E s \<and> jc_functions s = fs) (prepare_new_function E i)
      (\<lambda>_ s. ctx_ok E s \<and> unat i < total_funcs (env_module E) \<and> jf_inited (jc_functions s ! unat i))" for fs
    using prepare_new_function_valid [OF True] True
    by (auto elim!: valid_weaken_pre [THEN valid_weaken_post])
  then show ?thesis
    unfolding jit_prepare_function_def using True
    by (auto intro!: valid_bind_gets valid_bind_index valid_if valid_ret' simp: ctx_ok_def)
next
  case False
  then show ?thesis by (simp add: jit_prepare_function_def valid_def fail_apply)
qed

section \<open>The invariant of a translation\<close>

text \<open>
  \<open>inst_ok E n k D T\<close>: there are \<open>n\<close> labels and \<open>k\<close> locals, a label that has been branched to has a
  value and a phi for every local, the functions in \<open>D\<close> are prepared, and the labels at the
  positions in \<open>T\<close> have been branched to.
\<close>

definition label_ok :: "nat \<Rightarrow> jit_label \<Rightarrow> bool" where
  "label_ok k l \<longleftrightarrow> (case lb_locals_values l of None \<Rightarrow> True
     | Some vs \<Rightarrow> length vs = k \<and> length (lb_locals_phis l) = k)"

definition inst_ok :: "jit_env \<Rightarrow> nat \<Rightarrow> nat \<Rightarrow> u32 set \<Rightarrow> nat set \<Rightarrow> jit_inst \<Rightarrow> bool" where
  "inst_ok E n k D T s \<longleftrightarrow> ctx_ok E s \<and> past (fn_code s) \<noteq> [] \<and>
     length (fn_labels s) = n \<and> length (fn_locals s) = k \<and> list_all (label_ok k) (fn_labels s) \<and>
     (\<forall>i \<in> D. unat i < total_funcs (env_module E) \<and> jf_inited (jc_functions s ! unat i)) \<and>
     (\<forall>t \<in> T. t < n \<and> lb_locals_values (fn_labels s ! t) \<noteq> None)"

text \<open>What an operation on the context leaves alone.\<close>

definition ctx_frame :: "jit_inst \<Rightarrow> jit_inst \<Rightarrow> bool" where
  "ctx_frame s s' \<longleftrightarrow> fn_code s' = fn_code s \<and> fn_labels s' = fn_labels s \<and> fn_locals s' = fn_locals s \<and>
     length (jc_functions s') = length (jc_functions s) \<and>
     (\<forall>i < length (jc_functions s). jf_inited (jc_functions s ! i) \<longrightarrow> jf_inited (jc_functions s' ! i))"

interpretation frame_order: run_preorder ctx_frame
  by unfold_locales (auto simp: ctx_frame_def)

lemma set_function_frame:
  "(\<And>x. jf_inited x \<Longrightarrow> jf_inited (f x)) \<Longrightarrow> along ctx_frame (set_function i f)"
  by (rule alongI) (auto simp: set_function_def run ctx_frame_def nth_list_update)

interpretation frame: ctx_preorder ctx_frame
proof unfold_locales
  show emits: "along ctx_frame (emit c)" for c
    unfolding emit_def by (rule frame_order.along_modify) (simp add: ctx_frame_def)
  have replies: "along ctx_frame (reply f c)" for f :: "spidir_call list \<Rightarrow> 'z" and c
    unfolding reply_def by (intro along emits)
  have types: "along ctx_frame (jit_get_spidir_value_type t)" for t
    by (cases t) (simp_all add: along)
  have sets: "along ctx_frame (set_function i (\<lambda>x. x\<lparr>jf_inited := True\<rparr>))"
    "along ctx_frame (set_function i (\<lambda>x. x\<lparr>jf_spidir := r\<rparr>))"
    "along ctx_frame (set_function i (\<lambda>x. x\<lparr>jf_spidir := r, jf_address := a\<rparr>))" for i r a
    by (rule set_function_frame, simp)+
  show "along ctx_frame (jit_get_helper E kind)" for E kind
    unfolding jit_get_helper_def
    by (intro along replies frame_order.along_modify; simp add: ctx_frame_def)
  show "along ctx_frame (jit_prepare_function E i)" for E i
    unfolding jit_prepare_function_def prepare_new_function_def spidir_ret_type_def debug_name_def
      declare_import_def declare_function_def calloc_unchecked_def
    by (intro along replies types sets frame_order.along_modify; simp add: ctx_frame_def)
qed

lemma keeps_frame:
  assumes "keeps (ctx_ok E) m" and "along ctx_frame m"
  shows "keeps (inst_ok E n k D T) m"
proof (rule keepsI)
  fix s
  assume s: "inst_ok E n k D T s"
  then show "m s \<noteq> Inl Undefined" using keeps_no_fault [OF assms(1)] by (auto simp: inst_ok_def)
  fix a s'
  assume run: "m s = Inr (a, s')"
  have "ctx_ok E s'" using keeps_post [OF assms(1) _ run] s by (simp add: inst_ok_def)
  moreover have "ctx_frame s s'" using assms(2) run by (rule alongD)
  ultimately show "inst_ok E n k D T s'" using s by (auto simp: inst_ok_def ctx_frame_def ctx_ok_def)
qed

lemma helper_keeps_ctx: "keeps (ctx_ok E) (jit_get_helper E kind)"
  unfolding jit_get_helper_def by (intro keeps keeps_modify) simp_all

lemma context_keeps [keeps]:
  "keeps (inst_ok E n k D T) (emit c)" "keeps (inst_ok E n k D T) (reply f c)"
  "keeps (inst_ok E n k D T) (build E c)" "keeps (inst_ok E n k D T) (create_block E)"
  "keeps (inst_ok E n k D T) (set_block b)" "keeps (inst_ok E n k D T) (build_phi E ty vs)"
  "keeps (inst_ok E n k D T) (jit_get_helper E kind)" "keeps (inst_ok E n k D T) (jit_prepare_function E i)"
proof -
  have "keeps (ctx_ok E) (jit_prepare_function E i)"
    unfolding keeps_def by (rule valid_weaken_post [OF jit_prepare_function_valid]) simp
  then show "keeps (inst_ok E n k D T) (jit_prepare_function E i)" by (rule keeps_frame) (rule along)
  show "keeps (inst_ok E n k D T) (emit c)" "keeps (inst_ok E n k D T) (reply f c)"
    "keeps (inst_ok E n k D T) (build E c)" "keeps (inst_ok E n k D T) (create_block E)"
    "keeps (inst_ok E n k D T) (set_block b)" "keeps (inst_ok E n k D T) (build_phi E ty vs)"
    "keeps (inst_ok E n k D T) (jit_get_helper E kind)"
    by (rule keeps_frame; (intro keeps helper_keeps_ctx along)?;
      simp add: build_def create_block_def set_block_def build_phi_def keeps)+
qed

lemma piece_keeps [keeps]:
  "keeps (inst_ok E n k D T) (jit_emit_trap E)" "keeps (inst_ok E n k D T) (jit_emit_zext64 E v)"
  "keeps (inst_ok E n k D T) (call_helper E kind args)" "keeps (inst_ok E n k D T) (state_slot E off)"
  "keeps (inst_ok E n k D T) (jit_wasm_calculate_addr E a v)" "keeps (inst_ok E n k D T) (mem_pointer E base v)"
  "keeps (inst_ok E n k D T) (emit_srem E ty v w)" "keeps (inst_ok E n k D T) (counter_shift E m bc c)"
  "keeps (inst_ok E n k D T) (fill_phi E ty inputs v)"
  "keeps (inst_ok E n k D T) (atomic_call E a v kind ops)"
  unfolding jit_emit_trap_def jit_emit_zext64_def call_helper_def state_slot_def jit_wasm_calculate_addr_def
    mem_pointer_def emit_srem_def counter_shift_def fill_phi_def atomic_call_def
  by (intro keeps; simp)+

lemma extend_loaded_keeps [keeps]: "keeps (inst_ok E n k D T) (extend_loaded E ty ext v)"
  by (cases ext; simp add: extend_loaded_def keeps)

lemma inst_okD:
  assumes "inst_ok E n k D T s"
  shows "ctx_ok E s" "env_ok E" "past (fn_code s) \<noteq> []" "length (fn_labels s) = n" "length (fn_locals s) = k"
    "t < n \<Longrightarrow> label_ok k (fn_labels s ! t)" "t \<in> T \<Longrightarrow> t < n \<and> lb_locals_values (fn_labels s ! t) \<noteq> None"
    "i \<in> D \<Longrightarrow> unat i < total_funcs (env_module E) \<and> jf_inited (jc_functions s ! unat i)"
    "length (jc_functions s) = total_funcs (env_module E)"
  using assms by (auto simp: inst_ok_def ctx_ok_def list_all_length)

section \<open>Labels and operands\<close>

lemma get_label_at_valid:
  assumes "t < n"
  shows "valid (inst_ok E n k D T) (get_label_at t)
    (\<lambda>l s. (label_ok k l \<and> (t \<in> T \<longrightarrow> lb_locals_values l \<noteq> None)) \<and> inst_ok E n k D T s)"
  using assms unfolding get_label_at_def
  by (auto simp: valid_def gets_bind index_def ret_apply inst_okD)
    (use inst_okD(7) in blast)

lemma get_label_keeps [keeps]:
  "keeps (inst_ok E (Suc n) k D T) get_label" "t < n \<Longrightarrow> keeps (inst_ok E n k D T) (get_label_at t)"
  using get_label_at_valid [of t n E k D T] get_label_at_valid [of 0 "Suc n" E k D T]
  by (auto simp: keeps_def get_label_def get_label_at_def elim: valid_weaken_post)

lemma set_label_at_keeps [keeps]:
  assumes "t < n" and "\<And>l. label_ok k l \<Longrightarrow> label_ok k (f l)"
    and "\<And>l. lb_locals_values l \<noteq> None \<Longrightarrow> lb_locals_values (f l) \<noteq> None"
  shows "keeps (inst_ok E n k D T) (set_label_at t f)"
proof (rule keepsI)
  fix s
  assume s: "inst_ok E n k D T s"
  show "set_label_at t f s \<noteq> Inl Undefined"
    using assms(1) inst_okD(4) [OF s] by (simp add: set_label_at_def gets_bind index_def modify_def)
  fix a s'
  assume "set_label_at t f s = Inr (a, s')"
  then have "s' = s\<lparr>fn_labels := (fn_labels s)[t := f (fn_labels s ! t)]\<rparr>"
    by (simp add: set_label_at_def run)
  then show "inst_ok E n k D T s'"
    using s assms by (auto simp: inst_ok_def ctx_ok_def list_all_length nth_list_update)
qed

end
