(* ===== verification/Jit_Safe.thy ===== *)
theory Jit_Safe
  imports Jit_Invariant
begin

text \<open>
  Memory safety of the translation. For a module the loader accepts, translating its functions
  reads and writes inside the arrays of the context, the labels, the phis and the locals,
  whatever the bodies contain, with one exception: the number of locals is summed up in 32
  bits. \<open>locals_within\<close> is the condition that rules this out, and \<open>locals_overflow_undefined\<close> a
  body that does not meet it.
\<close>

section \<open>Labels, operands and immediates\<close>

lemma set_label_keeps [keeps]:
  assumes "\<And>l. label_ok k l \<Longrightarrow> label_ok k (f l)"
    and "\<And>l. lb_locals_values l \<noteq> None \<Longrightarrow> lb_locals_values (f l) \<noteq> None"
  shows "keeps (inst_ok E (Suc n) k D T) (set_label f)"
  using assms by (intro set_label_at_keeps) simp_all

lemma label_ok_simps [simp]:
  "label_ok k (l\<lparr>lb_stack := st\<rparr>) = label_ok k l"
  "label_ok k (l\<lparr>lb_terminated := b\<rparr>) = label_ok k l"
  "label_ok k (l\<lparr>lb_unreachable_depth := d\<rparr>) = label_ok k l"
  "label_ok k (l\<lparr>lb_block := b'\<rparr>) = label_ok k l"
  "label_ok k (l\<lparr>lb_inputs := m\<rparr>) = label_ok k l"
  "label_ok k (l\<lparr>lb_result_phi := p\<rparr>) = label_ok k l"
  "label_ok k (l\<lparr>lb_result_value := v\<rparr>) = label_ok k l"
  "label_ok k (l\<lparr>lb_loop := b\<rparr>) = label_ok k l"
  by (simp_all add: label_ok_def split: option.split)

lemma operand_keeps [keeps]:
  "keeps (inst_ok E (Suc n) k D T) (jit_push ty v)" "keeps (inst_ok E (Suc n) k D T) jit_pop_any"
  "keeps (inst_ok E (Suc n) k D T) (jit_pop ty)" "keeps (inst_ok E (Suc n) k D T) terminate_label"
  "keeps (inst_ok E (Suc n) k D T) (peek_if E b)" "keeps (inst_ok E (Suc n) k D T) (pop_function_result E)"
  "keeps (inst_ok E (Suc n) k D T) (pop_label_result E l)" "keeps (inst_ok E (Suc n) k D T) (pop_args types)"
  unfolding jit_push_def jit_pop_def jit_pop_any_def terminate_label_def peek_if_def pop_function_result_def
    pop_label_result_def pop_args_def
  by (intro keeps; simp)+

lemma pull_keeps: "reader p \<Longrightarrow> keeps (inst_ok E n k D T) (pull p)"
proof (rule keepsI)
  fix s
  assume p: "reader p" and s: "inst_ok E n k D T s"
  show "pull p s \<noteq> Inl Undefined"
    using reader_fault [OF p] by (auto simp: pull_def on_part_def split: sum.splits)
  fix a s'
  assume "pull p s = Inr (a, s')"
  then obtain b where b: "p (fn_code s) = Inr (a, b)" and s': "s' = s\<lparr>fn_code := b\<rparr>"
    by (auto simp: pull_def on_part_run)
  from p b obtain bs where "step_over bs (fn_code s) b" by (rule reader_consumes)
  then show "inst_ok E n k D T s'" using s s' by (auto simp: inst_ok_def ctx_ok_def step_over_def)
qed

lemmas pulls_keep [keeps] = readers [THEN pull_keeps]

lemma last_byte_keeps [keeps]: "keeps (inst_ok E n k D T) (pull last_byte)"
proof (rule keepsI)
  fix s a s'
  assume s: "inst_ok E n k D T s"
  then obtain x xs where "past (fn_code s) = x # xs" using inst_okD(3) by (metis list.exhaust)
  then have "pull last_byte s = Inr (x, s)"
    by (simp add: pull_def on_part_def last_byte_def gets_bind index_def ret_apply)
  then show "pull last_byte s \<noteq> Inl Undefined" and "pull last_byte s = Inr (a, s') \<Longrightarrow> inst_ok E n k D T s'"
    using s by auto
qed

lemma locals_length: "inst_ok E n k D T s \<Longrightarrow> length (fn_locals s) = k"
  by (rule inst_okD(5))

lemma set_locals_keeps:
  assumes "\<And>vs. length vs = k \<Longrightarrow> length (f vs) = k"
  shows "keeps (inst_ok E n k D T) (modify (\<lambda>s. s\<lparr>fn_locals := f (fn_locals s)\<rparr>))"
  using assms by (intro keeps_modify) (auto simp: inst_ok_def ctx_ok_def)

lemma pulled_keeps [keeps]:
  "keeps (inst_ok E n k D T) pull_target" "keeps (inst_ok E n k D T) jit_wasm_pull_block_type"
  "keeps (inst_ok E n k D T) (pull_ranged ranges)"
  unfolding pull_target_def jit_wasm_pull_block_type_def pull_ranged_def
  by (intro keeps; simp)+

lemma pull_local_valid:
  "valid (inst_ok E n k D T) pull_local (\<lambda>x s. fst x < k \<and> inst_ok E n k D T s)"
  unfolding pull_local_def
proof (rule valid_bind_keeps [OF pull_keeps [OF reader_leb(1)]], rule valid_bind_gets, rule valid_bind_check)
  fix i :: u32 and ls :: "jit_value list"
  assume "unat i < length ls"
  then show "valid (\<lambda>s. inst_ok E n k D T s \<and> fn_locals s = ls) (bind (index ls (unat i)) (\<lambda>l. ret (unat i, l)))
      (\<lambda>x s. fst x < k \<and> inst_ok E n k D T s)"
    by (intro valid_bind_index valid_ret') (auto dest: locals_length)
qed

lemma pull_local_keeps [keeps]: "keeps (inst_ok E n k D T) pull_local"
  unfolding keeps_def by (rule valid_weaken_post [OF pull_local_valid]) simp

lemma set_local_value_keeps:
  assumes "i < k"
  shows "keeps (inst_ok E n k D T) (set_local_value i v)"
  unfolding set_local_value_def
proof (rule keeps_bind_gets, rule keeps_bind_index)
  fix ls
  assume "\<exists>s. inst_ok E n k D T s \<and> fn_locals s = ls"
  then have "length ls = k" by (auto dest: locals_length)
  then show "i < length ls" and "keeps (inst_ok E n k D T) (modify (\<lambda>s. s\<lparr>fn_locals := ls[i := (ls ! i)\<lparr>jv_value := v\<rparr>]\<rparr>))"
    using assms set_locals_keeps [of k "\<lambda>_. ls[i := (ls ! i)\<lparr>jv_value := v\<rparr>]"] by simp_all
qed

lemma local_keeps [keeps]:
  "keeps (inst_ok E (Suc n) k D T) jit_wasm_local_set" "keeps (inst_ok E (Suc n) k D T) jit_wasm_local_tee"
  unfolding jit_wasm_local_set_def jit_wasm_local_tee_def
  by (rule keeps_bind_post [OF pull_local_valid], simp only: split_paired_all prod.case fst_conv,
      intro keeps set_local_value_keeps; assumption)+

lemma pull_target_valid:
  "valid (inst_ok E n k D T) pull_target (\<lambda>t s. t < n \<and> inst_ok E n k D T s)"
  unfolding pull_target_def
  by (rule valid_bind_keeps, intro keeps, rule valid_bind_gets, rule valid_bind_check, rule valid_ret')
    (auto dest: inst_okD(4))

section \<open>Branches\<close>

lemma first_branch_keeps:
  "t < n \<Longrightarrow> keeps (inst_ok E n k D T) (first_branch E t v)"
  unfolding first_branch_def
  by (intro keeps_bind_gets keeps) (auto simp: label_ok_def dest: locals_length split: option.splits)

lemma merge_local_keeps:
  assumes "t < n" and "t \<in> T" and "i < k"
  shows "keeps (inst_ok E n k D T) (merge_local E t i)"
proof -
  have set: "keeps (inst_ok E n k D T) (set_label_at t (\<lambda>l. l\<lparr>lb_locals_phis := (lb_locals_phis l)[i := phi],
      lb_locals_values := map_option (\<lambda>vs. vs[i := v]) (lb_locals_values l)\<rparr>))" for phi v
    using assms(1) by (intro keeps) (auto simp: label_ok_def split: option.splits)
  have arrays: "\<exists>vs. lb_locals_values l = Some vs \<and> i < length vs \<and> i < length (lb_locals_phis l)"
    if "label_ok k l \<and> (t \<in> T \<longrightarrow> lb_locals_values l \<noteq> None)" for l
    using that assms(2,3) by (auto simp: label_ok_def)
  show ?thesis
    unfolding merge_local_def
    apply (rule keeps_bind_gets, rule keeps_bind_index)
     apply (use assms(3) in \<open>auto dest: locals_length\<close>)[1]
    apply (rule keeps_bind_post [OF get_label_at_valid [OF assms(1)]], drule arrays)
    apply (elim exE conjE, simp only: option.case)
    apply (rule keeps_bind_index, assumption)
    apply (intro keeps_if keeps_ret keeps_bind_index keeps_bind context_keeps keeps_prod set piece_keeps; assumption?)
    done
qed

lemma merge_branch_result_keeps:
  "t < n \<Longrightarrow> keeps (inst_ok E n k D T) (merge_branch_result E t v)"
  unfolding merge_branch_result_def by (intro keeps; simp)

lemma later_branch_keeps:
  assumes "t < n" and "t \<in> T"
  shows "keeps (inst_ok E n k D T) (later_branch E t v)"
proof -
  have locals: "keeps (inst_ok E n k D T) (bind (gets (\<lambda>s. length (fn_locals s))) (\<lambda>m.
      bind (for_each [0..<m] (merge_local E t)) (\<lambda>_. bind (merge_branch_result E t v) (\<lambda>_. set_block c))))" for c
    by (rule keeps_bind_gets, intro keeps_bind keeps_for_each merge_local_keeps
        merge_branch_result_keeps context_keeps assms) (auto dest: locals_length)
  show ?thesis
    unfolding later_branch_def by (intro keeps_bind keeps_gets value_type_keeps context_keeps get_label_keeps locals assms)
qed

lemma inst_ok_branched:
  "inst_ok E n k D (insert t T) s \<longleftrightarrow> inst_ok E n k D T s \<and> t < n \<and> lb_locals_values (fn_labels s ! t) \<noteq> None"
  by (auto simp: inst_ok_def)

lemma prepare_branch_keeps:
  assumes "t < n"
  shows "keeps (inst_ok E n k D T) (jit_wasm_prepare_branch E t v)"
proof -
  have first: "keeps (inst_ok E n k D T) (first_branch E t v)" by (rule first_branch_keeps [OF assms])
  have later: "valid (\<lambda>s. inst_ok E n k D T s \<and> fn_labels s ! t = l) (later_branch E t v) (\<lambda>_. inst_ok E n k D T)"
    if "lb_locals_values l \<noteq> None" for l
    using later_branch_keeps [OF assms, of "insert t T" E k D v] that assms
    by (auto simp: keeps_def inst_ok_branched elim!: valid_weaken_pre [THEN valid_weaken_post])
  have choice: "valid (\<lambda>s. inst_ok E n k D T s \<and> fn_labels s ! t = l)
      (if lb_locals_values l = None then first_branch E t v else later_branch E t v) (\<lambda>_. inst_ok E n k D T)" for l
    by (rule valid_if) (use first later in \<open>auto simp: keeps_def elim: valid_weaken_pre\<close>)
  have get: "valid (inst_ok E n k D T) (get_label_at t) (\<lambda>l s. inst_ok E n k D T s \<and> fn_labels s ! t = l)"
    using assms unfolding get_label_at_def
    by (auto simp: valid_def gets_bind index_def ret_apply fail_apply inst_okD(4))
  have count: "keeps (inst_ok E n k D T) (set_label_at t (\<lambda>l. l\<lparr>lb_inputs := lb_inputs l + 1\<rparr>))"
    using assms by (intro keeps) simp_all
  show ?thesis
    unfolding keeps_def jit_wasm_prepare_branch_def
    by (rule valid_bind [OF get], rule valid_bind [OF choice]) (use count in \<open>simp add: keeps_def\<close>)
qed

lemma target_bind:
  assumes "\<And>t. t < n \<Longrightarrow> keeps (inst_ok E n k D T) (f t)"
  shows "keeps (inst_ok E n k D T) (bind pull_target f)"
  by (rule keeps_bind_post [OF pull_target_valid]) (rule assms)

lemma table_targets:
  "valid (inst_ok E n k D T) (repeat_sm c pull_target) (\<lambda>ts s. list_all (\<lambda>t. t < n) ts \<and> inst_ok E n k D T s)"
  by (rule valid_weaken_post [OF valid_repeat [OF pull_target_valid]]) (simp add: list_all_iff)

lemma pull_br_table_valid:
  "valid (inst_ok E n k D T) (pull_br_table E)
    (\<lambda>(table, dflt) s. (list_all (\<lambda>t. t < n) table \<and> dflt < n) \<and> inst_ok E n k D T s)"
  unfolding pull_br_table_def
  by (rule valid_bind_keeps, rule pulls_keep, rule valid_bind_keeps, rule value_type_keeps,
      rule valid_bind [OF table_targets], rule valid_bind [OF valid_frame [OF pull_target_valid]])
    (rule valid_ret', simp)

lemma resolve_target_keeps:
  "t < n \<Longrightarrow> keeps (inst_ok E n k D T) (resolve_target E t b)"
  unfolding resolve_target_def by (intro keeps)

lemma br_table_cases_keeps:
  "list_all (\<lambda>t. t < n) ts \<Longrightarrow> keeps (inst_ok E n k D T) (br_table_cases E idx i ts nxt b)"
proof (induction ts arbitrary: i nxt b)
  case Nil
  show ?case by (simp add: keeps)
next
  case (Cons t ts)
  then show ?case by (simp only: br_table_cases.simps list.pred_inject) (intro keeps resolve_target_keeps; simp)
qed

lemma branch_to_entry_keeps:
  "t < n \<Longrightarrow> keeps (inst_ok E n k D T) (branch_to_table_entry E v t)"
  unfolding branch_to_table_entry_def by (intro keeps prepare_branch_keeps)

lemma branch_keeps [keeps]:
  "keeps (inst_ok E (Suc n) k D T) (jit_wasm_br E)" "keeps (inst_ok E (Suc n) k D T) (jit_wasm_br_if E)"
  "keeps (inst_ok E (Suc n) k D T) (jit_wasm_br_table E)" "keeps (inst_ok E (Suc n) k D T) (jit_wasm_return E)"
proof -
  show "keeps (inst_ok E (Suc n) k D T) (jit_wasm_br E)" "keeps (inst_ok E (Suc n) k D T) (jit_wasm_br_if E)"
    unfolding jit_wasm_br_def jit_wasm_br_if_def by (rule target_bind, intro keeps prepare_branch_keeps; assumption)+
  show "keeps (inst_ok E (Suc n) k D T) (jit_wasm_return E)"
    unfolding jit_wasm_return_def by (intro keeps; simp)
  have dispatch: "keeps (inst_ok E (Suc n) k D T) (br_table_dispatch E idx table dflt)"
    if "list_all (\<lambda>t. t < Suc n) table" "dflt < Suc n" for idx table dflt
    unfolding br_table_dispatch_def
    by (intro keeps_bind context_keeps keeps_prod resolve_target_keeps br_table_cases_keeps that)
  show "keeps (inst_ok E (Suc n) k D T) (jit_wasm_br_table E)"
    unfolding jit_wasm_br_table_def
    apply (rule keeps_bind_post [where Q = "\<lambda>(table, dflt). list_all (\<lambda>t. t < Suc n) table \<and> dflt < Suc n"])
     apply (rule valid_weaken_post [OF pull_br_table_valid], force)
    apply (simp only: split_paired_all prod.case)
    apply (intro keeps_bind operand_keeps keeps_gets keeps_if get_label_keeps keeps_for_each
        branch_to_entry_keeps dispatch keeps_option keeps_ret context_keeps)
             apply (auto simp: list_all_iff)
    done
qed

section \<open>The other handlers\<close>

lemma keeps_from: "(\<And>s. I s \<Longrightarrow> keeps I m) \<Longrightarrow> keeps I m"
  by (auto simp: keeps_def valid_def)

lemma prepared_keeps:
  assumes "keeps (inst_ok E n k (insert i D) T) m"
  shows "keeps (inst_ok E n k D T) (bind (jit_prepare_function E i) (\<lambda>_. m))"
proof -
  have split: "inst_ok E n k (insert i D) T s \<longleftrightarrow> inst_ok E n k D T s \<and>
      unat i < total_funcs (env_module E) \<and> jf_inited (jc_functions s ! unat i)" for s
    by (auto simp: inst_ok_def)
  have "valid (inst_ok E n k D T) (jit_prepare_function E i) (\<lambda>_. inst_ok E n k (insert i D) T)"
  proof (rule validI)
    fix s
    assume s: "inst_ok E n k D T s"
    then show "jit_prepare_function E i s \<noteq> Inl Undefined"
      using keeps_no_fault context_keeps(8) by metis
    fix a s'
    assume run: "jit_prepare_function E i s = Inr (a, s')"
    have "inst_ok E n k D T s'" by (rule keeps_post [OF context_keeps(8) s run])
    moreover have "unat i < total_funcs (env_module E) \<and> jf_inited (jc_functions s' ! unat i)"
      using valid_post [OF jit_prepare_function_valid inst_okD(1) [OF s] run] by simp
    ultimately show "inst_ok E n k (insert i D) T s'" using split by blast
  qed
  moreover have "valid (inst_ok E n k (insert i D) T) m (\<lambda>_. inst_ok E n k D T)"
    using assms unfolding keeps_def by (rule valid_weaken_post) (simp add: split)
  ultimately show ?thesis unfolding keeps_def by (rule valid_bind)
qed

lemma callee_keeps:
  assumes "i \<in> D"
  shows "valid (inst_ok E n k D T) (get_function i)
    (\<lambda>f s. jf_spidir f \<noteq> None \<and> inst_ok E n k D T s)"
  unfolding get_function_def
proof (rule valid_bind_gets, rule validI)
  fix fs s
  assume s: "inst_ok E n k D T s \<and> jc_functions s = fs"
  then have i: "unat i < length fs" "jf_inited (fs ! unat i)"
    using inst_okD(8) [of E n k D T s i] inst_okD(9) [of E n k D T s] assms by auto
  moreover have "list_all function_ok fs" using s inst_okD(1) [of E n k D T s] by (auto simp: ctx_ok_def)
  ultimately have "jf_spidir (fs ! unat i) \<noteq> None" by (auto simp: list_all_length function_ok_def)
  then show "index fs (unat i) s \<noteq> Inl Undefined" and
    "index fs (unat i) s = Inr (a, s') \<Longrightarrow> jf_spidir a \<noteq> None \<and> inst_ok E n k D T s'" for a s'
    using i s by (simp add: index_def ret_apply, simp)
qed

lemma function_type_keeps:
  assumes "i \<in> D" and "\<And>ti. unat ti < length (mod_types (env_module E)) \<Longrightarrow> keeps (inst_ok E n k D T) (f ti)"
  shows "keeps (inst_ok E n k D T) (bind (wasm_get_func_type (env_module E) i) f)"
proof (rule keeps_from)
  fix s
  assume "inst_ok E n k D T s"
  then have "module_ok (env_module E)" "unat i < total_funcs (env_module E)"
    using assms(1) by (auto dest: inst_okD(2,8) simp: env_ok_def)
  then show "keeps (inst_ok E n k D T) (bind (wasm_get_func_type (env_module E) i) f)"
    using assms(2) by (simp add: function_type)
qed

lemma call_keeps [keeps]: "keeps (inst_ok E (Suc n) k D T) (jit_wasm_call E)"
proof -
  have refs: "keeps (inst_ok E (Suc n) k D' T) (funcref_of f)" if "jf_spidir f \<noteq> None" for f D'
    using that by (auto simp: funcref_of_def keeps)
  have result: "keeps (inst_ok E (Suc n) k D' T) (if 0 < length (result_types type) then
      bind (check (length (result_types type) = 1)) (\<lambda>_.
      bind (jit_get_spidir_value_type (hd (result_types type))) (\<lambda>stype. jit_push stype v)) else ret ())" for type v D'
    by (intro keeps)
  show ?thesis
    unfolding jit_wasm_call_def
    by (intro keeps_bind [OF pull_keeps [OF reader_leb(1)]] prepared_keeps function_type_keeps insertI1 keeps_bind_index
        keeps_bind [OF value_type_keeps(6)] keeps_bind [OF context_keeps(3)]
        keeps_bind [OF operand_keeps(8)] keeps_bind_post [OF callee_keeps] keeps_bind [OF refs] result)
qed

definition value_matches :: "spidir_value_type \<Rightarrow> wasm_value \<Rightarrow> bool" where
  "value_matches type v \<longleftrightarrow> type = spidir_type (value_kind v)"

lemma global_constant_keeps:
  "value_matches type v \<Longrightarrow> keeps (inst_ok E n k D T) (global_constant E type v)"
  by (cases v) (simp_all add: value_matches_def global_constant_def keeps)

lemma pull_global_valid:
  "valid (inst_ok E n k D T) (pull_global_index E)
    (\<lambda>(i, g) s. (i < length (mod_globals (env_module E)) \<and> value_matches (jg_type g) (global_value (mod_globals (env_module E) ! i))) \<and>
       inst_ok E n k D T s)"
  unfolding pull_global_index_def
proof (rule valid_bind_keeps [OF pull_keeps [OF reader_leb(1)]], rule valid_bind_check, rule valid_bind_gets)
  fix i gs
  assume i: "unat (i :: u32) < length (mod_globals (env_module E))"
  have g: "unat i < length gs" "value_matches (jg_type (gs ! unat i)) (global_value (mod_globals (env_module E) ! unat i))"
    if "inst_ok E n k D T s \<and> jc_globals s = gs" for s
    using that i inst_okD(1) [of E n k D T s]
    by (auto simp: ctx_ok_def list_all2_conv_all_nth global_matches_def value_matches_def)
  show "valid (\<lambda>s. inst_ok E n k D T s \<and> jc_globals s = gs) (bind (index gs (unat i)) (\<lambda>g. ret (unat i, g)))
      (\<lambda>(i, g) s. (i < length (mod_globals (env_module E)) \<and> value_matches (jg_type g) (global_value (mod_globals (env_module E) ! i))) \<and>
         inst_ok E n k D T s)"
    by (rule valid_bind_index, erule g(1), rule valid_ret') (simp add: g i)
qed

lemma passive_data_keeps [keeps]: "keeps (inst_ok E n k D T) (passive_data E i)"
  unfolding passive_data_def
  by (intro keeps_bind_check keeps_bind_gets keeps_bind_index keeps)
    (auto dest: inst_okD(1) simp: ctx_ok_def)

lemma set_table_used_keeps [keeps]:
  assumes "i < length (mod_tables (env_module E))"
  shows "keeps (inst_ok E n k D T) (set_table_used i)"
  unfolding set_table_used_def
proof (rule keeps_bind_gets, rule keeps_bind_index)
  fix ts
  assume "\<exists>s. inst_ok E n k D T s \<and> jc_tables s = ts"
  then have len: "length ts = length (mod_tables (env_module E))" by (auto dest: inst_okD(1) simp: ctx_ok_def)
  then show "i < length ts" using assms by simp
  show "keeps (inst_ok E n k D T) (modify (\<lambda>s. s\<lparr>jc_tables := ts[i := (ts ! i)\<lparr>jt_used := True\<rparr>]\<rparr>))"
    using len by (intro keeps_modify) (simp add: inst_ok_def ctx_ok_def)
qed

lemma call_indirect_keeps [keeps]: "keeps (inst_ok E (Suc n) k D T) (jit_wasm_call_indirect E)"
  unfolding jit_wasm_call_indirect_def call_indirect_target_def Let_def
  by (intro keeps_bind [OF pull_keeps [OF reader_leb(1)]] keeps_bind_check keeps_bind_gets keeps_bind_index)
    (auto dest: inst_okD(1) simp: ctx_ok_def intro!: keeps)

lemma memory_keeps [keeps]:
  "keeps (inst_ok E (Suc n) k D T) (jit_wasm_unreachable E)" "keeps (inst_ok E (Suc n) k D T) jit_wasm_nop"
  "keeps (inst_ok E (Suc n) k D T) jit_wasm_drop" "keeps (inst_ok E (Suc n) k D T) (jit_wasm_select E)"
  "keeps (inst_ok E (Suc n) k D T) (jit_wasm_local_get E)" "keeps (inst_ok E (Suc n) k D T) (jit_wasm_load E)"
  "keeps (inst_ok E (Suc n) k D T) (jit_wasm_store E)" "keeps (inst_ok E (Suc n) k D T) (jit_wasm_memory_size E)"
  "keeps (inst_ok E (Suc n) k D T) (jit_wasm_memory_grow E)"
  "keeps (inst_ok E (Suc n) k D T) (jit_wasm_data_drop E)" "keeps (inst_ok E (Suc n) k D T) (jit_wasm_memory_copy E)"
  "keeps (inst_ok E (Suc n) k D T) (jit_wasm_memory_fill E)" "keeps (inst_ok E (Suc n) k D T) (jit_wasm_atomic_prefix E)"
  unfolding jit_wasm_unreachable_def jit_wasm_nop_def jit_wasm_drop_def jit_wasm_select_def
    jit_wasm_local_get_def jit_wasm_load_def jit_wasm_store_def
    jit_wasm_memory_size_def jit_wasm_memory_grow_def jit_wasm_data_drop_def
    jit_wasm_memory_copy_def jit_wasm_memory_fill_def jit_wasm_atomic_prefix_def jit_wasm_atomic_notify_def
    jit_wasm_atomic_wait_def jit_wasm_atomic_load_def jit_wasm_atomic_store_def jit_wasm_atomic_rmw_binop_def
    jit_wasm_atomic_rmw_cmpexchg_def
  by (intro keeps; simp)+

lemma memory_init_keeps [keeps]: "keeps (inst_ok E (Suc n) k D T) (jit_wasm_memory_init E)"
proof -
  have data: "valid (inst_ok E (Suc n) k D T) (passive_data E i) (\<lambda>_ s. unat i < length (mod_data (env_module E)) \<and> inst_ok E (Suc n) k D T s)" for i
    unfolding passive_data_def
  proof (rule valid_bind_check)
    assume i: "unat i < length (mod_data (env_module E))"
    have "keeps (inst_ok E (Suc n) k D T) (bind (gets jc_data) (\<lambda>ds. bind (index ds (unat i)) (\<lambda>d.
        bind (check (jd_offset d \<noteq> - 1)) (\<lambda>_. ret (jd_offset d)))))"
      using i by (intro keeps_bind_check keeps_bind_gets keeps_bind_index keeps) (auto dest: inst_okD(1) simp: ctx_ok_def)
    then show "valid (inst_ok E (Suc n) k D T) (bind (gets jc_data) (\<lambda>ds. bind (index ds (unat i)) (\<lambda>d.
        bind (check (jd_offset d \<noteq> - 1)) (\<lambda>_. ret (jd_offset d)))))
      (\<lambda>_ s. unat i < length (mod_data (env_module E)) \<and> inst_ok E (Suc n) k D T s)"
      using i by (simp add: keeps_def)
  qed
  show ?thesis
    unfolding jit_wasm_memory_init_def
    by (rule keeps_bind, rule pull_keeps [OF reader_leb(1)], rule keeps_bind, rule keeps, rule keeps_bind_post [OF data],
        intro keeps keeps_bind_index; simp)
qed

lemma global_keeps [keeps]:
  "keeps (inst_ok E (Suc n) k D T) (jit_wasm_global_get E)" "keeps (inst_ok E (Suc n) k D T) (jit_wasm_global_set E)"
  unfolding jit_wasm_global_get_def jit_wasm_global_set_def
  by (rule keeps_bind_post [where Q = "\<lambda>(i, g). i < length (mod_globals (env_module E)) \<and>
        value_matches (jg_type g) (global_value (mod_globals (env_module E) ! i))"],
      rule valid_weaken_post [OF pull_global_valid], force, simp only: split_paired_all prod.case, elim conjE,
      intro keeps keeps_bind_index global_constant_keeps; assumption)+

lemma numeric_keeps [keeps]:
  "keeps (inst_ok E (Suc n) k D T) (jit_wasm_i32_const E)" "keeps (inst_ok E (Suc n) k D T) (jit_wasm_i64_const E)"
  "keeps (inst_ok E (Suc n) k D T) (jit_wasm_f32_const E)" "keeps (inst_ok E (Suc n) k D T) (jit_wasm_f64_const E)"
  "keeps (inst_ok E (Suc n) k D T) (jit_wasm_cmpi E)" "keeps (inst_ok E (Suc n) k D T) (jit_wasm_cmpf E)"
  "keeps (inst_ok E (Suc n) k D T) (jit_wasm_iconv E)" "keeps (inst_ok E (Suc n) k D T) (jit_wasm_trunc_sat E)"
  "keeps (inst_ok E (Suc n) k D T) (jit_wasm_itof E)" "keeps (inst_ok E (Suc n) k D T) (jit_wasm_fconv E)"
  "keeps (inst_ok E (Suc n) k D T) (jit_wasm_bitcast E)" "keeps (inst_ok E (Suc n) k D T) (jit_wasm_shift E)"
  "keeps (inst_ok E (Suc n) k D T) (jit_wasm_unaryopf E)" "keeps (inst_ok E (Suc n) k D T) (jit_wasm_binopf E)"
  "keeps (inst_ok E (Suc n) k D T) (jit_wasm_unaryopi E)" "keeps (inst_ok E (Suc n) k D T) (jit_wasm_binopi E)"
  unfolding jit_wasm_i32_const_def jit_wasm_i64_const_def jit_wasm_f32_const_def jit_wasm_f64_const_def
    jit_wasm_cmpi_def jit_wasm_cmpf_def jit_wasm_iconv_def jit_wasm_trunc_sat_def jit_wasm_itof_def
    jit_wasm_fconv_def jit_wasm_bitcast_def jit_wasm_shift_def jit_wasm_unaryopf_def jit_wasm_binopf_def
    jit_wasm_unaryopi_def jit_wasm_binopi_def
  by (intro keeps; simp)+

lemma fc_keeps [keeps]: "keeps (inst_ok E (Suc n) k D T) (jit_wasm_fc_prefix E)"
  unfolding jit_wasm_fc_prefix_def by (intro keeps; simp)

section \<open>Opening and closing labels\<close>

lemma push_label_valid:
  "label_ok k l \<Longrightarrow> valid (inst_ok E n k D {}) (push_label l) (\<lambda>_. inst_ok E (Suc n) k D {})"
  unfolding push_label_def by (rule valid_modify') (auto simp: inst_ok_def ctx_ok_def)

lemma new_label_ok [simp]: "label_ok k (new_label type)"
  by (simp add: label_ok_def new_label_def)

lemma loop_phi_keeps:
  assumes "i < k"
  shows "keeps (inst_ok E (Suc n) k D {}) (loop_phi E i)"
  unfolding loop_phi_def
proof (rule keeps_bind_gets, rule keeps_bind_index)
  fix ls
  assume "\<exists>s. inst_ok E (Suc n) k D {} s \<and> fn_locals s = ls"
  then show "i < length ls" using assms by (auto dest: locals_length)
qed (intro keeps_bind keeps_prod context_keeps set_label_keeps set_locals_keeps;
    auto simp: label_ok_def split: option.splits)

lemma open_label_valid:
  "valid (inst_ok E (Suc n) k D {}) (jit_wasm_block E) (\<lambda>_. inst_ok E (Suc (Suc n)) k D {})"
  "valid (inst_ok E (Suc n) k D {}) (jit_wasm_loop E) (\<lambda>_. inst_ok E (Suc (Suc n)) k D {})"
proof -
  have new: "valid (inst_ok E (Suc n) k D {}) (bind jit_wasm_pull_block_type (\<lambda>type. bind (push_label (new_label type)) (\<lambda>_. m type)))
      (\<lambda>_. inst_ok E (Suc (Suc n)) k D {})"
    if "\<And>type. keeps (inst_ok E (Suc (Suc n)) k D {}) (m type)" for m :: "spidir_value_type \<Rightarrow> unit inst_op"
    by (rule valid_bind_keeps, intro keeps, rule valid_bind [OF push_label_valid])
      (use that in \<open>simp_all add: keeps_def\<close>)
  show "valid (inst_ok E (Suc n) k D {}) (jit_wasm_block E) (\<lambda>_. inst_ok E (Suc (Suc n)) k D {})"
    unfolding jit_wasm_block_def by (rule new) (intro keeps; simp)
  have arrays: "keeps (inst_ok E (Suc (Suc n)) k D {}) (bind (gets (\<lambda>s. length (fn_locals s))) (\<lambda>n.
      bind (CALLOC (env_host E) 4 n) (\<lambda>_. bind (CALLOC (env_host E) 4 n) (\<lambda>_.
      bind (set_label (\<lambda>l. l\<lparr>lb_locals_values := Some (replicate n (invalid E)),
        lb_locals_phis := replicate n 0\<rparr>)) (\<lambda>_. for_each [0..<n] (loop_phi E))))))"
    by (rule keeps_bind_gets, intro keeps_bind value_type_keeps set_label_keeps keeps_for_each loop_phi_keeps)
      (auto simp: label_ok_def dest: locals_length)
  show "valid (inst_ok E (Suc n) k D {}) (jit_wasm_loop E) (\<lambda>_. inst_ok E (Suc (Suc n)) k D {})"
    unfolding jit_wasm_loop_def
    by (rule new, intro keeps_bind context_keeps set_label_keeps arrays) simp_all
qed

lemma take_local_keeps: "i < length vs \<Longrightarrow> i < k \<Longrightarrow> keeps (inst_ok E n k D T) (take_local vs i)"
  unfolding take_local_def by (intro keeps_bind_index set_local_value_keeps) simp_all

lemma end_block_keeps:
  "keeps (inst_ok E (Suc n) k D {}) (end_block E l)"
proof -
  have merged: "keeps (inst_ok E (Suc n) k D {}) (case lb_locals_values l' of
       None \<Rightarrow> bind (set_block (lb_block l')) (\<lambda>_. bind (emit Build_unreachable) (\<lambda>_. ret (None, True)))
     | Some vs \<Rightarrow> bind (gets (\<lambda>s. length (fn_locals s))) (\<lambda>n. bind (for_each [0..<n] (take_local vs)) (\<lambda>_.
         bind (set_block (lb_block l')) (\<lambda>_. ret (if lb_result_type l' \<noteq> SPIDIR_TYPE_NONE
           then Some (lb_result_type l', lb_result_value l') else None, False)))))"
    if "label_ok k l'" for l'
    by (intro keeps_option keeps_bind_gets keeps_bind keeps_ret context_keeps keeps_for_each take_local_keeps)
      (use that in \<open>auto simp: label_ok_def dest: locals_length\<close>)
  have label: "valid (inst_ok E (Suc n) k D {}) get_label (\<lambda>l s. label_ok k l \<and> inst_ok E (Suc n) k D {} s)"
    using get_label_at_valid [of 0 "Suc n" E k D "{}"] by (simp add: get_label_def get_label_at_def)
  show ?thesis
    unfolding end_block_def
    by (rule keeps_bind, intro keeps prepare_branch_keeps, simp_all, rule keeps_bind_post [OF label], erule merged)
qed

lemma inst_ok_pop:
  "inst_ok E (Suc n) k D {} s \<Longrightarrow> inst_ok E n k D {} (s\<lparr>fn_labels := tl (fn_labels s)\<rparr>)"
  by (cases "fn_labels s") (auto simp: inst_ok_def ctx_ok_def)

lemma close_label_valid:
  "valid (inst_ok E (Suc n) k D {}) (close_label e) (\<lambda>_. inst_ok E n k D {})"
proof -
  have outer: "keeps (inst_ok E n k D {}) (bind (case r of None \<Rightarrow> ret ()
        | Some (type, v) \<Rightarrow> bind (check (ls \<noteq> [])) (\<lambda>_. jit_push type v)) (\<lambda>_.
      if p then bind (check (ls \<noteq> [])) (\<lambda>_. terminate_label) else ret ()))"
    if "length ls = n" for r p and ls :: "jit_label list"
  proof (cases n)
    case 0
    then show ?thesis using that by (intro keeps_bind keeps_option keeps_prod keeps_if keeps_bind_check keeps_ret) auto
  next
    case (Suc m)
    show ?thesis unfolding Suc by (intro keeps)
  qed
  have rest: "valid (inst_ok E (Suc n) k D {}) (bind (modify (\<lambda>s. s\<lparr>fn_labels := tl (fn_labels s)\<rparr>)) (\<lambda>_.
      bind (gets fn_labels) (\<lambda>ls. bind (case r of None \<Rightarrow> ret ()
        | Some (type, v) \<Rightarrow> bind (check (ls \<noteq> [])) (\<lambda>_. jit_push type v)) (\<lambda>_.
      if p then bind (check (ls \<noteq> [])) (\<lambda>_. terminate_label) else ret ())))) (\<lambda>_. inst_ok E n k D {})" for r p
  proof (rule valid_bind)
    show "valid (inst_ok E (Suc n) k D {}) (modify (\<lambda>s. s\<lparr>fn_labels := tl (fn_labels s)\<rparr>)) (\<lambda>_. inst_ok E n k D {})"
      by (rule valid_modify') (rule inst_ok_pop)
    show "valid (inst_ok E n k D {}) (bind (gets fn_labels) (\<lambda>ls. bind (case r of None \<Rightarrow> ret ()
        | Some (type, v) \<Rightarrow> bind (check (ls \<noteq> [])) (\<lambda>_. jit_push type v)) (\<lambda>_.
      if p then bind (check (ls \<noteq> [])) (\<lambda>_. terminate_label) else ret ()))) (\<lambda>_. inst_ok E n k D {})" for u :: unit
      using keeps_bind_gets [where I = "inst_ok E n k D {}", OF outer] by (fastforce simp: keeps_def dest: inst_okD(4))
  qed
  show ?thesis
    unfolding close_label_def
    by (cases e, simp only: prod.case) (intro valid_bind_keeps [OF get_label_keeps(1)] valid_bind_check rest)
qed

lemma end_valid:
  "valid (inst_ok E (Suc n) k D {}) (jit_wasm_end E) (\<lambda>_. inst_ok E n k D {})"
  unfolding jit_wasm_end_def end_function_def end_loop_def
  by (intro valid_bind_keeps [OF get_label_keeps(1)] valid_bind_keeps [OF keeps_gets]
      valid_bind_keeps [OF _ close_label_valid] keeps end_block_keeps)

section \<open>A whole body\<close>

text \<open>The invariant at the start of an opcode: the locals are \<open>k\<close>, the labels any number.\<close>

definition inst_safe :: "jit_env \<Rightarrow> nat \<Rightarrow> jit_inst \<Rightarrow> bool" where
  "inst_safe E k s \<longleftrightarrow> inst_ok E (length (fn_labels s)) k {} {} s"

lemma inst_okE_safe: "inst_ok E n k {} {} s \<Longrightarrow> inst_safe E k s"
  using inst_okD(4) [of E n k "{}" "{}" s] by (simp add: inst_safe_def)

lemma dispatch_valid:
  "valid (inst_ok E (Suc n) k {} {}) (jit_dispatch E opcode) (\<lambda>_. inst_safe E k)"
  "valid (inst_ok E (Suc n) k {} {}) (jit_skip_unreachable E opcode) (\<lambda>_. inst_safe E k)"
proof -
  have kept: "valid (inst_ok E (Suc n) k {} {}) m (\<lambda>_. inst_safe E k)" if "keeps (inst_ok E (Suc n) k {} {}) m" for m :: "unit inst_op"
    using that unfolding keeps_def by (rule valid_weaken_post) (rule inst_okE_safe)
  have moved: "valid (inst_ok E (Suc n) k {} {}) (jit_wasm_block E) (\<lambda>_. inst_safe E k)"
    "valid (inst_ok E (Suc n) k {} {}) (jit_wasm_loop E) (\<lambda>_. inst_safe E k)"
    "valid (inst_ok E (Suc n) k {} {}) (jit_wasm_end E) (\<lambda>_. inst_safe E k)"
    by (rule valid_weaken_post, rule open_label_valid end_valid, erule inst_okE_safe)+
  show "valid (inst_ok E (Suc n) k {} {}) (jit_dispatch E opcode) (\<lambda>_. inst_safe E k)"
    unfolding jit_dispatch_def
    by (intro valid_if moved kept [OF branch_keeps(1)] kept [OF branch_keeps(2)] kept [OF branch_keeps(3)]
        kept [OF branch_keeps(4)] kept [OF call_keeps] kept [OF call_indirect_keeps]
        memory_keeps [THEN kept] local_keeps [THEN kept] global_keeps [THEN kept] numeric_keeps [THEN kept] fc_keeps [THEN kept] valid_fail')
      simp
  have depth: "keeps (inst_ok E (Suc n) k {} {}) (set_label (\<lambda>l. l\<lparr>lb_unreachable_depth := f l\<rparr>))" for f
    by (intro keeps) simp_all
  show "valid (inst_ok E (Suc n) k {} {}) (jit_skip_unreachable E opcode) (\<lambda>_. inst_safe E k)"
    unfolding jit_skip_unreachable_def
    by (intro valid_if valid_bind_keeps [OF pulled_keeps(2)] valid_bind_keeps [OF get_label_keeps(1)]
        kept [OF depth] moved kept [OF pull_keeps [OF skip_immediates_reader]])
qed

lemma opcode_valid:
  "valid (inst_ok E (Suc n) k {} {}) (jit_wasm_opcode E) (\<lambda>_. inst_safe E k)"
  unfolding jit_wasm_opcode_def
  by (intro valid_bind_keeps [OF pull_keeps [OF reader_pull_u8]] valid_bind_keeps [OF get_label_keeps(1)]
      valid_if dispatch_valid)

lemma translate_body_safe:
  "inst_safe E k s \<Longrightarrow> translate_body E s \<noteq> Inl Undefined"
  "inst_safe E k s \<Longrightarrow> translate_body E s = Inr (u, s') \<Longrightarrow> inst_safe E k s'"
proof (induction E s rule: translate_body.induct)
  case (1 E s)
  have step: "fn_labels s \<noteq> [] \<Longrightarrow> jit_wasm_opcode E s \<noteq> Inl Undefined"
    "fn_labels s \<noteq> [] \<Longrightarrow> jit_wasm_opcode E s = Inr (v, t) \<Longrightarrow> inst_safe E k t" if "inst_safe E k s" for v t
    using that valid_no_fault [OF opcode_valid] valid_post [OF opcode_valid]
    by (cases "fn_labels s"; fastforce simp: inst_safe_def)+
  { case 1
    then show ?case using step "1.IH"(1) by (subst translate_body.simps) (auto split: sum.splits)
  next
    case 2
    then show ?case using step "1.IH"(2) by (auto simp: translate_body.simps [of E s] split: sum.splits if_splits) }
qed

end
