(* ===== verification/Jit_Worklist.thy ===== *)
theory Jit_Worklist
  imports Jit_Driver
begin

text \<open>
  The worklist of src/jit/jit.c ends. A function enters the queue when it is prepared, which happens
  once for each function, so the number of functions not yet prepared plus the length of the queue
  never grows, whatever the bodies contain, and falls with every turn of the loop.
\<close>

section \<open>What a whole module respects\<close>

text \<open>
  The locale carries the rules for instructions over to functions and the module. A preorder is
  needed for each of the three states: the context, the declaration of the locals and the body.
\<close>

locale module_preorder = ctx_preorder R + loc: ctx_preorder S + ins: inst_preorder I
  for R :: "jit_context \<Rightarrow> jit_context \<Rightarrow> bool" and S :: "jit_setup \<Rightarrow> jit_setup \<Rightarrow> bool"
    and I :: "jit_inst \<Rightarrow> jit_inst \<Rightarrow> bool" +
  assumes setup_state: "S s (s\<lparr>su_code := b\<rparr>)" "S s (s\<lparr>su_locals := v\<rparr>)"
    and function_state: "S (start_setup b c) d \<Longrightarrow> I (start_inst r d) e \<Longrightarrow> R c (jit_context.truncate e)"
    and marks: "(\<And>x. jf_inited (f x) = jf_inited x \<and> jf_spidir (f x) = jf_spidir x) \<Longrightarrow> along R (set_function i f)"
    and tables: "R c (c\<lparr>jc_tables := ts\<rparr>)"
begin

lemma setup_along: "along S (setup_locals E type)"
proof -
  have code: "along S (on_code p)" for p :: "'z parser"
    by (rule alongI) (auto simp: on_code_def on_part_run setup_state)
  have vecs: "along S (on_locals p)" for p :: "(jit_value vec, 'z) sm"
    by (rule alongI) (auto simp: on_locals_def on_part_run setup_state)
  have args: "along S (setup_args E type)"
    unfolding setup_args_def setup_arg_def Let_def by (intro along vecs)
  have results: "along S (case result_types type of [] \<Rightarrow> ret SPIDIR_TYPE_NONE
      | t # _ \<Rightarrow> jit_get_spidir_value_type t)"
    by (cases "result_types type") (simp_all add: along)
  show ?thesis
    unfolding setup_locals_def setup_local_group_def setup_local_def
    by (intro along code vecs args results)
qed

lemma translate_body_along: "translate_body E s = Inr (u, s') \<Longrightarrow> I s s'"
proof (induction E s rule: translate_body.induct)
  case (1 E s)
  show ?case
  proof (cases "rest (fn_code s) = []")
    case True
    then show ?thesis using "1.prems" ins.refl by (simp add: translate_body.simps [of E s])
  next
    case False
    with "1.prems" obtain v t where step: "fn_labels s \<noteq> []" "jit_wasm_opcode E s = Inr (v, t)"
      and rest: "translate_body E t = Inr (u, s')"
      by (auto simp: translate_body.simps [of E s] split: if_splits sum.splits)
    have "I s t" by (rule alongD [OF ins.opcode_along step(2)])
    moreover have "I t s'" using "1.IH" [OF False step] rest by simp
    ultimately show ?thesis by (rule ins.trans)
  qed
qed

lemma translate_function_along: "along I (translate_function E)"
proof -
  have bodies: "along I (translate_body E)" by (rule alongI) (rule translate_body_along)
  have "along I (entry_block E)" unfolding entry_block_def by (intro along)
  then show ?thesis unfolding translate_function_def by (intro along bodies)
qed

lemma run_function_along: "along R (run_function E type code)"
proof (rule alongI)
  fix s u s'
  assume "run_function E type code s = Inr (u, s')"
  then obtain r s1 s2 where 1: "setup_locals E type (start_setup (init_buffer code) s) = Inr (r, s1)"
    and 2: "translate_function E (start_inst r s1) = Inr ((), s2)" and 3: "s' = jit_context.truncate s2"
    by (auto simp: run_function_def split: sum.splits)
  show "R s s'"
    unfolding 3 by (rule function_state [OF alongD [OF setup_along 1] alongD [OF translate_function_along 2]])
qed

lemma build_function_along: "along R (jit_build_function E i)"
proof -
  have "along R (case mod_code m of None \<Rightarrow> fail Undefined | Some code \<Rightarrow> index code f)" for m f
    by (intro along)
  then show ?thesis
    unfolding jit_build_function_def Let_def by (intro along run_function_along)
qed

lemma roots_along: "along R (prepare_roots E)"
proof -
  have thunk: "along R (jit_create_cfi_thunk E i)" for i
    unfolding jit_create_cfi_thunk_def by (intro along marks) simp_all
  have "along R (jit_prepare_table E i)" for i
    unfolding jit_prepare_table_def by (intro along along_modify tables)
  moreover have "along R (prepare_elem E e)" "along R (prepare_export E x)" for e x
    unfolding prepare_elem_def prepare_export_def by (intro along thunk)+
  ultimately show ?thesis unfolding prepare_roots_def Let_def by (intro along)
qed

end

section \<open>The measure\<close>

definition waiting :: "'x jit_context_scheme \<Rightarrow> nat" where
  "waiting s = count_list (map jf_inited (jc_functions s)) False + length (jc_queue s)"

definition queue_ok :: "'x jit_context_scheme \<Rightarrow> bool" where
  "queue_ok s \<longleftrightarrow> list_all (\<lambda>i. unat i < length (jc_functions s)) (jc_queue s)"

definition work_le :: "'x jit_context_scheme \<Rightarrow> 'x jit_context_scheme \<Rightarrow> bool" where
  "work_le s s' \<longleftrightarrow> length (jc_functions s') = length (jc_functions s) \<and>
     (queue_ok s \<longrightarrow> queue_ok s') \<and> waiting s' \<le> waiting s"

text \<open>What leaves the measure as it is: the flags and the queue do not change.\<close>

definition quiet :: "'x jit_context_scheme \<Rightarrow> 'x jit_context_scheme \<Rightarrow> bool" where
  "quiet s s' \<longleftrightarrow> map jf_inited (jc_functions s') = map jf_inited (jc_functions s) \<and> jc_queue s' = jc_queue s"

interpretation quiet_order: run_preorder quiet
  by unfold_locales (simp_all add: quiet_def)

interpretation work_order: run_preorder work_le
  by unfold_locales (auto simp: work_le_def)

lemma quiet_length: "quiet s s' \<Longrightarrow> length (jc_functions s') = length (jc_functions s)"
  unfolding quiet_def by (metis length_map)

lemma quiet_work: "quiet s s' \<Longrightarrow> work_le s s'"
  using quiet_length [of s s'] by (simp add: quiet_def work_le_def queue_ok_def waiting_def)

lemma quiet_along: "along quiet m \<Longrightarrow> along work_le m"
  by (auto simp: along_def intro: quiet_work)

lemma quiet_modify: "(\<And>s. jc_functions (f s) = jc_functions s \<and> jc_queue (f s) = jc_queue s) \<Longrightarrow> along quiet (modify f)"
  by (rule quiet_order.along_modify) (simp add: quiet_def)

lemma quiet_set_function: "(\<And>x. jf_inited (f x) = jf_inited x) \<Longrightarrow> along quiet (set_function i f)"
  by (rule alongI) (auto simp: set_function_def run quiet_def map_update list_update_same_conv)

lemma quiet_calls:
  "along quiet (emit c)" "along quiet (reply f c)" "along quiet (jit_get_helper E kind)"
  "along quiet (jit_get_spidir_value_type t)" "along quiet (declare_import E i type c)"
proof -
  show emits: "along quiet (emit c)" for c
    unfolding emit_def by (rule quiet_modify) simp
  show replies: "along quiet (reply f c)" for f :: "spidir_call list \<Rightarrow> 'z" and c
    unfolding reply_def by (intro along emits)
  show "along quiet (jit_get_helper E kind)"
    unfolding jit_get_helper_def by (intro along replies quiet_modify; simp)
  show "along quiet (jit_get_spidir_value_type t)" by (cases t) (simp_all add: along)
  show "along quiet (declare_import E i type c)"
    unfolding declare_import_def by (intro along replies quiet_set_function; simp)
qed

section \<open>Preparing a function\<close>

lemma count_set:
  "i < length bs \<Longrightarrow> \<not> bs ! i \<Longrightarrow> Suc (count_list (bs[i := True]) False) = count_list bs False"
  by (induction bs arbitrary: i) (auto simp: nth_Cons split: nat.splits)

lemma mark_prepared:
  assumes "set_function i (\<lambda>x. x\<lparr>jf_inited := True\<rparr>) s = Inr (u, s')" and "\<not> jf_inited (jc_functions s ! unat i)"
  shows "Suc (waiting s') = waiting s" and "length (jc_functions s') = length (jc_functions s)"
    and "jc_queue s' = jc_queue s"
proof -
  have i: "unat i < length (jc_functions s)" and
    s': "s' = s\<lparr>jc_functions := (jc_functions s)[unat i := (jc_functions s ! unat i)\<lparr>jf_inited := True\<rparr>]\<rparr>"
    using assms(1) by (auto simp: set_function_def run)
  then show "Suc (waiting s') = waiting s"
    using count_set [of "unat i" "map jf_inited (jc_functions s)"] assms(2) by (simp add: waiting_def map_update)
  show "length (jc_functions s') = length (jc_functions s)" "jc_queue s' = jc_queue s" using s' by simp_all
qed

lemma declare_function_queues:
  assumes "declare_function E i c s = Inr (u, s')"
  shows "\<exists>t. quiet s t \<and> s' = t\<lparr>jc_queue := i # jc_queue t\<rparr> \<and> unat i < length (jc_functions s)"
proof -
  from assms obtain f s1 s2 where f: "reply (func_id (env_spidir E)) c s = Inr (f, s1)" and
    set: "set_function i (\<lambda>x. x\<lparr>jf_spidir := Some (Funcref_internal f)\<rparr>) s1 = Inr ((), s2)" and
    s': "s' = s2\<lparr>jc_queue := i # jc_queue s2\<rparr>"
    by (auto simp: declare_function_def bind_run)
  have one: "quiet s s1" by (rule alongD [OF quiet_calls(2) f])
  have "quiet s1 s2" by (rule alongD [OF quiet_set_function set]) simp
  with one have "quiet s s2" by (rule quiet_order.trans)
  moreover have "unat i < length (jc_functions s1)" using set by (auto simp: set_function_def run)
  ultimately show ?thesis using quiet_length [OF one] s' by auto
qed

text \<open>A successful run from \<open>P\<close> ends in \<open>Q\<close>; steps that are quiet are passed over.\<close>

definition leads :: "('s \<Rightarrow> bool) \<Rightarrow> ('s, 'a) sm \<Rightarrow> ('s \<Rightarrow> bool) \<Rightarrow> bool" where
  "leads P m Q \<longleftrightarrow> (\<forall>s a s'. P s \<longrightarrow> m s = Inr (a, s') \<longrightarrow> Q s')"

lemma leads_quiet:
  assumes "along quiet m" and "\<And>a. leads (quiet s) (f a) Q"
  shows "leads (quiet s) (bind m f) Q"
  unfolding leads_def bind_run
proof (intro allI impI, elim exE conjE)
  fix s1 b s' a t
  assume "quiet s s1" and m: "m s1 = Inr (a, t)" and f: "f a t = Inr (b, s')"
  then have "quiet s t" using alongD [OF assms(1) m] quiet_order.trans by blast
  then show "Q s'" using assms(2) f unfolding leads_def by blast
qed

lemma mark_leads:
  assumes "\<not> jf_inited (jc_functions s ! unat i)" and "unat i < length (jc_functions s)"
    and decls: "declaration = (if b then declare_import E i type c else declare_function E i c)"
  shows "leads (quiet s) (bind declaration (\<lambda>_. set_function i (\<lambda>x. x\<lparr>jf_inited := True\<rparr>))) (work_le s)"
  unfolding leads_def bind_run
proof (intro allI impI, elim exE conjE)
  fix s1 u s' v s2
  assume early: "quiet s s1" and decl: "declaration s1 = Inr (v, s2)"
    and mark: "set_function i (\<lambda>x. x\<lparr>jf_inited := True\<rparr>) s2 = Inr (u, s')"
  have flag: "\<not> jf_inited (jc_functions t ! unat i)" if "quiet s t" for t
  proof -
    have "map jf_inited (jc_functions t) ! unat i = map jf_inited (jc_functions s) ! unat i"
      using that by (simp add: quiet_def)
    then show ?thesis using assms(1,2) quiet_length [OF that] by simp
  qed
  show "work_le s s'"
  proof (cases b)
    case True
    then have "quiet s1 s2" using decl alongD [OF quiet_calls(5)] by (simp add: decls)
    then have q: "quiet s s2" using early quiet_order.trans by blast
    then show ?thesis
      using mark_prepared [OF mark flag [OF q]] quiet_work [OF q]
      by (auto simp: work_le_def queue_ok_def)
  next
    case False
    then have "declare_function E i c s1 = Inr (v, s2)" using decl by (simp add: decls)
    from declare_function_queues [OF this] obtain t where t: "quiet s1 t" "s2 = t\<lparr>jc_queue := i # jc_queue t\<rparr>"
      by blast
    then have q: "quiet s t" using early quiet_order.trans by blast
    have "\<not> jf_inited (jc_functions s2 ! unat i)" using flag [OF q] t(2) by simp
    from mark_prepared [OF mark this] show ?thesis
      using quiet_work [OF q] assms(2) t(2) by (auto simp: work_le_def queue_ok_def waiting_def)
  qed
qed

lemma prepare_new_work:
  assumes "prepare_new_function E i s = Inr (u, s')" and "\<not> jf_inited (jc_functions s ! unat i)"
    and "unat i < length (jc_functions s)"
  shows "work_le s s'"
proof -
  have last: "leads (quiet s) (bind (if unat i < length (mod_imports (env_module E))
      then declare_import E i type c else declare_function E i c')
      (\<lambda>_. set_function i (\<lambda>x. x\<lparr>jf_inited := True\<rparr>))) (work_le s)" for type c c'
    using mark_leads [OF assms(2,3), of _ True E type c] mark_leads [OF assms(2,3), of _ False E type c'] by simp
  have parts: "along quiet (spidir_ret_type type)" "along quiet (calloc_unchecked h x y)"
    "along quiet (map_each ts jit_get_spidir_value_type)" "along quiet (debug_name m i)" for type h x y ts m
    unfolding debug_name_def spidir_ret_type_def calloc_unchecked_def by (intro along quiet_calls)+
  have "leads (quiet s) (prepare_new_function E i) (work_le s)"
    unfolding prepare_new_function_def Let_def
    by (rule leads_quiet, rule along, rule leads_quiet, intro along, rule leads_quiet, rule parts,
        rule leads_quiet, rule parts, rule leads_quiet, rule parts, rule leads_quiet, rule parts, rule last)
  then show ?thesis
    using assms(1) by (auto simp: leads_def intro: quiet_order.refl)
qed

lemma prepare_work: "along work_le (jit_prepare_function E i)"
proof (rule alongI)
  fix s u s'
  assume "jit_prepare_function E i s = Inr (u, s')"
  then have "(if jf_inited (jc_functions s ! unat i) then ret () else prepare_new_function E i) s = Inr (u, s')"
    and "unat i < length (jc_functions s)"
    by (auto simp: jit_prepare_function_def bind_run)
  then show "work_le s s'"
    using prepare_new_work [of E i s u s'] work_order.refl [of s] by (auto split: if_splits)
qed

interpretation work: ctx_preorder work_le
  by unfold_locales (rule quiet_along, rule quiet_calls, rule quiet_along, rule quiet_calls, rule prepare_work)

interpretation work_inst: inst_preorder work_le
  by unfold_locales (simp_all add: work_le_def queue_ok_def waiting_def)

text \<open>The measure of a larger state is that of the context in it.\<close>

lemma start_parts [simp]:
  "jc_functions (start_setup b s) = jc_functions s" "jc_queue (start_setup b s) = jc_queue s"
  "jc_trace (start_setup b s) = jc_trace s" "jc_functions (start_inst t st) = jc_functions st"
  "jc_queue (start_inst t st) = jc_queue st" "jc_trace (start_inst t st) = jc_trace st"
  "jc_functions (jit_context.truncate x) = jc_functions x" "jc_queue (jit_context.truncate x) = jc_queue x"
  "jc_trace (jit_context.truncate x) = jc_trace x"
  by (simp_all add: start_setup_def start_inst_def jit_context.defs jit_setup.defs jit_inst.defs)

interpretation work_module: module_preorder work_le work_le work_le
proof unfold_locales
  show "along work_le (set_function i f)" if "\<And>x. jf_inited (f x) = jf_inited x \<and> jf_spidir (f x) = jf_spidir x" for f i
    using that by (intro quiet_along quiet_set_function) simp
qed (auto simp: work_le_def queue_ok_def waiting_def)

lemma jit_function_run_work: "along work_le (jit_function_run E i)"
proof -
  have "along work_le (case r of Funcref_external x \<Rightarrow> fail Check_failed
      | Funcref_internal j \<Rightarrow> bind (emit (Build_function j)) (\<lambda>_. jit_build_function E i))" for r
    by (cases r) (simp_all add: along work_module.build_function_along)
  then show ?thesis unfolding jit_function_run_def by (intro along)
qed

section \<open>The loop\<close>

lemma drain_queue_total:
  assumes "waiting s \<le> fuel"
  shows "drain_queue E fuel s \<noteq> None"
  using assms
proof (induction fuel arbitrary: s)
  case 0
  then have "jc_queue s = []" by (simp add: waiting_def)
  then show ?case by (simp add: drain_queue.simps)
next
  case (Suc fuel)
  show ?case
  proof (cases "jc_queue s")
    case Nil
    then show ?thesis by (simp add: drain_queue.simps)
  next
    case (Cons i queue)
    let ?s = "s\<lparr>jc_queue := queue\<rparr>"
    have less: "Suc (waiting ?s) = waiting s" using Cons by (simp add: waiting_def)
    have "drain_queue E fuel s' \<noteq> None" if "jit_function_run E i ?s = Inr (u, s')" for u s'
      using Suc.IH [of s'] alongD [OF jit_function_run_work that] less Suc.prems by (simp add: work_le_def)
    then show ?thesis using Cons
      by (auto simp: drain_queue.simps [of E "Suc fuel" s] split: sum.splits)
  qed
qed

lemma start_waiting: "waiting (start_context m gs ds) = total_funcs m"
proof -
  have "count_list (replicate n False) False = n" for n by (induction n) simp_all
  then show ?thesis by (simp add: waiting_def start_context_def zero_function_def)
qed

lemma emit_spidir_total: "jit_emit_spidir E (start_context (env_module E) gs ds) \<noteq> None"
proof (cases "prepare_roots E (start_context (env_module E) gs ds)")
  case (Inl e)
  then show ?thesis by (simp add: jit_emit_spidir_def)
next
  case (Inr r)
  then obtain u s where s: "prepare_roots E (start_context (env_module E) gs ds) = Inr (u, s)" by (cases r) simp
  then have "waiting s \<le> total_funcs (env_module E)"
    using alongD [OF work_module.roots_along s] by (simp add: work_le_def start_waiting)
  then show ?thesis using s drain_queue_total by (simp add: jit_emit_spidir_def)
qed

section \<open>Everything declared is built\<close>

text \<open>
  \<open>served s\<close>: every function of the module that has been declared to the library is in the queue
  or has been handed to the library to be built.
\<close>

definition served :: "'x jit_context_scheme \<Rightarrow> bool" where
  "served s \<longleftrightarrow> (\<forall>j f. j < length (jc_functions s) \<longrightarrow> jf_inited (jc_functions s ! j) \<longrightarrow>
     jf_spidir (jc_functions s ! j) = Some (Funcref_internal f) \<longrightarrow>
     j \<in> unat ` set (jc_queue s) \<or> Build_function f \<in> set (jc_trace s))"

definition serves :: "'x jit_context_scheme \<Rightarrow> 'x jit_context_scheme \<Rightarrow> bool" where
  "serves s s' \<longleftrightarrow> (served s \<longrightarrow> served s')"

interpretation serves_order: run_preorder serves
  by unfold_locales (auto simp: serves_def)

lemma serves_modify:
  "(\<And>s. jc_functions (f s) = jc_functions s \<and> jc_queue (f s) = jc_queue s \<and> set (jc_trace s) \<subseteq> set (jc_trace (f s))) \<Longrightarrow>
     along serves (modify f)"
  by (rule serves_order.along_modify) (auto simp: serves_def served_def, blast)

lemma serves_set_function:
  assumes "\<And>x. jf_inited (f x) = jf_inited x \<and> jf_spidir (f x) = jf_spidir x"
  shows "along serves (set_function i f)"
  using assms
  by (intro alongI) (auto simp: set_function_def run serves_def served_def nth_list_update split: if_splits)

text \<open>While a function is being declared, its flag is not set yet.\<close>

definition declaring :: "u32 \<Rightarrow> 'x jit_context_scheme \<Rightarrow> bool" where
  "declaring i s \<longleftrightarrow> served s \<and> unat i < length (jc_functions s) \<and> \<not> jf_inited (jc_functions s ! unat i)"

definition declares :: "u32 \<Rightarrow> 'x jit_context_scheme \<Rightarrow> 'x jit_context_scheme \<Rightarrow> bool" where
  "declares i s s' \<longleftrightarrow> (declaring i s \<longrightarrow> declaring i s')"

interpretation declares_order: run_preorder "declares i"
  for i by unfold_locales (auto simp: declares_def)

lemma leads_bind:
  "leads P m R \<Longrightarrow> (\<And>a. leads R (f a) Q) \<Longrightarrow> leads P (bind m f) Q"
  unfolding leads_def bind_run by blast

lemma leads_declares: "along (declares i) m \<Longrightarrow> leads (declaring i) m (declaring i)"
  by (auto simp: leads_def along_def declares_def)

lemma declares_steps:
  "along (declares i) (emit c)" "along (declares i) (reply g c)" "along (declares i) (jit_get_spidir_value_type t)"
  "(\<And>x. jf_inited (f x) = jf_inited x) \<Longrightarrow> along (declares i) (set_function i f)"
proof -
  show emits: "along (declares i) (emit c)" for c
    unfolding emit_def
    by (rule declares_order.along_modify) (auto simp: declares_def declaring_def served_def)
  show "along (declares i) (reply g c)" unfolding reply_def by (intro along emits)
  show "along (declares i) (jit_get_spidir_value_type t)" by (cases t) (simp_all add: along)
  show "along (declares i) (set_function i f)" if "\<And>x. jf_inited (f x) = jf_inited x"
    using that by (intro alongI)
      (auto simp: set_function_def run declares_def declaring_def served_def nth_list_update split: if_splits)
qed

definition declared_now :: "u32 \<Rightarrow> 'x jit_context_scheme \<Rightarrow> bool" where
  "declared_now i s \<longleftrightarrow> declaring i s \<and>
     (unat i \<in> unat ` set (jc_queue s) \<or> (\<forall>f. jf_spidir (jc_functions s ! unat i) \<noteq> Some (Funcref_internal f)))"

lemma declare_leads:
  "leads (declaring i) (declare_import E i type c) (declared_now i)"
  "leads (declaring i) (declare_function E i c) (declared_now i)"
  "leads (declared_now i) (set_function i (\<lambda>x. x\<lparr>jf_inited := True\<rparr>)) served"
proof -
  have set: "leads (declaring i) (set_function i (\<lambda>x. x\<lparr>jf_spidir := Some (Funcref_external f), jf_address := a\<rparr>)) (declared_now i)" for f a
    unfolding leads_def by (auto simp: set_function_def run declared_now_def declaring_def served_def nth_list_update split: if_splits)
  have pure: "leads (declaring i) m (declaring i)" if "along (declares i) m" for m :: "('x, 'z) ctx_op"
    using that by (rule leads_declares)
  show "leads (declaring i) (declare_import E i type c) (declared_now i)"
    unfolding declare_import_def Let_def by (intro leads_bind [OF leads_declares] set along declares_steps)
  have queue: "leads (declaring i) (modify (\<lambda>s. s\<lparr>jc_queue := i # jc_queue s\<rparr>)) (declared_now i)"
    unfolding leads_def by (auto simp: declared_now_def declaring_def served_def)
  show "leads (declaring i) (declare_function E i c) (declared_now i)"
    unfolding declare_function_def by (intro leads_bind [OF leads_declares] queue declares_steps) simp
  show "leads (declared_now i) (set_function i (\<lambda>x. x\<lparr>jf_inited := True\<rparr>)) served"
    unfolding leads_def
    by (auto simp: set_function_def run declared_now_def declaring_def served_def nth_list_update split: if_splits)
qed

lemma prepare_serves: "along serves (jit_prepare_function E i)"
proof -
  have parts: "along (declares i) (debug_name m i)" "along (declares i) (spidir_ret_type type)"
    "along (declares i) (calloc_unchecked h x y)" "along (declares i) (case f of None \<Rightarrow> fail Check_failed | Some t \<Rightarrow> ret t)"
    "along (declares i) (map_each ts jit_get_spidir_value_type)"
    for m type h x y ts and f :: "wasm_type option"
    unfolding debug_name_def spidir_ret_type_def calloc_unchecked_def by (intro along declares_steps)+
  have either: "leads (declaring i) (if b then declare_import E i type c else declare_function E i c') (declared_now i)" for b type c c'
    by (simp add: declare_leads)
  have new: "leads (declaring i) (prepare_new_function E i) served"
    unfolding prepare_new_function_def Let_def
    by (intro leads_bind [OF leads_declares [OF declares_order.along_lift_res]]
        leads_bind [OF leads_declares [OF parts(1)]] leads_bind [OF leads_declares [OF parts(2)]]
        leads_bind [OF leads_declares [OF parts(3)]] leads_bind [OF leads_declares [OF parts(4)]]
        leads_bind [OF leads_declares [OF parts(5)]] leads_bind [OF either] declare_leads)
  show ?thesis
  proof (rule alongI)
    fix s u s'
    assume "jit_prepare_function E i s = Inr (u, s')"
    then have "(if jf_inited (jc_functions s ! unat i) then ret () else prepare_new_function E i) s = Inr (u, s')"
      and "unat i < length (jc_functions s)"
      by (auto simp: jit_prepare_function_def bind_run)
    then show "serves s s'"
      using new by (auto simp: serves_def leads_def declaring_def split: if_splits)
  qed
qed

lemma serves_calls: "along serves (emit c)" "along serves (jit_get_helper E kind)"
proof -
  show emits: "along serves (emit c)" for c
    unfolding emit_def by (rule serves_modify) auto
  have "along serves (reply g c)" for g :: "spidir_call list \<Rightarrow> 'z" and c
    unfolding reply_def by (intro along emits)
  then show "along serves (jit_get_helper E kind)"
    unfolding jit_get_helper_def by (intro along serves_modify) simp_all
qed

interpretation serves: ctx_preorder serves
  by unfold_locales (rule serves_calls prepare_serves)+

interpretation serves_inst: inst_preorder serves
  by unfold_locales (simp_all add: serves_def served_def)

interpretation serves_module: module_preorder serves serves serves
proof unfold_locales
  show "along serves (set_function i f)" if "\<And>x. jf_inited (f x) = jf_inited x \<and> jf_spidir (f x) = jf_spidir x" for f i
    using that by (rule serves_set_function)
qed (auto simp: serves_def served_def)

text \<open>A turn of the loop takes a function out of the queue and hands it to the library.\<close>

lemma jit_function_run_serves:
  assumes "jit_function_run E i (s\<lparr>jc_queue := queue\<rparr>) = Inr (u, s')" and "served s" and "jc_queue s = i # queue"
  shows "served s'"
proof -
  let ?s = "s\<lparr>jc_queue := queue\<rparr>"
  obtain f where i: "unat i < length (jc_functions s)"
    and f: "jf_spidir (jc_functions s ! unat i) = Some (Funcref_internal f)"
    and build: "jit_build_function E i (?s\<lparr>jc_trace := Build_function f # jc_trace s\<rparr>) = Inr (u, s')"
    using assms(1)
    by (auto simp: jit_function_run_def get_function_def funcref_of_def emit_def run split: option.splits spidir_funcref.splits)
  have "served (?s\<lparr>jc_trace := Build_function f # jc_trace s\<rparr>)"
    using assms(2,3) f by (fastforce simp: served_def)
  moreover have "serves (?s\<lparr>jc_trace := Build_function f # jc_trace s\<rparr>) s'"
    by (rule alongD [OF serves_module.build_function_along build])
  ultimately show ?thesis by (simp add: serves_def)
qed

lemma drain_queue_serves:
  "drain_queue E fuel s = Some (Inr (u, s')) \<Longrightarrow> served s \<Longrightarrow> served s' \<and> jc_queue s' = []"
proof (induction fuel arbitrary: s)
  case 0
  then show ?case by (auto simp: drain_queue.simps split: list.splits)
next
  case (Suc fuel)
  then show ?case
    by (auto simp: drain_queue.simps [of E "Suc fuel" s] split: list.splits sum.splits dest: jit_function_run_serves)
qed

text \<open>
  A module of two functions for the witnesses: the first is exported, has a block with a
  conditional branch and calls the second.
\<close>

definition sample_module :: wasm_module where
  "sample_module = zero_module\<lparr>
     mod_types := [\<lparr>arg_types = [WASM_VALUE_TYPE_I32], result_types = [WASM_VALUE_TYPE_I32]\<rparr>],
     mod_functions := [0, 0],
     mod_exports := [\<lparr>export_name = [0x66], export_kind = WASM_EXPORT_FUNC, export_index = 0\<rparr>],
     mod_code := Some
       [[0x00, 0x02, 0x40, 0x20, 0x00, 0x0D, 0x00, 0x20, 0x00, 0x41, 0x2A, 0x6A, 0x21, 0x00, 0x0B,
         0x20, 0x00, 0x10, 0x01, 0x0B],
        [0x00, 0x20, 0x00, 0x0B]],
     mod_start_func := - 1\<rparr>"

definition sample_env :: jit_env where
  "sample_env = \<lparr>env_spidir = counting_spidir, env_host = roomy_host, env_module = sample_module,
     env_resolve_import = None\<rparr>"

definition finished :: "(unit \<times> jit_context) res option \<Rightarrow> bool" where
  "finished r = (case r of Some (Inr _) \<Rightarrow> True | _ \<Rightarrow> False)"

lemma sample_finishes: "finished (jit_emit_spidir sample_env (start_context sample_module [] []))"
  by code_simp

section \<open>Properties\<close>

text \<open>
  C9: Translating a module ends, whatever its functions contain: the worklist is empty after at
  most as many turns as the module has functions and imports, or an error is reported.
\<close>

theorem translation_terminates:
  "jit_translate_module E data_address \<noteq> None"
  by (auto simp: jit_translate_module_def Let_def emit_spidir_total split: sum.splits option.splits)

text \<open>
  C8: When the loop over the worklist ends without an error, the queue is empty and every function
  of the module that was declared, as an export, through a table, as the start function or
  through a call anywhere, has been handed to the library to be built: no call target is left
  without code.
\<close>

theorem reachable_functions_built:
  assumes "jit_emit_spidir E (start_context (env_module E) gs ds) = Some (Inr (u, s))"
  shows "jc_queue s = [] \<and>
    (\<forall>g \<in> set (jc_functions s). \<forall>f. jf_inited g \<and> jf_spidir g = Some (Funcref_internal f) \<longrightarrow>
      Build_function f \<in> set (jc_trace s))"
proof -
  let ?s = "start_context (env_module E) gs ds"
  obtain s1 where 1: "prepare_roots E ?s = Inr ((), s1)"
    and 2: "drain_queue E (total_funcs (env_module E)) s1 = Some (Inr (u, s))"
    using assms by (auto simp: jit_emit_spidir_def split: sum.splits)
  have "served ?s" by (simp add: served_def start_context_def zero_function_def)
  then have "served s1" using alongD [OF serves_module.roots_along 1] by (simp add: serves_def)
  from drain_queue_serves [OF 2 this] have "served s" "jc_queue s = []" by simp_all
  then show ?thesis by (auto simp: served_def in_set_conv_nth)
qed

theorem reachable_functions_built_witness:
  "\<exists>s. jit_emit_spidir sample_env (start_context sample_module [] []) = Some (Inr ((), s)) \<and> jc_queue s = []"
proof -
  obtain s where s: "jit_emit_spidir sample_env (start_context (env_module sample_env) [] []) = Some (Inr ((), s))"
    using sample_finishes by (auto simp: finished_def sample_env_def split: option.splits sum.splits)
  then show ?thesis using reachable_functions_built [OF s] by (simp add: sample_env_def)
qed

end
