(* ===== verification/Jit_Layout.thy ===== *)
theory Jit_Layout
  imports Jit_Driver
begin

text \<open>
  The layout of the runtime state, src/jit/jit.c: every mutable global and every passive data
  segment gets a slot of its own, aligned to its size and inside the block, and the initial
  contents of the block hold the initial value of each global and the address of each segment.
\<close>

section \<open>Alignment\<close>

lemma unat_align_up_mask:
  assumes "a - 1 = (mask n :: u64)" and "unat (a - 1) = 2 ^ n - 1" and "unat x + 2 ^ n < 2 ^ 64"
  shows "unat (align_up x a) = (unat x + (2 ^ n - 1)) div 2 ^ n * 2 ^ n"
proof -
  let ?y = "x + mask n :: u64"
  have y: "unat ?y = unat x + (2 ^ n - 1)"
    using assms by (simp add: unat_word_ariths)
  have "?y AND NOT (mask n) = ?y AND NOT (take_bit n ?y)"
    by (rule bit_word_eqI) (auto simp: bit_simps)
  also have "\<dots> = ?y - take_bit n ?y"
    by (rule disjunctive_diff_eq_and_not [symmetric]) (rule bit_word_eqI, auto simp: bit_simps)
  finally have "align_up x a = ?y - take_bit n ?y"
    by (simp add: align_up_def assms(1))
  moreover have t: "unat (take_bit n ?y) = unat ?y mod 2 ^ n"
    by (simp only: unsigned_take_bit_eq) (simp only: take_bit_eq_mod)
  ultimately have "unat (align_up x a) = unat ?y - unat ?y mod 2 ^ n"
    using unat_sub [of "take_bit n ?y" ?y] by (simp add: word_le_nat_alt)
  then show ?thesis using minus_mod_eq_div_mult [of "unat ?y" "2 ^ n"] y by simp
qed

lemma unat_align_up:
  assumes "a \<in> {4, 8 :: u64}" and "unat x + 8 < 2 ^ 64"
  shows "unat x \<le> unat (align_up x a)" and "unat (align_up x a) < unat x + unat a" and "unat a dvd unat (align_up x a)"
proof -
  obtain n where n: "a - 1 = mask n" "unat (a - 1) = 2 ^ n - 1" "unat a = 2 ^ n" "(2::nat) ^ n \<le> 8"
  proof (cases "a = 4")
    case True
    show thesis by (rule that [of 2]) (simp_all add: True mask_eq_exp_minus_1)
  next
    case False
    then have "a = 8" using assms(1) by simp
    then show thesis by (intro that [of 3]) (simp_all add: mask_eq_exp_minus_1)
  qed
  have "unat x + 2 ^ n < 2 ^ 64" using assms(2) n(4) by linarith
  note up = unat_align_up_mask [OF n(1,2) this]
  let ?y = "unat x + (2 ^ n - 1)" and ?d = "2 ^ n :: nat"
  have "?y div ?d * ?d + ?y mod ?d = ?y" by (rule div_mult_mod_eq)
  moreover have "?y mod ?d < ?d" by simp
  moreover have "0 < ?d" by simp
  ultimately show "unat x \<le> unat (align_up x a)" "unat (align_up x a) < unat x + unat a"
    unfolding up n(3) by linarith+
  show "unat a dvd unat (align_up x a)" unfolding up n(3) by simp
qed

section \<open>The slots\<close>

text \<open>
  \<open>laid_out lo slots hi\<close>: the slots, pairs of an offset and a width, follow each other between \<open>lo\<close>
  and \<open>hi\<close> without overlap, each aligned to its width.
\<close>

fun laid_out :: "nat \<Rightarrow> (nat \<times> nat) list \<Rightarrow> nat \<Rightarrow> bool" where
  "laid_out lo [] hi \<longleftrightarrow> lo \<le> hi"
| "laid_out lo ((off, w) # slots) hi \<longleftrightarrow> lo \<le> off \<and> w dvd off \<and> laid_out (off + w) slots hi"

lemma laid_out_le: "laid_out lo slots hi \<Longrightarrow> lo \<le> hi"
  by (induction lo slots hi rule: laid_out.induct) auto

lemma laid_out_lower: "laid_out mid slots hi \<Longrightarrow> lo \<le> mid \<Longrightarrow> laid_out lo slots hi"
  by (cases slots) auto

lemma laid_out_append: "laid_out lo xs mid \<Longrightarrow> laid_out mid ys hi \<Longrightarrow> laid_out lo (xs @ ys) hi"
proof (induction lo xs mid rule: laid_out.induct)
  case (1 lo mid)
  then show ?case by (auto intro: laid_out_lower)
qed auto

lemma laid_out_in: "laid_out lo slots hi \<Longrightarrow> (off, w) \<in> set slots \<Longrightarrow> lo \<le> off \<and> off + w \<le> hi \<and> w dvd off"
proof (induction lo slots hi rule: laid_out.induct)
  case (2 lo off' w' slots hi)
  have "off' + w' \<le> hi" using "2.prems"(1) by (auto dest: laid_out_le)
  then show ?case using 2 by auto
qed simp

lemma laid_out_disjoint:
  assumes "laid_out lo slots hi" and "i < j" and "j < length slots"
  shows "fst (slots ! i) + snd (slots ! i) \<le> fst (slots ! j)"
  using assms
proof (induction lo slots hi arbitrary: i j rule: laid_out.induct)
  case (2 lo off w slots hi)
  have "off + w \<le> fst (slots ! k)" if "k < length slots" for k
    using laid_out_in [of "off + w" slots hi "fst (slots ! k)" "snd (slots ! k)"] that "2.prems"(1) by simp
  then show ?case using 2 by (cases i; cases j) auto
qed simp

fun type_width :: "wasm_value_type \<Rightarrow> nat" where
  "type_width WASM_VALUE_TYPE_F64 = 8"
| "type_width WASM_VALUE_TYPE_F32 = 4"
| "type_width WASM_VALUE_TYPE_I64 = 8"
| "type_width WASM_VALUE_TYPE_I32 = 4"
| "type_width WASM_VALUE_TYPE_INVALID = 0"

fun global_slots :: "wasm_global list \<Rightarrow> jit_global list \<Rightarrow> (nat \<times> nat) list" where
  "global_slots (w # ws) (g # gs) =
     (if global_mutable w then [(unat (jg_offset g), type_width (value_kind (global_value w)))] else []) @
     global_slots ws gs"
| "global_slots _ _ = []"

fun data_slots :: "wasm_data list \<Rightarrow> jit_data list \<Rightarrow> (nat \<times> nat) list" where
  "data_slots (d # ds) (s # ss) = (if \<not> data_active d then [(unat (jd_offset s), 8)] else []) @ data_slots ds ss"
| "data_slots _ _ = []"

lemma layout_global_run:
  assumes "layout_global w off = Inr (g, off')" and "unat off + 16 < 2 ^ 64"
  shows "laid_out (unat off) (global_slots [w] [g]) (unat off') \<and> unat off' \<le> unat off + 16 \<and>
    jg_type g = spidir_type (value_kind (global_value w)) \<and> (\<not> global_mutable w \<longrightarrow> jg_offset g = - 1)"
proof (cases "global_mutable w")
  case False
  then show ?thesis using assms(1)
    by (cases "value_kind (global_value w)") (auto simp: layout_global_def run)
next
  case True
  obtain sz where sz: "sz \<in> {4, 8}" "unat sz = type_width (value_kind (global_value w))"
    "g = \<lparr>jg_offset = align_up off sz, jg_type = spidir_type (value_kind (global_value w))\<rparr>"
    "off' = align_up off sz + sz"
    using assms(1) True by (cases "value_kind (global_value w)") (auto simp: layout_global_def run)
  have bound: "unat off + 8 < 2 ^ 64" using assms(2) by simp
  note up = unat_align_up [OF sz(1) bound]
  have "unat sz \<le> 8" using sz(1) by auto
  then have "unat off' = unat (align_up off sz) + unat sz"
    using up(2) assms(2) sz(4) by (simp add: unat_word_ariths)
  then show ?thesis using up sz(2,3) True \<open>unat sz \<le> 8\<close> by simp
qed

lemma layout_data_run:
  assumes "layout_data d off = Inr (s, off')" and "unat off + 16 < 2 ^ 64"
  shows "laid_out (unat off) (data_slots [d] [s]) (unat off') \<and> unat off' \<le> unat off + 16 \<and>
    (data_active d \<longrightarrow> jd_offset s = - 1)"
proof (cases "data_active d")
  case True
  then show ?thesis using assms(1) by (auto simp: layout_data_def run)
next
  case False
  then have s: "s = \<lparr>jd_offset = align_up off 8\<rparr>" "off' = align_up off 8 + 8"
    using assms(1) by (auto simp: layout_data_def run)
  note up = unat_align_up [of 8 off]
  have "unat off' = unat (align_up off 8) + 8"
    using up(2) assms(2) s(2) by (simp add: unat_word_ariths)
  then show ?thesis using up s(1) assms(2) False by simp
qed

lemma layout_globals_run:
  "map_each ws layout_global off = Inr (gs, off') \<Longrightarrow> unat off + 16 * length ws < 2 ^ 64 \<Longrightarrow>
     laid_out (unat off) (global_slots ws gs) (unat off') \<and> unat off' \<le> unat off + 16 * length ws \<and>
     list_all2 (\<lambda>w g. jg_type g = spidir_type (value_kind (global_value w)) \<and> (\<not> global_mutable w \<longrightarrow> jg_offset g = - 1)) ws gs"
proof (induction ws arbitrary: off gs)
  case Nil
  then show ?case by simp
next
  case (Cons w ws)
  from Cons.prems obtain g off1 gs1 where 1: "layout_global w off = Inr (g, off1)"
    and 2: "map_each ws layout_global off1 = Inr (gs1, off')" and gs: "gs = g # gs1"
    by (auto simp: run)
  have first: "laid_out (unat off) (global_slots [w] [g]) (unat off1) \<and> unat off1 \<le> unat off + 16 \<and>
    jg_type g = spidir_type (value_kind (global_value w)) \<and> (\<not> global_mutable w \<longrightarrow> jg_offset g = - 1)"
    by (rule layout_global_run [OF 1]) (use Cons.prems(2) in simp)
  then have "unat off1 + 16 * length ws < 2 ^ 64" using Cons.prems(2) by simp
  note rest = Cons.IH [OF 2 this]
  have "laid_out (unat off) (global_slots [w] [g] @ global_slots ws gs1) (unat off')"
    using first rest by (blast intro: laid_out_append)
  then show ?case using first rest gs by simp
qed

lemma layout_datas_run:
  "map_each ds layout_data off = Inr (ss, off') \<Longrightarrow> unat off + 16 * length ds < 2 ^ 64 \<Longrightarrow>
     laid_out (unat off) (data_slots ds ss) (unat off') \<and> unat off' \<le> unat off + 16 * length ds \<and>
     list_all2 (\<lambda>d s. data_active d \<longrightarrow> jd_offset s = - 1) ds ss"
proof (induction ds arbitrary: off ss)
  case Nil
  then show ?case by simp
next
  case (Cons d ds)
  from Cons.prems obtain s off1 ss1 where 1: "layout_data d off = Inr (s, off1)"
    and 2: "map_each ds layout_data off1 = Inr (ss1, off')" and ss: "ss = s # ss1"
    by (auto simp: run)
  have first: "laid_out (unat off) (data_slots [d] [s]) (unat off1) \<and> unat off1 \<le> unat off + 16 \<and>
    (data_active d \<longrightarrow> jd_offset s = - 1)"
    by (rule layout_data_run [OF 1]) (use Cons.prems(2) in simp)
  then have "unat off1 + 16 * length ds < 2 ^ 64" using Cons.prems(2) by simp
  note rest = Cons.IH [OF 2 this]
  have "laid_out (unat off) (data_slots [d] [s] @ data_slots ds ss1) (unat off')"
    using first rest by (blast intro: laid_out_append)
  then show ?case using first rest ss by simp
qed

section \<open>The initial contents\<close>

abbreviation poke_block :: "u64 \<times> u8 list \<Rightarrow> (u8 list, unit) sm" where
  "poke_block b \<equiv> poke (fst b) (snd b)"

definition block_slots :: "(u64 \<times> u8 list) list \<Rightarrow> (nat \<times> nat) list" where
  "block_slots bs = map (\<lambda>b. (unat (fst b), length (snd b))) bs"

lemma block_slots_simps [simp]:
  "block_slots [] = []" "block_slots (b # bs) = (unat (fst b), length (snd b)) # block_slots bs"
  "block_slots (xs @ ys) = block_slots xs @ block_slots ys"
  by (simp_all add: block_slots_def)

text \<open>The same without the alignment: blocks in order, that do not overlap.\<close>

fun in_order :: "nat \<Rightarrow> (nat \<times> nat) list \<Rightarrow> nat \<Rightarrow> bool" where
  "in_order lo [] hi \<longleftrightarrow> lo \<le> hi"
| "in_order lo ((off, w) # slots) hi \<longleftrightarrow> lo \<le> off \<and> in_order (off + w) slots hi"

lemma laid_out_in_order: "laid_out lo slots hi \<Longrightarrow> in_order lo slots hi"
  by (induction lo slots hi rule: laid_out.induct) auto

lemma in_order_le: "in_order lo slots hi \<Longrightarrow> lo \<le> hi"
  by (induction lo slots hi rule: in_order.induct) auto

lemma in_order_lower: "in_order mid slots hi \<Longrightarrow> lo \<le> mid \<Longrightarrow> in_order lo slots hi"
  by (cases slots) auto

lemma in_order_append: "in_order lo xs mid \<Longrightarrow> in_order mid ys hi \<Longrightarrow> in_order lo (xs @ ys) hi"
proof (induction lo xs mid rule: in_order.induct)
  case (1 lo mid)
  then show ?case by (auto intro: in_order_lower)
qed auto

definition holds_block :: "u8 list \<Rightarrow> u64 \<times> u8 list \<Rightarrow> bool" where
  "holds_block mem b \<longleftrightarrow> take (length (snd b)) (drop (unat (fst b)) mem) = snd b"

lemma poke_blocks_run:
  assumes "in_order lo (block_slots bs) (length mem)"
  shows "\<exists>mem'. for_each bs poke_block mem = Inr ((), mem') \<and> length mem' = length mem \<and>
    take lo mem' = take lo mem \<and> list_all (holds_block mem') bs"
  using assms
proof (induction bs arbitrary: lo mem)
  case Nil
  then show ?case by (simp add: ret_def)
next
  case (Cons b bs)
  let ?o = "unat (fst b)" and ?n = "length (snd b)"
  let ?mem = "take ?o mem @ snd b @ drop (?o + ?n) mem"
  have b: "lo \<le> ?o" "in_order (?o + ?n) (block_slots bs) (length mem)" using Cons.prems by simp_all
  have inside: "?o + ?n \<le> length mem" using in_order_le [OF b(2)] .
  then have one: "poke_block b mem = Inr ((), ?mem)" by (simp add: poke_def gets_bind modify_def)
  have len: "length ?mem = length mem" using inside by simp
  obtain mem' where mem': "for_each bs poke_block ?mem = Inr ((), mem')" "length mem' = length mem"
    "take (?o + ?n) mem' = take (?o + ?n) ?mem" "list_all (holds_block mem') bs"
    using Cons.IH [of "?o + ?n" ?mem] b(2) len by auto
  have "take lo mem' = take lo (take (?o + ?n) mem')" using b(1) by (simp add: min_def)
  also have "\<dots> = take lo mem" unfolding mem'(3) using b(1) inside by (simp add: min_def)
  finally have low: "take lo mem' = take lo mem" .
  have "take ?n (drop ?o mem') = drop ?o (take (?o + ?n) mem')" by (simp add: take_drop add.commute)
  also have "\<dots> = snd b" unfolding mem'(3) using inside by simp
  finally have "holds_block mem' b" by (simp add: holds_block_def)
  then show ?case using one mem' low by (auto simp: bind_step)
qed

fun global_blocks :: "(wasm_global \<times> jit_global) list \<Rightarrow> (u64 \<times> u8 list) list" where
  "global_blocks [] = []"
| "global_blocks ((w, g) # gs) =
     (if global_mutable w then [(jg_offset g, the (value_bytes (global_value w)))] else []) @ global_blocks gs"

fun data_blocks :: "(nat \<Rightarrow> u64) \<Rightarrow> (nat \<times> wasm_data \<times> jit_data) list \<Rightarrow> (u64 \<times> u8 list) list" where
  "data_blocks address [] = []"
| "data_blocks address ((i, d, s) # ds) =
     (if \<not> data_active d then [(jd_offset s, le_bytes 8 (address i))] else []) @ data_blocks address ds"

lemma value_bytes_width: "value_bytes v = Some bs \<Longrightarrow> length bs = type_width (value_kind v)"
  by (cases v) auto

lemma value_bytes_typed: "value_kind v \<noteq> WASM_VALUE_TYPE_INVALID \<Longrightarrow> \<exists>bs. value_bytes v = Some bs"
  by (cases v) auto

lemma init_globals_blocks:
  assumes "\<forall>(w, g) \<in> set gs. value_bytes (global_value w) \<noteq> None"
  shows "for_each gs init_global = for_each (global_blocks gs) poke_block"
  using assms
  by (induction gs rule: global_blocks.induct) (auto simp: init_global_def some_or_fail_def)

lemma init_data_blocks:
  "for_each ds (init_data address) = for_each (data_blocks address ds) poke_block"
  by (induction address ds rule: data_blocks.induct) (auto simp: init_data_def)

lemma for_each_append: "for_each (xs @ ys) f = bind (for_each xs f) (\<lambda>_. for_each ys f)"
  by (induction xs) (simp_all add: bind_assoc)

lemma global_blocks_slots:
  "list_all (\<lambda>w. value_bytes (global_value w) \<noteq> None) ws \<Longrightarrow> length ws = length gs \<Longrightarrow>
     block_slots (global_blocks (zip ws gs)) = global_slots ws gs"
  by (induction ws gs rule: global_slots.induct) (auto dest: value_bytes_width)

lemma data_blocks_slots:
  "length ds = length ss \<Longrightarrow>
     block_slots (data_blocks address (zip [i..<i + length ds] (zip ds ss))) = data_slots ds ss"
proof (induction ds ss arbitrary: i rule: data_slots.induct)
  case (1 d ds s ss)
  have "[i..<i + length (d # ds)] = i # [Suc i..<Suc i + length ds]" by (simp add: upt_conv_Cons del: upt_Suc)
  then show ?case using "1.IH" [of "Suc i"] "1.prems" by (simp del: upt_Suc)
qed simp_all

lemma global_block_in:
  "(w, g) \<in> set gs \<Longrightarrow> global_mutable w \<Longrightarrow> (jg_offset g, the (value_bytes (global_value w))) \<in> set (global_blocks gs)"
  by (induction gs rule: global_blocks.induct) auto

lemma data_block_in:
  "(i, d, s) \<in> set ds \<Longrightarrow> \<not> data_active d \<Longrightarrow> (jd_offset s, le_bytes 8 (address i)) \<in> set (data_blocks address ds)"
  by (induction address ds rule: data_blocks.induct) auto

section \<open>The whole state\<close>

definition state_slots :: "wasm_module \<Rightarrow> jit_global list \<Rightarrow> jit_data list \<Rightarrow> (nat \<times> nat) list" where
  "state_slots m gs ds = global_slots (mod_globals m) gs @ data_slots (mod_data m) ds"

definition few_slots :: "wasm_module \<Rightarrow> bool" where
  "few_slots m \<longleftrightarrow> length (mod_globals m) + length (mod_data m) < 2 ^ 59"

lemma prepare_state_run:
  assumes "jit_prepare_state h m = Inr (gs, ds, n)" and "few_slots m"
  shows "laid_out 0 (state_slots m gs ds) (unat n)"
    and "list_all2 (\<lambda>w g. jg_type g = spidir_type (value_kind (global_value w)) \<and>
      (\<not> global_mutable w \<longrightarrow> jg_offset g = - 1)) (mod_globals m) gs"
    and "list_all2 (\<lambda>d s. data_active d \<longrightarrow> jd_offset s = - 1) (mod_data m) ds"
proof -
  obtain mid where 1: "map_each (mod_globals m) layout_global 0 = Inr (gs, mid)"
    and 2: "map_each (mod_data m) layout_data mid = Inr (ds, n)"
    using assms(1) by (auto simp: jit_prepare_state_def bind_run split: sum.splits prod.splits)
  have few: "16 * length (mod_globals m) + 16 * length (mod_data m) < 2 ^ 64" using assms(2) by (simp add: few_slots_def)
  then have "unat (0 :: u64) + 16 * length (mod_globals m) < 2 ^ 64" by simp
  note globals = layout_globals_run [OF 1 this]
  have "unat mid + 16 * length (mod_data m) < 2 ^ 64" using globals few by simp
  note data = layout_datas_run [OF 2 this]
  show "laid_out 0 (state_slots m gs ds) (unat n)"
    using globals data by (auto simp: state_slots_def intro: laid_out_append)
  show "list_all2 (\<lambda>w g. jg_type g = spidir_type (value_kind (global_value w)) \<and>
      (\<not> global_mutable w \<longrightarrow> jg_offset g = - 1)) (mod_globals m) gs"
    "list_all2 (\<lambda>d s. data_active d \<longrightarrow> jd_offset s = - 1) (mod_data m) ds"
    using globals data by simp_all
qed

lemma layout_global_typed:
  assumes "map_each ws layout_global off = Inr (gs, off')"
  shows "list_all (\<lambda>w. value_bytes (global_value w) \<noteq> None) ws"
  using assms
proof (induction ws arbitrary: off gs)
  case (Cons w ws)
  then have "value_kind (global_value w) \<noteq> WASM_VALUE_TYPE_INVALID" by (auto simp: layout_global_def run)
  then show ?case using Cons value_bytes_typed by (fastforce simp: run)
qed simp

lemma build_state_init_run:
  assumes "jit_prepare_state h m = Inr (gs, ds, n)" and "few_slots m" and "n \<noteq> 0"
    and "calloc_ok h 1 (unat n)"
  obtains mem where "jit_build_state_init h m address gs ds n = Inr (Some mem)" and "length mem = unat n"
    and "list_all (holds_block mem) (global_blocks (zip (mod_globals m) gs))"
    and "list_all (holds_block mem) (data_blocks address (zip [0..<length (mod_data m)] (zip (mod_data m) ds)))"
proof -
  note layout = prepare_state_run [OF assms(1,2)]
  let ?gs = "zip (mod_globals m) gs" and ?ds = "zip [0..<length (mod_data m)] (zip (mod_data m) ds)"
  have lens: "length (mod_globals m) = length gs" "length (mod_data m) = length ds"
    using layout(2,3) by (auto dest: list_all2_lengthD)
  obtain mid where "map_each (mod_globals m) layout_global 0 = Inr (gs, mid)"
    using assms(1) by (auto simp: jit_prepare_state_def bind_run split: sum.splits prod.splits)
  then have typed: "list_all (\<lambda>w. value_bytes (global_value w) \<noteq> None) (mod_globals m)" by (rule layout_global_typed)
  let ?bs = "global_blocks ?gs @ data_blocks address ?ds"
  have "block_slots ?bs = state_slots m gs ds"
    using global_blocks_slots [OF typed lens(1)] data_blocks_slots [OF lens(2), of address 0]
    by (simp add: state_slots_def)
  then have "laid_out 0 (block_slots ?bs) (length (replicate (unat n) (0 :: u8)))" using layout(1) by simp
  from poke_blocks_run [OF laid_out_in_order [OF this]] obtain mem where mem: "for_each ?bs poke_block (replicate (unat n) 0) = Inr ((), mem)"
    "length mem = unat n" "list_all (holds_block mem) ?bs" by auto
  have "\<forall>(w, g) \<in> set ?gs. value_bytes (global_value w) \<noteq> None"
    using typed by (auto simp: list_all_iff dest!: set_zip_leftD)
  then have "bind (for_each ?gs init_global) (\<lambda>_. for_each ?ds (init_data address)) (replicate (unat n) 0) = Inr ((), mem)"
    using mem(1) by (simp add: init_globals_blocks init_data_blocks for_each_append)
  then have "jit_build_state_init h m address gs ds n = Inr (Some mem)"
    using assms(3,4) by (simp add: jit_build_state_init_def)
  then show thesis using mem by (intro that) auto
qed

text \<open>A module for the witnesses: a mutable, an immutable and another mutable global, and a passive segment.\<close>

definition state_module :: wasm_module where
  "state_module = zero_module\<lparr>
     mod_globals := [\<lparr>global_value = Value_i32 5, global_mutable = True\<rparr>,
       \<lparr>global_value = Value_i64 9, global_mutable = False\<rparr>,
       \<lparr>global_value = Value_f64 3, global_mutable = True\<rparr>],
     mod_data := [\<lparr>data_offset = 0, data_bytes = [1, 2], data_active = False\<rparr>]\<rparr>"

definition state_globals :: "jit_global list" where
  "state_globals = [\<lparr>jg_offset = 0, jg_type = SPIDIR_TYPE_I32\<rparr>, \<lparr>jg_offset = - 1, jg_type = SPIDIR_TYPE_I64\<rparr>,
     \<lparr>jg_offset = 8, jg_type = SPIDIR_TYPE_F64\<rparr>]"

lemma state_module_layout:
  "jit_prepare_state roomy_host state_module = Inr (state_globals, [\<lparr>jd_offset = 16\<rparr>], 24)"
  by code_simp

lemma state_module_few: "few_slots state_module"
  by (simp add: few_slots_def state_module_def)

section \<open>Properties\<close>

text \<open>
  C23: In the layout of the runtime state every mutable global and every passive data segment has
  a slot that is aligned to its size and inside the state, no two slots overlap, and what has no
  slot, an immutable global or an active segment, has the offset -1, which is outside the state.
\<close>

theorem state_layout_sound:
  assumes "jit_prepare_state h m = Inr (gs, ds, n)" and "few_slots m"
  shows "(\<forall>(off, w) \<in> set (state_slots m gs ds). w dvd off \<and> off + w \<le> unat n) \<and>
    (\<forall>i j. i < j \<and> j < length (state_slots m gs ds) \<longrightarrow>
      fst (state_slots m gs ds ! i) + snd (state_slots m gs ds ! i) \<le> fst (state_slots m gs ds ! j)) \<and>
    list_all2 (\<lambda>w g. \<not> global_mutable w \<longrightarrow> jg_offset g = - 1) (mod_globals m) gs \<and>
    list_all2 (\<lambda>d s. data_active d \<longrightarrow> jd_offset s = - 1) (mod_data m) ds"
proof (intro conjI allI impI)
  note layout = prepare_state_run [OF assms]
  show "\<forall>(off, w) \<in> set (state_slots m gs ds). w dvd off \<and> off + w \<le> unat n"
    using laid_out_in [OF layout(1)] by blast
  show "fst (state_slots m gs ds ! i) + snd (state_slots m gs ds ! i) \<le> fst (state_slots m gs ds ! j)"
    if "i < j \<and> j < length (state_slots m gs ds)" for i j
    using laid_out_disjoint [OF layout(1)] that by blast
  show "list_all2 (\<lambda>w g. \<not> global_mutable w \<longrightarrow> jg_offset g = - 1) (mod_globals m) gs"
    using layout(2) by (auto elim: list_all2_mono)
qed (rule prepare_state_run(3) [OF assms])

theorem state_layout_sound_witness:
  "state_slots state_module state_globals [\<lparr>jd_offset = 16\<rparr>] = [(0, 4), (8, 8), (16, 8)] \<and>
    fst (state_slots state_module state_globals [\<lparr>jd_offset = 16\<rparr>] ! 0) + 4 \<le>
      fst (state_slots state_module state_globals [\<lparr>jd_offset = 16\<rparr>] ! 1)"
proof
  show slots: "state_slots state_module state_globals [\<lparr>jd_offset = 16\<rparr>] = [(0, 4), (8, 8), (16, 8)]"
    by (simp add: state_slots_def state_module_def state_globals_def)
  show "fst (state_slots state_module state_globals [\<lparr>jd_offset = 16\<rparr>] ! 0) + 4 \<le>
      fst (state_slots state_module state_globals [\<lparr>jd_offset = 16\<rparr>] ! 1)"
    using state_layout_sound [OF state_module_layout state_module_few, THEN conjunct2, THEN conjunct1,
        THEN spec, THEN spec, of 0 1]
    by (simp add: slots)
qed

text \<open>
  C32: The initial contents of the state have the size of the layout; the slot of every mutable
  global holds the bytes of its initial value and that of every passive segment its address.
\<close>

theorem state_init_contents:
  assumes "jit_prepare_state h m = Inr (gs, ds, n)" and "few_slots m" and "n \<noteq> 0" and "calloc_ok h 1 (unat n)"
  shows "\<exists>mem. jit_build_state_init h m address gs ds n = Inr (Some mem) \<and> length mem = unat n \<and>
    (\<forall>i < length (mod_globals m). global_mutable (mod_globals m ! i) \<longrightarrow>
      (\<exists>bs. value_bytes (global_value (mod_globals m ! i)) = Some bs \<and>
        take (length bs) (drop (unat (jg_offset (gs ! i))) mem) = bs)) \<and>
    (\<forall>i < length (mod_data m). \<not> data_active (mod_data m ! i) \<longrightarrow>
      take 8 (drop (unat (jd_offset (ds ! i))) mem) = le_bytes 8 (address i))"
proof -
  obtain mem where mem: "jit_build_state_init h m address gs ds n = Inr (Some mem)" "length mem = unat n"
    "list_all (holds_block mem) (global_blocks (zip (mod_globals m) gs))"
    "list_all (holds_block mem) (data_blocks address (zip [0..<length (mod_data m)] (zip (mod_data m) ds)))"
    by (rule build_state_init_run [OF assms])
  have lens: "length (mod_globals m) = length gs" "length (mod_data m) = length ds"
    using prepare_state_run(2,3) [OF assms(1,2)] by (auto dest: list_all2_lengthD)
  have typed: "\<exists>bs. value_bytes (global_value (mod_globals m ! i)) = Some bs" if "i < length (mod_globals m)" for i
    using assms(1) that layout_global_typed
    by (fastforce simp: jit_prepare_state_def bind_run list_all_length split: sum.splits prod.splits)
  have "holds_block mem (jg_offset (gs ! i), the (value_bytes (global_value (mod_globals m ! i))))"
    if "i < length (mod_globals m)" "global_mutable (mod_globals m ! i)" for i
    using mem(3) global_block_in [of "mod_globals m ! i" "gs ! i" "zip (mod_globals m) gs"] that lens
    by (auto simp: list_all_iff in_set_zip)
  moreover have "holds_block mem (jd_offset (ds ! i), le_bytes 8 (address i))"
    if i: "i < length (mod_data m)" "\<not> data_active (mod_data m ! i)" for i
  proof -
    have "(i, mod_data m ! i, ds ! i) \<in> set (zip [0..<length (mod_data m)] (zip (mod_data m) ds))"
      using i(1) lens by (auto simp: in_set_zip intro!: exI [of _ i])
    from data_block_in [OF this i(2)] show ?thesis using mem(4) by (auto simp: list_all_iff)
  qed
  ultimately show ?thesis using mem(1,2) typed by (fastforce simp: holds_block_def)
qed

theorem state_init_contents_witness:
  "\<exists>mem. jit_build_state_init roomy_host state_module (\<lambda>_. 0x1000) state_globals [\<lparr>jd_offset = 16\<rparr>] 24 = Inr (Some mem) \<and>
    length mem = 24 \<and> take 8 (drop 16 mem) = [0, 0x10, 0, 0, 0, 0, 0, 0]"
proof -
  have "le_bytes 8 (0x1000 :: u64) = [0, 0x10, 0, 0, 0, 0, 0, 0]" by code_simp
  then show ?thesis
    using state_init_contents [OF state_module_layout state_module_few, where address = "\<lambda>_. 0x1000"]
    by (auto simp: state_module_def)
qed

end
