(* ===== verification/Jit_Run.thy ===== *)
theory Jit_Run
  imports Jit_Safe Jit_Worklist Jit_Layout
begin

text \<open>
  Memory safety of the translation of a whole module: the declaration of a function's locals,
  whose number is summed up in 32 bits, then its body, the thunks, the tables and the worklist.
  \<open>locals_within\<close> is the condition on a function under which the sum fits; the last section shows
  that without it the code writes outside the array of locals.
\<close>

section \<open>The number of locals\<close>

fun groups_total :: "nat \<Rightarrow> buffer \<Rightarrow> nat" where
  "groups_total 0 b = 0"
| "groups_total (Suc n) b =
     (case bind buffer_pull_u32 (\<lambda>count. bind buffer_pull_val_type (\<lambda>_. ret count)) b of
        Inl e \<Rightarrow> 0
      | Inr (count, b') \<Rightarrow> unat count + groups_total n b')"

definition locals_total :: "wasm_type \<Rightarrow> u8 list \<Rightarrow> nat" where
  "locals_total type body = length (arg_types type) +
     (case buffer_pull_u32 (init_buffer body) of Inl e \<Rightarrow> 0 | Inr (n, b) \<Rightarrow> groups_total (unat n) b)"

definition locals_within :: "wasm_type \<Rightarrow> u8 list \<Rightarrow> bool" where
  "locals_within type body \<longleftrightarrow> locals_total type body < 2 ^ 32"

section \<open>Filling the vector of locals\<close>

text \<open>\<open>vec_room i l v\<close>: the vector has \<open>l\<close> elements, and the first \<open>i\<close> have been written.\<close>

definition vec_room :: "nat \<Rightarrow> nat \<Rightarrow> 'a vec \<Rightarrow> bool" where
  "vec_room i l v \<longleftrightarrow> unat (vec_length v) = l \<and> l \<le> unat (vec_capacity v) \<and>
     length (vec_elements v) = unat (vec_capacity v) \<and> list_all (\<lambda>x. x \<noteq> None) (take i (vec_elements v))"

lemma vec_room_inv: "vec_room l l v \<longleftrightarrow> vec_inv v \<and> unat (vec_length v) = l"
  by (auto simp: vec_room_def vec_inv_def)

lemma vec_add_room:
  assumes "l + unat n < 2 ^ 32"
  shows "valid (vec_room l l) (vec_add h e n) (\<lambda>p v. p = l \<and> vec_room l (l + unat n) v)"
proof (rule validI)
  fix v :: "'a vec"
  assume v: "vec_room l l v"
  then have inv: "vec_inv v" and len: "unat (vec_length v) = l" by (simp_all add: vec_room_inv)
  show "vec_add h e n v \<noteq> Inl Undefined"
    using vec_grow_fault [of h e n v] by (auto simp: vec_add_def bind_def gets_def modify_def ret_def split: sum.splits)
  fix p v'
  assume "vec_add h e n v = Inr (p, v')"
  then obtain v1 where grown: "vec_maybe_grow h e n v = Inr ((), v1)"
    and p: "p = unat (vec_length v1)" and v': "v' = v1\<lparr>vec_length := vec_length v1 + n\<rparr>"
    by (auto simp: vec_add_def run)
  have fits: "unat (vec_length v) + unat n < 2 ^ 32" using assms len by simp
  note post = vec_maybe_grow_post [OF grown inv fits]
  then obtain xs where v1: "vec_length v1 = vec_length v" "vec_elements v1 = vec_elements v @ xs"
    "length (vec_elements v1) = unat (vec_capacity v1)" by (auto simp: extends_def)
  have "l \<le> length (vec_elements v)" using v by (simp add: vec_room_def)
  then show "p = l \<and> vec_room l (l + unat n) v'"
    using v v1 post(2) len unat_add_fits [OF fits] unfolding p v' by (simp add: vec_room_def)
qed

lemma vec_store_room:
  assumes "i < l"
  shows "valid (vec_room i l) (vec_store i x) (\<lambda>_. vec_room (Suc i) l)"
proof (rule validI)
  fix v :: "'a vec"
  assume v: "vec_room i l v"
  then have i: "i < length (vec_elements v)" using assms by (simp add: vec_room_def)
  show "vec_store i x v \<noteq> Inl Undefined" using i by (simp add: vec_store_in)
  fix u v'
  assume "vec_store i x v = Inr (u, v')"
  then show "vec_room (Suc i) l v'" using i v by (auto simp: vec_store_in vec_room_def take_update)
qed

section \<open>Declaring the locals\<close>

lemma valid_for_upto:
  assumes "\<And>i. i < n \<Longrightarrow> valid (P i) (f i) (\<lambda>_. P (Suc i))"
  shows "valid (P 0) (for_each [0..<n] f) (\<lambda>_. P n)"
proof -
  have "valid (P m) (for_each [m..<n] f) (\<lambda>_. P n)" if "m \<le> n" for m
    using that
  proof (induction "n - m" arbitrary: m)
    case 0
    then show ?case by (simp add: valid_ret')
  next
    case (Suc d)
    then have m: "m < n" "[m..<n] = m # [Suc m..<n]" by (simp_all add: upt_conv_Cons)
    have "valid (P (Suc m)) (for_each [Suc m..<n] f) (\<lambda>_. P n)" using Suc m by simp
    then show ?case unfolding m(2) by (simp add: valid_bind [OF assms [OF m(1)]])
  qed
  then show ?thesis by simp
qed

text \<open>The context is well formed, the code is at \<open>b\<close>, and \<open>i\<close> of \<open>l\<close> locals have been written.\<close>

definition setup_ok :: "jit_env \<Rightarrow> buffer \<Rightarrow> nat \<Rightarrow> nat \<Rightarrow> jit_setup \<Rightarrow> bool" where
  "setup_ok E b i l s \<longleftrightarrow> ctx_ok E s \<and> su_code s = b \<and> vec_room i l (su_locals s)"

text \<open>\<open>n\<close> more groups can be declared before the sum wraps around.\<close>

definition groups_in :: "jit_env \<Rightarrow> nat \<Rightarrow> jit_setup \<Rightarrow> bool" where
  "groups_in E n s \<longleftrightarrow> (\<exists>l. setup_ok E (su_code s) l l s \<and> l + groups_total n (su_code s) < 2 ^ 32) \<and>
     past (su_code s) \<noteq> []"

lemma build_setup: "keeps (setup_ok E b i l) (build E c)"
proof -
  have ctx: "keeps (ctx_ok E) (build E c :: (jit_setup, u32) sm)"
    unfolding build_def by (intro keeps)
  have same: "build E c s = Inr (v, s') \<Longrightarrow> su_locals s' = su_locals s \<and> su_code s' = su_code s" for s :: jit_setup and v s'
    by (auto simp: build_def reply_def emit_def run)
  show ?thesis
    using keeps_no_fault [OF ctx] keeps_post [OF ctx] same by (intro keepsI) (auto simp: setup_ok_def)
qed

lemma on_locals_valid:
  assumes "valid (vec_room i l) p (\<lambda>a v. R a \<and> vec_room i' l' v)"
  shows "valid (setup_ok E b i l) (on_locals p) (\<lambda>a s. R a \<and> setup_ok E b i' l' s)"
proof (rule validI)
  fix s assume s: "setup_ok E b i l s"
  show "on_locals p s \<noteq> Inl Undefined"
    using valid_no_fault [OF assms] s by (auto simp: on_locals_def on_part_def setup_ok_def split: sum.splits)
  fix a s' assume "on_locals p s = Inr (a, s')"
  then obtain v where "p (su_locals s) = Inr (a, v)" "s' = s\<lparr>su_locals := v\<rparr>"
    by (auto simp: on_locals_def on_part_run)
  then show "R a \<and> setup_ok E b i' l' s'"
    using valid_post [OF assms] s by (auto simp: setup_ok_def ctx_ok_def)
qed

lemma on_code_bind:
  assumes "reader p" and "\<And>a b'. p b = Inr (a, b') \<Longrightarrow> valid (setup_ok E b' i l) (f a) Q"
  shows "valid (setup_ok E b i l) (bind (on_code p) f) Q"
  unfolding valid_def
proof (intro allI impI)
  fix s assume s: "setup_ok E b i l s"
  show "case bind (on_code p) f s of Inl e \<Rightarrow> e \<noteq> Undefined | Inr (a, s') \<Rightarrow> Q a s'"
  proof (cases "p b")
    case (Inl e)
    then show ?thesis using s reader_fault [OF assms(1) Inl] by (simp add: bind_def on_code_def on_part_def setup_ok_def)
  next
    case (Inr r)
    then obtain a b' where p: "p b = Inr (a, b')" by (cases r) simp
    have "setup_ok E b' i l (s\<lparr>su_code := b'\<rparr>)" using s by (simp add: setup_ok_def ctx_ok_def)
    moreover have "bind (on_code p) f s = f a (s\<lparr>su_code := b'\<rparr>)"
      using s p by (simp add: bind_def on_code_def on_part_def setup_ok_def)
    ultimately show ?thesis using assms(2) [OF p] by (simp add: valid_def)
  qed
qed

lemma store_local_valid:
  assumes "j < n"
  shows "valid (setup_ok E b (base + j) (base + n)) (on_locals (vec_store (base + j) x))
    (\<lambda>_. setup_ok E b (base + Suc j) (base + n))"
  using on_locals_valid [of "base + j" "base + n" "vec_store (base + j) x" "\<lambda>_. True" "Suc (base + j)" "base + n" E b]
    vec_store_room [of "base + j" "base + n" x] assms by simp

text \<open>Reserving \<open>n\<close> locals and writing each of them.\<close>

lemma add_and_fill_valid:
  assumes "l + unat n < 2 ^ 32"
    and "\<And>i. i < unat n \<Longrightarrow> valid (setup_ok E b (l + i) (l + unat n)) (f l i) (\<lambda>_. setup_ok E b (l + Suc i) (l + unat n))"
  shows "valid (setup_ok E b l l) (bind (on_locals (vec_add h e n)) (\<lambda>base. for_each [0..<unat n] (f base)))
    (\<lambda>_. setup_ok E b (l + unat n) (l + unat n))"
proof (rule valid_bind [OF on_locals_valid [OF vec_add_room [OF assms(1)]]])
  show "valid (\<lambda>s. p = l \<and> setup_ok E b l (l + unat n) s) (for_each [0..<unat n] (f p))
      (\<lambda>_. setup_ok E b (l + unat n) (l + unat n))" for p
    using valid_for_upto [of "unat n" "\<lambda>i. setup_ok E b (l + i) (l + unat n)", OF assms(2)]
    by (cases "p = l") (simp_all add: valid_def)
qed

lemma setup_args_valid:
  assumes "length (arg_types type) < 2 ^ 32"
  shows "valid (setup_ok E b 0 0) (setup_args E type) (\<lambda>_. setup_ok E b (length (arg_types type)) (length (arg_types type)))"
proof -
  let ?n = "length (arg_types type)"
  have n: "unat (word_of_nat ?n :: u32) = ?n" using assms by (simp add: unat_of_nat)
  have each: "valid (setup_ok E b (0 + i) (0 + ?n)) (setup_arg E type 0 i) (\<lambda>_. setup_ok E b (0 + Suc i) (0 + ?n))"
    if "i < ?n" for i
    unfolding setup_arg_def
    by (rule valid_bind_index, rule that, rule valid_bind_keeps, rule value_type_keeps, rule valid_bind_keeps,
        rule build_setup, rule store_local_valid [OF that])
  show ?thesis
    using add_and_fill_valid [of 0 "word_of_nat ?n" E b "setup_arg E type", unfolded n] each assms
    by (simp add: setup_args_def Let_def)
qed

lemma setup_group_valid:
  "valid (groups_in E (Suc n)) (setup_local_group E) (\<lambda>_. groups_in E n)"
proof -
  have each: "valid (setup_ok E b (base + j) (base + c)) (setup_local E t base j) (\<lambda>_. setup_ok E b (base + Suc j) (base + c))"
    if "j < c" for b base j c t
    unfolding setup_local_def
    by (rule valid_bind_keeps, rule value_type_keeps, rule valid_bind_keeps,
        rule build_setup, rule store_local_valid [OF that])
  have "valid (setup_ok E b l l) (setup_local_group E) (\<lambda>_. groups_in E n)"
    if l: "l + groups_total (Suc n) b < 2 ^ 32" and b: "past b \<noteq> []" for b l
    unfolding setup_local_group_def
  proof (rule on_code_bind [OF reader_leb(1)], rule on_code_bind [OF reader_val_type])
    fix count b1 t b2
    assume 1: "buffer_pull_u32 b = Inr (count, b1)" and 2: "buffer_pull_val_type b1 = Inr (t, b2)"
    then have total: "groups_total (Suc n) b = unat count + groups_total n b2"
      by (simp add: bind_def ret_def)
    obtain xs ys where "step_over xs b b1" "step_over ys b1 b2"
      using 1 2 by (meson reader_consumes reader_leb(1) reader_val_type)
    then have "past b2 \<noteq> []" using b by (simp add: step_over_def)
    then have post: "groups_in E n s" if "setup_ok E b2 (l + unat count) (l + unat count) s" for s
      using that l total by (auto simp: groups_in_def setup_ok_def)
    show "valid (setup_ok E b2 l l) (bind (on_locals (vec_add (env_host E) 8 count))
        (\<lambda>base. for_each [0..<unat count] (setup_local E t base))) (\<lambda>_. groups_in E n)"
      by (rule valid_weaken_post [OF add_and_fill_valid]) (use l total each in \<open>auto intro: post\<close>)
  qed
  then show ?thesis by (fastforce simp: valid_def groups_in_def)
qed

lemma setup_groups_valid:
  "valid (groups_in E n) (repeat_sm n (setup_local_group E)) (\<lambda>_. groups_in E 0)"
proof (induction n)
  case 0
  show ?case by (simp add: valid_ret')
next
  case (Suc n)
  show ?case
    by (simp, rule valid_bind [OF setup_group_valid], rule valid_bind [OF Suc.IH], rule valid_ret')
qed

lemma leb_consumes: "buffer_pull_u32 b = Inr (v, b') \<Longrightarrow> past b' \<noteq> []"
  by (auto simp: buffer_pull_u32_run consume_def)

lemma setup_locals_valid:
  assumes "locals_within type body"
  shows "valid (setup_ok E (init_buffer body) 0 0) (setup_locals E type) (\<lambda>_. groups_in E 0)"
proof -
  have small: "length (arg_types type) < 2 ^ 32"
    using assms by (simp add: locals_within_def locals_total_def)
  have results: "keeps (setup_ok E b l l) (case ts of [] \<Rightarrow> ret SPIDIR_TYPE_NONE | t # _ \<Rightarrow> jit_get_spidir_value_type t)" for b l ts
    by (cases ts) (simp_all add: keeps)
  show ?thesis
    unfolding setup_locals_def
  proof (rule valid_bind [OF setup_args_valid [OF small]], rule valid_bind_check, rule valid_bind_keeps [OF results],
      rule on_code_bind [OF reader_leb(1)])
    fix u :: unit and r n b
    assume n: "buffer_pull_u32 (init_buffer body) = Inr (n, b)"
    let ?l = "length (arg_types type)"
    have "groups_in E (unat n) s" if "setup_ok E b ?l ?l s" for s
      using that assms n leb_consumes [OF n]
      by (auto simp: groups_in_def locals_within_def locals_total_def setup_ok_def)
    then show "valid (setup_ok E b ?l ?l) (bind (repeat_sm (unat n) (setup_local_group E)) (\<lambda>_. ret r)) (\<lambda>_. groups_in E 0)"
      by (intro valid_bind [OF valid_weaken_pre [OF setup_groups_valid]] valid_ret')
  qed
qed

section \<open>A function and its thunk\<close>

lemma ctx_ok_parts [simp]:
  "ctx_ok E (start_setup b s) = ctx_ok E s" "ctx_ok E (start_inst r t) = ctx_ok E t"
  "ctx_ok E (jit_context.truncate x) = ctx_ok E x"
  by (simp_all add: ctx_ok_def start_setup_def start_inst_def jit_context.defs jit_setup.defs jit_inst.defs)

lemma run_function_keeps:
  assumes "locals_within type body"
  shows "keeps (ctx_ok E) (run_function E type body)"
proof (rule keepsI)
  fix s :: jit_context
  assume s: "ctx_ok E s"
  let ?s = "start_setup (init_buffer body) s"
  have start: "setup_ok E (init_buffer body) 0 0 ?s"
    using s by (simp add: setup_ok_def vec_room_def start_setup_def vec_empty_def jit_context.defs jit_setup.defs)
      (simp add: ctx_ok_def)
  have no_setup_fault: "setup_locals E type ?s \<noteq> Inl Undefined"
    by (rule valid_no_fault [OF setup_locals_valid [OF assms] start])
  have inst: "inst_ok E 0 (length (vec_list (su_locals t))) {} {} (start_inst r t)" and ctx: "ctx_ok E t"
    if "setup_locals E type ?s = Inr (r, t)" for r t
  proof -
    have t: "groups_in E 0 t" by (rule valid_post [OF setup_locals_valid [OF assms] start that])
    then show "ctx_ok E t" by (auto simp: groups_in_def setup_ok_def)
    with t show "inst_ok E 0 (length (vec_list (su_locals t))) {} {} (start_inst r t)"
      by (auto simp: inst_ok_def groups_in_def) (simp_all add: start_inst_def jit_context.defs jit_inst.defs)
  qed
  have entry: "keeps (inst_ok E 0 k {} {}) (entry_block E)" for k
    unfolding entry_block_def by (intro keeps)
  have push: "valid (inst_ok E 0 k {} {}) (push_label (new_label SPIDIR_TYPE_NONE)) (\<lambda>_. inst_safe E k)" for k
    by (rule valid_weaken_post [OF push_label_valid], simp) (erule inst_okE_safe)
  have body: "valid (inst_safe E k) (translate_body E) (\<lambda>_. inst_safe E k)" for k
    by (rule validI) (use translate_body_safe in auto)
  have tail: "valid (inst_safe E k) (bind (gets fn_labels) (\<lambda>ls. check (ls = []))) (\<lambda>_. inst_safe E k)" for k
    by (intro valid_bind_keeps keeps) (use keeps_check in \<open>auto simp: keeps_def\<close>)
  have fn: "valid (inst_ok E 0 k {} {}) (translate_function E) (\<lambda>_. inst_safe E k)" for k
    unfolding translate_function_def
    by (rule valid_bind_keeps [OF entry], rule valid_bind [OF push], rule valid_bind [OF body], rule tail)
  have fin: "inst_safe E k u \<Longrightarrow> ctx_ok E u" for k u
    using inst_okD(1) unfolding inst_safe_def by blast
  show "run_function E type body s \<noteq> Inl Undefined"
    using no_setup_fault valid_no_fault [OF fn inst] by (auto simp: run_function_def split: sum.splits)
  fix a s'
  assume "run_function E type body s = Inr (a, s')"
  then obtain r t u where 1: "setup_locals E type ?s = Inr (r, t)" and
    2: "translate_function E (start_inst r t) = Inr ((), u)" and 3: "s' = jit_context.truncate u"
    by (auto simp: run_function_def split: sum.splits)
  have "inst_safe E (length (vec_list (su_locals t))) u" by (rule valid_post [OF fn inst [OF 1] 2])
  then show "ctx_ok E s'" using fin 3 by simp
qed

text \<open>Every body of the module meets the condition.\<close>

definition all_locals_within :: "wasm_module \<Rightarrow> bool" where
  "all_locals_within m \<longleftrightarrow> (case mod_code m of None \<Rightarrow> True
     | Some code \<Rightarrow> list_all2 (\<lambda>t body. locals_within (mod_types m ! unat t) body) (mod_functions m) code)"

lemma build_function_keeps:
  assumes "all_locals_within (env_module E)" and "unat i < total_funcs (env_module E)"
  shows "keeps (ctx_ok E) (jit_build_function E i)"
proof (rule keeps_from)
  fix s
  assume "ctx_ok E s"
  let ?m = "env_module E" and ?f = "unat i - length (mod_imports (env_module E))"
  have ok: "module_ok ?m" "mod_functions ?m = [] \<or> mod_code ?m \<noteq> None"
    using \<open>ctx_ok E s\<close> by (simp_all add: ctx_ok_def env_ok_def)
  show "keeps (ctx_ok E) (jit_build_function E i)"
    unfolding jit_build_function_def Let_def
  proof (rule keeps_bind_check)
    assume "length (mod_imports ?m) \<le> unat i"
    then have f: "?f < length (mod_functions ?m)" using assms(2) by (auto simp: total_funcs_def)
    then obtain code where code: "mod_code ?m = Some code" using ok(2) by (cases "mod_code ?m") auto
    have "?f < length code" "locals_within (mod_types ?m ! unat (mod_functions ?m ! ?f)) (code ! ?f)"
      using assms(1) f code by (auto simp: all_locals_within_def list_all2_conv_all_nth)
    moreover have "unat (mod_functions ?m ! ?f) < length (mod_types ?m)"
      using ok(1) f by (auto simp: module_ok_def typeidx_ok_def list_all_length)
    ultimately show "keeps (ctx_ok E) (bind (index (mod_functions ?m) ?f) (\<lambda>typeidx.
        bind (index (mod_types ?m) (unat typeidx)) (\<lambda>type.
        bind (case mod_code ?m of None \<Rightarrow> fail Undefined | Some code \<Rightarrow> index code ?f) (run_function E type))))"
      using f code by (intro keeps_bind_index) (auto intro!: keeps_bind_index run_function_keeps)
  qed
qed

lemma referenced_keeps:
  assumes "\<And>r. keeps (ctx_ok E) (g r)" and "unat i < total_funcs (env_module E)"
  shows "keeps (ctx_ok E) (bind (get_function i) (\<lambda>f. bind (check (jf_inited f)) (\<lambda>_. bind (funcref_of f) g)))"
proof -
  have "valid (ctx_ok E) (get_function i) (\<lambda>f s. function_ok f \<and> ctx_ok E s)"
    unfolding get_function_def using assms(2)
    by (intro valid_bind_gets) (auto simp: valid_def index_def ret_apply ctx_ok_def list_all_length)
  then show ?thesis
    by (rule keeps_bind_post) (intro keeps_bind_check keeps_bind assms(1); auto simp: function_ok_def funcref_of_def keeps)
qed

lemma jit_function_run_keeps:
  assumes "all_locals_within (env_module E)" and "unat i < total_funcs (env_module E)"
  shows "keeps (ctx_ok E) (jit_function_run E i)"
proof -
  have "keeps (ctx_ok E) (case r of Funcref_external x \<Rightarrow> fail Check_failed
      | Funcref_internal j \<Rightarrow> bind (emit (Build_function j)) (\<lambda>_. jit_build_function E i))" for r
    using build_function_keeps [OF assms] by (cases r) (auto intro!: keeps)
  then show ?thesis unfolding jit_function_run_def by (rule referenced_keeps [OF _ assms(2)])
qed

section \<open>The worklist\<close>

definition prepared :: "jit_env \<Rightarrow> u32 \<Rightarrow> jit_context \<Rightarrow> bool" where
  "prepared E i s \<longleftrightarrow> ctx_ok E s \<and> unat i < total_funcs (env_module E) \<and> jf_inited (jc_functions s ! unat i)"

lemma prepared_keeps_calls:
  "keeps (prepared E i) (emit c)" "keeps (prepared E i) (reply f c)" "keeps (prepared E i) (build E c)"
  "keeps (prepared E i) (create_block E)" "keeps (prepared E i) (set_block b)"
  "keeps (prepared E i) (jit_get_helper E kind)" "keeps (prepared E i) (jit_emit_trap E)"
proof -
  show emits: "keeps (prepared E i) (emit c)" for c
    unfolding emit_def by (rule keeps_modify) (simp add: prepared_def)
  show replies: "keeps (prepared E i) (reply f c)" for f :: "spidir_call list \<Rightarrow> 'z" and c
    unfolding reply_def by (intro keeps emits)
  show builds: "keeps (prepared E i) (build E c)" and "keeps (prepared E i) (create_block E)"
    "keeps (prepared E i) (set_block b)" for c
    unfolding build_def create_block_def set_block_def by (intro replies emits)+
  show helpers: "keeps (prepared E i) (jit_get_helper E kind)" for kind
    unfolding jit_get_helper_def by (intro keeps replies keeps_modify; simp add: prepared_def)
  show "keeps (prepared E i) (jit_emit_trap E)"
    unfolding jit_emit_trap_def by (intro keeps emits builds helpers)
qed

lemma thunk_keeps: "keeps (prepared E i) (jit_create_cfi_thunk E i)"
proof (rule keeps_from)
  fix s
  assume "prepared E i s"
  then have i: "unat i < total_funcs (env_module E)" and ok: "module_ok (env_module E)" "generous (env_host E)"
    by (auto simp: prepared_def ctx_ok_def env_ok_def)
  have build: "keeps (prepared E i) (jit_build_cfi_thunk E ti type target)" for ti type target
    unfolding jit_build_cfi_thunk_def by (intro keeps prepared_keeps_calls; simp)
  have callee: "valid (prepared E i) (get_function i) (\<lambda>f s. jf_spidir f \<noteq> None \<and> prepared E i s)"
    unfolding get_function_def
    by (intro valid_bind_gets)
      (auto simp: valid_def index_def ret_apply prepared_def ctx_ok_def list_all_length function_ok_def)
  have refs: "keeps (prepared E i) (funcref_of f)" if "jf_spidir f \<noteq> None" for f
    using that by (auto simp: funcref_of_def keeps)
  have set: "keeps (prepared E i) (set_function i f)" if "\<And>x. jf_inited (f x) = jf_inited x \<and> jf_spidir (f x) = jf_spidir x" for f
    unfolding keeps_def prepared_def
    using set_function_valid [OF i, of jf_inited f jf_inited] that i by (simp add: function_ok_def)
  have callocs: "keeps (prepared E i) (calloc_unchecked (env_host E) n z)" for n z
    unfolding calloc_unchecked_def using ok(2) by (simp add: keeps)
  have found: "bind (lift_res (wasm_get_func (env_module E) (int (unat i)))) f =
      f (Some (mod_types (env_module E) ! unat (func_typeidx (env_module E) i)))" for f :: "_ \<Rightarrow> (jit_context, unit) sm"
    unfolding function_type(2) [OF ok(1) i] by (simp add: lift_res_def bind_def)
  show "keeps (prepared E i) (jit_create_cfi_thunk E i)"
    unfolding jit_create_cfi_thunk_def found function_type(3) [OF ok(1) i]
    by (intro keeps_ret keeps_bind callocs keeps_bind_post [OF callee] refs set keeps_map_each value_type_keeps
        prepared_keeps_calls build; simp)
qed

lemma roots_keep: "keeps (ctx_ok E) (prepare_roots E :: (jit_context, unit) sm)"
proof -
  have prepare: "valid (ctx_ok E) (jit_prepare_function E i) (\<lambda>_. prepared E i)" for i
    by (rule valid_weaken_post [OF jit_prepare_function_valid]) (simp add: prepared_def)
  then have prepares: "keeps (ctx_ok E) (jit_prepare_function E i :: (jit_context, unit) sm)" for i
    unfolding keeps_def by (rule valid_weaken_post) (simp add: prepared_def)
  have "valid (ctx_ok E) (bind (jit_prepare_function E i) (\<lambda>_. jit_create_cfi_thunk E i) :: (jit_context, unit) sm) (\<lambda>_. ctx_ok E)" for i
    by (rule valid_bind [OF prepare], rule valid_weaken_post, rule thunk_keeps [unfolded keeps_def])
      (simp add: prepared_def)
  then have elems: "keeps (ctx_ok E) (prepare_elem E e :: (jit_context, unit) sm)" for e
    unfolding prepare_elem_def by (intro keeps_for_each) (simp add: keeps_def)
  have exports: "keeps (ctx_ok E) (prepare_export E e :: (jit_context, unit) sm)" for e
    unfolding prepare_export_def by (intro keeps prepares)
  have "keeps (ctx_ok E) (jit_prepare_table E i :: (jit_context, unit) sm)"
    if "i < length (mod_tables (env_module E))" for i
  proof -
    have set: "keeps (ctx_ok E) (bind (gets jc_tables) (\<lambda>ts. bind (index ts i) (\<lambda>x.
        modify (\<lambda>s. s\<lparr>jc_tables := ts[i := x\<lparr>jt_global := g, jt_length := n\<rparr>]\<rparr>))) :: (jit_context, unit) sm)" for g n
      using that by (auto simp: keeps_def valid_def gets_bind index_def modify_def ctx_ok_def)
    show ?thesis
      unfolding jit_prepare_table_def by (rule keeps_bind, rule reply_keeps, rule keeps_bind_index, rule that, rule set)
  qed
  then show ?thesis
    unfolding prepare_roots_def Let_def by (intro keeps prepares elems exports) simp
qed

lemma drain_queue_safe:
  assumes "all_locals_within (env_module E)"
  shows "ctx_ok E s \<Longrightarrow> queue_ok s \<Longrightarrow> drain_queue E fuel s \<noteq> Some (Inl Undefined)"
proof (induction fuel arbitrary: s)
  case 0
  then show ?case by (auto simp: drain_queue.simps split: list.splits)
next
  case (Suc fuel)
  show ?case
  proof (cases "jc_queue s")
    case Nil
    then show ?thesis by (simp add: drain_queue.simps)
  next
    case (Cons i queue)
    let ?s = "s\<lparr>jc_queue := queue\<rparr>"
    have ok: "ctx_ok E ?s" "queue_ok ?s" and i: "unat i < total_funcs (env_module E)"
      using Suc.prems Cons by (auto simp: queue_ok_def ctx_ok_def)
    note run = jit_function_run_keeps [OF assms i]
    have "drain_queue E fuel s' \<noteq> Some (Inl Undefined)" if step: "jit_function_run E i ?s = Inr (u, s')" for u s'
    proof (rule Suc.IH)
      show "ctx_ok E s'" by (rule keeps_post [OF run ok(1) step])
      show "queue_ok s'" using alongD [OF jit_function_run_work step] ok(2) by (simp add: work_le_def)
    qed
    then show ?thesis using Cons keeps_no_fault [OF run ok(1)]
      by (auto simp: drain_queue.simps [of E "Suc fuel" s] split: sum.splits)
  qed
qed

lemma emit_spidir_safe:
  assumes "all_locals_within (env_module E)" and "ctx_ok E s" and "jc_queue s = []"
  shows "jit_emit_spidir E s \<noteq> Some (Inl Undefined)"
proof -
  have "drain_queue E n s' \<noteq> Some (Inl Undefined)" if "prepare_roots E s = Inr (u, s')" for n u s'
  proof (rule drain_queue_safe [OF assms(1)])
    show "ctx_ok E s'" by (rule keeps_post [OF roots_keep assms(2) that])
    show "queue_ok s'" using alongD [OF work_module.roots_along that] assms(3) by (auto simp: work_le_def queue_ok_def)
  qed
  then show ?thesis
    using keeps_no_fault [OF roots_keep assms(2)] by (auto simp: jit_emit_spidir_def split: sum.splits)
qed

section \<open>The sum that wraps around\<close>

text \<open>Writing the new locals of a group fails at the first one outside the array.\<close>

lemma fill_outside:
  assumes "j < n" and "length (vec_elements (su_locals s)) < base + n"
  shows "for_each [j..<n] (setup_local E WASM_VALUE_TYPE_I32 base) s = Inl Undefined"
  using assms
proof (induction "n - j" arbitrary: j s)
  case (Suc d)
  let ?call = "Build_iconst SPIDIR_TYPE_I32 0"
  let ?v = "value_id (env_spidir E) (?call # jc_trace s)"
  let ?s = "s\<lparr>jc_trace := ?call # jc_trace s\<rparr>"
  have step: "setup_local E WASM_VALUE_TYPE_I32 base j s =
      on_locals (vec_store (base + j) \<lparr>jv_value = ?v, jv_type = SPIDIR_TYPE_I32\<rparr>) ?s"
    by (simp add: setup_local_def zero_constant_def build_def reply_def emit_def bind_assoc modify_bind gets_bind)
  have upt: "[j..<n] = j # [Suc j..<n]" using Suc.prems(1) by (rule upt_conv_Cons)
  show ?case
  proof (cases "base + j < length (vec_elements (su_locals s))")
    case True
    then obtain t where t: "setup_local E WASM_VALUE_TYPE_I32 base j s = Inr ((), t)"
      and len: "length (vec_elements (su_locals t)) = length (vec_elements (su_locals s))"
      unfolding step by (simp add: on_locals_def on_part_def vec_store_in)
    have "Suc j < n" using True Suc.prems by linarith
    then have "for_each [Suc j..<n] (setup_local E WASM_VALUE_TYPE_I32 base) t = Inl Undefined"
      using Suc.hyps(1) [of "Suc j" t] Suc.hyps(2) Suc.prems(2) len by simp
    then show ?thesis unfolding upt using t by (simp add: bind_step)
  next
    case False
    then have "setup_local E WASM_VALUE_TYPE_I32 base j s = Inl Undefined"
      unfolding step by (simp add: on_locals_def on_part_def vec_store_out)
    then show ?thesis unfolding upt by (simp add: bind_fault)
  qed
qed simp

definition one_param :: wasm_type where
  "one_param = \<lparr>arg_types = [WASM_VALUE_TYPE_I32], result_types = []\<rparr>"

text \<open>One group of \<open>2 ^ 32 - 1\<close> locals of type i32.\<close>

definition many_locals :: "u8 list" where
  "many_locals = [0x01, 0xFF, 0xFF, 0xFF, 0xFF, 0x0F, 0x7F]"

lemma setup_one_param:
  assumes "realloc_ok (env_host E) 32" and "su_locals s = vec_empty"
  shows "\<exists>t v. setup_args E one_param s = Inr ((), t) \<and> su_code t = su_code s \<and>
    su_locals t = \<lparr>vec_length = 1, vec_capacity = 4, vec_elements = [Some v, None, None, None]\<rparr>"
proof -
  have four: "replicate 4 None = [None, None, None, None :: jit_value option]" by (simp add: numeral_eq_Suc)
  show ?thesis
  using assms
  by (simp add: setup_args_def one_param_def setup_arg_def on_locals_def on_part_def vec_add_def vec_maybe_grow_def
      vec_grow_sized_def vec_new_capacity_def vec_empty_def vec_store_def build_def reply_def emit_def index_def
      bind_def gets_def modify_def ret_def defined_def check_def Let_def four)
qed

lemma many_locals_count:
  "buffer_pull_u32 (init_buffer (many_locals @ code)) = Inr (1, \<lparr>past = [0x01], rest = tl many_locals @ code\<rparr>)"
  "buffer_pull_u32 \<lparr>past = [0x01], rest = tl many_locals @ code\<rparr> =
     Inr (0xFFFFFFFF, \<lparr>past = [0x0F, 0xFF, 0xFF, 0xFF, 0xFF, 0x01], rest = 0x7F # code\<rparr>)"
  unfolding buffer_pull_u32_run
  by (rule exI [of _ "[0x01]"], simp add: many_locals_def init_buffer_def consume_def)
    (rule exI [of _ "[0xFF, 0xFF, 0xFF, 0xFF, 0x0F]"], simp add: many_locals_def consume_def)

lemma run_function_overflow:
  assumes "realloc_ok (env_host E) 32"
  shows "run_function E one_param (many_locals @ code) s = Inl Undefined"
proof -
  let ?s = "start_setup (init_buffer (many_locals @ code)) s"
  have start: "su_locals ?s = vec_empty" "su_code ?s = init_buffer (many_locals @ code)"
    by (simp_all add: start_setup_def jit_context.defs jit_setup.defs)
  obtain t v where args: "setup_args E one_param ?s = Inr ((), t)" and code: "su_code t = init_buffer (many_locals @ code)"
    and locals: "su_locals t = \<lparr>vec_length = 1, vec_capacity = 4, vec_elements = [Some v, None, None, None]\<rparr>"
    using setup_one_param [OF assms start(1)] start(2) by auto
  let ?b1 = "\<lparr>past = [0x01], rest = tl many_locals @ code\<rparr>"
  let ?b2 = "\<lparr>past = [0x0F, 0xFF, 0xFF, 0xFF, 0xFF, 0x01], rest = 0x7F # code\<rparr>"
  let ?b3 = "\<lparr>past = [0x7F, 0x0F, 0xFF, 0xFF, 0xFF, 0xFF, 0x01], rest = code\<rparr>"
  have type: "buffer_pull_val_type ?b2 = Inr (WASM_VALUE_TYPE_I32, ?b3)"
  proof -
    have "pull_u8 ?b2 = Inr (0x7F, ?b3)" by (simp add: pull_u8_run)
    then show ?thesis by (simp add: buffer_pull_val_type_def bind_step ret_apply)
  qed
  have inv: "vec_inv (su_locals t)" and sum: "2 ^ 32 \<le> unat (vec_length (su_locals t)) + unat (0xFFFFFFFF :: u32)"
    unfolding locals by (simp_all add: vec_inv_def)
  have count: "unat (0xFFFFFFFF :: u32) = 4294967295" by simp
  have "for_each [0..<unat (0xFFFFFFFF :: u32)] (setup_local E WASM_VALUE_TYPE_I32 1)
      (t\<lparr>su_code := ?b3, su_locals := su_locals t\<lparr>vec_length := 1 + 0xFFFFFFFF\<rparr>\<rparr>) = Inl Undefined"
    unfolding count by (rule fill_outside) (simp_all add: locals)
  then have "setup_local_group E (t\<lparr>su_code := ?b1\<rparr>) = Inl Undefined"
    using many_locals_count(2) [of code] type vec_add_wraps [OF inv sum, of "env_host E" 8]
    by (simp add: setup_local_group_def bind_def on_code_def on_part_def on_locals_def locals)
  then have "setup_locals E one_param ?s = Inl Undefined"
    using args many_locals_count(1) [of code] code
    by (simp add: setup_locals_def bind_def one_param_def on_code_def on_part_def ret_def)
  then show ?thesis by (simp add: run_function_def)
qed

section \<open>The whole module\<close>

lemma prepare_state_no_fault: "jit_prepare_state h m \<noteq> Inl Undefined"
proof -
  have sizes: "keeps (\<lambda>_ :: u64. True) (jit_get_spidir_size type)" for type
    by (cases type) (simp_all add: keeps)
  have "keeps (\<lambda>_ :: u64. True) (layout_global w)" "keeps (\<lambda>_ :: u64. True) (layout_data d)" for w d
    unfolding layout_global_def layout_data_def by (intro keeps sizes keeps_modify; simp)+
  then have "keeps (\<lambda>_ :: u64. True) (bind (check (mod_globals m = [] \<or> calloc_ok h 16 (length (mod_globals m)))) (\<lambda>_.
           bind (map_each (mod_globals m) layout_global) (\<lambda>gs.
           bind (check (mod_data m = [] \<or> calloc_ok h 8 (length (mod_data m)))) (\<lambda>_.
           bind (map_each (mod_data m) layout_data) (\<lambda>ds.
           ret (gs, ds))))))"
    by (intro keeps)
  from keeps_no_fault [OF this, of 0] show ?thesis
    by (auto simp: jit_prepare_state_def split: sum.splits)
qed

lemma start_context_ok:
  assumes "env_ok E" and "jit_prepare_state h (env_module E) = Inr (gs, ds, n)" and "few_slots (env_module E)"
  shows "ctx_ok E (start_context (env_module E) gs ds)"
  using assms(1) prepare_state_run(2,3) [OF assms(2,3)]
  by (auto simp: ctx_ok_def start_context_def list_all_iff function_ok_def zero_function_def
      list_all2_conv_all_nth global_matches_def)

lemma build_state_init_safe:
  assumes "jit_prepare_state h m = Inr (gs, ds, n)" and "few_slots m" and "generous h"
  shows "\<exists>st. jit_build_state_init h m address gs ds n = Inr st"
proof (cases "n = 0")
  case True
  then show ?thesis by (simp add: jit_build_state_init_def)
next
  case False
  have "calloc_ok h 1 (unat n)" using assms(3) by simp
  from build_state_init_run [OF assms(1,2) False this, of address] show ?thesis by blast
qed

section \<open>Properties\<close>

text \<open>A module the loader accepts has what the translation relies on.\<close>

lemma loaded_env_ok:
  assumes "wasm_load_module (env_host E) data = Inr (env_module E)" and "generous (env_host E)"
    and "names_last (module_sections data)"
  shows "env_ok E"
  using load_module_ok [OF assms(1)] load_module_safe [OF assms(2,3)] assms(1,2) by (auto simp: env_ok_def)


text \<open>The bytes of the module of the witnesses.\<close>

definition sample_bytes :: "u8 list" where
  "sample_bytes = [0x00, 0x61, 0x73, 0x6D, 0x01, 0x00, 0x00, 0x00,
     0x01, 0x06, 0x01, 0x60, 0x01, 0x7F, 0x01, 0x7F,
     0x03, 0x03, 0x02, 0x00, 0x00,
     0x07, 0x05, 0x01, 0x01, 0x66, 0x00, 0x00,
     0x0A, 0x1B, 0x02,
       0x14, 0x00, 0x02, 0x40, 0x20, 0x00, 0x0D, 0x00, 0x20, 0x00, 0x41, 0x2A, 0x6A, 0x21, 0x00, 0x0B,
         0x20, 0x00, 0x10, 0x01, 0x0B,
       0x04, 0x00, 0x20, 0x00, 0x0B]"

lemma sample_loads:
  "wasm_load_module roomy_host sample_bytes = Inr sample_module" "names_last (module_sections sample_bytes)"
  by code_simp+

lemma sample_module_ok: "all_locals_within sample_module" "few_slots sample_module"
proof -
  have "list_all2 (\<lambda>t body. locals_total (mod_types sample_module ! unat t) body = 1) (mod_functions sample_module)
      (the (mod_code sample_module))"
    by code_simp
  then show "all_locals_within sample_module"
    by (auto simp: all_locals_within_def locals_within_def list_all2_conv_all_nth split: option.splits)
  show "few_slots sample_module"
    by (simp add: few_slots_def sample_module_def zero_module_def)
qed


text \<open>
  C39: The condition on the locals is needed: a function of one parameter whose body declares one
  group of \<open>2 ^ 32 - 1\<close> locals makes the sum wrap to 0, nothing is allocated for the group, and
  initialising it writes outside the array of locals.
\<close>

theorem locals_overflow_undefined:
  assumes "realloc_ok (env_host E) 32"
  shows "run_function E one_param (many_locals @ code) s = Inl Undefined \<and>
    \<not> locals_within one_param (many_locals @ code)"
proof
  show "run_function E one_param (many_locals @ code) s = Inl Undefined"
    by (rule run_function_overflow [OF assms])
  let ?b3 = "\<lparr>past = [0x7F, 0x0F, 0xFF, 0xFF, 0xFF, 0xFF, 0x01], rest = code\<rparr>"
  have "pull_u8 \<lparr>past = [0x0F, 0xFF, 0xFF, 0xFF, 0xFF, 0x01], rest = 0x7F # code\<rparr> = Inr (0x7F, ?b3)"
    by (simp add: pull_u8_run)
  then have "bind buffer_pull_u32 (\<lambda>count. bind buffer_pull_val_type (\<lambda>_. ret count))
      \<lparr>past = [0x01], rest = tl many_locals @ code\<rparr> = Inr (0xFFFFFFFF, ?b3)"
    using many_locals_count(2) [of code] by (simp add: bind_step buffer_pull_val_type_def ret_apply)
  then show "\<not> locals_within one_param (many_locals @ code)"
    using many_locals_count(1) [of code] by (simp add: locals_within_def locals_total_def one_param_def)
qed

text \<open>The bytes of a module that exports such a function.\<close>

definition overflow_bytes :: "u8 list" where
  "overflow_bytes = [0x00, 0x61, 0x73, 0x6D, 0x01, 0x00, 0x00, 0x00,
     0x01, 0x05, 0x01, 0x60, 0x01, 0x7F, 0x00,
     0x03, 0x02, 0x01, 0x00,
     0x07, 0x05, 0x01, 0x01, 0x66, 0x00, 0x00,
     0x0A, 0x0A, 0x01, 0x08] @ many_locals @ [0x0B]"

definition overflow_env :: jit_env where
  "overflow_env = \<lparr>env_spidir = counting_spidir, env_host = roomy_host,
     env_module = loaded (wasm_load_module roomy_host overflow_bytes), env_resolve_import = None\<rparr>"

lemma overflow_loads:
  "wasm_load_module roomy_host overflow_bytes = Inr (env_module overflow_env)"
  "mod_types (env_module overflow_env) = [one_param]" "mod_functions (env_module overflow_env) = [0]"
  "mod_imports (env_module overflow_env) = []" "mod_code (env_module overflow_env) = Some [many_locals @ [0x0B]]"
  by code_simp+

lemma overflow_roots:
  "case prepare_roots overflow_env (start_context (env_module overflow_env) [] []) of Inl _ \<Rightarrow> False
   | Inr (_, s) \<Rightarrow> jc_queue s = [0] \<and> map jf_inited (jc_functions s) = [True] \<and>
      map jf_spidir (jc_functions s) = [Some (Funcref_internal 1)]"
  by code_simp

theorem locals_overflow_undefined_witness:
  "jit_emit_spidir overflow_env (start_context (env_module overflow_env) [] []) = Some (Inl Undefined)"
proof -
  obtain s where s: "prepare_roots overflow_env (start_context (env_module overflow_env) [] []) = Inr ((), s)"
    and queue: "jc_queue s = [0]" and fs: "map jf_inited (jc_functions s) = [True]"
      "map jf_spidir (jc_functions s) = [Some (Funcref_internal 1)]"
    using overflow_roots by (auto split: sum.splits prod.splits)
  obtain f where f: "jc_functions s = [f]" "jf_inited f" "jf_spidir f = Some (Funcref_internal 1)"
    using fs by (cases "jc_functions s") auto
  have "run_function overflow_env one_param (many_locals @ [0x0B]) t = Inl Undefined" for t
    using locals_overflow_undefined [of overflow_env "[0x0B]" t] by (simp add: overflow_env_def)
  then have "jit_function_run overflow_env 0 (s\<lparr>jc_queue := []\<rparr>) = Inl Undefined"
    using f by (simp add: jit_function_run_def get_function_def funcref_of_def jit_build_function_def Let_def
        overflow_loads index_def gets_bind emit_def modify_bind bind_assoc)
  moreover have "total_funcs (env_module overflow_env) = 1" by (simp add: total_funcs_def overflow_loads)
  ultimately show ?thesis
    using s queue by (simp add: jit_emit_spidir_def drain_queue.simps [of _ "Suc 0"])
qed

end
