(* ===== verification/Jit_Skip.thy ===== *)
theory Jit_Skip
  imports Jit_Run
begin

text \<open>
  Dead code is decoded like live code. After a label has ended the JIT skips the instructions up to
  the matching \<open>end\<close> with a decoder of its own, \<open>jit_skip_unreachable\<close> of src/jit/inst.c. It must step
  over exactly the bytes the translation of the instruction would have read, or the rest of
  the body is decoded from the middle of an instruction.
\<close>

section \<open>What an instruction reads\<close>

definition same_code :: "jit_inst \<Rightarrow> jit_inst \<Rightarrow> bool" where
  "same_code s s' \<longleftrightarrow> fn_code s' = fn_code s"

interpretation same_order: run_preorder same_code
  by unfold_locales (simp_all add: same_code_def)

lemma same_calls:
  "along same_code (emit c)" "along same_code (jit_get_helper E kind)" "along same_code (jit_prepare_function E i)"
  using frame.emits frame.registers frame.prepares by (auto simp: along_def same_code_def ctx_frame_def)

interpretation same: label_preorder same_code
  by unfold_locales (rule same_calls, rule same_calls, rule same_calls, simp_all add: same_code_def)

text \<open>\<open>decodes m p\<close>: what a successful run of \<open>m\<close> reads of the body is what the parser \<open>p\<close> reads.\<close>

definition decodes :: "'a inst_op \<Rightarrow> unit parser \<Rightarrow> bool" where
  "decodes m p \<longleftrightarrow> (\<forall>s a s'. m s = Inr (a, s') \<longrightarrow> p (fn_code s) = Inr ((), fn_code s'))"

named_theorems decodes \<open>instructions and the parsers that read the same bytes\<close>

lemma decodes_neutral: "along same_code m \<Longrightarrow> decodes m (ret ())"
  by (auto simp: decodes_def along_def same_code_def)

lemma decodes_after: "along same_code m \<Longrightarrow> (\<And>a. decodes (f a) p) \<Longrightarrow> decodes (bind m f) p"
  unfolding decodes_def along_def same_code_def bind_run by metis

lemma decodes_pull: "(\<And>a. decodes (f a) (g a)) \<Longrightarrow> decodes (bind (pull p) f) (bind p g)"
  by (auto simp: decodes_def pull_def bind_run on_part_run) fastforce

lemma decodes_bind: "decodes m p \<Longrightarrow> (\<And>a. decodes (f a) q) \<Longrightarrow> decodes (bind m f) (bind p (\<lambda>_. q))"
  unfolding decodes_def bind_run by metis

lemma decodes_only: "decodes m p \<Longrightarrow> (\<And>a. along same_code (f a)) \<Longrightarrow> decodes (bind m f) p"
  unfolding decodes_def along_def same_code_def bind_run by metis

lemma decodes_if: "(c \<Longrightarrow> decodes m p) \<Longrightarrow> (\<not> c \<Longrightarrow> decodes m' p) \<Longrightarrow> decodes (if c then m else m') p"
  by simp

lemma decodes_as:
  "decodes m p \<Longrightarrow> (\<And>b b'. p b = Inr ((), b') \<Longrightarrow> q b = Inr ((), b')) \<Longrightarrow> decodes m q"
  by (auto simp: decodes_def)

lemma decodes_fail: "decodes (fail e) p"
  by (simp add: decodes_def)

section \<open>Numbers\<close>

lemma skip_leb_form:
  "leb_form bs \<Longrightarrow> rest b = bs @ rest b' \<Longrightarrow> b' = consume bs b \<Longrightarrow> jit_skip_leb b = Inr ((), b')"
proof (induction bs arbitrary: b rule: leb_form.induct)
  case (2 x)
  obtain xs where "rest b = x # xs" using "2.prems"(2) by simp
  with "2.prems"(3) have "pull_u8 b = Inr (x, b')" by (simp add: pull_u8_Cons consume_def)
  then show ?case using "2.prems"(1) high_bit [of x] by (subst jit_skip_leb.simps) simp
next
  case (3 x y ys)
  let ?b = "consume [x] b"
  obtain xs where xs: "rest b = x # xs" using "3.prems"(2) by simp
  then have one: "pull_u8 b = Inr (x, ?b)" by (simp add: pull_u8_Cons consume_def)
  have "jit_skip_leb ?b = Inr ((), b')"
    using "3.prems" xs by (intro "3.IH") (simp_all add: consume_def)
  then show ?case using "3.prems"(1) high_bit [of x] one by (subst jit_skip_leb.simps) simp
qed simp

lemma skip_leb_reads:
  "buffer_pull_u32 b = Inr (v, b') \<Longrightarrow> jit_skip_leb b = Inr ((), b')"
  "buffer_pull_i32 b = Inr (w, b') \<Longrightarrow> jit_skip_leb b = Inr ((), b')"
  "buffer_pull_i64 b = Inr (x, b') \<Longrightarrow> jit_skip_leb b = Inr ((), b')"
  unfolding buffer_pull_u32_run buffer_pull_i32_run buffer_pull_i64_run by (auto intro: skip_leb_form)

lemma decodes_leb [decodes]:
  "decodes (pull buffer_pull_u32) jit_skip_leb" "decodes (pull buffer_pull_i32) jit_skip_leb"
  "decodes (pull buffer_pull_i64) jit_skip_leb"
  by (auto simp: decodes_def pull_def on_part_run dest: skip_leb_reads)

lemma decodes_bytes [decodes]:
  "decodes (pull (pull_memory_zero)) (skip_bytes 1)" "decodes (pull pull_f32) (skip_bytes 4)"
  "decodes (pull pull_f64) (skip_bytes 8)" "decodes (pull jit_pull_memarg) skip_memarg"
  by (auto simp: decodes_def pull_def on_part_run pull_memory_zero_def pull_u8_def pull_f32_def pull_f64_def
      skip_bytes_def skip_memarg_def bind_run)

lemma same_last_byte: "along same_code (pull last_byte)"
  by (rule alongI) (auto simp: pull_def on_part_run last_byte_def bind_run same_code_def)

lemma decodes_target [decodes]: "decodes pull_target jit_skip_leb"
  unfolding pull_target_def by (intro decodes_only decodes) (intro along)

section \<open>Instructions\<close>

lemma decodes_plain [decodes]:
  "decodes (jit_wasm_unreachable E) (ret ())" "decodes jit_wasm_nop (ret ())" "decodes jit_wasm_drop (ret ())"
  "decodes (jit_wasm_select E) (ret ())" "decodes (jit_wasm_return E) (ret ())"
  by (rule decodes_neutral, intro along)+

lemma decodes_numeric [decodes]:
  "decodes (jit_wasm_cmpi E) (ret ())" "decodes (jit_wasm_cmpf E) (ret ())" "decodes (jit_wasm_iconv E) (ret ())"
  "decodes (jit_wasm_itof E) (ret ())" "decodes (jit_wasm_fconv E) (ret ())" "decodes (jit_wasm_bitcast E) (ret ())"
  "decodes (jit_wasm_shift E) (ret ())" "decodes (jit_wasm_unaryopf E) (ret ())" "decodes (jit_wasm_binopf E) (ret ())"
  "decodes (jit_wasm_unaryopi E) (ret ())" "decodes (jit_wasm_binopi E) (ret ())" "decodes (jit_wasm_trunc_sat E) (ret ())"
  unfolding jit_wasm_cmpi_def jit_wasm_cmpf_def jit_wasm_iconv_def jit_wasm_itof_def jit_wasm_fconv_def
    jit_wasm_bitcast_def jit_wasm_shift_def jit_wasm_unaryopf_def jit_wasm_binopf_def jit_wasm_unaryopi_def
    jit_wasm_binopi_def jit_wasm_trunc_sat_def pull_ranged_def
  by (rule decodes_neutral, intro along same_last_byte)+

lemma decodes_constants [decodes]:
  "decodes (jit_wasm_i32_const E) jit_skip_leb" "decodes (jit_wasm_i64_const E) jit_skip_leb"
  "decodes (jit_wasm_f32_const E) (skip_bytes 4)" "decodes (jit_wasm_f64_const E) (skip_bytes 8)"
  unfolding jit_wasm_i32_const_def jit_wasm_i64_const_def jit_wasm_f32_const_def jit_wasm_f64_const_def
  by (rule decodes_only, rule decodes, intro along)+

lemma decodes_indexed [decodes]:
  "decodes (jit_wasm_local_get E) jit_skip_leb" "decodes jit_wasm_local_set jit_skip_leb"
  "decodes jit_wasm_local_tee jit_skip_leb" "decodes (jit_wasm_global_get E) jit_skip_leb"
  "decodes (jit_wasm_global_set E) jit_skip_leb" "decodes (jit_wasm_br E) jit_skip_leb"
  "decodes (jit_wasm_br_if E) jit_skip_leb" "decodes (jit_wasm_call E) jit_skip_leb"
  "decodes (jit_wasm_data_drop E) jit_skip_leb"
  unfolding jit_wasm_local_get_def jit_wasm_local_set_def jit_wasm_local_tee_def jit_wasm_global_get_def
    jit_wasm_global_set_def jit_wasm_br_def jit_wasm_br_if_def jit_wasm_call_def jit_wasm_data_drop_def
    pull_local_def pull_global_index_def bind_assoc
  by (rule decodes_only, rule decodes, intro along)+

lemma decodes_memory [decodes]:
  "decodes (jit_wasm_memory_size E) (skip_bytes 1)" "decodes (jit_wasm_memory_grow E) (skip_bytes 1)"
  "decodes (jit_wasm_memory_fill E) (skip_bytes 1)"
  unfolding jit_wasm_memory_size_def jit_wasm_memory_grow_def jit_wasm_memory_fill_def
  by (rule decodes_only, rule decodes, intro along)+

lemmas decodes_byte [decodes] = decodes_memory [unfolded One_nat_def]

lemma decodes_load [decodes]:
  "decodes (jit_wasm_load E) skip_memarg" "decodes (jit_wasm_store E) skip_memarg"
  "decodes (jit_wasm_atomic_notify E) skip_memarg" "decodes (jit_wasm_atomic_wait E) skip_memarg"
  "decodes (jit_wasm_atomic_load E) skip_memarg" "decodes (jit_wasm_atomic_store E) skip_memarg"
  "decodes (jit_wasm_atomic_rmw_binop E) skip_memarg" "decodes (jit_wasm_atomic_rmw_cmpexchg E) skip_memarg"
  unfolding jit_wasm_load_def jit_wasm_store_def jit_wasm_atomic_notify_def jit_wasm_atomic_wait_def
    jit_wasm_atomic_load_def jit_wasm_atomic_store_def jit_wasm_atomic_rmw_binop_def jit_wasm_atomic_rmw_cmpexchg_def
  by ((rule decodes_after, rule same_last_byte)?, rule decodes_only, rule decodes, intro along)+

lemma decodes_call_indirect [decodes]:
  "decodes (jit_wasm_call_indirect E) (bind jit_skip_leb (\<lambda>_. jit_skip_leb))"
  unfolding jit_wasm_call_indirect_def
  by (rule decodes_bind, rule decodes, rule decodes_only, rule decodes, intro along)

lemma two_bytes: "bind (skip_bytes 1) (\<lambda>_. skip_bytes 1) b = Inr ((), b') \<Longrightarrow> skip_bytes 2 b = Inr ((), b')"
  by (cases "rest b"; cases "tl (rest b)") (auto simp: skip_bytes_def bind_run pull_bytes_run numeral_2_eq_2)

lemma decodes_bulk [decodes]:
  "decodes (jit_wasm_memory_init E) (bind jit_skip_leb (\<lambda>_. skip_bytes 1))"
  "decodes (jit_wasm_memory_copy E) (skip_bytes 2)"
proof -
  show "decodes (jit_wasm_memory_init E) (bind jit_skip_leb (\<lambda>_. skip_bytes 1))"
    unfolding jit_wasm_memory_init_def
    by (rule decodes_bind, rule decodes, rule decodes_only, rule decodes, intro along)
  have "decodes (jit_wasm_memory_copy E) (bind (skip_bytes 1) (\<lambda>_. skip_bytes 1))"
    unfolding jit_wasm_memory_copy_def
    by (rule decodes_bind, rule decodes, rule decodes_only, rule decodes, intro along)
  then show "decodes (jit_wasm_memory_copy E) (skip_bytes 2)" by (rule decodes_as) (rule two_bytes)
qed

subsection \<open>The branch table\<close>

lemma decodes_repeat:
  assumes "decodes m p"
  shows "decodes (repeat_sm n m) (bind (repeat_sm n p) (\<lambda>_. ret ()))"
proof (induction n)
  case 0
  show ?case by (simp add: decodes_def)
next
  case (Suc n)
  have "decodes (repeat_sm (Suc n) m) (bind p (\<lambda>_. bind (repeat_sm n p) (\<lambda>_. ret ())))"
    by (simp, rule decodes_bind [OF assms], rule decodes_only [OF Suc]) (intro along)
  then show ?case by (simp add: bind_assoc)
qed

lemma repeat_last:
  "bind (repeat_sm n p) (\<lambda>_. p) b = Inr ((), b') \<Longrightarrow> bind (repeat_sm (Suc n) p) (\<lambda>_. ret ()) b = Inr ((), b')"
  for p :: "unit parser"
proof (induction n arbitrary: b)
  case 0
  then show ?case by (simp add: bind_assoc) (simp add: bind_def ret_def)
next
  case (Suc n)
  then obtain b1 where 1: "p b = Inr ((), b1)" "bind (repeat_sm n p) (\<lambda>_. p) b1 = Inr ((), b')"
    by (auto simp: bind_run)
  from Suc.IH [OF 1(2)] show ?case using 1(1) by (auto simp: bind_run)
qed

lemma decodes_br_table [decodes]: "decodes (jit_wasm_br_table E) skip_br_table"
proof -
  have targets: "decodes (bind (repeat_sm n pull_target) (\<lambda>table. bind pull_target (\<lambda>dflt. ret (table, dflt))))
      (bind (repeat_sm (Suc n) jit_skip_leb) (\<lambda>_. ret ()))" for n
  proof -
    have "decodes (bind (repeat_sm n pull_target) (\<lambda>table. bind pull_target (\<lambda>dflt. ret (table, dflt))))
      (bind (bind (repeat_sm n jit_skip_leb) (\<lambda>_. ret ())) (\<lambda>_. jit_skip_leb))"
      by (rule decodes_bind [OF decodes_repeat [OF decodes_target]], rule decodes_only [OF decodes_target]) (intro along)
    then show ?thesis by (rule decodes_as) (rule repeat_last, simp add: bind_assoc)
  qed
  have "decodes (pull_br_table E) skip_br_table"
    unfolding pull_br_table_def skip_br_table_def
    by (rule decodes_pull, rule decodes_after, intro along, rule targets)
  moreover have "along same_code (case p of (table, dflt) \<Rightarrow>
     bind (jit_pop SPIDIR_TYPE_I32) (\<lambda>idx.
     bind (gets (\<lambda>s. jit_is_funcbody_label s dflt)) (\<lambda>funcbody.
     bind (if funcbody then pop_function_result E
           else bind (get_label_at dflt) (pop_label_result E)) (\<lambda>branch_value.
     bind (for_each table (branch_to_table_entry E branch_value)) (\<lambda>_.
     bind (branch_to_table_entry E branch_value dflt) (\<lambda>_.
     bind (br_table_dispatch E idx table dflt) (\<lambda>ret_block.
     bind (case ret_block of
             None \<Rightarrow> ret ()
           | Some b \<Rightarrow> bind (set_block b) (\<lambda>_. emit (Build_return branch_value))) (\<lambda>_.
     terminate_label))))))))" for p
    by (cases p, simp only: prod.case) (intro along)
  ultimately show ?thesis unfolding jit_wasm_br_table_def by (rule decodes_only)
qed

subsection \<open>Prefixes\<close>

lemma decodes_fc [decodes]: "decodes (jit_wasm_fc_prefix E) skip_fc"
  unfolding jit_wasm_fc_prefix_def skip_fc_def
  by (rule decodes_pull) (auto simp: decodes decodes_fail between_def word_le_nat_alt simp del: One_nat_def)

lemma decodes_fe [decodes]: "decodes (jit_wasm_atomic_prefix E) skip_fe"
  unfolding jit_wasm_atomic_prefix_def skip_fe_def
proof (rule decodes_pull)
  fix sub :: u32
  have in_range: "between 0x10 0x4E sub" if "between 0x10 0x16 sub \<or> between 0x17 0x1D sub \<or> between 0x1E 0x47 sub \<or>
    between 0x48 0x4E sub"
    using that by (auto simp: between_def word_le_nat_alt)
  show "decodes (if sub = 0 then jit_wasm_atomic_notify E
     else if between 0x01 0x02 sub then jit_wasm_atomic_wait E
     else if between 0x10 0x16 sub then jit_wasm_atomic_load E
     else if between 0x17 0x1D sub then jit_wasm_atomic_store E
     else if between 0x1E 0x47 sub then jit_wasm_atomic_rmw_binop E
     else if between 0x48 0x4E sub then jit_wasm_atomic_rmw_cmpexchg E
     else fail Check_failed)
    (if sub = 0 \<or> between 0x01 0x02 sub \<or> between 0x10 0x4E sub then skip_memarg else fail Check_failed)"
    using in_range by (simp add: decodes decodes_fail)
qed

subsection \<open>The dispatch\<close>

text \<open>Every range of the dispatch that has no immediates lies in the range the skipper knows.\<close>

lemma decodes_no_immediates:
  assumes "between a b opcode" and "0x45 \<le> a" and "b \<le> 0xC4" and "decodes m (ret ())"
  shows "decodes m (skip_immediates opcode)"
proof -
  have "0x45 \<le> opcode" "opcode \<le> 0xC4" using assms by (auto simp: between_def)
  then have "skip_immediates opcode = ret ()" by (auto simp: skip_immediates_def between_def word_le_nat_alt)
  then show ?thesis using assms(4) by simp
qed

lemma decodes_memarg_range:
  assumes "between a b opcode" and "0x28 \<le> a" and "b \<le> 0x3E" and "decodes m skip_memarg"
  shows "decodes m (skip_immediates opcode)"
proof -
  have "0x28 \<le> opcode" "opcode \<le> 0x3E" using assms by (auto simp: between_def)
  then have "skip_immediates opcode = skip_memarg" by (auto simp: skip_immediates_def between_def word_le_nat_alt)
  then show ?thesis using assms(4) by simp
qed

definition named_opcodes :: "u8 set" where
  "named_opcodes = {0x00, 0x01, 0x1A, 0x1B, 0x0C, 0x0D, 0x0E, 0x0F, 0x10, 0x11, 0x20, 0x21, 0x22, 0x23, 0x24, 0x3F, 0x40,
     0x41, 0x42, 0x43, 0x44, 0xA7, 0xB6, 0xBB, 0xFC, 0xFE}"

lemma named_decodes:
  assumes "opcode \<in> named_opcodes"
  shows "decodes (jit_dispatch E opcode) (skip_immediates opcode)"
proof -
  have "\<not> (0x28 :: u8) \<le> 1" "\<not> (0x20 :: u8) \<le> 1" by (simp_all add: word_le_nat_alt)
  with assms show ?thesis
    unfolding named_opcodes_def
    by (elim insertE) (simp_all add: jit_dispatch_def skip_immediates_def between_def decodes)
qed

lemma dispatch_decodes:
  assumes "opcode \<notin> {0x02, 0x03, 0x0B}"
  shows "decodes (jit_dispatch E opcode) (skip_immediates opcode)"
proof (cases "opcode \<in> named_opcodes")
  case True
  then show ?thesis by (rule named_decodes)
next
  case False
  have memarg: "decodes m (skip_immediates opcode)"
    if "between a b opcode" "0x28 \<le> a \<and> b \<le> 0x3E" "decodes m skip_memarg" for a b and m :: "unit inst_op"
    by (rule decodes_memarg_range [OF that(1)]) (use that in simp_all)
  have plain: "decodes m (skip_immediates opcode)"
    if "between a b opcode" "0x45 \<le> a \<and> b \<le> 0xC4" "decodes m (ret ())" for a b and m :: "unit inst_op"
    by (rule decodes_no_immediates [OF that(1)]) (use that in simp_all)
  have other: "opcode \<noteq> x" if "x \<in> named_opcodes \<or> x \<in> {0x02, 0x03, 0x0B}" for x
    using False assms that by blast
  have dispatch: "jit_dispatch E opcode =
    (if between 0x28 0x35 opcode then jit_wasm_load E else if between 0x36 0x3E opcode then jit_wasm_store E
      else if between 0x45 0x5A opcode then jit_wasm_cmpi E
      else if between 0x5B 0x66 opcode then jit_wasm_cmpf E
      else if between 0x67 0x69 opcode then jit_wasm_unaryopi E
      else if between 0x6A 0x73 opcode then jit_wasm_binopi E
      else if between 0x74 0x78 opcode then jit_wasm_shift E
      else if between 0x79 0x7B opcode then jit_wasm_unaryopi E
      else if between 0x7C 0x85 opcode then jit_wasm_binopi E
      else if between 0x86 0x8A opcode then jit_wasm_shift E
      else if between 0x8B 0x91 opcode then jit_wasm_unaryopf E
      else if between 0x92 0x98 opcode then jit_wasm_binopf E
      else if between 0x99 0x9F opcode then jit_wasm_unaryopf E
      else if between 0xA0 0xA6 opcode then jit_wasm_binopf E
      else if between 0xAC 0xAD opcode then jit_wasm_iconv E
      else if between 0xB2 0xB5 opcode then jit_wasm_itof E
      else if between 0xB7 0xBA opcode then jit_wasm_itof E
      else if between 0xBC 0xBF opcode then jit_wasm_bitcast E
      else if between 0xC0 0xC4 opcode then jit_wasm_iconv E
      else fail Check_failed)"
    unfolding jit_dispatch_def by (simp only: other named_opcodes_def insert_iff simp_thms if_False)
  show ?thesis
    unfolding dispatch
    by (intro decodes_if decodes_fail; (erule memarg plain, simp, intro decodes))
qed

section \<open>Properties\<close>

text \<open>
  C20: Dead code is stepped over exactly as it would be decoded: wherever the translation of an
  instruction other than \<open>end\<close> succeeds, skipping the same instruction in dead code succeeds as well
  and leaves the buffer at the same byte, whatever the state of the skipping translation.
\<close>

theorem dead_code_decoded_alike:
  assumes "jit_dispatch E opcode s = Inr (u, s')" and "opcode \<noteq> 0x0B"
    and "fn_code t = fn_code s" and "fn_labels t \<noteq> []"
  shows "\<exists>t'. jit_skip_unreachable E' opcode t = Inr ((), t') \<and> fn_code t' = fn_code s'"
proof (cases "opcode \<in> {0x02, 0x03}")
  case True
  have "\<exists>m. jit_dispatch E opcode = bind jit_wasm_pull_block_type m \<and> (\<forall>type. along same_code (m type))"
    using True unfolding jit_dispatch_def jit_wasm_block_def jit_wasm_loop_def
    by (elim insertE emptyE; simp) (rule exI, rule conjI, rule refl, intro allI along)+
  then obtain m where m: "jit_dispatch E opcode = bind jit_wasm_pull_block_type m" "along same_code (m type)" for type
    by blast
  with assms(1) obtain type s1 where 1: "jit_wasm_pull_block_type s = Inr (type, s1)" and "m type s1 = Inr (u, s')"
    by (auto elim: bind_runE)
  then have code: "fn_code s' = fn_code s1" using alongD [OF m(2)] by (auto simp: same_code_def)
  have "jit_wasm_pull_block_type t = Inr (type, t\<lparr>fn_code := fn_code s1\<rparr>)"
    using 1 assms(3) by (cases "block_type (fst (projr (pull_u8 (fn_code s))))")
      (auto simp: jit_wasm_pull_block_type_def some_or_fail_def pull_def on_part_def bind_def fail_def ret_def
        split: sum.splits option.splits)
  moreover obtain l ls where "fn_labels t = l # ls" using assms(4) by (cases "fn_labels t") auto
  ultimately show ?thesis
    using True code
    by (auto simp: jit_skip_unreachable_def bind_step set_label_at_def gets_bind index_def modify_def)
next
  case False
  then have "decodes (jit_dispatch E opcode) (skip_immediates opcode)"
    using assms(2) by (intro dispatch_decodes) simp
  then have skip: "skip_immediates opcode (fn_code t) = Inr ((), fn_code s')"
    using assms(1,3) by (simp add: decodes_def)
  show ?thesis
  proof (cases "opcode = 0x04")
    case True
    then show ?thesis using assms(1) by (simp add: jit_dispatch_def between_def fail_apply)
  next
    case other: False
    then show ?thesis using False assms(2) skip
      by (simp add: jit_skip_unreachable_def pull_def on_part_def)
  qed
qed

text \<open>The first instruction of the witness: \<open>i32.const\<close> with a number of two bytes.\<close>

definition const_body :: buffer where
  "const_body = \<lparr>past = [0x41], rest = [0xAA, 0x01, 0x0B]\<rparr>"

definition const_state :: "bool \<Rightarrow> jit_inst" where
  "const_state dead = start_inst SPIDIR_TYPE_NONE (start_setup const_body (start_context sample_module [] []))
     \<lparr>fn_labels := [(new_label SPIDIR_TYPE_NONE)\<lparr>lb_terminated := dead\<rparr>]\<rparr>"

lemma const_runs:
  "case jit_dispatch sample_env 0x41 (const_state False) of Inl _ \<Rightarrow> False | Inr (_, s) \<Rightarrow> rest (fn_code s) = [0x0B]"
  by code_simp

theorem dead_code_decoded_alike_witness:
  "\<exists>t'. jit_skip_unreachable sample_env 0x41 (const_state True) = Inr ((), t') \<and> rest (fn_code t') = [0x0B]"
proof -
  obtain s where s: "jit_dispatch sample_env 0x41 (const_state False) = Inr ((), s)" "rest (fn_code s) = [0x0B]"
    using const_runs by (auto split: sum.splits)
  have "fn_code (const_state True) = fn_code (const_state False)" "fn_labels (const_state True) \<noteq> []"
    by (simp_all add: const_state_def start_inst_def start_setup_def jit_context.defs jit_setup.defs jit_inst.defs)
  then show ?thesis using dead_code_decoded_alike [OF s(1), of "const_state True" sample_env] s(2) by auto
qed

end
