(* ===== verification/Jit_Meaning.thy ===== *)
theory Jit_Meaning
  imports Jit_Skip "HOL-Library.Signed_Division"
begin

text \<open>
  What the emitted code computes. The translation of an instruction is a sequence of calls to the
  library; here the nodes they build are given the meaning the code relies on, and the
  sequences for addresses, shifts and rotations, remainders and comparisons are shown to
  compute what WebAssembly asks for.

  The library stays a parameter: \<open>val\<close> gives the contents of a 64-bit register for each value, \<open>ty\<close> the
  type of each value and \<open>arg\<close> the arguments of the function. \<open>computes\<close> says what a node does, only as
  far as the code needs it: the upper half of an i32 and of the result of \<open>iext\<close> is arbitrary, a
  shift by the width or more and a remainder that traps on x86 have no meaning.
\<close>

section \<open>The meaning of nodes\<close>

text \<open>Nodes on registers of width \<open>'w\<close>; \<open>None\<close> where the code must not rely on a result.\<close>

fun node_op :: "spidir_binary \<Rightarrow> 'w::len word \<Rightarrow> 'w word \<Rightarrow> 'w word option" where
  "node_op Op_iadd a b = Some (a + b)"
| "node_op Op_isub a b = Some (a - b)"
| "node_op Op_imul a b = Some (a * b)"
| "node_op Op_and a b = Some (a AND b)"
| "node_op Op_or a b = Some (a OR b)"
| "node_op Op_xor a b = Some (a XOR b)"
| "node_op Op_shl a b = (if unat b < LENGTH('w) then Some (push_bit (unat b) a) else None)"
| "node_op Op_lshr a b = (if unat b < LENGTH('w) then Some (drop_bit (unat b) a) else None)"
| "node_op Op_ashr a b = (if unat b < LENGTH('w) then Some (signed_drop_bit (unat b) a) else None)"
| "node_op Op_udiv a b = (if b \<noteq> 0 then Some (a div b) else None)"
| "node_op Op_urem a b = (if b \<noteq> 0 then Some (a mod b) else None)"
| "node_op Op_sdiv a b =
     (if b \<noteq> 0 \<and> \<not> (sint a = - (2 ^ (LENGTH('w) - 1)) \<and> b = - 1) then Some (word_of_int (sint a sdiv sint b)) else None)"
| "node_op Op_srem a b =
     (if b \<noteq> 0 \<and> \<not> (sint a = - (2 ^ (LENGTH('w) - 1)) \<and> b = - 1) then Some (word_of_int (sint a smod sint b)) else None)"
| "node_op _ a b = None"

fun node_cmp :: "spidir_icmp_kind \<Rightarrow> 'w::len word \<Rightarrow> 'w word \<Rightarrow> bool" where
  "node_cmp SPIDIR_ICMP_EQ a b \<longleftrightarrow> a = b"
| "node_cmp SPIDIR_ICMP_NE a b \<longleftrightarrow> a \<noteq> b"
| "node_cmp SPIDIR_ICMP_SLT a b \<longleftrightarrow> sint a < sint b"
| "node_cmp SPIDIR_ICMP_ULT a b \<longleftrightarrow> a < b"
| "node_cmp SPIDIR_ICMP_SLE a b \<longleftrightarrow> sint a \<le> sint b"
| "node_cmp SPIDIR_ICMP_ULE a b \<longleftrightarrow> a \<le> b"

definition gives :: "'w::len word option \<Rightarrow> 'w word \<Rightarrow> bool" where
  "gives x r \<longleftrightarrow> (case x of None \<Rightarrow> True | Some y \<Rightarrow> r = y)"

record meaning =
  val :: "u32 \<Rightarrow> u64"
  ty :: "u32 \<Rightarrow> spidir_value_type"
  arg :: "u32 \<Rightarrow> u64"

text \<open>The lower half of the register of an i32.\<close>

definition val32 :: "meaning \<Rightarrow> u32 \<Rightarrow> u32" where
  "val32 M v = ucast (val M v)"

fun computes :: "meaning \<Rightarrow> spidir_call \<Rightarrow> u32 \<Rightarrow> bool" where
  "computes M (Build_iconst t k) v \<longleftrightarrow> ty M v = t \<and>
     (if t = SPIDIR_TYPE_I32 then val32 M v = ucast k else val M v = k)"
| "computes M (Build_param_ref i) v \<longleftrightarrow> val M v = arg M i"
| "computes M (Build_binary f a b) v \<longleftrightarrow> ty M v = ty M a \<and>
     (if ty M a = SPIDIR_TYPE_I32 then gives (node_op f (val32 M a) (val32 M b)) (val32 M v)
      else gives (node_op f (val M a) (val M b)) (val M v))"
| "computes M (Build_unary Op_iext a) v \<longleftrightarrow> ty M v = SPIDIR_TYPE_I64 \<and> val32 M v = val32 M a"
| "computes M (Build_icmp k t a b) v \<longleftrightarrow> ty M v = t \<and>
     (let holds = (if ty M a = SPIDIR_TYPE_I32 then node_cmp k (val32 M a) (val32 M b) else node_cmp k (val M a) (val M b))
      in if t = SPIDIR_TYPE_I32 then val32 M v = (if holds then 1 else 0) else val M v = (if holds then 1 else 0))"
| "computes M (Build_ptroff a b) v \<longleftrightarrow> val M v = val M a + val M b"
| "computes M _ v \<longleftrightarrow> True"

text \<open>Every node built so far has its meaning; the trace is latest call first.\<close>

fun meant :: "jit_env \<Rightarrow> meaning \<Rightarrow> spidir_call list \<Rightarrow> bool" where
  "meant E M [] \<longleftrightarrow> True"
| "meant E M (c # tr) \<longleftrightarrow> computes M c (value_id (env_spidir E) (c # tr)) \<and> meant E M tr"

section \<open>Running the builder\<close>

lemma build_run [run]:
  "build E c s = Inr (v, s') \<longleftrightarrow>
     v = value_id (env_spidir E) (c # jc_trace s) \<and> s' = s\<lparr>jc_trace := c # jc_trace s\<rparr>"
  by (auto simp: build_def reply_def emit_def run)

lemma build_meant:
  assumes "build E c s = Inr (v, s')" and "meant E M (jc_trace s')"
  shows "computes M c v" and "meant E M (jc_trace s)"
  using assms by (auto simp: run)

definition operands :: "jit_inst \<Rightarrow> jit_value list" where
  "operands s = lb_stack (hd (fn_labels s))"

lemma jit_pop_run:
  "jit_pop t s = Inr (v, s') \<Longrightarrow>
     \<exists>l ls st. fn_labels s = l # ls \<and> lb_stack l = \<lparr>jv_value = v, jv_type = t\<rparr> # st \<and>
       s' = s\<lparr>fn_labels := l\<lparr>lb_stack := st\<rparr> # ls\<rparr>"
  by (cases "fn_labels s"; cases "lb_stack (hd (fn_labels s))")
    (auto simp: jit_pop_def jit_pop_any_def get_label_def set_label_at_def run)

lemma jit_push_run:
  "jit_push t v s = Inr (u, s') \<Longrightarrow> fn_labels s \<noteq> [] \<and> operands s' = \<lparr>jv_value = v, jv_type = t\<rparr> # operands s \<and>
     jc_trace s' = jc_trace s"
  by (cases "fn_labels s") (auto simp: jit_push_def set_label_at_def run operands_def)

lemma pop_operands:
  assumes "jit_pop t s = Inr (v, s')"
  shows "operands s = \<lparr>jv_value = v, jv_type = t\<rparr> # operands s'" and "jc_trace s' = jc_trace s"
    and "fn_code s' = fn_code s"
  using jit_pop_run [OF assms] by (auto simp: operands_def)

lemma gives_simps [simp]: "gives (Some y) r \<longleftrightarrow> r = y" "gives None r"
  by (simp_all add: gives_def)

section \<open>Addresses\<close>

lemma zext_meant:
  assumes "jit_emit_zext64 E v s = Inr (w, s')" and "meant E M (jc_trace s')"
  shows "val M w = take_bit 32 (val M v)" and "ty M w = SPIDIR_TYPE_I64" and "meant E M (jc_trace s)"
proof -
  have *: "x AND 0xFFFFFFFF = take_bit 32 x" for x :: u64
    by (simp add: take_bit_eq_mask mask_eq_exp_minus_1)
  have low: "take_bit 32 x = ucast (ucast x :: u32)" for x :: u64
    by (rule bit_word_eqI) (auto simp: bit_simps)
  show "val M w = take_bit 32 (val M v)" "ty M w = SPIDIR_TYPE_I64" "meant E M (jc_trace s)"
    using assms by (auto simp: jit_emit_zext64_def run * val32_def low)
qed

text \<open>
  C5: Every access to the linear memory goes to the memory base plus the zero-extended 32-bit index
  plus the offset of the instruction; the sum of the two is less than \<open>2 ^ 33\<close>, so the first
  byte lies within the 8 GiB the runtime reserves for a memory, whatever the index is and whatever
  the library leaves in the upper half of an i32.
\<close>

theorem effective_address:
  assumes "jit_wasm_calculate_addr E ma idx s = Inr (addr, s')" and "meant E M (jc_trace s')"
  shows "val M addr = arg M 0 + (take_bit 32 (val M idx) + ma_offset ma) \<and>
    unat (take_bit 32 (val M idx) + ma_offset ma) = unat (take_bit 32 (val M idx)) + unat (ma_offset ma) \<and>
    unat (take_bit 32 (val M idx) + ma_offset ma) < 2 ^ 33"
proof -
  obtain z s1 where z: "jit_emit_zext64 E idx s = Inr (z, s1)"
    and rest: "bind (if ma_offset ma \<noteq> 0 then
             bind (check (ma_offset ma \<le> 0xFFFFFFFF)) (\<lambda>_.
             bind (iconst E SPIDIR_TYPE_I64 (ma_offset ma)) (\<lambda>k.
             binary E Op_iadd z k))
           else ret z) (\<lambda>offset.
     bind (build E (Build_param_ref 0)) (\<lambda>mem_base.
     build E (Build_ptroff mem_base offset))) s1 = Inr (addr, s')"
    using assms(1) unfolding jit_wasm_calculate_addr_def by (rule bind_runE)
  have bound: "ma_offset ma \<le> 0xFFFFFFFF" and last: "meant E M (jc_trace s1)"
    and addr: "ty M z = SPIDIR_TYPE_I64 \<Longrightarrow> val M addr = arg M 0 + (val M z + ma_offset ma)"
    using rest assms(2) by (auto simp: run split: if_splits)
  note zext = zext_meant [OF z last]
  have "unat (take_bit 32 (val M idx)) < 2 ^ 32"
    using take_bit_nat_less_exp [of 32 "unat (val M idx)"] by (simp add: unsigned_take_bit_eq)
  moreover have "unat (ma_offset ma) \<le> 2 ^ 32 - 1" using bound by (simp add: word_le_nat_alt)
  ultimately have "unat (take_bit 32 (val M idx) + ma_offset ma) = unat (take_bit 32 (val M idx)) + unat (ma_offset ma)"
    and "unat (take_bit 32 (val M idx)) + unat (ma_offset ma) < 2 ^ 33"
    by (simp_all add: unat_word_ariths)
  then show ?thesis using addr zext by simp
qed

section \<open>Shifts and rotations\<close>

lemma rotl_shifts:
  assumes "k < LENGTH('w)"
  shows "word_rotl k (x :: 'w::len word) = push_bit k x OR drop_bit ((LENGTH('w) - k) mod LENGTH('w)) x"
proof (rule bit_word_eqI)
  fix n
  assume n: "n < LENGTH('w)"
  show "bit (word_rotl k x) n \<longleftrightarrow> bit (push_bit k x OR drop_bit ((LENGTH('w) - k) mod LENGTH('w)) x) n"
  proof (cases "k = 0")
    case True
    then show ?thesis using n by (simp add: bit_word_rotl_iff)
  next
    case False
    then have "(LENGTH('w) - k) mod LENGTH('w) = LENGTH('w) - k" by simp
    moreover have "(n + (LENGTH('w) - k)) mod LENGTH('w) = (if k \<le> n then n - k else n + (LENGTH('w) - k))"
      using n assms by (auto simp: mod_if)
    moreover have "\<not> bit x (n + (LENGTH('w) - k))" if "k \<le> n"
      using that assms bit_imp_le_length [of x "n + (LENGTH('w) - k)"] by auto
    ultimately show ?thesis
      using n assms by (auto simp: bit_word_rotl_iff bit_simps add.commute)
  qed
qed

lemma rotr_shifts:
  assumes "k < LENGTH('w)"
  shows "word_rotr k (x :: 'w::len word) = drop_bit k x OR push_bit ((LENGTH('w) - k) mod LENGTH('w)) x"
proof (rule bit_word_eqI)
  fix n
  assume n: "n < LENGTH('w)"
  show "bit (word_rotr k x) n \<longleftrightarrow> bit (drop_bit k x OR push_bit ((LENGTH('w) - k) mod LENGTH('w)) x) n"
  proof (cases "k = 0")
    case True
    then show ?thesis using n by (simp add: bit_word_rotr_iff)
  next
    case False
    then have "(LENGTH('w) - k) mod LENGTH('w) = LENGTH('w) - k" by simp
    moreover have "(n + k) mod LENGTH('w) = (if n + k < LENGTH('w) then n + k else n - (LENGTH('w) - k))"
      using n assms by (auto simp: mod_if)
    moreover have "\<not> bit x (n + k)" if "LENGTH('w) \<le> n + k"
      using that bit_imp_le_length [of x "n + k"] by auto
    ultimately show ?thesis
      using n assms by (auto simp: bit_word_rotr_iff bit_simps add.commute)
  qed
qed

text \<open>The shifts of WebAssembly by opcode: the amount is taken modulo the width.\<close>

definition wasm_shift :: "u8 \<Rightarrow> 'w::len word \<Rightarrow> 'w word \<Rightarrow> 'w word" where
  "wasm_shift opcode amount x =
     (let n = unat amount mod LENGTH('w) in
      if opcode \<in> {0x74, 0x86} then push_bit n x
      else if opcode \<in> {0x75, 0x87} then signed_drop_bit n x
      else if opcode \<in> {0x76, 0x88} then drop_bit n x
      else if opcode \<in> {0x77, 0x89} then word_rotl n x
      else word_rotr n x)"

text \<open>The steps the code emits for a shift, on registers of either width.\<close>

lemma masked_amount:
  "unat (a AND mask j :: 'w::len word) = unat a mod 2 ^ j"
  by (rule unat_and_mask)

lemma counter_amount:
  assumes "LENGTH('w) = 2 ^ j" and "unat k < LENGTH('w)"
  shows "unat (mask j AND (word_of_nat LENGTH('w) - k) :: 'w::len word) = (LENGTH('w) - unat k) mod LENGTH('w)"
proof -
  have "LENGTH('w) < 2 ^ LENGTH('w)" by (rule less_exp)
  then have len: "unat (word_of_nat LENGTH('w) :: 'w word) = LENGTH('w)" by (simp add: unat_of_nat)
  then have "unat (word_of_nat LENGTH('w) - k) = LENGTH('w) - unat k"
    using assms(2) by (subst unat_sub) (simp_all add: word_le_nat_alt)
  then show ?thesis using assms(1) by (simp add: and.commute [of "mask j"] unat_and_mask)
qed

text \<open>\<open>opcode\<close> counts from the first shift.\<close>

fun shift_steps :: "u8 \<Rightarrow> 'w::len word \<Rightarrow> 'w word \<Rightarrow> 'w word \<Rightarrow> 'w word \<Rightarrow> 'w word \<Rightarrow> bool" where
  "shift_steps opcode msk x amount n r \<longleftrightarrow>
     (\<exists>k. k = amount AND msk \<and>
       (if opcode = 0 then gives (node_op Op_shl x k) r
        else if opcode = 1 then gives (node_op Op_ashr x k) r
        else if opcode = 2 then gives (node_op Op_lshr x k) r
        else n = msk AND (word_of_nat LENGTH('w) - k) \<and>
          (\<exists>left right. gives (node_op (if opcode = 3 then Op_shl else Op_lshr) x k) left \<and>
             gives (node_op (if opcode = 3 then Op_lshr else Op_shl) x n) right \<and> r = left OR right)))"

lemma wasm_shift_base:
  assumes "base \<in> {0x74, 0x86}"
  shows "wasm_shift base a x = push_bit (unat a mod LENGTH('w)) (x :: 'w::len word)"
    and "wasm_shift (base + 1) a x = signed_drop_bit (unat a mod LENGTH('w)) x"
    and "wasm_shift (base + 2) a x = drop_bit (unat a mod LENGTH('w)) x"
    and "wasm_shift (base + 3) a x = word_rotl (unat a mod LENGTH('w)) x"
    and "wasm_shift (base + 4) a x = word_rotr (unat a mod LENGTH('w)) x"
  using assms by (elim insertE emptyE; simp add: wasm_shift_def Let_def)+

lemma shift_steps_meaning:
  fixes x :: "'w::len word"
  assumes "shift_steps opcode (mask j) x amount n r" and "LENGTH('w) = 2 ^ j" and "opcode \<in> {0, 1, 2, 3, 4}"
    and "base \<in> {0x74, 0x86}"
  shows "r = wasm_shift (base + opcode) amount x"
proof -
  let ?k = "unat amount mod LENGTH('w)"
  have k: "unat (amount AND mask j) = ?k" using masked_amount [of amount j] assms(2) by simp
  have small: "?k < LENGTH('w)" by simp
  have n: "unat (mask j AND (word_of_nat LENGTH('w) - (amount AND mask j)) :: 'w word) = (LENGTH('w) - ?k) mod LENGTH('w)"
    using counter_amount [OF assms(2), of "amount AND mask j"] k by simp
  note spec = wasm_shift_base [OF assms(4), of amount x]
  note rot = rotl_shifts [OF small, of x] rotr_shifts [OF small, of x]
  consider "opcode = 0" | "opcode = 1" | "opcode = 2" | "opcode = 3" | "opcode = 4" using assms(3) by auto
  then show ?thesis
    using assms(1) by cases (simp_all add: spec rot k n, auto simp: k n)
qed

text \<open>
  The registers of one width, as a view of the meaning: \<open>rd\<close> reads a value of type \<open>t\<close>.
\<close>

definition reads_width :: "meaning \<Rightarrow> spidir_value_type \<Rightarrow> (u32 \<Rightarrow> 'w::len word) \<Rightarrow> bool" where
  "reads_width M t rd \<longleftrightarrow>
     (\<forall>f a b v. ty M a = t \<longrightarrow> computes M (Build_binary f a b) v \<longrightarrow> ty M v = t \<and> gives (node_op f (rd a) (rd b)) (rd v)) \<and>
     (\<forall>k v. computes M (Build_iconst t k) v \<longrightarrow> ty M v = t \<and> rd v = ucast k) \<and>
     (\<forall>k a b v. ty M a = t \<longrightarrow> computes M (Build_icmp k t a b) v \<longrightarrow>
        ty M v = t \<and> rd v = (if node_cmp k (rd a) (rd b) then 1 else 0)) \<and>
     (\<forall>k a b v. ty M a = t \<longrightarrow> computes M (Build_icmp k SPIDIR_TYPE_I32 a b) v \<longrightarrow>
        ty M v = SPIDIR_TYPE_I32 \<and> val32 M v = (if node_cmp k (rd a) (rd b) then 1 else 0))"

lemma reads_32: "reads_width M SPIDIR_TYPE_I32 (val32 M)"
  by (simp add: reads_width_def)

lemma reads_64: "reads_width M SPIDIR_TYPE_I64 (val M)"
  by (simp add: reads_width_def)

lemma binary_node:
  assumes "binary E f a b s = Inr (v, s')" and "meant E M (jc_trace s')"
  shows "meant E M (jc_trace s)" and "reads_width M t rd \<Longrightarrow> ty M a = t \<Longrightarrow> ty M v = t \<and> gives (node_op f (rd a) (rd b)) (rd v)"
  using build_meant [OF assms] unfolding reads_width_def by blast+

lemma const_node:
  assumes "iconst E t k s = Inr (v, s')" and "meant E M (jc_trace s')"
  shows "meant E M (jc_trace s)" and "reads_width M t rd \<Longrightarrow> ty M v = t \<and> rd v = ucast k"
  using build_meant [OF assms] unfolding reads_width_def by blast+

lemma compare_node:
  assumes "build E (Build_icmp k ct a b) s = Inr (v, s')" and "meant E M (jc_trace s')"
  shows "meant E M (jc_trace s)"
    and "reads_width M t rd \<Longrightarrow> ty M a = t \<Longrightarrow> ct = t \<Longrightarrow> ty M v = t \<and> rd v = (if node_cmp k (rd a) (rd b) then 1 else 0)"
    and "reads_width M t rd \<Longrightarrow> ty M a = t \<Longrightarrow> ct = SPIDIR_TYPE_I32 \<Longrightarrow>
      ty M v = SPIDIR_TYPE_I32 \<and> val32 M v = (if node_cmp k (rd a) (rd b) then 1 else 0)"
  using build_meant [OF assms] unfolding reads_width_def by blast+

text \<open>The opcode a handler reads back selects the width.\<close>

definition opcode_of :: "jit_inst \<Rightarrow> u8" where
  "opcode_of s = hd (past (fn_code s))"

lemma two_ranges:
  assumes "pull_ranged [(a, b, t), (c, d, t')] s = Inr (r, s')"
  shows "s' = s \<and> (a \<le> opcode_of s \<and> opcode_of s \<le> b \<and> r = (t, opcode_of s - a) \<or>
    c \<le> opcode_of s \<and> opcode_of s \<le> d \<and> r = (t', opcode_of s - c))"
proof -
  obtain o' where o: "o' = opcode_of s" and r: "some_or_fail (opcode_in [(a, b, t), (c, d, t')] o') s = Inr (r, s')"
    using assms by (auto simp: pull_ranged_def last_byte_def pull_def run opcode_of_def hd_conv_nth simp del: opcode_in.simps)
  show ?thesis
    using r unfolding o by (auto simp: between_def some_or_fail_def ret_def split: if_splits option.splits)
qed

definition typed :: "meaning \<Rightarrow> jit_value list \<Rightarrow> bool" where
  "typed M xs \<longleftrightarrow> (\<forall>x \<in> set xs. ty M (jv_value x) = jv_type x)"

lemma typed_simps [simp]:
  "typed M []" "typed M (x # xs) \<longleftrightarrow> ty M (jv_value x) = jv_type x \<and> typed M xs"
  by (auto simp: typed_def)

definition shift_code :: "jit_env \<Rightarrow> spidir_value_type \<Rightarrow> u64 \<Rightarrow> u8 \<Rightarrow> u32 \<Rightarrow> u32 \<Rightarrow> u32 \<Rightarrow> u32 inst_op" where
  "shift_code E t mask_value opcode msk v shift_amt =
     (if opcode = 0 then binary E Op_shl v shift_amt
      else if opcode = 1 then binary E Op_ashr v shift_amt
      else if opcode = 2 then binary E Op_lshr v shift_amt
      else if opcode = 3 then
        bind (iconst E t (mask_value + 1)) (\<lambda>bit_count.
        bind (binary E Op_shl v shift_amt) (\<lambda>left.
        bind (counter_shift E msk bit_count shift_amt) (\<lambda>n.
        bind (binary E Op_lshr v n) (\<lambda>right.
        binary E Op_or left right))))
      else if opcode = 4 then
        bind (iconst E t (mask_value + 1)) (\<lambda>bit_count.
        bind (binary E Op_lshr v shift_amt) (\<lambda>left.
        bind (counter_shift E msk bit_count shift_amt) (\<lambda>n.
        bind (binary E Op_shl v n) (\<lambda>right.
        binary E Op_or left right))))
      else fail Check_failed)"

lemma shift_by_code:
  "jit_wasm_shift E =
     bind (pull_ranged [(0x74, 0x78, (SPIDIR_TYPE_I32, 31)), (0x86, 0x8A, (SPIDIR_TYPE_I64, 63))])
       (\<lambda>((t, mask_value), opcode).
     bind (jit_pop t) (\<lambda>a.
     bind (jit_pop t) (\<lambda>v.
     bind (iconst E t mask_value) (\<lambda>msk.
     bind (binary E Op_and a msk) (\<lambda>shift_amt.
     bind (shift_code E t mask_value opcode msk v shift_amt) (jit_push t))))))"
  by (simp add: jit_wasm_shift_def shift_code_def cong: if_cong)

text \<open>The rotations, in either direction.\<close>

lemma rotation_steps:
  fixes rd :: "u32 \<Rightarrow> 'w::len word"
  assumes "bind (iconst E t c) (\<lambda>bit_count. bind (binary E f v k) (\<lambda>left.
      bind (counter_shift E msk bit_count k) (\<lambda>n. bind (binary E g v n) (\<lambda>right.
      binary E Op_or left right)))) s = Inr (r, s')"
    and "meant E M (jc_trace s')" and rd: "reads_width M t rd" and "ty M v = t" and "ucast c = (word_of_nat LENGTH('w) :: 'w word)"
  shows "meant E M (jc_trace s) \<and> ty M r = t \<and> (ty M msk = t \<longrightarrow> (\<exists>left right n. n = rd msk AND (word_of_nat LENGTH('w) - rd k) \<and>
      gives (node_op f (rd v) (rd k)) left \<and> gives (node_op g (rd v) n) right \<and> rd r = left OR right))"
proof -
  obtain bc s1 l s2 d s3 n s4 ri s5 where
    1: "iconst E t c s = Inr (bc, s1)" and 2: "binary E f v k s1 = Inr (l, s2)" and
    3: "binary E Op_isub bc k s2 = Inr (d, s3)" and 4: "binary E Op_and msk d s3 = Inr (n, s4)" and
    5: "binary E g v n s4 = Inr (ri, s5)" and 6: "binary E Op_or l ri s5 = Inr (r, s')"
    using assms(1) unfolding counter_shift_def bind_run by (elim exE conjE) (rule that)
  note m5 = binary_node(1) [OF 6 assms(2)]
  note m4 = binary_node(1) [OF 5 m5]
  note m3 = binary_node(1) [OF 4 m4]
  note m2 = binary_node(1) [OF 3 m3]
  note m1 = binary_node(1) [OF 2 m2]
  note bc = const_node(2) [OF 1 m1 rd]
  note l = binary_node(2) [OF 2 m2 rd assms(4)]
  note d = binary_node(2) [OF 3 m3 rd bc [THEN conjunct1]]
  note n = binary_node(2) [OF 4 m4 rd]
  note ri = binary_node(2) [OF 5 m5 rd assms(4)]
  note r = binary_node(2) [OF 6 assms(2) rd l [THEN conjunct1]]
  have "rd n = rd msk AND (word_of_nat LENGTH('w) - rd k)" if "ty M msk = t"
    using bc d n [OF that] assms(5) by simp
  moreover have "rd r = rd l OR rd ri" using r by simp
  ultimately show ?thesis using const_node(1) [OF 1 m1] r l ri by metis
qed

lemma shift_code_steps:
  fixes rd :: "u32 \<Rightarrow> 'w::len word"
  assumes "iconst E t mv s = Inr (msk, s1)" and "binary E Op_and a msk s1 = Inr (k, s2)"
    and "shift_code E t mv opcode msk v k s2 = Inr (r, s3)" and "meant E M (jc_trace s3)"
    and rd: "reads_width M t rd" and "ty M a = t" and "ty M v = t" and "ucast (mv + 1) = (word_of_nat LENGTH('w) :: 'w word)"
  shows "ty M r = t \<and> opcode \<in> {0, 1, 2, 3, 4} \<and> (\<exists>n. shift_steps opcode (ucast mv) (rd v) (rd a) n (rd r))"
proof -
  have tail: "meant E M (jc_trace s2) \<and> ty M r = t \<and> opcode \<in> {0, 1, 2, 3, 4} \<and>
    (ty M msk = t \<longrightarrow> rd msk = ucast mv \<longrightarrow> rd k = rd a AND ucast mv \<longrightarrow> (\<exists>n. shift_steps opcode (ucast mv) (rd v) (rd a) n (rd r)))"
  proof -
    consider f where "binary E f v k s2 = Inr (r, s3)" and "(opcode, f) \<in> {(0, Op_shl), (1, Op_ashr), (2, Op_lshr)}"
      | f g where "bind (iconst E t (mv + 1)) (\<lambda>bit_count. bind (binary E f v k) (\<lambda>left.
          bind (counter_shift E msk bit_count k) (\<lambda>n. bind (binary E g v n) (\<lambda>right.
          binary E Op_or left right)))) s2 = Inr (r, s3)" and "(opcode, f, g) \<in> {(3, Op_shl, Op_lshr), (4, Op_lshr, Op_shl)}"
      using assms(3) by (auto simp: shift_code_def split: if_splits)
    then show ?thesis
    proof cases
      case 1
      then show ?thesis
        using binary_node(1) [OF 1(1) assms(4)] binary_node(2) [OF 1(1) assms(4) rd assms(7)] by auto
    next
      case 2
      then show ?thesis
        using rotation_steps [OF 2(1) assms(4) rd assms(7,8)] by auto
    qed
  qed
  note k = binary_node [OF assms(2) tail [THEN conjunct1]]
  note msk = const_node [OF assms(1) k(1)]
  have "rd k = rd a AND ucast mv" using k(2) [OF rd assms(6)] msk(2) [OF rd] by simp
  then show ?thesis using tail msk(2) [OF rd] by blast
qed

text \<open>
  C21: The code emitted for a shift or a rotation of either width leaves on the stack what WebAssembly
  defines, for every amount: it reduces the amount modulo the width and never asks the
  library for a shift by the width or more.
\<close>

theorem shift_instructions:
  assumes "jit_wasm_shift E s = Inr (u, s')" and "meant E M (jc_trace s')" and "typed M (operands s)"
  shows "\<exists>t a v r st. operands s = [\<lparr>jv_value = a, jv_type = t\<rparr>, \<lparr>jv_value = v, jv_type = t\<rparr>] @ st \<and>
    operands s' = \<lparr>jv_value = r, jv_type = t\<rparr> # st \<and> ty M r = t \<and>
    (t = SPIDIR_TYPE_I32 \<and> 0x74 \<le> opcode_of s \<and> opcode_of s \<le> 0x78 \<and>
       val32 M r = wasm_shift (opcode_of s) (val32 M a) (val32 M v) \<or>
     t = SPIDIR_TYPE_I64 \<and> 0x86 \<le> opcode_of s \<and> opcode_of s \<le> 0x8A \<and>
       val M r = wasm_shift (opcode_of s) (val M a) (val M v))"
proof -
  obtain t mv opcode s0 a v msk k r s1 s2 s3 s4 s5 where
    op: "pull_ranged [(0x74, 0x78, (SPIDIR_TYPE_I32, 31)), (0x86, 0x8A, (SPIDIR_TYPE_I64, 63))] s = Inr (((t, mv), opcode), s0)"
    and pops: "jit_pop t s0 = Inr (a, s1)" "jit_pop t s1 = Inr (v, s2)"
    and code: "iconst E t mv s2 = Inr (msk, s3)" "binary E Op_and a msk s3 = Inr (k, s4)"
      "shift_code E t mv opcode msk v k s4 = Inr (r, s5)" and push: "jit_push t r s5 = Inr (u, s')"
    using assms(1) unfolding shift_by_code bind_run split_paired_Ex prod.case by (elim exE conjE) (rule that)
  note stack = pop_operands(1) [OF pops(1)] pop_operands(1) [OF pops(2)] jit_push_run [OF push, THEN conjunct2, THEN conjunct1]
  have rest: "operands s5 = operands s2"
    using code by (auto simp: run shift_code_def counter_shift_def operands_def split: if_splits)
  have m: "meant E M (jc_trace s5)" using assms(2) jit_push_run [OF push] by simp
  have s0: "s0 = s" using two_ranges [OF op] by simp
  have tys: "ty M a = t" "ty M v = t" using assms(3) stack(1,2) s0 by simp_all
  note steps = shift_code_steps [OF code m _ tys]
  from two_ranges [OF op] consider
    "t = SPIDIR_TYPE_I32" "mv = 31" "opcode = opcode_of s - 0x74" "0x74 \<le> opcode_of s" "opcode_of s \<le> 0x78"
    | "t = SPIDIR_TYPE_I64" "mv = 63" "opcode = opcode_of s - 0x86" "0x86 \<le> opcode_of s" "opcode_of s \<le> 0x8A"
    by auto
  then show ?thesis
  proof cases
    case 1
    from steps [of "val32 M"] 1 reads_32 have "ty M r = t" "opcode \<in> {0, 1, 2, 3, 4}"
      and "\<exists>n. shift_steps opcode (mask 5) (val32 M v) (val32 M a) n (val32 M r)"
      by (simp_all add: mask_eq_exp_minus_1 del: shift_steps.simps)
    moreover have "LENGTH(32) = 2 ^ 5" by simp
    ultimately have "val32 M r = wasm_shift (0x74 + opcode) (val32 M a) (val32 M v)"
      using shift_steps_meaning [where base = "0x74"] by blast
    then show ?thesis using 1 stack s0 rest \<open>ty M r = t\<close> by auto
  next
    case 2
    from steps [of "val M"] 2 reads_64 have "ty M r = t" "opcode \<in> {0, 1, 2, 3, 4}"
      and "\<exists>n. shift_steps opcode (mask 6) (val M v) (val M a) n (val M r)"
      by (simp_all add: mask_eq_exp_minus_1 del: shift_steps.simps)
    moreover have "LENGTH(64) = 2 ^ 6" by simp
    ultimately have "val M r = wasm_shift (0x86 + opcode) (val M a) (val M v)"
      using shift_steps_meaning [where base = "0x86"] by blast
    then show ?thesis using 2 stack s0 rest \<open>ty M r = t\<close> by auto
  qed
qed

section \<open>Arithmetic\<close>

text \<open>
  The binary integer instructions of WebAssembly by opcode; \<open>None\<close> where they trap, by dividing by
  zero or because the quotient does not fit.
\<close>

definition wasm_arith :: "u8 \<Rightarrow> 'w::len word \<Rightarrow> 'w word \<Rightarrow> 'w word option" where
  "wasm_arith opcode a b =
     (if opcode \<in> {0x6A, 0x7C} then Some (a + b)
      else if opcode \<in> {0x6B, 0x7D} then Some (a - b)
      else if opcode \<in> {0x6C, 0x7E} then Some (a * b)
      else if opcode \<in> {0x6D, 0x7F} then
        (if b = 0 \<or> sint a = - (2 ^ (LENGTH('w) - 1)) \<and> b = - 1 then None else Some (word_of_int (sint a sdiv sint b)))
      else if opcode \<in> {0x6E, 0x80} then (if b = 0 then None else Some (a div b))
      else if opcode \<in> {0x6F, 0x81} then (if b = 0 then None else Some (word_of_int (sint a smod sint b)))
      else if opcode \<in> {0x70, 0x82} then (if b = 0 then None else Some (a mod b))
      else if opcode \<in> {0x71, 0x83} then Some (a AND b)
      else if opcode \<in> {0x72, 0x84} then Some (a OR b)
      else Some (a XOR b))"

lemma byte_below_ten: "unat (k :: u8) < 10 \<Longrightarrow> k \<in> {0, 1, 2, 3, 4, 5, 6, 7, 8, 9}"
proof -
  assume "unat k < 10"
  then have "unat k \<in> {0, 1, 2, 3, 4, 5, 6, 7, 8, 9}" by auto
  then have "word_of_nat (unat k) \<in> (word_of_nat ` {0, 1, 2, 3, 4, 5, 6, 7, 8, 9} :: u8 set)" by (rule imageI)
  then show ?thesis by simp
qed

lemma wasm_arith_node:
  assumes "base \<in> {0x6A, 0x7C}" and "unat (k :: u8) < 10" and "k \<noteq> 5"
  shows "wasm_arith (base + k) a b = node_op (binopi_ops ! unat k) a b"
  using assms(1,3) byte_below_ten [OF assms(2)]
  by (elim insertE emptyE; simp add: wasm_arith_def binopi_ops_def)

lemma wasm_arith_rem:
  assumes "base \<in> {0x6A, 0x7C}"
  shows "wasm_arith (base + 5) a b = (if b = 0 then None else Some (word_of_int (sint a smod sint b)))"
  using assms by (elim insertE emptyE; simp add: wasm_arith_def)

text \<open>Masking the dividend makes the remainder by -1 the remainder of zero.\<close>

lemma masked_rem:
  fixes a b :: "'w::len word"
  assumes "m = (if b = - 1 then 1 else 0) - (1 :: 'w word)" and "gives (node_op Op_srem (a AND m) b) r" and "b \<noteq> 0"
  shows "r = word_of_int (sint a smod sint b)"
proof (cases "b = - 1")
  case True
  then have "gives (node_op Op_srem 0 (- 1 :: 'w word)) r" using assms by simp
  then show ?thesis using True by (simp add: signed_modulo_int_def)
next
  case False
  then show ?thesis using assms by simp
qed

lemma srem_code:
  fixes rd :: "u32 \<Rightarrow> 'w::len word"
  assumes "emit_srem E t a b s = Inr (r, s')" and "meant E M (jc_trace s')"
    and rd: "reads_width M t rd" and "ty M a = t" and "ty M b = t" and "t = SPIDIR_TYPE_I32 \<longrightarrow> LENGTH('w) = 32"
    and "ucast (if t = SPIDIR_TYPE_I32 then 0xFFFFFFFF else - 1 :: u64) = (- 1 :: 'w word)"
  shows "ty M r = t \<and> (rd b \<noteq> 0 \<longrightarrow> rd r = word_of_int (sint (rd a) smod sint (rd b)))"
proof -
  obtain m1 s1 ie s2 one s3 mk s4 x s5 where
    1: "iconst E t (if t = SPIDIR_TYPE_I32 then 0xFFFFFFFF else - 1) s = Inr (m1, s1)" and
    2: "build E (Build_icmp SPIDIR_ICMP_EQ t b m1) s1 = Inr (ie, s2)" and 3: "iconst E t 1 s2 = Inr (one, s3)" and
    4: "binary E Op_isub ie one s3 = Inr (mk, s4)" and 5: "binary E Op_and a mk s4 = Inr (x, s5)" and
    6: "binary E Op_srem x b s5 = Inr (r, s')"
    using assms(1) unfolding emit_srem_def bind_run by (elim exE conjE) (rule that)
  note m5 = binary_node [OF 6 assms(2)]
  note m4 = binary_node [OF 5 m5(1)]
  note m3 = binary_node [OF 4 m4(1)]
  note m2 = const_node [OF 3 m3(1)]
  note m1 = compare_node [OF 2 m2(1)]
  note m0 = const_node [OF 1 m1(1)]
  have ie: "ty M ie = t \<and> rd ie = (if rd b = - 1 then 1 else 0)"
    using m1(2) [OF rd assms(5) refl] m0(2) [OF rd] assms(7) by simp
  have mk: "rd mk = (if rd b = - 1 then 1 else 0) - 1" using m3(2) [OF rd] ie m2(2) [OF rd] by simp
  have x: "ty M x = t \<and> rd x = rd a AND rd mk" using m4(2) [OF rd assms(4)] by simp
  have "ty M r = t \<and> gives (node_op Op_srem (rd x) (rd b)) (rd r)" using m5(2) [OF rd] x by simp
  then show ?thesis using masked_rem [OF mk] x by metis
qed

lemma arith_code:
  fixes rd :: "u32 \<Rightarrow> 'w::len word"
  assumes "nth_op binopi_ops k s = Inr (f, s1)"
    and "(if k = 5 then emit_srem E t a b else binary E f a b) s1 = Inr (r, s')" and "meant E M (jc_trace s')"
    and rd: "reads_width M t rd" and a: "ty M a = t" and b: "ty M b = t" and "t = SPIDIR_TYPE_I32 \<longrightarrow> LENGTH('w) = 32"
    and "ucast (if t = SPIDIR_TYPE_I32 then 0xFFFFFFFF else - 1 :: u64) = (- 1 :: 'w word)" and base: "base \<in> {0x6A, 0x7C}"
  shows "ty M r = t \<and> gives (wasm_arith (base + k) (rd a) (rd b)) (rd r)"
proof -
  have k: "unat k < 10" "f = binopi_ops ! unat k"
    using assms(1) by (auto simp: nth_op_def binopi_ops_def run split: if_splits)
  show ?thesis
  proof (cases "k = 5")
    case True
    then show ?thesis
      using srem_code [OF _ assms(3-8)] assms(2) by (simp add: wasm_arith_rem [OF base])
  next
    case False
    then have "binary E f a b s1 = Inr (r, s')" using assms(2) by simp
    from binary_node(2) [OF this assms(3) rd a] show ?thesis
      by (simp add: wasm_arith_node [OF base k(1) False] k(2))
  qed
qed

text \<open>
  C4: The code emitted for an integer operation of either width leaves on the stack what
  WebAssembly defines, wherever the operation does not trap: the remainder by -1 included, for
  which the machine instruction itself would trap on the smallest integer.
\<close>

theorem arithmetic_instructions:
  assumes "jit_wasm_binopi E s = Inr (u, s')" and "meant E M (jc_trace s')" and "typed M (operands s)"
  shows "\<exists>t b a r st. operands s = [\<lparr>jv_value = b, jv_type = t\<rparr>, \<lparr>jv_value = a, jv_type = t\<rparr>] @ st \<and>
    operands s' = \<lparr>jv_value = r, jv_type = t\<rparr> # st \<and> ty M r = t \<and>
    (t = SPIDIR_TYPE_I32 \<and> 0x6A \<le> opcode_of s \<and> opcode_of s \<le> 0x73 \<and>
       gives (wasm_arith (opcode_of s) (val32 M a) (val32 M b)) (val32 M r) \<or>
     t = SPIDIR_TYPE_I64 \<and> 0x7C \<le> opcode_of s \<and> opcode_of s \<le> 0x85 \<and>
       gives (wasm_arith (opcode_of s) (val M a) (val M b)) (val M r))"
proof -
  obtain t k s0 b a f r s1 s2 s3 s4 where
    op: "pull_ranged [(0x6A, 0x73, SPIDIR_TYPE_I32), (0x7C, 0x85, SPIDIR_TYPE_I64)] s = Inr ((t, k), s0)"
    and pops: "jit_pop t s0 = Inr (b, s1)" "jit_pop t s1 = Inr (a, s2)"
    and code: "nth_op binopi_ops k s2 = Inr (f, s3)" "(if k = 5 then emit_srem E t a b else binary E f a b) s3 = Inr (r, s4)"
    and push: "jit_push t r s4 = Inr (u, s')"
    using assms(1) unfolding jit_wasm_binopi_def bind_run split_paired_Ex prod.case by (elim exE conjE) (rule that)
  note stack = pop_operands(1) [OF pops(1)] pop_operands(1) [OF pops(2)] jit_push_run [OF push, THEN conjunct2, THEN conjunct1]
  have rest: "operands s4 = operands s2"
    using code by (auto simp: run emit_srem_def nth_op_def operands_def split: if_splits)
  have m: "meant E M (jc_trace s4)" using assms(2) jit_push_run [OF push] by simp
  have s0: "s0 = s" using two_ranges [OF op] by simp
  have tys: "ty M a = t" "ty M b = t" using assms(3) stack(1,2) s0 by simp_all
  note result = arith_code [OF code m _ tys]
  from two_ranges [OF op] consider
    "t = SPIDIR_TYPE_I32" "k = opcode_of s - 0x6A" "0x6A \<le> opcode_of s" "opcode_of s \<le> 0x73"
    | "t = SPIDIR_TYPE_I64" "k = opcode_of s - 0x7C" "0x7C \<le> opcode_of s" "opcode_of s \<le> 0x85"
    by auto
  then show ?thesis
  proof cases
    case 1
    from result [of "val32 M" "0x6A"] 1 reads_32
    have "ty M r = t \<and> gives (wasm_arith (0x6A + k) (val32 M a) (val32 M b)) (val32 M r)" by simp
    then show ?thesis using 1 stack s0 rest by auto
  next
    case 2
    from result [of "val M" "0x7C"] 2 reads_64
    have "ty M r = t \<and> gives (wasm_arith (0x7C + k) (val M a) (val M b)) (val M r)" by simp
    then show ?thesis using 2 stack s0 rest by auto
  qed
qed

section \<open>Comparisons\<close>

text \<open>The integer comparisons of WebAssembly by opcode.\<close>

definition wasm_compare :: "u8 \<Rightarrow> 'w::len word \<Rightarrow> 'w word \<Rightarrow> bool" where
  "wasm_compare opcode a b \<longleftrightarrow>
     (if opcode \<in> {0x46, 0x51} then a = b
      else if opcode \<in> {0x47, 0x52} then a \<noteq> b
      else if opcode \<in> {0x48, 0x53} then sint a < sint b
      else if opcode \<in> {0x49, 0x54} then unat a < unat b
      else if opcode \<in> {0x4A, 0x55} then sint a > sint b
      else if opcode \<in> {0x4B, 0x56} then unat a > unat b
      else if opcode \<in> {0x4C, 0x57} then sint a \<le> sint b
      else if opcode \<in> {0x4D, 0x58} then unat a \<le> unat b
      else if opcode \<in> {0x4E, 0x59} then sint a \<ge> sint b
      else unat a \<ge> unat b)"

lemma wasm_compare_node:
  assumes "base \<in> {0x45, 0x50}" and "unat (k :: u8) < 11" and "k \<noteq> 0"
  shows "wasm_compare (base + k) a b =
    (case cmpi_kinds ! unat k of (kind, swap) \<Rightarrow> if swap then node_cmp kind b a else node_cmp kind a b)"
proof -
  have "unat k = unat (10 :: u8) \<or> unat k < 10" using assms(2) by auto
  then have "k = 10 \<or> k \<in> {0, 1, 2, 3, 4, 5, 6, 7, 8, 9}"
    using byte_below_ten unfolding word_unat_eq_iff [symmetric] by blast
  then show ?thesis
    using assms(1,3)
    by (elim disjE insertE emptyE; simp add: wasm_compare_def cmpi_kinds_def word_less_nat_alt word_le_nat_alt)
qed

lemma compare_code:
  fixes rd :: "u32 \<Rightarrow> 'w::len word"
  assumes "nth_op cmpi_kinds k s = Inr ((kind, swap), s1)"
    and "build E (if swap then Build_icmp kind SPIDIR_TYPE_I32 b a else Build_icmp kind SPIDIR_TYPE_I32 a b) s1 = Inr (r, s')"
    and "meant E M (jc_trace s')" and rd: "reads_width M t rd" and a: "ty M a = t" and b: "ty M b = t"
    and base: "base \<in> {0x45, 0x50}" and zero: "k = 0 \<Longrightarrow> rd a = 0"
  shows "ty M r = SPIDIR_TYPE_I32 \<and>
    val32 M r = (if k = 0 \<and> rd b = 0 \<or> k \<noteq> 0 \<and> wasm_compare (base + k) (rd a) (rd b) then 1 else 0)"
proof -
  have k: "unat k < 11" "(kind, swap) = cmpi_kinds ! unat k" and s1: "s1 = s"
    using assms(1) by (auto simp: nth_op_def cmpi_kinds_def run split: if_splits)
  have "ty M r = SPIDIR_TYPE_I32 \<and> val32 M r =
    (if (if swap then node_cmp kind (rd b) (rd a) else node_cmp kind (rd a) (rd b)) then 1 else 0)"
  proof (cases swap)
    case True
    then show ?thesis using compare_node(3) [OF _ assms(3) rd b refl] assms(2) by simp
  next
    case False
    then show ?thesis using compare_node(3) [OF _ assms(3) rd a refl] assms(2) by simp
  qed
  moreover have "kind = SPIDIR_ICMP_EQ \<and> \<not> swap" if "k = 0" using k(2) that by (simp add: cmpi_kinds_def)
  moreover have "wasm_compare (base + k) (rd a) (rd b) = (if swap then node_cmp kind (rd b) (rd a) else node_cmp kind (rd a) (rd b))"
    if "k \<noteq> 0" unfolding wasm_compare_node [OF base k(1) that] k(2) [symmetric] by simp
  ultimately show ?thesis using zero by (cases "k = 0") auto
qed

text \<open>
  C22: The code emitted for an integer comparison leaves 1 or 0 on the stack as an i32, as
  WebAssembly's table of comparisons says; greater and greater-or-equal by exchanging the operands,
  the test for zero as a comparison with a constant.
\<close>

theorem comparison_instructions:
  assumes "jit_wasm_cmpi E s = Inr (u, s')" and "meant E M (jc_trace s')" and "typed M (operands s)"
  shows "\<exists>r st holds. operands s' = \<lparr>jv_value = r, jv_type = SPIDIR_TYPE_I32\<rparr> # st \<and> ty M r = SPIDIR_TYPE_I32 \<and>
    val32 M r = (if holds then 1 else 0) \<and>
    (case operands s of [] \<Rightarrow> False | b # below \<Rightarrow>
      if opcode_of s = 0x45 then jv_type b = SPIDIR_TYPE_I32 \<and> below = st \<and> holds = (val32 M (jv_value b) = 0)
      else if opcode_of s = 0x50 then jv_type b = SPIDIR_TYPE_I64 \<and> below = st \<and> holds = (val M (jv_value b) = 0)
      else (\<exists>a. below = a # st \<and> jv_type a = jv_type b \<and>
        (jv_type b = SPIDIR_TYPE_I32 \<and> 0x46 \<le> opcode_of s \<and> opcode_of s \<le> 0x4F \<and>
           holds = wasm_compare (opcode_of s) (val32 M (jv_value a)) (val32 M (jv_value b)) \<or>
         jv_type b = SPIDIR_TYPE_I64 \<and> 0x51 \<le> opcode_of s \<and> opcode_of s \<le> 0x5A \<and>
           holds = wasm_compare (opcode_of s) (val M (jv_value a)) (val M (jv_value b)))))"
proof -
  obtain t k s0 b a kind swap r s1 s2 s3 s4 where
    op: "pull_ranged [(0x45, 0x4F, SPIDIR_TYPE_I32), (0x50, 0x5A, SPIDIR_TYPE_I64)] s = Inr ((t, k), s0)"
    and pop: "jit_pop t s0 = Inr (b, s1)" and a: "(if k = 0 then iconst E t 0 else jit_pop t) s1 = Inr (a, s2)"
    and code: "nth_op cmpi_kinds k s2 = Inr ((kind, swap), s3)"
      "build E (if swap then Build_icmp kind SPIDIR_TYPE_I32 b a else Build_icmp kind SPIDIR_TYPE_I32 a b) s3 = Inr (r, s4)"
    and push: "jit_push SPIDIR_TYPE_I32 r s4 = Inr (u, s')"
    using assms(1) unfolding jit_wasm_cmpi_def bind_run split_paired_Ex prod.case by (elim exE conjE) (rule that)
  have rest: "operands s4 = operands s2" "meant E M (jc_trace s4) \<longrightarrow> meant E M (jc_trace s2)"
    using code by (auto simp: run nth_op_def operands_def split: if_splits)
  have m: "meant E M (jc_trace s4)" using assms(2) jit_push_run [OF push] by simp
  have s0: "s0 = s" using two_ranges [OF op] by simp
  note stack = pop_operands [OF pop] jit_push_run [OF push, THEN conjunct2, THEN conjunct1]
  have b: "ty M b = t" using assms(3) stack(1) s0 by simp
  have zero: "operands s2 = operands s1" "ty M a = t" "reads_width M t rd \<Longrightarrow> rd a = 0" if "k = 0" for rd :: "u32 \<Rightarrow> 'w::len word"
    using a that m rest(2) const_node(2) [of E t 0 s1 a s2 M] by (auto simp: operands_def run)
  have other: "operands s1 = \<lparr>jv_value = a, jv_type = t\<rparr> # operands s2" "ty M a = t" if "k \<noteq> 0"
    using a that pop_operands(1) [of t s1 a s2] assms(3) stack(1) s0 by auto
  have ta: "ty M a = t" using zero(2) other(2) by (cases "k = 0") auto
  note result = compare_code [OF code m _ ta b]
  from two_ranges [OF op] consider
    "t = SPIDIR_TYPE_I32" "k = opcode_of s - 0x45" "0x45 \<le> opcode_of s" "opcode_of s \<le> 0x4F"
    | "t = SPIDIR_TYPE_I64" "k = opcode_of s - 0x50" "0x50 \<le> opcode_of s" "opcode_of s \<le> 0x5A"
    by auto
  then show ?thesis
  proof cases
    case 1
    have r: "ty M r = SPIDIR_TYPE_I32" "val32 M r = (if k = 0 \<and> val32 M b = 0 \<or> k \<noteq> 0 \<and> wasm_compare (0x45 + k) (val32 M a) (val32 M b) then 1 else 0)"
      using result [of "val32 M" "0x45"] zero(3) [of "val32 M"] 1 by (simp_all add: reads_32)
    show ?thesis
    proof (cases "k = 0")
      case True
      then have o: "opcode_of s = 0x45" using 1 by simp
      show ?thesis using r True stack s0 rest(1) zero(1) 1(1) unfolding o by simp
    next
      case False
      then have o: "opcode_of s \<noteq> 0x45" "wasm_compare (0x45 + k) (val32 M a) (val32 M b) = wasm_compare (opcode_of s) (val32 M a) (val32 M b)"
        using 1 by simp_all
      then have "0x46 \<le> opcode_of s" using 1(3) inc_le [of "0x45" "opcode_of s"] by simp
      then show ?thesis
        using r False stack s0 rest(1) other(1) 1(1,4) unfolding o(2)
        by (intro exI [of _ r] exI [of _ "operands s2"] exI [of _ "wasm_compare (opcode_of s) (val32 M a) (val32 M b)"]) (auto simp: o(1))
    qed
  next
    case 2
    have r: "ty M r = SPIDIR_TYPE_I32" "val32 M r = (if k = 0 \<and> val M b = 0 \<or> k \<noteq> 0 \<and> wasm_compare (0x50 + k) (val M a) (val M b) then 1 else 0)"
      using result [of "val M" "0x50"] zero(3) [of "val M"] 2 by (simp_all add: reads_64)
    show ?thesis
    proof (cases "k = 0")
      case True
      then have o: "opcode_of s = 0x50" using 2 by simp
      show ?thesis using r True stack s0 rest(1) zero(1) 2(1) unfolding o by simp
    next
      case False
      then have o: "opcode_of s \<noteq> 0x50" "wasm_compare (0x50 + k) (val M a) (val M b) = wasm_compare (opcode_of s) (val M a) (val M b)"
        using 2 by simp_all
      then have "0x51 \<le> opcode_of s" using 2(3) inc_le [of "0x50" "opcode_of s"] by simp
      then show ?thesis
        using r False stack s0 rest(1) other(1) 2(1,4) unfolding o(2)
        by (intro exI [of _ r] exI [of _ "operands s2"] exI [of _ "wasm_compare (opcode_of s) (val M a) (val M b)"]) (auto simp: o(1))
    qed
  qed
qed

section \<open>Witnesses\<close>

text \<open>A state after reading an opcode, with operands on the stack, and a meaning by a table of values.\<close>

definition sample_inst :: "u8 \<Rightarrow> jit_value list \<Rightarrow> jit_inst" where
  "sample_inst opcode stack =
     \<lparr>jc_trace = [], jc_functions = [], jc_globals = [], jc_tables = [], jc_data = [], jc_queue = [],
      jc_helpers = (\<lambda>_. None), fn_code = \<lparr>past = [opcode], rest = []\<rparr>, fn_locals = [],
      fn_ret_type = SPIDIR_TYPE_NONE, fn_labels = [(new_label SPIDIR_TYPE_NONE)\<lparr>lb_stack := stack\<rparr>]\<rparr>"

definition table_meaning :: "(u32 \<times> u64 \<times> spidir_value_type) list \<Rightarrow> meaning" where
  "table_meaning xs =
     \<lparr>val = (\<lambda>v. case map_of xs v of None \<Rightarrow> 0 | Some (x, t) \<Rightarrow> x),
      ty = (\<lambda>v. case map_of xs v of None \<Rightarrow> SPIDIR_TYPE_NONE | Some (x, t) \<Rightarrow> t), arg = (\<lambda>_. 0x10000)\<rparr>"

definition runs_with :: "meaning \<Rightarrow> ('a \<times> jit_inst) res \<Rightarrow> bool" where
  "runs_with M r = (case r of Inl _ \<Rightarrow> False | Inr (_, s) \<Rightarrow> meant sample_env M (jc_trace s))"

lemma runs_withE:
  assumes "runs_with M r"
  obtains u s where "r = Inr (u, s)" and "meant sample_env M (jc_trace s)"
  using assms by (auto simp: runs_with_def split: sum.splits)

text \<open>The address of \<open>i32.load offset=8\<close> at index -1, with rubbish in the upper half of the register.\<close>

abbreviation "address_meaning \<equiv> table_meaning
  [(100, 0xABCDEF01FFFFFFFF, SPIDIR_TYPE_I32), (1, 0x12345678FFFFFFFF, SPIDIR_TYPE_I64),
   (2, 0xFFFFFFFF, SPIDIR_TYPE_I64), (3, 0xFFFFFFFF, SPIDIR_TYPE_I64), (4, 8, SPIDIR_TYPE_I64),
   (5, 0x100000007, SPIDIR_TYPE_I64), (6, 0x10000, SPIDIR_TYPE_PTR), (7, 0x100010007, SPIDIR_TYPE_PTR)]"

lemma effective_address_witness:
  "\<exists>addr s'. jit_wasm_calculate_addr sample_env \<lparr>ma_index = 0, ma_align = 2, ma_offset = 8\<rparr> 100 (sample_inst 0x28 []) = Inr (addr, s') \<and>
     val address_meaning addr = 0x10000 + 0x100000007"
proof -
  have "runs_with address_meaning (jit_wasm_calculate_addr sample_env \<lparr>ma_index = 0, ma_align = 2, ma_offset = 8\<rparr> 100 (sample_inst 0x28 []))"
    by code_simp
  then obtain addr s' where s': "jit_wasm_calculate_addr sample_env \<lparr>ma_index = 0, ma_align = 2, ma_offset = 8\<rparr> 100 (sample_inst 0x28 []) = Inr (addr, s')"
    and m: "meant sample_env address_meaning (jc_trace s')" by (rule runs_withE)
  have "arg address_meaning 0 = 0x10000" "take_bit 32 (val address_meaning 100) = 0xFFFFFFFF" by code_simp+
  then show ?thesis using effective_address [OF s' m] s' by simp
qed

text \<open>Rotating \<open>0x80000001\<close> left by 33.\<close>

abbreviation "rotation_meaning \<equiv> table_meaning
  (map (\<lambda>(v, x). (v, x, SPIDIR_TYPE_I32))
    [(100, 33), (101, 0x80000001), (1, 31), (2, 1), (3, 32), (4, 2), (5, 31), (6, 31), (7, 1), (8, 3)])"

abbreviation "two_operands t \<equiv> [\<lparr>jv_value = 100, jv_type = t\<rparr>, \<lparr>jv_value = 101, jv_type = t\<rparr>]"

lemma opcode_of_sample [simp]: "opcode_of (sample_inst opcode xs) = opcode" "operands (sample_inst opcode xs) = xs"
  by (simp_all add: opcode_of_def operands_def sample_inst_def)

lemma shift_instructions_witness:
  "\<exists>s' r st. jit_wasm_shift sample_env (sample_inst 0x77 (two_operands SPIDIR_TYPE_I32)) = Inr ((), s') \<and>
     operands s' = r # st \<and> val32 rotation_meaning (jv_value r) = 3"
proof -
  have "runs_with rotation_meaning (jit_wasm_shift sample_env (sample_inst 0x77 (two_operands SPIDIR_TYPE_I32)))"
    by code_simp
  then obtain u s' where s': "jit_wasm_shift sample_env (sample_inst 0x77 (two_operands SPIDIR_TYPE_I32)) = Inr (u, s')"
    and m: "meant sample_env rotation_meaning (jc_trace s')" by (rule runs_withE)
  have t: "typed rotation_meaning (operands (sample_inst 0x77 (two_operands SPIDIR_TYPE_I32)))" by code_simp
  have "wasm_shift 0x77 (val32 rotation_meaning 100) (val32 rotation_meaning 101) = 3" by code_simp
  then show ?thesis using shift_instructions [OF s' m t] s' by auto
qed

text \<open>The smallest 64-bit integer modulo -1.\<close>

abbreviation "remainder_meaning \<equiv> table_meaning
  (map (\<lambda>(v, x). (v, x, SPIDIR_TYPE_I64))
    [(100, - 1), (101, 0x8000000000000000), (1, - 1), (2, 1), (3, 1), (4, 0), (5, 0), (6, 0)])"

lemma arithmetic_instructions_witness:
  "\<exists>s' r st. jit_wasm_binopi sample_env (sample_inst 0x81 (two_operands SPIDIR_TYPE_I64)) = Inr ((), s') \<and>
     operands s' = r # st \<and> val remainder_meaning (jv_value r) = 0"
proof -
  have "runs_with remainder_meaning (jit_wasm_binopi sample_env (sample_inst 0x81 (two_operands SPIDIR_TYPE_I64)))" by code_simp
  then obtain u s' where s': "jit_wasm_binopi sample_env (sample_inst 0x81 (two_operands SPIDIR_TYPE_I64)) = Inr (u, s')"
    and m: "meant sample_env remainder_meaning (jc_trace s')" by (rule runs_withE)
  have t: "typed remainder_meaning (operands (sample_inst 0x81 (two_operands SPIDIR_TYPE_I64)))" by code_simp
  have "wasm_arith 0x81 (val remainder_meaning 101) (val remainder_meaning 100) = Some 0" by code_simp
  then show ?thesis using arithmetic_instructions [OF s' m t] s' by auto
qed

text \<open>5 is greater than -1 as a signed integer.\<close>

abbreviation "greater_meaning \<equiv> table_meaning
  (map (\<lambda>(v, x). (v, x, SPIDIR_TYPE_I32)) [(100, 0xFFFFFFFF), (101, 5), (1, 1)])"

lemma comparison_instructions_witness:
  "\<exists>s' r st. jit_wasm_cmpi sample_env (sample_inst 0x4A (two_operands SPIDIR_TYPE_I32)) = Inr ((), s') \<and>
     operands s' = r # st \<and> val32 greater_meaning (jv_value r) = 1"
proof -
  have "runs_with greater_meaning (jit_wasm_cmpi sample_env (sample_inst 0x4A (two_operands SPIDIR_TYPE_I32)))" by code_simp
  then obtain u s' where s': "jit_wasm_cmpi sample_env (sample_inst 0x4A (two_operands SPIDIR_TYPE_I32)) = Inr (u, s')"
    and m: "meant sample_env greater_meaning (jc_trace s')" by (rule runs_withE)
  have t: "typed greater_meaning (operands (sample_inst 0x4A (two_operands SPIDIR_TYPE_I32)))" by code_simp
  have "wasm_compare 0x4A (val32 greater_meaning 101) (val32 greater_meaning 100)" by code_simp
  then show ?thesis using comparison_instructions [OF s' m t] s' by auto
qed

end
