(* ===== verification/Codegen.thy ===== *)
theory Codegen
  imports Jit_Driver Hmap
begin

text \<open>
  Code generation, src/jit/codegen.c, first part: the functions that are compiled and where their
  code and constants go.

  The compiler library stays a parameter. \<open>cg_emit\<close> gives the blob it produces for a function of
  the module, if it produces one; the bytes of a blob, its constants and its relocations are
  whatever they are. The headers of the library are not part of this code base, so the fields
  of a relocation have the types the code here needs: an offset as wide as \<open>size_t\<close>, an addend
  of 64 bits.

  \<open>codegen_ctx\<close> is \<open>codegen_ctx_t\<close>. The maps are the hash maps of \<open>Hmap\<close>, used through the
  operations of src/util/hmap.c. The vector of functions is kept in order, the queue last entry
  first, since the code pops at the end. The offsets of a function are \<open>uint32_t\<close>, the sizes
  they are computed from \<open>size_t\<close>.
\<close>

section \<open>What the library produces\<close>

datatype reloc_kind = SPIDIR_RELOC_X64_PC32 | SPIDIR_RELOC_X64_ABS64 | Reloc_other

datatype libcall_kind = SPIDIR_LIBCALL_X64_POPCNT32 | SPIDIR_LIBCALL_X64_POPCNT64 | Libcall_other

datatype reloc_target =
    Target_constpool
  | Target_global u32
  | Target_internal_function u32
  | Target_external_function u32
  | Target_libcall libcall_kind
  | Target_other

record reloc =
  rl_offset :: u64
  rl_addend :: u64
  rl_kind :: reloc_kind
  rl_target :: reloc_target

record blob =
  bl_code :: "u8 list"
  bl_constpool :: "u8 list"
  bl_constpool_align :: u64
  bl_relocs :: "reloc list"

text \<open>
  The embedder's part: the page size, the memory for the binary (null is 0), whether it can be
  locked, and the addresses the C compiler gave to the helpers and to the two libcalls.
\<close>

record codegen_env =
  cg_emit :: "u32 \<Rightarrow> blob option"
  cg_host :: host
  cg_page_size :: u64
  cg_jit_alloc :: "u64 \<Rightarrow> u64 \<Rightarrow> u64"
  cg_jit_lock :: bool
  cg_helper_address :: "jit_helper_kind \<Rightarrow> u64"
  cg_popcnt32 :: u64
  cg_popcnt64 :: u64
  cg_module :: wasm_module
  cg_capture_debug :: bool

section \<open>State\<close>

text \<open>
  The field \<open>blob\<close> of a function: \<open>vec_add\<close> leaves it as \<open>realloc\<close> does, the library stores a handle
  there, and linking sets it to null.
\<close>

datatype blob_handle = Uninitialised | Null_handle | Handle blob

record function_codegen =
  fc_blob :: blob_handle
  fc_function :: u32
  code_offset :: u32
  constpool_offset :: u32

record codegen_ctx =
  cg_queue :: "u32 list"
  cg_functions :: "function_codegen list"
  func_to_idx :: hmap
  global_offsets :: hmap
  import_addresses :: hmap
  code_size :: u64
  rodata_size :: u64

type_synonym ('x, 'a) cg_op = "('x codegen_ctx_scheme, 'a) sm"

definition insert_func :: "codegen_env \<Rightarrow> u32 \<Rightarrow> u64 \<Rightarrow> ('x, unit) cg_op" where
  "insert_func L f i = on_part func_to_idx (\<lambda>t s. s\<lparr>func_to_idx := t\<rparr>) (hmap_insert (cg_host L) (ucast f) i)"

definition insert_global :: "codegen_env \<Rightarrow> u32 \<Rightarrow> u64 \<Rightarrow> ('x, unit) cg_op" where
  "insert_global L g off = on_part global_offsets (\<lambda>t s. s\<lparr>global_offsets := t\<rparr>) (hmap_insert (cg_host L) (ucast g) off)"

definition insert_import :: "codegen_env \<Rightarrow> u32 \<Rightarrow> u64 \<Rightarrow> ('x, unit) cg_op" where
  "insert_import L f a = on_part import_addresses (\<lambda>t s. s\<lparr>import_addresses := t\<rparr>) (hmap_insert (cg_host L) (ucast f) a)"

section \<open>Compiling a function\<close>

definition jit_codegen_visited_function :: "u32 \<Rightarrow> 'x codegen_ctx_scheme \<Rightarrow> bool" where
  "jit_codegen_visited_function f s \<longleftrightarrow> hmap_lookup (func_to_idx s) (ucast f) \<noteq> None"

text \<open>The entry \<open>vec_add\<close> appends, with the function stored in it; offsets not yet set are 0 here.\<close>

definition add_function :: "u32 \<Rightarrow> ('x, unit) cg_op" where
  "add_function f = modify (\<lambda>s. s\<lparr>cg_functions := cg_functions s @
     [\<lparr>fc_blob = Uninitialised, fc_function = f, code_offset = 0, constpool_offset = 0\<rparr>]\<rparr>)"

definition update_last :: "(function_codegen \<Rightarrow> function_codegen) \<Rightarrow> ('x, unit) cg_op" where
  "update_last g = modify (\<lambda>s. s\<lparr>cg_functions := butlast (cg_functions s) @ [g (last (cg_functions s))]\<rparr>)"

definition place_code :: "blob \<Rightarrow> ('x, unit) cg_op" where
  "place_code b =
     bind (modify (\<lambda>s. s\<lparr>code_size := align_up (code_size s) 16\<rparr>)) (\<lambda>_.
     bind (modify (\<lambda>s. s\<lparr>code_size := code_size s + 16\<rparr>)) (\<lambda>_.
     bind (gets code_size) (\<lambda>off.
     bind (update_last (\<lambda>f. f\<lparr>code_offset := ucast off\<rparr>)) (\<lambda>_.
     modify (\<lambda>s. s\<lparr>code_size := code_size s + word_of_nat (length (bl_code b))\<rparr>)))))"

definition place_constpool :: "blob \<Rightarrow> ('x, unit) cg_op" where
  "place_constpool b =
     (let constpool_size = length (bl_constpool b) in
      if constpool_size \<noteq> 0 then
        bind (modify (\<lambda>s. s\<lparr>rodata_size := rodata_size s + align_up (rodata_size s) (bl_constpool_align b)\<rparr>)) (\<lambda>_.
        bind (gets rodata_size) (\<lambda>off.
        bind (update_last (\<lambda>f. f\<lparr>constpool_offset := ucast off\<rparr>)) (\<lambda>_.
        modify (\<lambda>s. s\<lparr>rodata_size := rodata_size s + word_of_nat constpool_size\<rparr>))))
      else update_last (\<lambda>f. f\<lparr>constpool_offset := - 1\<rparr>))"

definition queue_callee :: "reloc \<Rightarrow> ('x, unit) cg_op" where
  "queue_callee r =
     (case rl_target r of
        Target_internal_function f \<Rightarrow>
          bind (gets (jit_codegen_visited_function f)) (\<lambda>visited.
          if \<not> visited then modify (\<lambda>s. s\<lparr>cg_queue := f # cg_queue s\<rparr>) else ret ())
      | _ \<Rightarrow> ret ())"

definition jit_codegen_function :: "codegen_env \<Rightarrow> u32 \<Rightarrow> ('x, unit) cg_op" where
  "jit_codegen_function L f =
     bind (gets (jit_codegen_visited_function f)) (\<lambda>visited.
     if visited then ret ()
     else
       bind (add_function f) (\<lambda>_.
       bind (gets (\<lambda>s. length (cg_functions s))) (\<lambda>n.
       bind (insert_func L f (word_of_nat (n - 1))) (\<lambda>_.
       case cg_emit L f of
         None \<Rightarrow> fail Check_failed
       | Some b \<Rightarrow>
           bind (update_last (\<lambda>x. x\<lparr>fc_blob := Handle b\<rparr>)) (\<lambda>_.
           bind (place_code b) (\<lambda>_.
           bind (place_constpool b) (\<lambda>_.
           for_each (bl_relocs b) queue_callee)))))))"

text \<open>\<open>ctx->functions[funcidx]\<close> is read-only from here on: \<open>fs\<close>.\<close>

definition jit_try_codegen_function :: "codegen_env \<Rightarrow> jit_function list \<Rightarrow> u32 \<Rightarrow> ('x, unit) cg_op" where
  "jit_try_codegen_function L fs funcidx =
     bind (index fs (unat funcidx)) (\<lambda>func.
     bind (check (jf_inited func)) (\<lambda>_.
     bind (case jf_spidir func of
             Some (Funcref_internal f) \<Rightarrow> jit_codegen_function L f
           | _ \<Rightarrow> ret ()) (\<lambda>_.
     if jf_has_cfi func then jit_codegen_function L (jf_cfi_thunk func) else ret ())))"

definition codegen_export :: "codegen_env \<Rightarrow> jit_function list \<Rightarrow> wasm_export \<Rightarrow> ('x, unit) cg_op" where
  "codegen_export L fs e =
     (if export_kind e = WASM_EXPORT_FUNC then jit_try_codegen_function L fs (export_index e) else ret ())"

definition codegen_import :: "codegen_env \<Rightarrow> jit_function list \<Rightarrow> nat \<times> wasm_import \<Rightarrow> ('x, unit) cg_op" where
  "codegen_import L fs x =
     (case x of (i, import) \<Rightarrow>
        if import_kind import = WASM_EXTERN_FUNC then
          bind (index fs i) (\<lambda>func.
          bind (check (jf_inited func)) (\<lambda>_.
          case jf_spidir func of
            Some (Funcref_external f) \<Rightarrow> insert_import L f (jf_address func)
          | _ \<Rightarrow> fail Check_failed))
        else ret ())"

definition codegen_elem :: "codegen_env \<Rightarrow> jit_function list \<Rightarrow> wasm_elem_segment \<Rightarrow> ('x, unit) cg_op" where
  "codegen_elem L fs e = for_each (elem_funcs e) (jit_try_codegen_function L fs)"

definition codegen_roots :: "codegen_env \<Rightarrow> jit_function list \<Rightarrow> ('x, unit) cg_op" where
  "codegen_roots L fs =
     (let m = cg_module L in
     bind (for_each (mod_exports m) (codegen_export L fs)) (\<lambda>_.
     bind (for_each (zip [0..<length (mod_imports m)] (mod_imports m)) (codegen_import L fs)) (\<lambda>_.
     bind (for_each (mod_elems m) (codegen_elem L fs)) (\<lambda>_.
     if mod_start_func m \<ge> 0 then jit_try_codegen_function L fs (word_of_int (mod_start_func m)) else ret ()))))"

text \<open>The loop \<open>while (codegen->queue.length != 0)\<close>; \<open>None\<close> if it never ends.\<close>

partial_function (option) drain_codegen_queue ::
    "codegen_env \<Rightarrow> 'x codegen_ctx_scheme \<Rightarrow> (unit \<times> 'x codegen_ctx_scheme) res option" where
  "drain_codegen_queue L s =
     (case cg_queue s of
        [] \<Rightarrow> Some (Inr ((), s))
      | f # queue \<Rightarrow>
          (case jit_codegen_function L f (s\<lparr>cg_queue := queue\<rparr>) of
             Inl e \<Rightarrow> Some (Inl e)
           | Inr (_, s') \<Rightarrow> drain_codegen_queue L s'))"

declare drain_codegen_queue.simps [code]

definition jit_codegen_functions ::
    "codegen_env \<Rightarrow> jit_function list \<Rightarrow> 'x codegen_ctx_scheme \<Rightarrow> (unit \<times> 'x codegen_ctx_scheme) res option" where
  "jit_codegen_functions L fs s =
     (case codegen_roots L fs s of
        Inl e \<Rightarrow> Some (Inl e)
      | Inr (_, s') \<Rightarrow> drain_codegen_queue L s')"

section \<open>Tables\<close>

definition codegen_table :: "codegen_env \<Rightarrow> jit_table \<Rightarrow> ('x, unit) cg_op" where
  "codegen_table L t =
     (if \<not> jt_used t then ret ()
      else
        bind (modify (\<lambda>s. s\<lparr>rodata_size := align_up (rodata_size s) 8\<rparr>)) (\<lambda>_.
        bind (gets rodata_size) (\<lambda>offset.
        bind (modify (\<lambda>s. s\<lparr>rodata_size := rodata_size s + 8 * ucast (jt_length t)\<rparr>)) (\<lambda>_.
        insert_global L (jt_global t) offset))))"

definition jit_codegen_tables :: "codegen_env \<Rightarrow> jit_table list \<Rightarrow> ('x, unit) cg_op" where
  "jit_codegen_tables L ts = for_each ts (codegen_table L)"

definition start_codegen :: codegen_ctx where
  "start_codegen = \<lparr>cg_queue = [], cg_functions = [], func_to_idx = HMAP_INIT, global_offsets = HMAP_INIT,
     import_addresses = HMAP_INIT, code_size = 0, rodata_size = 0\<rparr>"

end
