(* ===== verification/Codegen_Link.thy ===== *)
theory Codegen_Link
  imports Codegen
begin

text \<open>
  Code generation, src/jit/codegen.c, second part: the binary is allocated, the code and constants
  are copied into it, relocations are resolved and applied, tables and exports filled.

  \<open>linker\<close> extends the codegen context by what \<open>wasm_module_jit_t\<close> receives. The binary is the list
  \<open>lk_binary\<close> of its bytes at address \<open>lk_base\<close>; a store outside it is undefined. An address in
  it is \<open>lk_base\<close> plus an offset.
\<close>

record func_layout =
  ly_funcidx :: u32
  ly_cfi_thunk :: bool
  ly_address :: u64
  ly_code_size :: u64
  ly_const_address :: u64
  ly_const_size :: u64

record jit_reloc =
  jr_address :: u64
  jr_addend :: u64
  jr_kind :: reloc_kind
  jr_target :: reloc_target
  jr_target_funcidx :: u32
  jr_target_cfi :: bool
  jr_target_address :: u64
  jr_owner_funcidx :: u32
  jr_owner_cfi :: bool

datatype jit_export = Export_func u64 | Export_global u64 | Export_zero

record linker = codegen_ctx +
  dbg_func_to_funcidx :: hmap
  dbg_cfi_to_funcidx :: hmap
  dbg_extern_to_funcidx :: hmap
  lk_base :: u64
  lk_binary :: "u8 list"
  lk_code_extent :: u64
  lk_rodata_extent :: u64
  lk_layouts :: "func_layout list"
  lk_relocs :: "jit_reloc list"
  lk_exports :: "jit_export list"
  lk_start_func :: u64

type_synonym 'a link_op = "(linker, 'a) sm"

definition store :: "u64 \<Rightarrow> u8 list \<Rightarrow> unit link_op" where
  "store off bs = on_part lk_binary (\<lambda>m s. s\<lparr>lk_binary := m\<rparr>) (poke off bs)"

section \<open>Addresses of functions\<close>

text \<open>\<open>jit_get_indirect\<close>, on the offset of a function: an endbr64 goes to the four bytes before it.\<close>

definition jit_get_indirect :: "u64 \<Rightarrow> u64 link_op" where
  "jit_get_indirect off =
     bind (store (off - 4) [0xF3, 0x0F, 0x1E, 0xFA]) (\<lambda>_.
     ret (off - 4))"

definition lookup_func :: "u32 \<Rightarrow> function_codegen link_op" where
  "lookup_func f =
     bind (gets (\<lambda>s. hmap_lookup (func_to_idx s) (ucast f))) (\<lambda>found.
     bind (some_or_fail found) (\<lambda>i.
     bind (gets cg_functions) (\<lambda>fs.
     index fs (unat i))))"

definition jit_get_internal_function_addr :: "u32 \<Rightarrow> u64 link_op" where
  "jit_get_internal_function_addr f =
     bind (lookup_func f) (\<lambda>func.
     bind (jit_get_indirect (ucast (code_offset func))) (\<lambda>off.
     gets (\<lambda>s. lk_base s + off)))"

definition jit_get_function_addr :: "jit_function list \<Rightarrow> u32 \<Rightarrow> u64 link_op" where
  "jit_get_function_addr fs funcidx =
     bind (index fs (unat funcidx)) (\<lambda>func.
     bind (check (jf_inited func)) (\<lambda>_.
     case jf_spidir func of
       Some (Funcref_external _) \<Rightarrow> ret (jf_address func)
     | Some (Funcref_internal f) \<Rightarrow> jit_get_internal_function_addr f
     | None \<Rightarrow> fail Check_failed))"

section \<open>Reverse maps for the debug information\<close>

definition insert_dbg ::
    "codegen_env \<Rightarrow> (linker \<Rightarrow> hmap) \<Rightarrow> ((hmap \<Rightarrow> hmap) \<Rightarrow> linker \<Rightarrow> linker) \<Rightarrow> u32 \<Rightarrow> nat \<Rightarrow> unit link_op" where
  "insert_dbg L get put f i = on_part get (\<lambda>t. put (\<lambda>_. t)) (hmap_insert (cg_host L) (ucast f) (word_of_nat i))"

definition debug_map_entry :: "codegen_env \<Rightarrow> nat \<times> jit_function \<Rightarrow> unit link_op" where
  "debug_map_entry L x =
     (case x of (i, func) \<Rightarrow>
        if \<not> jf_inited func then ret ()
        else
          bind (case jf_spidir func of
                  Some (Funcref_internal f) \<Rightarrow> insert_dbg L dbg_func_to_funcidx dbg_func_to_funcidx_update f i
                | Some (Funcref_external f) \<Rightarrow> insert_dbg L dbg_extern_to_funcidx dbg_extern_to_funcidx_update f i
                | None \<Rightarrow> ret ()) (\<lambda>_.
          if jf_has_cfi func then insert_dbg L dbg_cfi_to_funcidx dbg_cfi_to_funcidx_update (jf_cfi_thunk func) i
          else ret ()))"

definition jit_codegen_prepare_debug_maps :: "codegen_env \<Rightarrow> jit_function list \<Rightarrow> unit link_op" where
  "jit_codegen_prepare_debug_maps L fs = for_each (zip [0..<length fs] fs) (debug_map_entry L)"

text \<open>The wasm function a compiled function belongs to, and whether it is the thunk.\<close>

definition debug_owner :: "u32 \<Rightarrow> (u32 \<times> bool) link_op" where
  "debug_owner f =
     bind (gets (\<lambda>s. hmap_lookup (dbg_func_to_funcidx s) (ucast f))) (\<lambda>known.
     case known of
       Some i \<Rightarrow> ret (ucast i, False)
     | None \<Rightarrow>
         bind (gets (\<lambda>s. hmap_lookup (dbg_cfi_to_funcidx s) (ucast f))) (\<lambda>thunk.
         bind (some_or_fail thunk) (\<lambda>i.
         ret (ucast i, True))))"

section \<open>Relocations\<close>

definition jit_resolve_libcall :: "codegen_env \<Rightarrow> libcall_kind \<Rightarrow> u64" where
  "jit_resolve_libcall L kind =
     (case kind of
        SPIDIR_LIBCALL_X64_POPCNT32 \<Rightarrow> cg_popcnt32 L
      | SPIDIR_LIBCALL_X64_POPCNT64 \<Rightarrow> cg_popcnt64 L
      | Libcall_other \<Rightarrow> 0)"

text \<open>The checks make \<open>value\<close> a signed 32-bit integer; \<open>code_off\<close> is the offset of the function's code.\<close>

definition jit_apply_reloc :: "u64 \<Rightarrow> u64 \<Rightarrow> reloc \<Rightarrow> u64 \<Rightarrow> unit link_op" where
  "jit_apply_reloc code_off code_len r target =
     bind (gets lk_base) (\<lambda>base.
     let F = target; P = base + code_off + rl_offset r; A = rl_addend r in
     case rl_kind r of
       SPIDIR_RELOC_X64_PC32 \<Rightarrow>
         bind (check (rl_offset r + 4 \<le> code_len)) (\<lambda>_.
         let v = F + A - P in
         bind (check (- (2 ^ 31) \<le> sint v)) (\<lambda>_.
         bind (check (sint v \<le> 2 ^ 31 - 1)) (\<lambda>_.
         store (code_off + rl_offset r) (le_bytes 4 (ucast v :: u32)))))
     | SPIDIR_RELOC_X64_ABS64 \<Rightarrow>
         bind (check (rl_offset r + 8 \<le> code_len)) (\<lambda>_.
         store (code_off + rl_offset r) (le_bytes 8 (F + A)))
     | Reloc_other \<Rightarrow> fail Check_failed)"

text \<open>
  The address of a target, with the wasm function and thunk flag recorded for the debug
  information; \<open>rodata\<close> is the address of the read-only part.
\<close>

definition resolve_reloc ::
    "codegen_env \<Rightarrow> (jit_helper_kind \<Rightarrow> u32 option) \<Rightarrow> function_codegen \<Rightarrow> reloc \<Rightarrow> (u64 \<times> u32 \<times> bool) link_op" where
  "resolve_reloc L helpers func r =
     bind (gets (\<lambda>s. lk_base s + code_size s)) (\<lambda>rodata.
     case rl_target r of
       Target_constpool \<Rightarrow> ret (rodata + ucast (constpool_offset func), UINT32_MAX, False)
     | Target_global g \<Rightarrow>
         bind (gets (\<lambda>s. hmap_lookup (global_offsets s) (ucast g))) (\<lambda>found.
         bind (some_or_fail found) (\<lambda>off.
         ret (rodata + off, UINT32_MAX, False)))
     | Target_internal_function f \<Rightarrow>
         bind (lookup_func f) (\<lambda>callee.
         bind (if rl_kind r = SPIDIR_RELOC_X64_ABS64 then jit_get_indirect (ucast (code_offset callee))
               else ret (ucast (code_offset callee))) (\<lambda>off.
         bind (if cg_capture_debug L then debug_owner f else ret (UINT32_MAX, False)) (\<lambda>(idx, cfi).
         bind (gets lk_base) (\<lambda>base.
         ret (base + off, idx, cfi)))))
     | Target_external_function f \<Rightarrow>
         (let helper = jit_helper_lookup_address (cg_helper_address L) helpers f in
          bind (if helper \<noteq> 0 then ret helper
                else
                  bind (gets (\<lambda>s. hmap_lookup (import_addresses s) (ucast f))) some_or_fail) (\<lambda>target.
          bind (gets (\<lambda>s. hmap_lookup (dbg_extern_to_funcidx s) (ucast f))) (\<lambda>import.
          ret (target,
            (case import of Some i \<Rightarrow> if cg_capture_debug L then ucast i else UINT32_MAX | None \<Rightarrow> UINT32_MAX), False))))
     | Target_libcall kind \<Rightarrow>
         bind (check (jit_resolve_libcall L kind \<noteq> 0)) (\<lambda>_.
         ret (jit_resolve_libcall L kind, UINT32_MAX, False))
     | Target_other \<Rightarrow> fail Check_failed)"

definition link_reloc ::
    "codegen_env \<Rightarrow> (jit_helper_kind \<Rightarrow> u32 option) \<Rightarrow> function_codegen \<Rightarrow> u64 \<Rightarrow> u32 \<times> bool \<Rightarrow> reloc \<Rightarrow> unit link_op" where
  "link_reloc L helpers func code_len owner r =
     bind (resolve_reloc L helpers func r) (\<lambda>(target, target_funcidx, target_cfi).
     bind (jit_apply_reloc (ucast (code_offset func)) code_len r target) (\<lambda>_.
     if cg_capture_debug L then
       modify (\<lambda>s. s\<lparr>lk_relocs := lk_relocs s @
         [\<lparr>jr_address = lk_base s + ucast (code_offset func) + rl_offset r, jr_addend = rl_addend r,
           jr_kind = rl_kind r, jr_target = rl_target r, jr_target_funcidx = target_funcidx,
           jr_target_cfi = target_cfi, jr_target_address = target,
           jr_owner_funcidx = fst owner, jr_owner_cfi = snd owner\<rparr>]\<rparr>)
     else ret ()))"

section \<open>Linking a function\<close>

definition capture_layout :: "codegen_env \<Rightarrow> function_codegen \<Rightarrow> blob \<Rightarrow> (u32 \<times> bool) link_op" where
  "capture_layout L func b =
     (if cg_capture_debug L then
        bind (debug_owner (fc_function func)) (\<lambda>owner.
        bind (modify (\<lambda>s. s\<lparr>lk_layouts := lk_layouts s @
          [\<lparr>ly_funcidx = fst owner, ly_cfi_thunk = snd owner,
            ly_address = lk_base s + ucast (code_offset func),
            ly_code_size = word_of_nat (length (bl_code b)),
            ly_const_address = (if bl_constpool b \<noteq> [] then lk_base s + code_size s + ucast (constpool_offset func) else 0),
            ly_const_size = word_of_nat (length (bl_constpool b))\<rparr>]\<rparr>)) (\<lambda>_.
        ret owner))
      else ret (UINT32_MAX, False))"

definition link_function :: "codegen_env \<Rightarrow> (jit_helper_kind \<Rightarrow> u32 option) \<Rightarrow> nat \<Rightarrow> unit link_op" where
  "link_function L helpers i =
     bind (gets cg_functions) (\<lambda>fs.
     bind (index fs i) (\<lambda>func.
     case fc_blob func of
       Handle b \<Rightarrow>
         bind (if bl_code b \<noteq> [] then store (ucast (code_offset func)) (bl_code b) else ret ()) (\<lambda>_.
         bind (gets code_size) (\<lambda>rodata.
         bind (if bl_constpool b \<noteq> [] then store (rodata + ucast (constpool_offset func)) (bl_constpool b) else ret ()) (\<lambda>_.
         bind (capture_layout L func b) (\<lambda>owner.
         bind (for_each (bl_relocs b) (link_reloc L helpers func (word_of_nat (length (bl_code b))) owner)) (\<lambda>_.
         modify (\<lambda>s. s\<lparr>cg_functions := (cg_functions s)[i := func\<lparr>fc_blob := Null_handle\<rparr>]\<rparr>))))))
     | _ \<Rightarrow> fail Undefined))"

definition jit_codegen_link :: "codegen_env \<Rightarrow> (jit_helper_kind \<Rightarrow> u32 option) \<Rightarrow> unit link_op" where
  "jit_codegen_link L helpers =
     bind (gets (\<lambda>s. length (cg_functions s))) (\<lambda>n.
     for_each [0..<n] (link_function L helpers))"

section \<open>Tables and exports\<close>

definition fill_slot :: "jit_function list \<Rightarrow> u64 \<Rightarrow> u64 \<times> u32 \<Rightarrow> unit link_op" where
  "fill_slot fs table_start x =
     (case x of (slot, funcidx) \<Rightarrow>
        bind (index fs (unat funcidx)) (\<lambda>func.
        bind (check (jf_has_cfi func)) (\<lambda>_.
        bind (jit_get_internal_function_addr (jf_cfi_thunk func)) (\<lambda>address.
        store (table_start + 8 * slot) (le_bytes 8 address)))))"

definition fill_elem :: "jit_context \<Rightarrow> wasm_elem_segment \<Rightarrow> unit link_op" where
  "fill_elem C e =
     bind (check (unat (elem_tableidx e) < length (jc_tables C))) (\<lambda>_.
     bind (index (jc_tables C) (unat (elem_tableidx e))) (\<lambda>table.
     if \<not> jt_used table then ret ()
     else
       bind (gets (\<lambda>s. hmap_lookup (global_offsets s) (ucast (jt_global table)))) (\<lambda>found.
       bind (some_or_fail found) (\<lambda>rodata_offset.
       bind (check (uint (elem_offset e) + int (length (elem_funcs e)) < 2 ^ 64)) (\<lambda>_.
       bind (check (unat (elem_offset e) + length (elem_funcs e) \<le> unat (jt_length table))) (\<lambda>_.
       bind (gets code_size) (\<lambda>rodata.
       for_each (zip (map (\<lambda>j. ucast (elem_offset e) + word_of_nat j) [0..<length (elem_funcs e)]) (elem_funcs e))
         (fill_slot (jc_functions C) (rodata + rodata_offset)))))))))"

definition jit_codegen_fill_tables :: "codegen_env \<Rightarrow> jit_context \<Rightarrow> unit link_op" where
  "jit_codegen_fill_tables L C = for_each (mod_elems (cg_module L)) (fill_elem C)"

definition fill_export :: "jit_context \<Rightarrow> wasm_export \<Rightarrow> jit_export link_op" where
  "fill_export C e =
     (case export_kind e of
        WASM_EXPORT_FUNC \<Rightarrow>
          bind (jit_get_function_addr (jc_functions C) (export_index e)) (\<lambda>a. ret (Export_func a))
      | WASM_EXPORT_GLOBAL \<Rightarrow>
          bind (index (jc_globals C) (unat (export_index e))) (\<lambda>g. ret (Export_global (jg_offset g)))
      | WASM_EXPORT_MEMORY \<Rightarrow> ret Export_zero
      | _ \<Rightarrow> fail Check_failed)"

definition jit_codegen_fill_functions :: "codegen_env \<Rightarrow> jit_context \<Rightarrow> unit link_op" where
  "jit_codegen_fill_functions L C =
     (let m = cg_module L in
     bind (check (calloc_ok (cg_host L) 8 (length (mod_exports m)))) (\<lambda>_.
     bind (map_each (mod_exports m) (fill_export C)) (\<lambda>es.
     bind (modify (\<lambda>s. s\<lparr>lk_exports := es\<rparr>)) (\<lambda>_.
     if mod_start_func m \<ge> 0 then
       bind (jit_get_function_addr (jc_functions C) (word_of_int (mod_start_func m))) (\<lambda>entry.
       modify (\<lambda>s. s\<lparr>lk_start_func := entry\<rparr>))
     else ret ()))))"

section \<open>Everything\<close>

definition start_linker :: linker where
  "start_linker = codegen_ctx.extend start_codegen
     \<lparr>dbg_func_to_funcidx = HMAP_INIT, dbg_cfi_to_funcidx = HMAP_INIT, dbg_extern_to_funcidx = HMAP_INIT,
      lk_base = 0, lk_binary = [], lk_code_extent = 0, lk_rodata_extent = 0, lk_layouts = [], lk_relocs = [], lk_exports = [], lk_start_func = 0\<rparr>"

text \<open>The binary is filled with \<open>int3\<close> and, in the read-only part, zeroes.\<close>

definition allocate_binary :: "codegen_env \<Rightarrow> unit link_op" where
  "allocate_binary L =
     bind (modify (\<lambda>s. s\<lparr>code_size := align_up (code_size s) (cg_page_size L)\<rparr>)) (\<lambda>_.
     bind (modify (\<lambda>s. s\<lparr>rodata_size := align_up (rodata_size s) (cg_page_size L)\<rparr>)) (\<lambda>_.
     bind (gets (\<lambda>s. cg_jit_alloc L (code_size s div cg_page_size L) (rodata_size s div cg_page_size L))) (\<lambda>binary.
     bind (check (binary \<noteq> 0)) (\<lambda>_.
     modify (\<lambda>s. s\<lparr>lk_base := binary,
       lk_binary := replicate (unat (code_size s)) 0xCC @ replicate (unat (rodata_size s)) 0\<rparr>)))))"

text \<open>The last step of every path: the blobs that linking has not taken are destroyed.\<close>

definition destroy_blob :: "function_codegen \<Rightarrow> unit link_op" where
  "destroy_blob f = defined (fc_blob f \<noteq> Uninitialised)"

definition codegen_cleanup :: "unit link_op" where
  "codegen_cleanup = bind (gets cg_functions) (\<lambda>fs. for_each fs destroy_blob)"

text \<open>The sizes before the alignment to pages, and room for the layouts of the functions.\<close>

definition capture_extents :: "codegen_env \<Rightarrow> u64 \<Rightarrow> u64 \<Rightarrow> unit link_op" where
  "capture_extents L code_size_orig rodata_size_orig =
     (if cg_capture_debug L then
        bind (modify (\<lambda>s. s\<lparr>lk_code_extent := code_size_orig, lk_rodata_extent := rodata_size_orig\<rparr>)) (\<lambda>_.
        bind (gets (\<lambda>s. length (cg_functions s))) (\<lambda>n.
        if n \<noteq> 0 then CALLOC (cg_host L) 40 n else ret ()))
      else ret ())"

definition link_all :: "codegen_env \<Rightarrow> jit_context \<Rightarrow> unit link_op" where
  "link_all L C =
     bind (jit_codegen_tables L (jc_tables C)) (\<lambda>_.
     bind (gets code_size) (\<lambda>code_size_orig.
     bind (gets rodata_size) (\<lambda>rodata_size_orig.
     bind (allocate_binary L) (\<lambda>_.
     bind (capture_extents L code_size_orig rodata_size_orig) (\<lambda>_.
     bind (jit_codegen_link L (jc_helpers C)) (\<lambda>_.
     bind (jit_codegen_fill_functions L C) (\<lambda>_.
     bind (jit_codegen_fill_tables L C) (\<lambda>_.
     bind (check (cg_jit_lock L)) (\<lambda>_.
     codegen_cleanup)))))))))"

definition jit_codegen :: "codegen_env \<Rightarrow> jit_context \<Rightarrow> (unit \<times> linker) res option" where
  "jit_codegen L C =
     (case (if cg_capture_debug L then jit_codegen_prepare_debug_maps L (jc_functions C) else ret ()) start_linker of
        Inl e \<Rightarrow> Some (Inl e)
      | Inr (_, s) \<Rightarrow>
          (case jit_codegen_functions L (jc_functions C) s of
             None \<Rightarrow> None
           | Some (Inl e) \<Rightarrow> Some (Inl e)
           | Some (Inr (_, s')) \<Rightarrow> Some (link_all L C s')))"

end
