(* ===== verification/Codegen_Layout.thy ===== *)
theory Codegen_Layout
  imports Codegen Jit_Layout
begin

text \<open>
  The functions code generation compiles. What one call of \<open>jit_codegen_function\<close> does to the
  context, the end of the loop over the queue, and the invariant: everything that compiled code
  calls is compiled or queued, functions are compiled once, and their code and constants lie
  inside their parts of the binary.
\<close>

section \<open>One function\<close>

definition internal_targets :: "reloc list \<Rightarrow> u32 list" where
  "internal_targets rs = concat (map (\<lambda>r. case rl_target r of Target_internal_function f \<Rightarrow> [f] | _ \<Rightarrow> []) rs)"

lemma internal_targets_Cons: "internal_targets (r # rs) = internal_targets [r] @ internal_targets rs"
  by (simp add: internal_targets_def)

lemma queue_callee_step:
  "queue_callee r s =
     Inr ((), s\<lparr>cg_queue := rev (filter (\<lambda>f. \<not> jit_codegen_visited_function f s) (internal_targets [r])) @ cg_queue s\<rparr>)"
  by (cases "rl_target r") (simp_all add: queue_callee_def internal_targets_def ret_def gets_bind modify_def)

lemma visited_queue [simp]:
  "jit_codegen_visited_function f (s\<lparr>cg_queue := q\<rparr>) = jit_codegen_visited_function f s"
  by (simp add: jit_codegen_visited_function_def)

lemma queue_callees:
  "for_each rs queue_callee s =
     Inr ((), s\<lparr>cg_queue := rev (filter (\<lambda>f. \<not> jit_codegen_visited_function f s) (internal_targets rs)) @ cg_queue s\<rparr>)"
proof (induction rs arbitrary: s)
  case Nil
  then show ?case by (simp add: ret_def internal_targets_def)
next
  case (Cons r rs)
  then show ?case
    unfolding internal_targets_Cons [of r rs] by (simp add: bind_def queue_callee_step)
qed

text \<open>The entry and the sizes after a function with blob \<open>b\<close> has been placed.\<close>

definition placed_entry :: "'x codegen_ctx_scheme \<Rightarrow> u32 \<Rightarrow> blob \<Rightarrow> function_codegen" where
  "placed_entry s f b =
     \<lparr>fc_blob = Handle b, fc_function = f, code_offset = ucast (align_up (code_size s) 16 + 16),
      constpool_offset = (if bl_constpool b \<noteq> [] then ucast (rodata_size s + align_up (rodata_size s) (bl_constpool_align b)) else - 1)\<rparr>"

definition compiled :: "'x codegen_ctx_scheme \<Rightarrow> u32 \<Rightarrow> blob \<Rightarrow> hmap \<Rightarrow> 'x codegen_ctx_scheme" where
  "compiled s f b t =
     s\<lparr>cg_functions := cg_functions s @ [placed_entry s f b], func_to_idx := t,
       code_size := align_up (code_size s) 16 + 16 + word_of_nat (length (bl_code b)),
       rodata_size := (if bl_constpool b \<noteq> [] then
           rodata_size s + align_up (rodata_size s) (bl_constpool_align b) + word_of_nat (length (bl_constpool b))
         else rodata_size s),
       cg_queue := rev (filter (\<lambda>g. hmap_lookup t (ucast g) = None) (internal_targets (bl_relocs b))) @ cg_queue s\<rparr>"

lemma jit_codegen_function_cases:
  assumes "jit_codegen_function L f s = Inr (u, s')"
  obtains (visited) "jit_codegen_visited_function f s" and "s' = s"
  | (new) b t where "\<not> jit_codegen_visited_function f s" and "cg_emit L f = Some b"
      and "hmap_insert (cg_host L) (ucast f) (word_of_nat (length (cg_functions s))) (func_to_idx s) = Inr ((), t)"
      and "s' = compiled s f b t"
proof (cases "jit_codegen_visited_function f s")
  case True
  moreover have "s' = s" using True assms by (simp add: jit_codegen_function_def gets_bind ret_def)
  ultimately show ?thesis by (rule visited)
next
  case False
  let ?new = "s\<lparr>cg_functions := cg_functions s @
    [\<lparr>fc_blob = Uninitialised, fc_function = f, code_offset = 0, constpool_offset = 0\<rparr>]\<rparr>"
  from assms False have "bind (insert_func L f (word_of_nat (length (cg_functions s)))) (\<lambda>_.
       case cg_emit L f of
         None \<Rightarrow> fail Check_failed
       | Some b \<Rightarrow>
           bind (update_last (\<lambda>x. x\<lparr>fc_blob := Handle b\<rparr>)) (\<lambda>_.
           bind (place_code b) (\<lambda>_.
           bind (place_constpool b) (\<lambda>_.
           for_each (bl_relocs b) queue_callee)))) ?new = Inr (u, s')"
    by (simp add: jit_codegen_function_def gets_bind add_function_def modify_def bind_def gets_def)
  then obtain t where t: "hmap_insert (cg_host L) (ucast f) (word_of_nat (length (cg_functions s))) (func_to_idx s) = Inr ((), t)"
    and rest: "(case cg_emit L f of
         None \<Rightarrow> fail Check_failed
       | Some b \<Rightarrow>
           bind (update_last (\<lambda>x. x\<lparr>fc_blob := Handle b\<rparr>)) (\<lambda>_.
           bind (place_code b) (\<lambda>_.
           bind (place_constpool b) (\<lambda>_.
           for_each (bl_relocs b) queue_callee)))) (?new\<lparr>func_to_idx := t\<rparr>) = Inr (u, s')"
    by (elim bind_runE) (auto simp: insert_func_def on_part_run)
  obtain b where b: "cg_emit L f = Some b" using rest by (cases "cg_emit L f") (simp_all add: fail_def)
  have "s' = compiled s f b t"
    using rest
    by (auto simp: b update_last_def place_code_def place_constpool_def Let_def queue_callees bind_def modify_def gets_def
        compiled_def placed_entry_def jit_codegen_visited_function_def split: if_splits)
  with False b t show ?thesis by (rule new)
qed

section \<open>The end of the loop\<close>

definition unvisited :: "'x codegen_ctx_scheme \<Rightarrow> u32 set" where
  "unvisited s = {f. \<not> jit_codegen_visited_function f s}"

lemma widened_eq: "(ucast (g :: u32) = (ucast f :: u64)) \<longleftrightarrow> g = f"
proof
  assume "ucast g = (ucast f :: u64)"
  then have "uint (ucast g :: u64) = uint (ucast f :: u64)" by simp
  then have "uint g = uint f"
    by (simp add: unsigned_ucast_eq take_bit_int_eq_self order_less_le_trans [OF unsigned_less])
  then show "g = f" by (simp only: word_uint_eq_iff)
qed simp

lemma visited_after_insert:
  assumes "hmap_inv t" and "hmap_insert h (ucast f) i t = Inr (u, t')"
  shows "hmap_lookup t' (ucast (g :: u32)) = (if g = f then Some i else hmap_lookup t (ucast g))"
proof -
  have "(ucast g = (ucast f :: u64)) = (g = f)" by (simp add: widened_eq)
  then show ?thesis using hm.lookup_after [OF assms] by simp
qed

lemma jit_codegen_function_progress:
  assumes "jit_codegen_function L f s = Inr (u, s')" and "hmap_inv (func_to_idx s)"
  shows "hmap_inv (func_to_idx s')" and "s' = s \<or> unvisited s' \<subset> unvisited s"
proof -
  have "hmap_inv (func_to_idx s') \<and> (s' = s \<or> unvisited s' \<subset> unvisited s)"
    using assms(1)
  proof (cases rule: jit_codegen_function_cases)
    case visited
    then show ?thesis using assms(2) by simp
  next
    case (new b t)
    have "hmap_inv t" using hm.insert_law [OF assms(2) new(3)] by simp
    moreover have "unvisited s' \<subset> unvisited s"
      using new(1,4) visited_after_insert [OF assms(2) new(3)]
      by (auto simp: unvisited_def jit_codegen_visited_function_def compiled_def split: if_splits)
    ultimately show ?thesis using new(4) by (simp add: compiled_def)
  qed
  then show "hmap_inv (func_to_idx s')" and "s' = s \<or> unvisited s' \<subset> unvisited s" by blast+
qed

lemma unvisited_cong [simp]: "unvisited (s\<lparr>cg_queue := q\<rparr>) = unvisited s"
  by (simp add: unvisited_def jit_codegen_visited_function_def)

lemma drain_codegen_queue_total:
  fixes s :: "'x codegen_ctx_scheme"
  assumes "hmap_inv (func_to_idx s)"
  shows "drain_codegen_queue L s \<noteq> None"
proof -
  let ?measure = "\<lambda>s :: 'x codegen_ctx_scheme. (card (unvisited s), length (cg_queue s))"
  have "wf (inv_image (less_than <*lex*> less_than) ?measure)" by (simp add: wf_lex_prod)
  then show ?thesis
    using assms
  proof (induction s rule: wf_induct_rule)
    case (less s)
    show ?case
    proof (cases "cg_queue s")
      case Nil
      then show ?thesis by (subst drain_codegen_queue.simps) simp
    next
      case (Cons f q)
      show ?thesis
      proof (cases "jit_codegen_function L f (s\<lparr>cg_queue := q\<rparr>)")
        case (Inl e)
        then show ?thesis using Cons by (subst drain_codegen_queue.simps) simp
      next
        case (Inr r)
        then obtain u s' where run: "jit_codegen_function L f (s\<lparr>cg_queue := q\<rparr>) = Inr (u, s')" by (cases r) auto
        have inv: "hmap_inv (func_to_idx (s\<lparr>cg_queue := q\<rparr>))" using less.prems by simp
        note step = jit_codegen_function_progress [OF run inv]
        have "(s', s) \<in> inv_image (less_than <*lex*> less_than) ?measure"
          using step(2) Cons by (auto dest!: psubset_card_mono [OF finite])
        then have "drain_codegen_queue L s' \<noteq> None" using less.IH step(1) by blast
        then show ?thesis using Cons run by (subst drain_codegen_queue.simps) simp
      qed
    qed
  qed
qed

section \<open>The invariant\<close>

text \<open>The index of each function, as \<open>func_to_idx\<close> keeps it.\<close>

definition idx_of :: "function_codegen list \<Rightarrow> u64 \<rightharpoonup> u64" where
  "idx_of fs = map_of (zip (map (\<lambda>f. ucast (fc_function f)) fs) (map word_of_nat [0..<length fs]))"

lemma idx_of_dom: "idx_of fs (ucast f) \<noteq> None \<longleftrightarrow> f \<in> fc_function ` set fs"
proof -
  have "dom (idx_of fs) = ucast ` fc_function ` set fs"
    unfolding idx_of_def by (subst dom_map_of_zip) (simp_all add: image_image)
  then have "idx_of fs (ucast f) \<noteq> None \<longleftrightarrow> (ucast f :: u64) \<in> ucast ` fc_function ` set fs" by (metis domIff)
  then show ?thesis by (auto simp: widened_eq)
qed

lemma idx_of_append:
  assumes "fc_function x \<notin> fc_function ` set fs"
  shows "idx_of (fs @ [x]) = (idx_of fs)(ucast (fc_function x) \<mapsto> word_of_nat (length fs))"
proof -
  have "idx_of fs (ucast (fc_function x)) = None" using assms idx_of_dom by blast
  moreover have "idx_of (fs @ [x]) = [ucast (fc_function x) \<mapsto> word_of_nat (length fs)] ++ idx_of fs"
    by (simp add: idx_of_def map_of_append)
  ultimately show ?thesis by (auto simp: map_add_def fun_eq_iff split: option.split)
qed

lemma idx_of_nth:
  assumes "distinct (map fc_function fs)" and "i < length fs"
  shows "idx_of fs (ucast (fc_function (fs ! i))) = Some (word_of_nat i)"
proof -
  have "distinct (map (\<lambda>f. ucast (fc_function f) :: u64) fs)"
    using assms(1) by (auto simp: distinct_map inj_on_def widened_eq)
  then show ?thesis
    using assms(2) unfolding idx_of_def by (subst map_of_eq_Some_iff) (auto simp: set_zip intro!: exI [of _ i])
qed

definition compiled_ok :: "codegen_env \<Rightarrow> 'x codegen_ctx_scheme \<Rightarrow> bool" where
  "compiled_ok L s \<longleftrightarrow> hmap_inv (func_to_idx s) \<and> distinct (map fc_function (cg_functions s)) \<and>
     hmap_map (func_to_idx s) = idx_of (cg_functions s) \<and>
     (\<forall>x \<in> set (cg_functions s). \<exists>b. cg_emit L (fc_function x) = Some b \<and> fc_blob x = Handle b)"

definition code_length :: "codegen_env \<Rightarrow> u32 \<Rightarrow> nat" where
  "code_length L f = (case cg_emit L f of None \<Rightarrow> 0 | Some b \<Rightarrow> length (bl_code b))"

text \<open>
  Between the functions there are at least 16 bytes, the space of the endbr64; \<open>code_laid_out\<close> also
  bounds the size, so that the 32-bit offsets are exact.
\<close>

definition code_laid_out :: "codegen_env \<Rightarrow> 'x codegen_ctx_scheme \<Rightarrow> bool" where
  "code_laid_out L s \<longleftrightarrow>
     sorted_wrt (\<lambda>x y. unat (code_offset x) + code_length L (fc_function x) + 16 \<le> unat (code_offset y)) (cg_functions s) \<and>
     (\<forall>x \<in> set (cg_functions s). 16 dvd unat (code_offset x) \<and> 16 \<le> unat (code_offset x) \<and>
        unat (code_offset x) + code_length L (fc_function x) \<le> unat (code_size s)) \<and>
     unat (code_size s) \<le> (\<Sum>f\<leftarrow>map fc_function (cg_functions s). code_length L f + 31)"

definition code_fits :: "codegen_env \<Rightarrow> bool" where
  "code_fits L \<longleftrightarrow> (\<Sum>f\<in>{f. cg_emit L f \<noteq> None}. code_length L f + 31) < 2 ^ 32"

text \<open>
  The read-only data: each function with constants doubles it and adds the alignment and the
  constants, so \<open>n\<close> functions need less than \<open>2 ^ n\<close> times what all constants need.
\<close>

definition const_room :: "codegen_env \<Rightarrow> u32 \<Rightarrow> nat" where
  "const_room L f = (case cg_emit L f of None \<Rightarrow> 0
     | Some b \<Rightarrow> if bl_constpool b \<noteq> [] then unat (bl_constpool_align b) + length (bl_constpool b) else 0)"

definition all_constants :: "codegen_env \<Rightarrow> nat" where
  "all_constants L = (\<Sum>f\<in>{f. cg_emit L f \<noteq> None}. const_room L f)"

definition const_size :: "codegen_env \<Rightarrow> u32 \<Rightarrow> nat" where
  "const_size L f = (case cg_emit L f of None \<Rightarrow> 0 | Some b \<Rightarrow> length (bl_constpool b))"

definition consts_apart :: "codegen_env \<Rightarrow> function_codegen \<Rightarrow> function_codegen \<Rightarrow> bool" where
  "consts_apart L x y \<longleftrightarrow> (const_size L (fc_function x) \<noteq> 0 \<longrightarrow> const_size L (fc_function y) \<noteq> 0 \<longrightarrow>
     unat (constpool_offset x) + const_size L (fc_function x) \<le> unat (constpool_offset y))"

definition rodata_laid_out :: "codegen_env \<Rightarrow> 'x codegen_ctx_scheme \<Rightarrow> bool" where
  "rodata_laid_out L s \<longleftrightarrow>
     unat (rodata_size s) \<le> (2 ^ length (cg_functions s) - 1) * all_constants L \<and>
     sorted_wrt (consts_apart L) (cg_functions s) \<and>
     (\<forall>x \<in> set (cg_functions s). \<forall>b. cg_emit L (fc_function x) = Some b \<longrightarrow> bl_constpool b \<noteq> [] \<longrightarrow>
        unat (constpool_offset x) + length (bl_constpool b) \<le> unat (rodata_size s))"

definition power_of_two :: "u64 \<Rightarrow> bool" where
  "power_of_two a \<longleftrightarrow> (\<exists>k < 32. a = 2 ^ k)"

definition rodata_fits :: "codegen_env \<Rightarrow> bool" where
  "rodata_fits L \<longleftrightarrow> 2 ^ card {f. cg_emit L f \<noteq> None} * all_constants L < 2 ^ 32 \<and>
     (\<forall>f b. cg_emit L f = Some b \<longrightarrow> bl_constpool b \<noteq> [] \<longrightarrow> power_of_two (bl_constpool_align b))"

definition callees_queued :: "codegen_env \<Rightarrow> 'x codegen_ctx_scheme \<Rightarrow> bool" where
  "callees_queued L s \<longleftrightarrow>
     (\<forall>x \<in> set (cg_functions s). \<forall>b. cg_emit L (fc_function x) = Some b \<longrightarrow>
        (\<forall>g \<in> set (internal_targets (bl_relocs b)). jit_codegen_visited_function g s \<or> g \<in> set (cg_queue s)))"

lemma visited_iff:
  assumes "compiled_ok L s"
  shows "jit_codegen_visited_function f s \<longleftrightarrow> f \<in> fc_function ` set (cg_functions s)"
proof -
  have "hmap_lookup (func_to_idx s) (ucast f) = idx_of (cg_functions s) (ucast f)"
    using assms by (simp add: compiled_ok_def hm.lookup_law)
  then show ?thesis unfolding jit_codegen_visited_function_def by (simp only: idx_of_dom)
qed

lemma compiled_ok_step:
  assumes "compiled_ok L s" and "\<not> jit_codegen_visited_function f s" and "cg_emit L f = Some b"
    and "hmap_insert h (ucast f) (word_of_nat (length (cg_functions s))) (func_to_idx s) = Inr ((), t)"
  shows "compiled_ok L (compiled s f b t)"
proof -
  have inv: "hmap_inv (func_to_idx s)" using assms(1) by (simp add: compiled_ok_def)
  have new: "f \<notin> fc_function ` set (cg_functions s)" using visited_iff [OF assms(1)] assms(2) by blast
  have "hmap_inv t" "hmap_map t = idx_of (cg_functions s @ [placed_entry s f b])"
    using hm.insert_law [OF inv assms(4)] assms(1) idx_of_append [of "placed_entry s f b" "cg_functions s"] new
    by (simp_all add: compiled_ok_def placed_entry_def)
  then show ?thesis
    using assms(1,3) new by (auto simp: compiled_ok_def compiled_def placed_entry_def)
qed

lemma code_laid_out_step:
  assumes "code_laid_out L s" and "cg_emit L f = Some b"
    and "(\<Sum>f\<leftarrow>map fc_function (cg_functions s) @ [f]. code_length L f + 31) < 2 ^ 32"
  shows "code_laid_out L (compiled s f b t)"
proof -
  let ?n = "length (bl_code b)" and ?off = "align_up (code_size s) 16"
  have len: "code_length L f = ?n" using assms(2) by (simp add: code_length_def)
  have small: "unat (code_size s) + ?n + 31 < 2 ^ 32"
    using assms(1,3) len by (simp add: code_laid_out_def)
  have up: "unat ?off = (unat (code_size s) + 15) div 16 * 16"
    using unat_align_up_mask [of 16 4 "code_size s"] small by (simp add: mask_eq_exp_minus_1)
  have off: "unat (?off + 16) = unat ?off + 16"
    using small up by (simp add: unat_word_ariths)
  have end_off: "unat (?off + 16 + word_of_nat ?n) = unat ?off + 16 + ?n"
    using small up by (simp add: unat_word_ariths unat_of_nat)
  have narrow: "unat (ucast (?off + 16) :: u32) = unat ?off + 16"
    using small up off by (simp add: unsigned_ucast_eq take_bit_nat_eq_self)
  have le: "unat (code_size s) \<le> unat ?off" "unat ?off \<le> unat (code_size s) + 15"
    unfolding up by presburger+
  show ?thesis
    using assms(1) le
    by (auto simp: code_laid_out_def compiled_def placed_entry_def sorted_wrt_append narrow end_off len up)
qed

lemma callees_queued_step:
  assumes "compiled_ok L s" and "\<not> jit_codegen_visited_function f s" and "cg_emit L f = Some b"
    and "hmap_insert h (ucast f) (word_of_nat (length (cg_functions s))) (func_to_idx s) = Inr ((), t)"
    and "callees_queued L (s\<lparr>cg_queue := X @ cg_queue s\<rparr>)" and "set X \<subseteq> {f}"
  shows "callees_queued L (compiled s f b t)"
proof -
  have inv: "hmap_inv (func_to_idx s)" using assms(1) by (simp add: compiled_ok_def)
  have vis: "jit_codegen_visited_function g (compiled s f b t) \<longleftrightarrow> hmap_lookup t (ucast g) \<noteq> None" for g
    by (simp add: jit_codegen_visited_function_def compiled_def)
  have more: "jit_codegen_visited_function g (compiled s f b t) \<longleftrightarrow> g = f \<or> jit_codegen_visited_function g s" for g
    unfolding vis visited_after_insert [OF inv assms(4)] by (simp add: jit_codegen_visited_function_def)
  have q: "g \<in> set (internal_targets (bl_relocs b)) \<Longrightarrow> jit_codegen_visited_function g (compiled s f b t) \<or>
    g \<in> set (cg_queue (compiled s f b t))" for g
    unfolding vis by (auto simp: compiled_def)
  have old: "set (cg_queue s) \<subseteq> set (cg_queue (compiled s f b t))" by (auto simp: compiled_def)
  have fs: "cg_functions (compiled s f b t) = cg_functions s @ [placed_entry s f b]" "fc_function (placed_entry s f b) = f"
    by (simp_all add: compiled_def placed_entry_def)
  show ?thesis
    unfolding callees_queued_def fs
    using assms(3,5,6) q more old fs(2) by (fastforce simp: callees_queued_def)
qed

lemma power_of_twoE:
  assumes "power_of_two a"
  obtains k where "a - 1 = mask k" and "unat (a - 1) = 2 ^ k - 1" and "unat a = 2 ^ k" and "k < 32"
proof -
  obtain k where k: "k < 32" "a = 2 ^ k" using assms by (auto simp: power_of_two_def)
  have "(2::nat) ^ k < 2 ^ 64" using k(1) by (intro power_strict_increasing) simp_all
  moreover have "a = word_of_nat (2 ^ k)" unfolding k(2) by simp
  ultimately have u: "unat a = 2 ^ k" by (simp add: unat_of_nat del: of_nat_power)
  show thesis
  proof (rule that [OF _ _ u k(1)])
    show "a - 1 = mask k" by (simp add: k(2) mask_eq_exp_minus_1)
    have "1 \<le> a" using u by (simp add: word_le_nat_alt)
    then show "unat (a - 1) = 2 ^ k - 1" using u by (simp add: unat_sub)
  qed
qed

lemma align_up_within:
  assumes "power_of_two a" and "unat x + unat a < 2 ^ 64"
  shows "unat x \<le> unat (align_up x a)" and "unat (align_up x a) \<le> unat x + unat a"
proof -
  obtain k where k: "a - 1 = mask k" "unat (a - 1) = 2 ^ k - 1" "unat a = 2 ^ k" using assms(1) by (rule power_of_twoE)
  let ?y = "unat x + (2 ^ k - 1)"
  have up: "unat (align_up x a) = ?y div 2 ^ k * 2 ^ k"
    using unat_align_up_mask [OF k(1,2)] assms(2) k(3) by simp
  have "?y = ?y div 2 ^ k * 2 ^ k + ?y mod 2 ^ k" by (rule div_mult_mod_eq [symmetric])
  moreover have "?y mod 2 ^ k < 2 ^ k" by simp
  ultimately show "unat x \<le> unat (align_up x a)" "unat (align_up x a) \<le> unat x + unat a"
    unfolding up k(3) by linarith+
qed

lemma rodata_laid_out_step:
  assumes "rodata_laid_out L s" and "rodata_fits L" and "cg_emit L f = Some b"
    and "length (cg_functions s) < card {f. cg_emit L f \<noteq> None}"
  shows "rodata_laid_out L (compiled s f b t)"
proof (cases "bl_constpool b = []")
  case True
  have "unat (rodata_size s) \<le> (2 ^ length (cg_functions s) - 1) * all_constants L"
    using assms(1) by (simp add: rodata_laid_out_def)
  also have "\<dots> \<le> (2 ^ Suc (length (cg_functions s)) - 1) * all_constants L"
    by (intro mult_right_mono diff_le_mono power_increasing) simp_all
  finally have "unat (rodata_size s) \<le> (2 ^ Suc (length (cg_functions s)) - 1) * all_constants L" .
  then show ?thesis using assms(1,3) True
    by (auto simp: rodata_laid_out_def compiled_def placed_entry_def sorted_wrt_append consts_apart_def const_size_def)
next
  case False
  let ?n = "length (cg_functions s)" and ?M = "all_constants L" and ?r = "unat (rodata_size s)"
  let ?up = "align_up (rodata_size s) (bl_constpool_align b)" and ?c = "length (bl_constpool b)"
  have p: "power_of_two (bl_constpool_align b)" using assms(2,3) False by (simp add: rodata_fits_def)
  have "const_room L f \<le> ?M"
    unfolding all_constants_def using assms(3) by (intro member_le_sum) auto
  then have M: "unat (bl_constpool_align b) + ?c \<le> ?M" using assms(3) False by (simp add: const_room_def)
  have r: "?r \<le> (2 ^ ?n - 1) * ?M" using assms(1) by (simp add: rodata_laid_out_def)
  then have "2 * ?r + ?M \<le> 2 * ((2 ^ ?n - 1) * ?M) + ?M" by linarith
  also have "\<dots> = (2 ^ Suc ?n - 1) * ?M" by (simp add: algebra_simps)
  finally have bound: "2 * ?r + ?M \<le> (2 ^ Suc ?n - 1) * ?M" .
  also have "\<dots> \<le> 2 ^ card {f. cg_emit L f \<noteq> None} * ?M"
    using assms(4) by (intro mult_right_mono order_trans [OF diff_le_self] power_increasing) simp_all
  finally have small: "2 * ?r + ?M < 2 ^ 32" using assms(2) by (simp add: rodata_fits_def)
  note up = align_up_within [OF p, of "rodata_size s"]
  have up': "?r \<le> unat ?up" "unat ?up \<le> ?r + unat (bl_constpool_align b)" using up small M by simp_all
  have start: "unat (rodata_size s + ?up) = ?r + unat ?up" using up' small M by (simp add: unat_word_ariths)
  have fin: "unat (rodata_size s + ?up + word_of_nat ?c) = ?r + unat ?up + ?c"
    using up' small M start by (simp add: unat_word_ariths unat_of_nat)
  have narrow: "unat (ucast (rodata_size s + ?up) :: u32) = ?r + unat ?up"
    using start up' small M by (simp add: unsigned_ucast_eq take_bit_nat_eq_self)
  have "?r + unat ?up + ?c \<le> (2 ^ Suc ?n - 1) * ?M" using up' M bound by linarith
  moreover have "consts_apart L x (placed_entry s f b)" if "x \<in> set (cg_functions s)" for x
    using assms(1) that up'(1)
    by (fastforce simp: rodata_laid_out_def consts_apart_def const_size_def placed_entry_def False narrow split: option.splits)
  ultimately show ?thesis
    using assms(1,3) False up'(1)
    by (fastforce simp: rodata_laid_out_def compiled_def fin sorted_wrt_append placed_entry_def [of s f b] narrow)
qed

definition codegen_inv :: "codegen_env \<Rightarrow> 'x codegen_ctx_scheme \<Rightarrow> bool" where
  "codegen_inv L s \<longleftrightarrow> compiled_ok L s \<and> callees_queued L s \<and> (code_fits L \<longrightarrow> code_laid_out L s) \<and>
     (rodata_fits L \<longrightarrow> rodata_laid_out L s)"

text \<open>The code of functions compiled once each fits if that of all functions does.\<close>

lemma compiled_length:
  assumes "code_fits L" and "distinct fs" and "\<forall>f \<in> set fs. cg_emit L f \<noteq> None"
  shows "(\<Sum>f\<leftarrow>fs. code_length L f + 31) < 2 ^ 32"
proof -
  have "(\<Sum>f\<leftarrow>fs. code_length L f + 31) = (\<Sum>f\<in>set fs. code_length L f + 31)"
    by (rule sum_list_distinct_conv_sum_set [OF assms(2)])
  also have "\<dots> \<le> (\<Sum>f\<in>{f. cg_emit L f \<noteq> None}. code_length L f + 31)"
    using assms(3) by (intro sum_mono2) auto
  finally show ?thesis using assms(1) by (simp add: code_fits_def)
qed

text \<open>One step, from a state whose queue may lack the function compiled now.\<close>

lemma jit_codegen_function_step:
  assumes "jit_codegen_function L f s = Inr (u, s')" and "codegen_inv L (s\<lparr>cg_queue := X @ cg_queue s\<rparr>)"
    and "set X \<subseteq> {f}"
  shows "codegen_inv L s' \<and> jit_codegen_visited_function f s' \<and>
    (\<forall>g. jit_codegen_visited_function g s \<longrightarrow> jit_codegen_visited_function g s')"
proof -
  have ok: "compiled_ok L s" "(code_fits L \<longrightarrow> code_laid_out L s) \<and> (rodata_fits L \<longrightarrow> rodata_laid_out L s)" "callees_queued L (s\<lparr>cg_queue := X @ cg_queue s\<rparr>)"
    using assms(2) by (auto simp: codegen_inv_def compiled_ok_def code_laid_out_def rodata_laid_out_def)
  show ?thesis
    using assms(1)
  proof (cases rule: jit_codegen_function_cases)
    case visited
    then have "callees_queued L s" using ok(3) assms(3) by (auto simp: callees_queued_def)
    then show ?thesis using visited ok by (simp add: codegen_inv_def)
  next
    case (new b t)
    note ok' = compiled_ok_step [OF ok(1) new(1-3)]
    have names: "map fc_function (cg_functions (compiled s f b t)) = map fc_function (cg_functions s) @ [f]"
      by (simp add: compiled_def placed_entry_def)
    have once: "distinct (map fc_function (cg_functions (compiled s f b t)))"
      "\<forall>g \<in> set (map fc_function (cg_functions (compiled s f b t))). cg_emit L g \<noteq> None"
      using ok' by (auto simp: compiled_ok_def)
    have "code_laid_out L (compiled s f b t)" if "code_fits L"
    proof (rule code_laid_out_step)
      show "code_laid_out L s" using ok(2) that by simp
      show "cg_emit L f = Some b" by (rule new(2))
      from compiled_length [OF that once] show "(\<Sum>f\<leftarrow>map fc_function (cg_functions s) @ [f]. code_length L f + 31) < 2 ^ 32"
        unfolding names .
    qed
    moreover have "rodata_laid_out L (compiled s f b t)" if "rodata_fits L"
    proof (rule rodata_laid_out_step)
      show "rodata_laid_out L s" "rodata_fits L" using ok(2) that by simp_all
      show "cg_emit L f = Some b" by (rule new(2))
      have "length (cg_functions (compiled s f b t)) = card (set (map fc_function (cg_functions (compiled s f b t))))"
        using distinct_card [OF once(1)] by simp
      also have "\<dots> \<le> card {f. cg_emit L f \<noteq> None}" using once(2) by (intro card_mono) auto
      finally show "length (cg_functions s) < card {f. cg_emit L f \<noteq> None}" by (simp add: compiled_def)
    qed
    moreover have "f \<in> fc_function ` set (cg_functions (compiled s f b t))" "cg_functions s \<noteq> [] \<longrightarrow> True"
      by (auto simp: compiled_def placed_entry_def)
    moreover have "set (cg_functions s) \<subseteq> set (cg_functions (compiled s f b t))" by (auto simp: compiled_def)
    ultimately show ?thesis
      using ok' callees_queued_step [OF ok(1) new(1-3) ok(3) assms(3)] visited_iff [OF ok(1)] visited_iff [OF ok'] new(4)
      by (auto simp: codegen_inv_def)
  qed
qed

section \<open>The roots\<close>

definition grows :: "codegen_env \<Rightarrow> 'x codegen_ctx_scheme \<Rightarrow> 'x codegen_ctx_scheme \<Rightarrow> bool" where
  "grows L s s' \<longleftrightarrow> (codegen_inv L s \<longrightarrow> codegen_inv L s' \<and>
     (\<forall>g. jit_codegen_visited_function g s \<longrightarrow> jit_codegen_visited_function g s'))"

interpretation grows_order: run_preorder "grows L"
  for L by unfold_locales (auto simp: grows_def)

lemma jit_codegen_function_grows [along]: "along (grows L) (jit_codegen_function L f)"
proof (rule alongI)
  fix s :: "'a codegen_ctx_scheme" and u s'
  assume run: "jit_codegen_function L f s = Inr (u, s')"
  have "s\<lparr>cg_queue := [] @ cg_queue s\<rparr> = s" by simp
  then show "grows L s s'"
    using jit_codegen_function_step [OF run, of "[]"] by (simp add: grows_def)
qed

lemma same_visited:
  "func_to_idx s' = func_to_idx s \<Longrightarrow> jit_codegen_visited_function g s' = jit_codegen_visited_function g s"
  by (simp add: jit_codegen_visited_function_def)

lemma same_codegen_inv:
  assumes "cg_functions s' = cg_functions s" and "func_to_idx s' = func_to_idx s" and "cg_queue s' = cg_queue s"
    and "code_size s' = code_size s" and "rodata_size s' = rodata_size s"
  shows "codegen_inv L s' = codegen_inv L s"
  using assms same_visited [OF assms(2)]
  by (simp add: codegen_inv_def compiled_ok_def callees_queued_def code_laid_out_def rodata_laid_out_def)

lemma insert_import_grows [along]: "along (grows L) (insert_import L f a)"
proof (rule alongI)
  fix s :: "'a codegen_ctx_scheme" and u s'
  assume "insert_import L f a s = Inr (u, s')"
  then obtain t where s': "s' = s\<lparr>import_addresses := t\<rparr>" by (auto simp: insert_import_def on_part_run)
  show "grows L s s'"
    using same_codegen_inv [of s' s] same_visited [of s' s] by (simp add: grows_def s')
qed

lemma jit_try_codegen_function_grows [along]: "along (grows L) (jit_try_codegen_function L fs i)"
  unfolding jit_try_codegen_function_def by (intro along) (auto split: option.split spidir_funcref.split intro!: along)

lemma codegen_roots_grows [along]: "along (grows L) (codegen_roots L fs)"
  unfolding codegen_roots_def codegen_export_def codegen_import_def codegen_elem_def Let_def
  by (intro along) (auto split: option.split spidir_funcref.split intro!: along)

section \<open>The loop over the queue\<close>

lemma popped_inv:
  assumes "codegen_inv L s" and "cg_queue s = f # q"
  shows "codegen_inv L ((s\<lparr>cg_queue := q\<rparr>)\<lparr>cg_queue := [f] @ cg_queue (s\<lparr>cg_queue := q\<rparr>)\<rparr>)"
  using assms by (simp flip: assms(2))

text \<open>An invariant of the turns of the loop, with a condition on the faults they may end in.\<close>

lemma drain_codegen_queue_rule:
  fixes s :: "'x codegen_ctx_scheme"
  assumes "drain_codegen_queue L s = Some r" and "I s"
    and turn: "\<And>s f q. I s \<Longrightarrow> cg_queue s = f # q \<Longrightarrow>
      (case jit_codegen_function L f (s\<lparr>cg_queue := q\<rparr>) of Inl e \<Rightarrow> F e | Inr (_, s') \<Rightarrow> I s')"
  shows "case r of Inl e \<Rightarrow> F e | Inr (_, s') \<Rightarrow> I s' \<and> cg_queue s' = []"
proof -
  define P where "P L' s r \<longleftrightarrow> (L' = L \<longrightarrow> I s \<longrightarrow> (case r of Inl e \<Rightarrow> F e | Inr (_, s') \<Rightarrow> I s' \<and> cg_queue s' = []))"
    for L' and s :: "'x codegen_ctx_scheme" and r :: "(unit \<times> 'x codegen_ctx_scheme) res"
  have "P L s r"
  proof (rule drain_codegen_queue.raw_induct [OF _ assms(1)], goal_cases)
    case (1 drain L' s r)
    show ?case
    proof (cases "cg_queue s")
      case Nil
      then show ?thesis using 1(2) by (auto simp: P_def)
    next
      case (Cons f q)
      show ?thesis
      proof (cases "jit_codegen_function L' f (s\<lparr>cg_queue := q\<rparr>)")
        case (Inl e)
        then have r: "r = Inl e" using 1(2) Cons by simp
        have "F e" if "L' = L" and "I s" using turn [OF that(2) Cons] Inl that(1) by simp
        then show ?thesis by (simp add: P_def r)
      next
        case (Inr x)
        then obtain v t where run: "jit_codegen_function L' f (s\<lparr>cg_queue := q\<rparr>) = Inr (v, t)" by (cases x) auto
        have "drain L' t = Some r" using 1(2) Cons run by simp
        then have "P L' t r" by (rule 1(1))
        moreover have "I t" if "I s" "L' = L" using turn [OF that(1) Cons] run that(2) by simp
        ultimately show ?thesis unfolding P_def by blast
      qed
    qed
  qed
  then show ?thesis using assms(2) by (simp add: P_def)
qed

lemma drain_codegen_queue_step:
  fixes s :: "'x codegen_ctx_scheme"
  assumes "drain_codegen_queue L s = Some (Inr (u, s'))" and "codegen_inv L s"
  shows "codegen_inv L s' \<and> cg_queue s' = [] \<and> (\<forall>g. jit_codegen_visited_function g s \<longrightarrow> jit_codegen_visited_function g s')"
proof -
  define I where "I t \<longleftrightarrow> codegen_inv L t \<and> (\<forall>g. jit_codegen_visited_function g s \<longrightarrow> jit_codegen_visited_function g t)"
    for t :: "'x codegen_ctx_scheme"
  have "I s" using assms(2) by (simp add: I_def)
  have "I s' \<and> cg_queue s' = []"
  proof -
    have "case jit_codegen_function L f (t\<lparr>cg_queue := q\<rparr>) of Inl e \<Rightarrow> True | Inr (_, t') \<Rightarrow> I t'"
      if "I t" and "cg_queue t = f # q" for t f q
    proof (cases "jit_codegen_function L f (t\<lparr>cg_queue := q\<rparr>)")
      case (Inr x)
      then obtain v t' where run: "jit_codegen_function L f (t\<lparr>cg_queue := q\<rparr>) = Inr (v, t')" by (cases x) auto
      have "codegen_inv L t" using that(1) by (simp add: I_def)
      from jit_codegen_function_step [OF run popped_inv [OF this that(2)]] that(1) show ?thesis
        unfolding run by (simp add: I_def)
    qed simp
    from drain_codegen_queue_rule [where F = "\<lambda>_. True" and I = I, OF assms(1) \<open>I s\<close> this] show ?thesis by simp
  qed
  then show ?thesis by (simp add: I_def)
qed

section \<open>What is compiled\<close>

definition root_compiled :: "jit_function list \<Rightarrow> 'x codegen_ctx_scheme \<Rightarrow> u32 \<Rightarrow> bool" where
  "root_compiled fs s i \<longleftrightarrow>
     (\<forall>f. jf_spidir (fs ! unat i) = Some (Funcref_internal f) \<longrightarrow> jit_codegen_visited_function f s) \<and>
     (jf_has_cfi (fs ! unat i) \<longrightarrow> jit_codegen_visited_function (jf_cfi_thunk (fs ! unat i)) s)"

lemma root_compiled_grows: "grows L s s' \<Longrightarrow> codegen_inv L s \<Longrightarrow> root_compiled fs s i \<Longrightarrow> root_compiled fs s' i"
  by (simp add: grows_def root_compiled_def)

lemma jit_try_codegen_function_compiles:
  assumes "jit_try_codegen_function L fs i s = Inr (u, s')" and "codegen_inv L s"
  shows "root_compiled fs s' i"
proof -
  let ?func = "fs ! unat i"
  obtain v t where first: "(case jf_spidir ?func of Some (Funcref_internal f) \<Rightarrow> jit_codegen_function L f | _ \<Rightarrow> ret ()) s = Inr (v, t)"
    and second: "(if jf_has_cfi ?func then jit_codegen_function L (jf_cfi_thunk ?func) else ret ()) t = Inr (u, s')"
    using assms(1) by (auto simp: jit_try_codegen_function_def run)
  have keep: "s\<lparr>cg_queue := [] @ cg_queue s\<rparr> = s" "t\<lparr>cg_queue := [] @ cg_queue t\<rparr> = t" by simp_all
  have t: "codegen_inv L t" "\<forall>f. jf_spidir ?func = Some (Funcref_internal f) \<longrightarrow> jit_codegen_visited_function f t"
    using first assms(2) jit_codegen_function_step [of L _ s v t "[]", unfolded keep]
    by (auto split: option.splits spidir_funcref.splits)
  show ?thesis
    using second t jit_codegen_function_step [of L _ t u s' "[]", unfolded keep]
    by (auto simp: root_compiled_def split: if_splits)
qed

lemma for_each_grows:
  assumes "for_each xs f s = Inr (u, s')" and "codegen_inv L s" and "\<And>x. along (grows L) (f x)"
    and "\<And>x s u s'. f x s = Inr (u, s') \<Longrightarrow> codegen_inv L s \<Longrightarrow> P x s'"
    and "\<And>x s s'. grows L s s' \<Longrightarrow> codegen_inv L s \<Longrightarrow> P x s \<Longrightarrow> P x s'"
  shows "\<forall>x \<in> set xs. P x s'"
  using assms(1,2)
proof (induction xs arbitrary: s)
  case (Cons x xs)
  then obtain v t where first: "f x s = Inr (v, t)" and more: "for_each xs f t = Inr (u, s')" by (auto simp: run)
  have "grows L s t" "grows L t s'"
    using alongD [OF assms(3) first] alongD [OF grows_order.along_for_each [OF assms(3)] more] by simp_all
  then show ?case using Cons assms(4) [OF first] assms(5) more by (auto simp: grows_def)
qed simp

definition roots_compiled :: "codegen_env \<Rightarrow> jit_function list \<Rightarrow> 'x codegen_ctx_scheme \<Rightarrow> bool" where
  "roots_compiled L fs s \<longleftrightarrow>
     (\<forall>e \<in> set (mod_exports (cg_module L)). export_kind e = WASM_EXPORT_FUNC \<longrightarrow> root_compiled fs s (export_index e)) \<and>
     (\<forall>e \<in> set (mod_elems (cg_module L)). \<forall>i \<in> set (elem_funcs e). root_compiled fs s i) \<and>
     (mod_start_func (cg_module L) \<ge> 0 \<longrightarrow> root_compiled fs s (word_of_int (mod_start_func (cg_module L))))"

lemma codegen_export_grows [along]: "along (grows L) (codegen_export L fs e)"
  unfolding codegen_export_def by (intro along)

lemma codegen_elem_grows [along]: "along (grows L) (codegen_elem L fs e)"
  unfolding codegen_elem_def by (intro along)

lemma codegen_elem_compiles:
  assumes "codegen_elem L fs e s = Inr (u, s')" and "codegen_inv L s"
  shows "\<forall>i \<in> set (elem_funcs e). root_compiled fs s' i"
  by (rule for_each_grows [OF assms(1) [unfolded codegen_elem_def] assms(2) jit_try_codegen_function_grows])
    (auto intro: jit_try_codegen_function_compiles root_compiled_grows)

lemma codegen_roots_compile:
  assumes "codegen_roots L fs s = Inr (u, s')" and "codegen_inv L s"
  shows "codegen_inv L s' \<and> roots_compiled L fs s'"
proof -
  let ?m = "cg_module L"
  obtain s1 s2 s3 where
    1: "for_each (mod_exports ?m) (codegen_export L fs) s = Inr ((), s1)" and
    2: "for_each (zip [0..<length (mod_imports ?m)] (mod_imports ?m)) (codegen_import L fs) s1 = Inr ((), s2)" and
    3: "for_each (mod_elems ?m) (codegen_elem L fs) s2 = Inr ((), s3)" and
    4: "(if mod_start_func ?m \<ge> 0 then jit_try_codegen_function L fs (word_of_int (mod_start_func ?m)) else ret ()) s3 = Inr ((), s')"
    using assms(1) by (auto simp: codegen_roots_def Let_def bind_run)
  have import_step: "along (grows L) (codegen_import L fs x)" for x
    unfolding codegen_import_def by (intro along) (auto split: option.split spidir_funcref.split intro!: along)
  have start: "along (grows L) (if mod_start_func ?m \<ge> 0 then jit_try_codegen_function L fs (word_of_int (mod_start_func ?m)) else ret ())"
    by (intro along)
  have g: "grows L s s1" "grows L s1 s2" "grows L s2 s3" "grows L s3 s'"
    using alongD [OF grows_order.along_for_each [OF codegen_export_grows] 1]
      alongD [OF grows_order.along_for_each [OF import_step] 2]
      alongD [OF grows_order.along_for_each [OF codegen_elem_grows] 3] alongD [OF start 4]
    by simp_all
  have inv: "codegen_inv L s1" "codegen_inv L s2" "codegen_inv L s3" "codegen_inv L s'"
    using assms(2) g by (simp_all add: grows_def)
  have "\<forall>e \<in> set (mod_exports ?m). export_kind e = WASM_EXPORT_FUNC \<longrightarrow> root_compiled fs s1 (export_index e)"
    by (rule for_each_grows [OF 1 assms(2)])
      (auto intro: along root_compiled_grows jit_try_codegen_function_compiles simp: codegen_export_def split: if_splits)
  moreover have "\<forall>e \<in> set (mod_elems ?m). \<forall>i \<in> set (elem_funcs e). root_compiled fs s3 i"
    by (rule for_each_grows [OF 3 inv(2)]) (auto intro: along root_compiled_grows dest: codegen_elem_compiles)
  moreover have "mod_start_func ?m \<ge> 0 \<longrightarrow> root_compiled fs s' (word_of_int (mod_start_func ?m))"
    using 4 jit_try_codegen_function_compiles [OF _ inv(3)] by auto
  moreover have "grows L s1 s'" using g grows_order.trans by blast
  ultimately show ?thesis
    using inv g(4) root_compiled_grows by (fastforce simp: roots_compiled_def)
qed

text \<open>A context before code generation; \<open>start_codegen\<close> is one.\<close>

definition fresh_codegen :: "'x codegen_ctx_scheme \<Rightarrow> bool" where
  "fresh_codegen s \<longleftrightarrow> cg_queue s = [] \<and> cg_functions s = [] \<and> func_to_idx s = HMAP_INIT \<and> code_size s = 0 \<and>
     rodata_size s = 0"

lemma fresh_codegen_inv: "fresh_codegen s \<Longrightarrow> codegen_inv L s"
  by (simp add: fresh_codegen_def codegen_inv_def compiled_ok_def callees_queued_def code_laid_out_def rodata_laid_out_def idx_of_def
    hm.new_inv hm.new_abs)

lemma jit_codegen_functions_step:
  assumes "jit_codegen_functions L fs s = Some (Inr (u, s'))" and "fresh_codegen s"
  shows "codegen_inv L s' \<and> cg_queue s' = [] \<and> roots_compiled L fs s'"
proof -
  obtain t where 1: "codegen_roots L fs s = Inr ((), t)" and 2: "drain_codegen_queue L t = Some (Inr (u, s'))"
    using assms(1) by (auto simp: jit_codegen_functions_def split: sum.splits)
  note t = codegen_roots_compile [OF 1 fresh_codegen_inv [OF assms(2)]]
  note s' = drain_codegen_queue_step [OF 2 t [THEN conjunct1]]
  then show ?thesis using t by (auto simp: roots_compiled_def root_compiled_def)
qed

end
