(* ===== verification/Codegen_Compiled.thy ===== *)
theory Codegen_Compiled
  imports Codegen_Layout Jit_Worklist
begin

text \<open>
  The properties of the compiled functions, with a small program for the witnesses: the loop over the
  queue ends, what is compiled is closed under calls, code does not overlap, constants are misplaced.
\<close>

section \<open>Properties\<close>

text \<open>The library of the witnesses: function 5 calls function 6 and itself, function 6 calls 5.\<close>

definition call_to :: "u32 \<Rightarrow> reloc" where
  "call_to f = \<lparr>rl_offset = 1, rl_addend = - 4, rl_kind = SPIDIR_RELOC_X64_PC32, rl_target = Target_internal_function f\<rparr>"

definition sample_blob :: "reloc list \<Rightarrow> blob" where
  "sample_blob rs = \<lparr>bl_code = [0xE8, 0, 0, 0, 0, 0xC3], bl_constpool = [1, 2, 3, 4, 5, 6, 7, 8], bl_constpool_align = 16,
     bl_relocs = rs\<rparr>"

definition sample_codegen :: codegen_env where
  "sample_codegen = \<lparr>cg_emit = [5 \<mapsto> sample_blob [call_to 6, call_to 5], 6 \<mapsto> sample_blob [call_to 5]],
     cg_host = roomy_host, cg_page_size = 4096, cg_jit_alloc = (\<lambda>_ _. 0x10000), cg_jit_lock = True,
     cg_helper_address = (\<lambda>_. 0), cg_popcnt32 = 1, cg_popcnt64 = 2,
     cg_module = sample_module\<lparr>mod_imports := [], mod_exports := [\<lparr>export_name = [], export_kind = WASM_EXPORT_FUNC, export_index = 0\<rparr>],
       mod_elems := [], mod_start_func := - 1\<rparr>, cg_capture_debug = False\<rparr>"

definition sample_functions :: "jit_function list" where
  "sample_functions = [\<lparr>jf_spidir = Some (Funcref_internal 5), jf_cfi_thunk = 0, jf_address = 0, jf_inited = True, jf_has_cfi = False\<rparr>]"

lemma fresh_start [simp]: "fresh_codegen start_codegen"
  by (simp add: fresh_codegen_def start_codegen_def)

lemma codegen_functions_total:
  assumes "fresh_codegen s"
  shows "jit_codegen_functions L fs s \<noteq> None"
proof (cases "codegen_roots L fs s")
  case (Inr r)
  then obtain v t where run: "codegen_roots L fs s = Inr (v, t)" by (cases r) simp
  then have "codegen_inv L t" using codegen_roots_compile fresh_codegen_inv [OF assms] by blast
  then have "hmap_inv (func_to_idx t)" by (simp add: codegen_inv_def compiled_ok_def)
  from drain_codegen_queue_total [OF this] show ?thesis using run by (simp add: jit_codegen_functions_def)
qed (simp add: jit_codegen_functions_def)

text \<open>
  C30: The loop over the queue of functions to compile ends, whatever the relocations of the compiled
  code are: a function is compiled once, and only the relocations of a function compiled for the
  first time extend the queue.
\<close>

theorem codegen_queue_terminates:
  assumes "fresh_codegen s"
  shows "jit_codegen_functions L fs s \<noteq> None"
  by (rule codegen_functions_total [OF assms])

lemma codegen_queue_terminates_witness:
  "jit_codegen_functions sample_codegen sample_functions start_codegen \<noteq> None"
  by (rule codegen_queue_terminates) simp

text \<open>
  C10: When the functions have been compiled without error, everything reachable has code: the
  function and the thunk of every exported function, of every table entry and of the start function,
  and every function that compiled code calls or whose address it takes. Nothing is compiled
  twice, and each function has the blob the library produced for it.
\<close>

theorem compiled_code_closed:
  assumes "jit_codegen_functions L fs s = Some (Inr (u, s'))" and "fresh_codegen s"
  shows "roots_compiled L fs s' \<and> distinct (map fc_function (cg_functions s')) \<and>
    (\<forall>x \<in> set (cg_functions s'). \<exists>b. cg_emit L (fc_function x) = Some b \<and> fc_blob x = Handle b \<and>
       set (internal_targets (bl_relocs b)) \<subseteq> fc_function ` set (cg_functions s'))"
proof -
  note step = jit_codegen_functions_step [OF assms]
  then have ok: "compiled_ok L s'" "callees_queued L s'" "cg_queue s' = []" by (simp_all add: codegen_inv_def)
  then show ?thesis
    using step visited_iff [OF ok(1)] by (fastforce simp: compiled_ok_def callees_queued_def)
qed

text \<open>
  C14: The code of the compiled functions is laid out without overlap: each starts at a multiple of 16,
  with at least 16 bytes before it that belong to no function, where the endbr64 of an indirect
  call target goes, and ends inside the code; provided the code of all functions fits in 32 bits,
  the width in which offsets are kept.
\<close>

theorem code_layout_sound:
  assumes "jit_codegen_functions L fs s = Some (Inr (u, s'))" and "fresh_codegen s" and "code_fits L"
  shows "\<forall>i < length (cg_functions s'). let x = cg_functions s' ! i in
    16 dvd unat (code_offset x) \<and> 16 \<le> unat (code_offset x) \<and>
    unat (code_offset x) + code_length L (fc_function x) \<le> unat (code_size s') \<and>
    (\<forall>j < i. unat (code_offset (cg_functions s' ! j)) + code_length L (fc_function (cg_functions s' ! j)) + 16 \<le> unat (code_offset x))"
proof -
  have "code_laid_out L s'"
    using jit_codegen_functions_step [OF assms(1,2)] assms(3) by (simp add: codegen_inv_def)
  then show ?thesis by (simp add: code_laid_out_def sorted_wrt_iff_nth_less Let_def)
qed

definition ends_in :: "('s \<Rightarrow> bool) \<Rightarrow> (unit \<times> 's) res option \<Rightarrow> bool" where
  "ends_in P r = (case r of Some (Inr (_, s)) \<Rightarrow> P s | _ \<Rightarrow> False)"

lemma ends_inE:
  assumes "ends_in P r"
  obtains s where "r = Some (Inr ((), s))" and "P s"
  using assms by (auto simp: ends_in_def split: option.splits sum.splits)

lemma sample_compiles:
  "ends_in (\<lambda>s. map fc_function (cg_functions s) = [5, 6] \<and> map code_offset (cg_functions s) = [16, 48] \<and>
     map constpool_offset (cg_functions s) = [0, 24] \<and>
     fc_blob (cg_functions s ! 1) = Handle (sample_blob [call_to 5]) \<and> constpool_offset (cg_functions s ! 1) = 24)
   (jit_codegen_functions sample_codegen sample_functions start_codegen)"
  by code_simp

lemma compiled_code_closed_witness:
  "\<exists>s. jit_codegen_functions sample_codegen sample_functions start_codegen = Some (Inr ((), s)) \<and>
     map fc_function (cg_functions s) = [5, 6] \<and> distinct (map fc_function (cg_functions s))"
  using compiled_code_closed [OF _ fresh_start] ends_inE [OF sample_compiles] by metis

lemma code_layout_sound_witness:
  "\<exists>s. jit_codegen_functions sample_codegen sample_functions start_codegen = Some (Inr ((), s)) \<and>
     map code_offset (cg_functions s) = [16, 48] \<and> 16 dvd unat (code_offset (cg_functions s ! 1))"
proof -
  have "{f. cg_emit sample_codegen f \<noteq> None} = {5, 6}" by (auto simp: sample_codegen_def split: if_splits)
  then have fits: "code_fits sample_codegen"
    by (simp add: code_fits_def code_length_def) (simp add: sample_codegen_def sample_blob_def)
  obtain s where s: "jit_codegen_functions sample_codegen sample_functions start_codegen = Some (Inr ((), s))"
    and f: "map code_offset (cg_functions s) = [16, 48]" using ends_inE [OF sample_compiles] by metis
  have "length (map code_offset (cg_functions s)) = 2" unfolding f by simp
  then have "1 < length (cg_functions s)" by simp
  from code_layout_sound [OF s fresh_start fits, THEN spec, THEN mp, OF this]
  have "16 dvd unat (code_offset (cg_functions s ! 1))" unfolding Let_def by (rule conjunct1)
  with s f show ?thesis by (intro exI [of _ s] conjI)
qed


text \<open>
  Each function with constants at least doubles the read-only data, so that its size is
  exponential in the number of such functions; where the size is not too large to be represented.
\<close>

theorem constpool_doubles:
  assumes "jit_codegen_function L f s = Inr (u, s')" and "\<not> jit_codegen_visited_function f s"
    and "cg_emit L f = Some b" and "bl_constpool b \<noteq> []" and "bl_constpool_align b - 1 = mask k"
    and "unat (bl_constpool_align b - 1) = 2 ^ k - 1"
    and "2 * unat (rodata_size s) + 2 ^ k + length (bl_constpool b) < 2 ^ 64"
  shows "2 * unat (rodata_size s) + length (bl_constpool b) \<le> unat (rodata_size s')"
  using assms(1)
proof (cases rule: jit_codegen_function_cases)
  case (new b' t)
  let ?r = "unat (rodata_size s)" and ?up = "align_up (rodata_size s) (bl_constpool_align b)"
  have b': "b' = b" using new(2) assms(3) by simp
  have up: "unat ?up = (?r + (2 ^ k - 1)) div 2 ^ k * 2 ^ k"
    using unat_align_up_mask [OF assms(5,6)] assms(7) by simp
  have "?r + (2 ^ k - 1) = (?r + (2 ^ k - 1)) div 2 ^ k * 2 ^ k + (?r + (2 ^ k - 1)) mod 2 ^ k" by (rule div_mult_mod_eq [symmetric])
  moreover have "(?r + (2 ^ k - 1)) mod 2 ^ k < 2 ^ k" by simp
  ultimately have le: "?r \<le> unat ?up" "unat ?up \<le> ?r + 2 ^ k" unfolding up by linarith+
  have "rodata_size s' = rodata_size s + ?up + word_of_nat (length (bl_constpool b))"
    using new(4) assms(4) by (simp add: compiled_def b')
  moreover have "unat (rodata_size s + ?up) = ?r + unat ?up" using le assms(7) by (simp add: unat_word_ariths)
  moreover have "unat (word_of_nat (length (bl_constpool b)) :: u64) = length (bl_constpool b)"
    using assms(7) by (simp add: unat_of_nat)
  ultimately have "unat (rodata_size s') = ?r + unat ?up + length (bl_constpool b)"
    using le assms(7) by (simp add: unat_word_ariths)
  then show ?thesis using le by simp
next
  case visited
  then show ?thesis using assms(2) by simp
qed

lemma constpool_doubles_witness:
  "\<exists>s'. jit_codegen_function sample_codegen 6 (start_codegen\<lparr>rodata_size := 1000\<rparr>) = Inr ((), s') \<and> 2008 \<le> unat (rodata_size s')"
proof -
  have "ends_in (\<lambda>_. True) (Some (jit_codegen_function sample_codegen 6 (start_codegen\<lparr>rodata_size := 1000\<rparr>)))" by code_simp
  then obtain s' where s': "jit_codegen_function sample_codegen 6 (start_codegen\<lparr>rodata_size := 1000\<rparr>) = Inr ((), s')"
    by (rule ends_inE) simp
  have "2 * unat (rodata_size (start_codegen\<lparr>rodata_size := 1000\<rparr>)) + length (bl_constpool (sample_blob [call_to 5])) \<le> unat (rodata_size s')"
    by (rule constpool_doubles [OF s', where k = 4])
      (simp_all add: jit_codegen_visited_function_def start_codegen_def hm.lookup_law hm.new_inv hm.new_abs
        sample_codegen_def sample_blob_def mask_eq_exp_minus_1)
  then show ?thesis using s' by (simp add: sample_blob_def)
qed

end
