(* ===== verification/Codegen_Reloc.thy ===== *)
theory Codegen_Reloc
  imports Codegen_Link Codegen_Compiled
begin

text \<open>
  What a relocation leaves in the binary: the processor, adding the stored displacement to the
  address of the field, arrives at the target.
\<close>

section \<open>Stores\<close>

text \<open>The bytes of a field of the binary, and the rest.\<close>

definition field :: "u64 \<Rightarrow> nat \<Rightarrow> linker \<Rightarrow> u8 list" where
  "field off n s = take n (drop (unat off) (lk_binary s))"

definition same_outside :: "u64 \<Rightarrow> nat \<Rightarrow> linker \<Rightarrow> linker \<Rightarrow> bool" where
  "same_outside off n s s' \<longleftrightarrow> length (lk_binary s') = length (lk_binary s) \<and>
     (\<forall>i < length (lk_binary s). i < unat off \<or> unat off + n \<le> i \<longrightarrow> lk_binary s' ! i = lk_binary s ! i)"

lemma store_run:
  "store off bs s = Inr (u, s') \<longleftrightarrow> unat off + length bs \<le> length (lk_binary s) \<and>
     s' = s\<lparr>lk_binary := take (unat off) (lk_binary s) @ bs @ drop (unat off + length bs) (lk_binary s)\<rparr>"
  by (auto simp: store_def poke_def run)

lemma store_effect:
  assumes "store off bs s = Inr (u, s')"
  shows "field off (length bs) s' = bs" and "same_outside off (length bs) s s'"
    and "s' = s\<lparr>lk_binary := lk_binary s'\<rparr>" and "unat off + length bs \<le> length (lk_binary s)"
  using assms by (auto simp: store_run field_def same_outside_def nth_append min_def)

section \<open>Relocations\<close>

lemma signed_displacement:
  assumes "- (2 ^ 31) \<le> sint v" and "sint v \<le> 2 ^ 31 - 1"
  shows "scast (ucast (v :: u64) :: u32) = v"
proof -
  have "signed_take_bit 31 (sint v) = sint v"
    using assms by (intro signed_take_bit_int_eq_self) simp_all
  moreover have "signed_take_bit 31 (sint v) = signed_take_bit 31 (uint v)"
    by (simp add: sint_uint signed_take_bit_signed_take_bit)
  ultimately have "sint (ucast v :: u32) = sint v"
    by (simp add: signed_ucast_eq)
  then show ?thesis by (simp add: scast_eq)
qed

text \<open>The field a relocation writes, and what the processor finds through it.\<close>

definition reloc_width :: "reloc \<Rightarrow> nat" where
  "reloc_width r = (if rl_kind r = SPIDIR_RELOC_X64_PC32 then 4 else 8)"

definition leads_to :: "u64 \<Rightarrow> reloc \<Rightarrow> u64 \<Rightarrow> linker \<Rightarrow> bool" where
  "leads_to code_off r target s \<longleftrightarrow>
     (if rl_kind r = SPIDIR_RELOC_X64_PC32 then
        lk_base s + code_off + rl_offset r + scast (le_word (field (code_off + rl_offset r) 4 s) :: u32) = target + rl_addend r
      else le_word (field (code_off + rl_offset r) 8 s) = target + rl_addend r)"

lemma jit_apply_reloc_effect:
  assumes "jit_apply_reloc code_off code_len r target s = Inr (u, s')"
  obtains bs where "rl_kind r \<noteq> Reloc_other" and "store (code_off + rl_offset r) bs s = Inr ((), s')" and "length bs = reloc_width r"
    and "rl_offset r + word_of_nat (reloc_width r) \<le> code_len" and "leads_to code_off r target s'"
proof (cases "rl_kind r")
  case SPIDIR_RELOC_X64_PC32
  let ?v = "target + rl_addend r - (lk_base s + code_off + rl_offset r)"
  have v: "- (2 ^ 31) \<le> sint ?v" "sint ?v \<le> 2 ^ 31 - 1"
    and st: "store (code_off + rl_offset r) (le_bytes 4 (ucast ?v :: u32)) s = Inr ((), s')" and le: "rl_offset r + 4 \<le> code_len"
    using assms SPIDIR_RELOC_X64_PC32 by (auto simp: jit_apply_reloc_def Let_def bind_run)
  have base: "lk_base s' = lk_base s" using arg_cong [OF store_effect(3) [OF st], of lk_base] by simp
  show thesis
    using store_effect(1) [OF st] SPIDIR_RELOC_X64_PC32 le
    by (intro that [OF _ st]) (simp_all add: leads_to_def reloc_width_def base le_word_le_bytes signed_displacement [OF v])
next
  case SPIDIR_RELOC_X64_ABS64
  then have st: "store (code_off + rl_offset r) (le_bytes 8 (target + rl_addend r)) s = Inr ((), s')" and le: "rl_offset r + 8 \<le> code_len"
    using assms by (auto simp: jit_apply_reloc_def Let_def bind_run)
  show thesis
    using store_effect(1) [OF st] SPIDIR_RELOC_X64_ABS64 le
    by (intro that [OF _ st]) (simp_all add: leads_to_def reloc_width_def le_word_le_bytes)
next
  case Reloc_other
  then show thesis using assms by (simp add: jit_apply_reloc_def bind_run)
qed

text \<open>
  C15: Applying a relocation writes only its field, 4 or 8 bytes inside the function's code, and
  the field then leads to the target: a PC-relative one plus the address of the field is
  the target plus the addend, after sign extension as the processor does it; an absolute one is
  the target plus the addend.
\<close>

theorem apply_reloc_exact:
  assumes "jit_apply_reloc code_off code_len r target s = Inr (u, s')"
  shows "(rl_kind r = SPIDIR_RELOC_X64_PC32 \<and> same_outside (code_off + rl_offset r) 4 s s' \<and>
      lk_base s + code_off + rl_offset r + scast (le_word (field (code_off + rl_offset r) 4 s') :: u32) = target + rl_addend r) \<or>
    (rl_kind r = SPIDIR_RELOC_X64_ABS64 \<and> same_outside (code_off + rl_offset r) 8 s s' \<and>
      le_word (field (code_off + rl_offset r) 8 s') = target + rl_addend r)"
proof -
  obtain bs where "rl_kind r \<noteq> Reloc_other" and st: "store (code_off + rl_offset r) bs s = Inr ((), s')" and "length bs = reloc_width r"
    and "leads_to code_off r target s'"
    using assms by (rule jit_apply_reloc_effect)
  moreover have "lk_base s' = lk_base s" using arg_cong [OF store_effect(3) [OF st], of lk_base] by simp
  ultimately show ?thesis
    using store_effect(2) [OF st] by (cases "rl_kind r") (simp_all add: reloc_width_def leads_to_def)
qed

definition sample_linker :: linker where
  "sample_linker = start_linker\<lparr>lk_base := 0x10000, lk_binary := replicate 32 0xCC\<rparr>"

lemma apply_reloc_exact_witness:
  "\<exists>s'. jit_apply_reloc 16 6 (call_to 5) 0x10000 sample_linker = Inr ((), s') \<and>
     0x10011 + scast (le_word (field 17 4 s') :: u32) = (0x10000 - 4 :: u64)"
proof -
  have "\<exists>s'. jit_apply_reloc 16 6 (call_to 5) 0x10000 sample_linker = Inr ((), s')"
    by (simp add: jit_apply_reloc_def call_to_def sample_linker_def Let_def bind_run store_run)
  then obtain s' where s': "jit_apply_reloc 16 6 (call_to 5) 0x10000 sample_linker = Inr ((), s')" ..
  then show ?thesis
    using apply_reloc_exact [OF s'] by (auto simp: call_to_def sample_linker_def)
qed

end
