(* ===== verification/Codegen_Image.thy ===== *)
theory Codegen_Image
  imports Codegen_Reloc
begin

text \<open>
  The binary while it is linked. Its parts are fixed before linking: the code of each function with
  the slot of its endbr64, the constants of each function, the tables. \<open>writes A\<close> says that a run changes
  bytes of \<open>A\<close> and slots of endbr64s only, and nothing that locates the parts.
\<close>

section \<open>Writing\<close>

text \<open>The functions without what linking changes of them.\<close>

definition core :: "linker \<Rightarrow> function_codegen list" where
  "core s = map (\<lambda>x. x\<lparr>fc_blob := Null_handle\<rparr>) (cg_functions s)"

definition same_maps :: "linker \<Rightarrow> linker \<Rightarrow> bool" where
  "same_maps s s' \<longleftrightarrow> core s' = core s \<and> func_to_idx s' = func_to_idx s \<and> global_offsets s' = global_offsets s \<and>
     import_addresses s' = import_addresses s \<and> code_size s' = code_size s \<and> rodata_size s' = rodata_size s \<and>
     lk_base s' = lk_base s \<and> length (lk_binary s') = length (lk_binary s)"

definition code_at :: "function_codegen \<Rightarrow> nat" where
  "code_at x = unat (code_offset x)"

definition entry_slot :: "function_codegen \<Rightarrow> nat set" where
  "entry_slot x = {code_at x - 4 ..< code_at x}"

definition endbr_at :: "linker \<Rightarrow> function_codegen \<Rightarrow> bool" where
  "endbr_at s x \<longleftrightarrow> take 4 (drop (code_at x - 4) (lk_binary s)) = [0xF3, 0x0F, 0x1E, 0xFA]"

definition writes :: "nat set \<Rightarrow> linker \<Rightarrow> linker \<Rightarrow> bool" where
  "writes A s s' \<longleftrightarrow> same_maps s s' \<and>
     (\<forall>i < length (lk_binary s). i \<notin> A \<longrightarrow> (\<forall>x \<in> set (core s). i \<notin> entry_slot x) \<longrightarrow> lk_binary s' ! i = lk_binary s ! i) \<and>
     (\<forall>x \<in> set (core s). endbr_at s x \<longrightarrow> endbr_at s' x)"

interpretation writes_order: run_preorder "writes A"
  for A by unfold_locales (auto simp: writes_def same_maps_def)

lemma writes_mono: "writes A s s' \<Longrightarrow> A \<subseteq> B \<Longrightarrow> writes B s s'"
  by (auto simp: writes_def)

lemma writes_same: "writes A s s' \<Longrightarrow> same_maps s s'"
  by (simp add: writes_def)

section \<open>The parts\<close>

definition image_ok :: "codegen_env \<Rightarrow> linker \<Rightarrow> bool" where
  "image_ok L s \<longleftrightarrow> hmap_inv (func_to_idx s) \<and> hmap_map (func_to_idx s) = idx_of (core s) \<and> distinct (map fc_function (core s)) \<and>
     (\<forall>x \<in> set (core s). 16 \<le> code_at x \<and> code_at x + code_length L (fc_function x) \<le> unat (code_size s) \<and>
        (const_size L (fc_function x) \<noteq> 0 \<longrightarrow> unat (constpool_offset x) + const_size L (fc_function x) \<le> unat (rodata_size s))) \<and>
     sorted_wrt (\<lambda>x y. code_at x + code_length L (fc_function x) + 16 \<le> code_at y) (core s) \<and>
     sorted_wrt (consts_apart L) (core s) \<and>
     length (lk_binary s) = unat (code_size s) + unat (rodata_size s) \<and> length (lk_binary s) < 2 ^ 63"

lemma image_ok_same: "same_maps s s' \<Longrightarrow> image_ok L s' = image_ok L s"
  by (simp add: image_ok_def same_maps_def)

definition code_bytes :: "codegen_env \<Rightarrow> function_codegen \<Rightarrow> nat set" where
  "code_bytes L x = {code_at x ..< code_at x + code_length L (fc_function x)}"

definition const_at :: "linker \<Rightarrow> function_codegen \<Rightarrow> nat" where
  "const_at s x = unat (code_size s) + unat (constpool_offset x)"

definition const_bytes :: "codegen_env \<Rightarrow> linker \<Rightarrow> function_codegen \<Rightarrow> nat set" where
  "const_bytes L s x = {const_at s x ..< const_at s x + const_size L (fc_function x)}"

text \<open>The blobs before function \<open>i\<close> is linked: those before it are gone, the others as the library made them.\<close>

definition blobs_from :: "codegen_env \<Rightarrow> nat \<Rightarrow> linker \<Rightarrow> bool" where
  "blobs_from L i s \<longleftrightarrow> (\<forall>j < length (cg_functions s). let x = cg_functions s ! j in
     cg_emit L (fc_function x) \<noteq> None \<and> fc_blob x = (if j < i then Null_handle else Handle (the (cg_emit L (fc_function x)))))"

lemma sorted_wrt_cases: "sorted_wrt P xs \<Longrightarrow> x \<in> set xs \<Longrightarrow> y \<in> set xs \<Longrightarrow> x = y \<or> P x y \<or> P y x"
  by (induction xs) auto

lemma parts_apart:
  assumes "image_ok L s" and "x \<in> set (core s)" and "y \<in> set (core s)"
  shows "code_bytes L x \<inter> entry_slot y = {}" and "const_bytes L s x \<inter> entry_slot y = {}"
    and "code_bytes L x \<inter> const_bytes L s y = {}"
    and "x \<noteq> y \<Longrightarrow> code_bytes L x \<inter> code_bytes L y = {}" and "x \<noteq> y \<Longrightarrow> const_bytes L s x \<inter> const_bytes L s y = {}"
    and "x \<noteq> y \<Longrightarrow> entry_slot x \<inter> entry_slot y = {}"
proof -
  have in_code: "16 \<le> code_at z" "code_at z + code_length L (fc_function z) \<le> unat (code_size s)" if "z \<in> set (core s)" for z
    using assms(1) that by (auto simp: image_ok_def)
  have order: "x = y \<or> code_at x + code_length L (fc_function x) + 16 \<le> code_at y \<or> code_at y + code_length L (fc_function y) + 16 \<le> code_at x"
    using assms by (intro sorted_wrt_cases) (auto simp: image_ok_def)
  have pools: "x = y \<or> consts_apart L x y \<or> consts_apart L y x"
    using assms by (intro sorted_wrt_cases) (auto simp: image_ok_def)
  note x = in_code [OF assms(2)] and y = in_code [OF assms(3)]
  show "code_bytes L x \<inter> entry_slot y = {}" using order x y by (auto simp: code_bytes_def entry_slot_def)
  show "const_bytes L s x \<inter> entry_slot y = {}" using y by (auto simp: const_bytes_def const_at_def entry_slot_def)
  show "code_bytes L x \<inter> const_bytes L s y = {}" using x by (auto simp: code_bytes_def const_bytes_def const_at_def)
  show "x \<noteq> y \<Longrightarrow> code_bytes L x \<inter> code_bytes L y = {}" using order by (auto simp: code_bytes_def)
  show "x \<noteq> y \<Longrightarrow> const_bytes L s x \<inter> const_bytes L s y = {}"
    using pools by (auto simp: const_bytes_def const_at_def consts_apart_def)
  show "x \<noteq> y \<Longrightarrow> entry_slot x \<inter> entry_slot y = {}" using order x y by (auto simp: entry_slot_def)
qed

section \<open>Stores\<close>

lemma slice_eq:
  assumes "length ys = length xs" and "\<And>i. p \<le> i \<Longrightarrow> i < p + n \<Longrightarrow> i < length xs \<Longrightarrow> ys ! i = xs ! i"
  shows "take n (drop p ys) = take n (drop p xs)"
  using assms by (intro nth_equalityI) auto

lemma bytes_kept:
  assumes "writes A s s'" and "\<And>i. p \<le> i \<Longrightarrow> i < p + n \<Longrightarrow> i \<notin> A \<and> (\<forall>x \<in> set (core s). i \<notin> entry_slot x)"
  shows "take n (drop p (lk_binary s')) = take n (drop p (lk_binary s))"
  using assms by (intro slice_eq) (auto simp: writes_def same_maps_def)

lemma core_store [simp]: "core (s\<lparr>lk_binary := m\<rparr>) = core s"
  by (simp add: core_def)

lemma store_same:
  assumes "store off bs s = Inr (u, s')"
  shows "same_maps s s'" and "core s' = core s"
  using assms by (auto simp: store_run same_maps_def)

lemma entry_slot_eq: "image_ok L s \<Longrightarrow> x \<in> set (core s) \<Longrightarrow> 16 \<le> code_at x \<and> entry_slot x = {code_at x - 4 ..< code_at x - 4 + 4}"
  by (auto simp: image_ok_def entry_slot_def)

lemma store_writes:
  assumes "store off bs s = Inr (u, s')" and "image_ok L s" and "{unat off ..< unat off + length bs} \<subseteq> A"
    and "\<And>x. x \<in> set (core s) \<Longrightarrow> A \<inter> entry_slot x = {}"
  shows "writes A s s'"
proof -
  note outside = store_effect(2) [OF assms(1), unfolded same_outside_def]
  have "take 4 (drop (code_at x - 4) (lk_binary s')) = take 4 (drop (code_at x - 4) (lk_binary s))" if x: "x \<in> set (core s)" for x
  proof (rule slice_eq)
    fix i assume i: "code_at x - 4 \<le> i" "i < code_at x - 4 + 4" "i < length (lk_binary s)"
    then have "i \<in> entry_slot x" using entry_slot_eq [OF assms(2) x] by auto
    then have "i \<notin> {unat off ..< unat off + length bs}" using assms(3,4) x by blast
    then show "lk_binary s' ! i = lk_binary s ! i" using outside i(3) by auto
  qed (use outside in simp)
  moreover have "lk_binary s' ! i = lk_binary s ! i" if "i < length (lk_binary s)" "i \<notin> A" for i
  proof -
    have "i \<notin> {unat off ..< unat off + length bs}" using that(2) assms(3) by blast
    then show ?thesis using outside that(1) by auto
  qed
  ultimately show ?thesis using store_same [OF assms(1)] by (simp add: writes_def endbr_at_def)
qed

lemma store_safe: "unat off + length bs \<le> length (lk_binary s) \<Longrightarrow> store off bs s \<noteq> Inl Undefined"
  by (simp add: store_def on_part_def poke_def gets_bind defined_def bind_ret modify_def split: sum.split)

lemma image_bounds:
  assumes "image_ok L s" and "x \<in> set (core s)"
  shows "16 \<le> code_at x" and "code_at x + code_length L (fc_function x) \<le> unat (code_size s)"
    and "unat (code_size s) + unat (rodata_size s) = length (lk_binary s)" and "length (lk_binary s) < 2 ^ 63"
  using assms by (auto simp: image_ok_def)

lemma unat_code_offset: "unat (ucast (code_offset x) :: u64) = code_at x"
  using unsigned_less [where ?'a = nat, of "code_offset x"] by (simp add: code_at_def unsigned_ucast_eq take_bit_nat_eq_self)

lemma jit_get_indirect_step:
  assumes "jit_get_indirect (ucast (code_offset x)) s = Inr (off, s')" and "image_ok L s" and x: "x \<in> set (core s)"
  shows "off = ucast (code_offset x) - 4 \<and> writes {} s s' \<and> endbr_at s' x"
proof -
  let ?off = "ucast (code_offset x) - 4 :: u64"
  have st: "store ?off [0xF3, 0x0F, 0x1E, 0xFA] s = Inr ((), s')" and off: "off = ?off"
    using assms(1) by (auto simp: jit_get_indirect_def run)
  have at: "unat ?off = code_at x - 4"
    using image_bounds(1) [OF assms(2,3)] by (simp add: unat_sub_if' unat_code_offset word_le_nat_alt)
  note eff = store_effect [OF st] and outside = store_effect(2) [OF st, unfolded same_outside_def]
  have endbr: "endbr_at s' x" using eff(1) by (simp add: endbr_at_def field_def at eval_nat_numeral)
  have slot: "{unat ?off ..< unat ?off + 4} = entry_slot x" using at entry_slot_eq [OF assms(2,3)] by simp
  have "endbr_at s' y" if y: "y \<in> set (core s)" "endbr_at s y" for y
  proof (cases "y = x")
    case False
    have "take 4 (drop (code_at y - 4) (lk_binary s')) = take 4 (drop (code_at y - 4) (lk_binary s))"
    proof (rule slice_eq)
      fix i assume i: "code_at y - 4 \<le> i" "i < code_at y - 4 + 4" "i < length (lk_binary s)"
      then have "i \<in> entry_slot y" using entry_slot_eq [OF assms(2) y(1)] by auto
      then have "i \<notin> entry_slot x" using parts_apart(6) [OF assms(2) y(1) x False] by blast
      then show "lk_binary s' ! i = lk_binary s ! i" using outside i(3) unfolding slot [symmetric] by auto
    qed (use outside in simp)
    then show ?thesis using y(2) by (simp add: endbr_at_def)
  qed (use endbr in simp)
  moreover have "lk_binary s' ! i = lk_binary s ! i" if "i < length (lk_binary s)" "i \<notin> entry_slot x" for i
    using outside that unfolding slot [symmetric] by auto
  ultimately have "writes {} s s'" using store_same [OF st] x by (auto simp: writes_def)
  then show ?thesis using off endbr by simp
qed

lemma jit_get_indirect_safe:
  assumes "image_ok L s" and "x \<in> set (core s)"
  shows "jit_get_indirect (ucast (code_offset x)) s \<noteq> Inl Undefined"
proof -
  have "unat (ucast (code_offset x) - 4 :: u64) = code_at x - 4"
    using image_bounds(1) [OF assms] by (simp add: unat_sub_if' unat_code_offset word_le_nat_alt)
  then show ?thesis
    unfolding jit_get_indirect_def using image_bounds [OF assms] by (intro safe store_safe) simp
qed

section \<open>Finding a function\<close>

lemma idx_of_Some:
  assumes "idx_of fs (ucast f) = Some i"
  shows "\<exists>k < length fs. i = word_of_nat k \<and> fc_function (fs ! k) = f"
  using map_of_SomeD [OF assms [unfolded idx_of_def]] by (auto simp: in_set_zip widened_eq)

lemma functions_few:
  assumes "distinct (map fc_function fs)"
  shows "length fs \<le> 2 ^ 32"
proof -
  have "length fs = card (fc_function ` set fs)" using distinct_card [OF assms] by simp
  also have "\<dots> \<le> card (UNIV :: u32 set)" by (intro card_mono) auto
  finally show ?thesis by (simp add: card_word)
qed

lemma lookup_func_step:
  assumes "lookup_func f s = Inr (x, s')" and "image_ok L s"
  shows "s' = s \<and> x \<in> set (cg_functions s) \<and> fc_function x = f"
proof -
  obtain i where i: "hmap_lookup (func_to_idx s) (ucast f) = Some i" "unat i < length (cg_functions s)" "x = cg_functions s ! unat i" "s' = s"
    using assms(1) by (auto simp: lookup_func_def some_or_fail_def run split: option.splits)
  have "idx_of (core s) (ucast f) = Some i" using i(1) assms(2) by (simp add: image_ok_def hm.lookup_law)
  from idx_of_Some [OF this] obtain k where k: "k < length (core s)" "i = word_of_nat k" "fc_function (core s ! k) = f" by blast
  have "length (core s) \<le> 2 ^ 32" using assms(2) by (intro functions_few) (simp add: image_ok_def)
  then have "unat i = k" using k by (simp add: unat_of_nat)
  then show ?thesis using i k by (simp add: core_def)
qed

lemma lookup_func_safe:
  assumes "image_ok L s"
  shows "lookup_func f s \<noteq> Inl Undefined"
proof (cases "hmap_lookup (func_to_idx s) (ucast f)")
  case None
  then show ?thesis by (simp add: lookup_func_def gets_bind some_or_fail_def fail_apply)
next
  case (Some i)
  have "idx_of (core s) (ucast f) = Some i" using Some assms by (simp add: image_ok_def hm.lookup_law)
  from idx_of_Some [OF this] obtain k where k: "k < length (core s)" "i = word_of_nat k" by blast
  have "length (core s) \<le> 2 ^ 32" using assms by (intro functions_few) (simp add: image_ok_def)
  then have "unat i < length (cg_functions s)" using k by (simp add: unat_of_nat core_def)
  then show ?thesis using Some by (simp add: lookup_func_def gets_bind some_or_fail_def index_def ret_apply)
qed

lemma core_mem: "x \<in> set (cg_functions s) \<Longrightarrow> \<exists>y \<in> set (core s). fc_function y = fc_function x \<and> code_offset y = code_offset x \<and>
    constpool_offset y = constpool_offset x"
  by (auto simp: core_def)

section \<open>What stays as it is\<close>

definition static :: "linker \<Rightarrow> linker \<Rightarrow> bool" where
  "static s s' \<longleftrightarrow> same_maps s s' \<and> cg_functions s' = cg_functions s"

interpretation static_order: run_preorder static
  by unfold_locales (auto simp: static_def same_maps_def)

lemma modify_static: "(\<And>s. static s (f s)) \<Longrightarrow> along static (modify f)"
  by (rule static_order.along_modify)

lemma store_static [along]: "along static (store off bs)"
  by (rule alongI) (auto simp: store_run static_def same_maps_def core_def)

lemma some_or_fail_static [along]: "along static (some_or_fail x)"
  unfolding some_or_fail_def by (intro along)

lemma lookups_static [along]: "along static (jit_get_indirect off)" "along static (lookup_func f)" "along static (debug_owner f)"
  unfolding jit_get_indirect_def lookup_func_def debug_owner_def by (intro along)+

lemma function_addr_static [along]: "along static (jit_get_internal_function_addr f)" "along static (jit_get_function_addr fs i)"
  unfolding jit_get_internal_function_addr_def jit_get_function_addr_def
  by (intro along) (auto split: option.split spidir_funcref.split intro!: along)

lemma resolve_reloc_static [along]: "along static (resolve_reloc L helpers x r)"
  unfolding resolve_reloc_def by (intro along) (auto simp: Let_def split: reloc_target.split intro!: along)

lemma jit_apply_reloc_static [along]: "along static (jit_apply_reloc code_off n r target)"
  unfolding jit_apply_reloc_def by (intro along) (auto simp: Let_def split: reloc_kind.split intro!: along)

lemma link_reloc_static [along]: "along static (link_reloc L helpers x n owner r)"
  unfolding link_reloc_def by (intro along modify_static) (simp add: static_def same_maps_def core_def)

lemma capture_layout_static [along]: "along static (capture_layout L x b)"
  unfolding capture_layout_def by (intro along modify_static) (simp add: static_def same_maps_def core_def)

lemma fill_static [along]: "along static (fill_slot fs start slot)" "along static (fill_elem C e)" "along static (fill_export C x)"
    "along static (jit_codegen_fill_functions L C)"
proof -
  show 1: "along static (fill_slot fs start slot)" for start slot fs
    unfolding fill_slot_def by (intro along)
  show "along static (fill_elem C e)" unfolding fill_elem_def by (intro along 1)
  show 2: "along static (fill_export C x)" for x
    unfolding fill_export_def by (auto split: wasm_export_type.split intro!: along)
  show "along static (jit_codegen_fill_functions L C)"
    unfolding jit_codegen_fill_functions_def by (intro along modify_static 2) (simp_all add: static_def same_maps_def core_def)
qed

end
