(* ===== verification/Codegen_Allocate.thy ===== *)
theory Codegen_Allocate
  imports Codegen_Image
begin

text \<open>
  From the compiled functions to the empty binary: the tables are placed behind the constants, the two
  parts are rounded up to pages and allocated. What results satisfies \<open>image_ok\<close>, on which linking relies.
\<close>

section \<open>Tables\<close>

definition table_off :: "linker \<Rightarrow> jit_table \<Rightarrow> nat" where
  "table_off s t = (case hmap_lookup (global_offsets s) (ucast (jt_global t)) of Some off \<Rightarrow> unat off | None \<Rightarrow> 0)"

definition table_end :: "linker \<Rightarrow> jit_table \<Rightarrow> nat" where
  "table_end s t = table_off s t + 8 * unat (jt_length t)"

text \<open>The tables lie, in order and aligned, between \<open>lo\<close> and \<open>hi\<close>.\<close>

definition tables_placed :: "nat \<Rightarrow> nat \<Rightarrow> linker \<Rightarrow> jit_table list \<Rightarrow> bool" where
  "tables_placed lo hi s ts \<longleftrightarrow>
     (\<forall>t \<in> set ts. jt_used t \<longrightarrow> hmap_lookup (global_offsets s) (ucast (jt_global t)) \<noteq> None \<and>
        lo \<le> table_off s t \<and> table_end s t \<le> hi \<and> 8 dvd table_off s t) \<and>
     sorted_wrt (\<lambda>t t'. jt_used t \<longrightarrow> jt_used t' \<longrightarrow> table_end s t \<le> table_off s t') ts"

lemma tables_placed_mono: "tables_placed lo hi s ts \<Longrightarrow> lo' \<le> lo \<Longrightarrow> hi \<le> hi' \<Longrightarrow> tables_placed lo' hi' s ts"
  by (auto simp: tables_placed_def)

lemma tables_placed_same: "global_offsets s' = global_offsets s \<Longrightarrow> tables_placed lo hi s' ts = tables_placed lo hi s ts"
  by (simp add: tables_placed_def table_off_def table_end_def)

definition table_room :: "jit_table list \<Rightarrow> nat" where
  "table_room ts = (\<Sum>t\<leftarrow>ts. 8 * unat (jt_length t) + 8)"

definition tables_distinct :: "jit_table list \<Rightarrow> bool" where
  "tables_distinct ts \<longleftrightarrow> distinct (map jt_global (filter jt_used ts))"

text \<open>The part of the state that placing tables changes.\<close>

definition but_rodata :: "linker \<Rightarrow> linker" where
  "but_rodata s = s\<lparr>rodata_size := 0, global_offsets := HMAP_INIT\<rparr>"

lemma codegen_table_step:
  assumes "codegen_table L t s = Inr (u, s')" and "jt_used t" and "hmap_inv (global_offsets s)"
    and "unat (rodata_size s) + (8 * unat (jt_length t) + 8) < 2 ^ 63"
  shows "hmap_inv (global_offsets s')"
    and "unat (rodata_size s) \<le> table_off s' t" and "8 dvd table_off s' t" and "table_end s' t = unat (rodata_size s')"
    and "unat (rodata_size s') \<le> unat (rodata_size s) + (8 * unat (jt_length t) + 8)"
    and "hmap_lookup (global_offsets s') (ucast (jt_global t)) \<noteq> None"
    and "\<And>g. g \<noteq> jt_global t \<Longrightarrow> hmap_lookup (global_offsets s') (ucast g) = hmap_lookup (global_offsets s) (ucast g)"
    and "but_rodata s' = but_rodata s"
proof -
  let ?off = "align_up (rodata_size s) 8"
  obtain m where m: "hmap_insert (cg_host L) (ucast (jt_global t)) ?off (global_offsets s) = Inr ((), m)"
    and s': "s' = s\<lparr>rodata_size := ?off + 8 * ucast (jt_length t), global_offsets := m\<rparr>"
    using assms(1,2) by (auto simp: codegen_table_def insert_global_def on_part_run run)
  note put = hm.insert_law [OF assms(3) m] hm.lookup_after [OF assms(3) m]
  note up = unat_align_up [of 8 "rodata_size s"]
  have len: "unat (8 * ucast (jt_length t) :: u64) = 8 * unat (jt_length t)"
    using unat_u32_bound [of "jt_length t"] by (simp add: unat_word_ariths unsigned_ucast_eq take_bit_nat_eq_self)
  have here: "table_off s' t = unat ?off" by (simp add: table_off_def s' put)
  have grown: "unat (rodata_size s') = unat ?off + 8 * unat (jt_length t)"
    using up assms(4) len by (simp add: s' unat_word_ariths)
  show "hmap_inv (global_offsets s')" "but_rodata s' = but_rodata s" using put by (simp_all add: s' but_rodata_def)
  show "unat (rodata_size s) \<le> table_off s' t" "8 dvd table_off s' t" using up assms(4) here by simp_all
  show "table_end s' t = unat (rodata_size s')" using here grown by (simp add: table_end_def)
  show "unat (rodata_size s') \<le> unat (rodata_size s) + (8 * unat (jt_length t) + 8)" using up assms(4) grown by simp
  show "hmap_lookup (global_offsets s') (ucast (jt_global t)) \<noteq> None" by (simp add: s' put)
  show "hmap_lookup (global_offsets s') (ucast g) = hmap_lookup (global_offsets s) (ucast g)" if "g \<noteq> jt_global t" for g
    using that by (simp add: s' put widened_eq)
qed

lemma jit_codegen_tables_step:
  assumes "for_each ts (codegen_table L) s = Inr (u, s')" and "hmap_inv (global_offsets s)"
    and "unat (rodata_size s) + table_room ts < 2 ^ 63" and "tables_distinct ts"
  shows "tables_placed (unat (rodata_size s)) (unat (rodata_size s')) s' ts \<and> but_rodata s' = but_rodata s \<and>
    hmap_inv (global_offsets s') \<and>
    unat (rodata_size s) \<le> unat (rodata_size s') \<and> unat (rodata_size s') \<le> unat (rodata_size s) + table_room ts \<and>
    (\<forall>g. g \<notin> jt_global ` {t \<in> set ts. jt_used t} \<longrightarrow> hmap_lookup (global_offsets s') (ucast g) = hmap_lookup (global_offsets s) (ucast g))"
  using assms
proof (induction ts arbitrary: s)
  case Nil
  then show ?case by (simp add: tables_placed_def)
next
  case (Cons t ts)
  obtain s1 where first: "codegen_table L t s = Inr ((), s1)" and others: "for_each ts (codegen_table L) s1 = Inr (u, s')"
    using Cons.prems(1) by (auto elim: bind_runE)
  show ?case
  proof (cases "jt_used t")
    case False
    then have "s1 = s" using first by (simp add: codegen_table_def)
    then show ?thesis using Cons.IH [OF others] Cons.prems False by (auto simp: tables_placed_def tables_distinct_def table_room_def)
  next
    case True
    have "unat (rodata_size s) + (8 * unat (jt_length t) + 8) < 2 ^ 63" using Cons.prems(3) by (simp add: table_room_def)
    note step = codegen_table_step [OF first True Cons.prems(2) this]
    have rest: "unat (rodata_size s1) + table_room ts < 2 ^ 63" "tables_distinct ts"
      using step(5) Cons.prems(3,4) True by (simp_all add: table_room_def tables_distinct_def)
    note IH = Cons.IH [OF others step(1) rest]
    have "jt_global t \<notin> jt_global ` {t \<in> set ts. jt_used t}" using Cons.prems(4) True by (auto simp: tables_distinct_def)
    then have same: "hmap_lookup (global_offsets s') (ucast (jt_global t)) = hmap_lookup (global_offsets s1) (ucast (jt_global t))"
      using IH by blast
    then have t: "table_off s' t = table_off s1 t" "table_end s' t = table_end s1 t" by (simp_all add: table_off_def table_end_def)
    have "tables_placed (unat (rodata_size s)) (unat (rodata_size s')) s' (t # ts)"
      using IH step same t True unfolding tables_placed_def by (auto simp: table_end_def)
    moreover have "unat (rodata_size s) \<le> unat (rodata_size s1)" using step(2,4) by (simp add: table_end_def)
    moreover have "hmap_lookup (global_offsets s') (ucast g) = hmap_lookup (global_offsets s) (ucast g)"
      if "g \<notin> jt_global ` {t' \<in> set (t # ts). jt_used t'}" for g
    proof -
      have "g \<notin> jt_global ` {t \<in> set ts. jt_used t}" "g \<noteq> jt_global t" using that True by auto
      then show ?thesis using IH step(7) by simp
    qed
    ultimately show ?thesis using IH step(5,8) by (simp add: table_room_def)
  qed
qed

section \<open>The sizes\<close>

lemma compiled_once:
  assumes "compiled_ok L s"
  shows "distinct (map fc_function (cg_functions s))" and "\<forall>f \<in> set (map fc_function (cg_functions s)). cg_emit L f \<noteq> None"
    and "length (cg_functions s) \<le> card {f. cg_emit L f \<noteq> None}"
proof -
  show once: "distinct (map fc_function (cg_functions s))" "\<forall>f \<in> set (map fc_function (cg_functions s)). cg_emit L f \<noteq> None"
    using assms by (auto simp: compiled_ok_def)
  have "length (cg_functions s) = card (set (map fc_function (cg_functions s)))" using distinct_card [OF once(1)] by simp
  also have "\<dots> \<le> card {f. cg_emit L f \<noteq> None}" using once(2) by (intro card_mono) auto
  finally show "length (cg_functions s) \<le> card {f. cg_emit L f \<noteq> None}" .
qed

lemma compiled_sizes:
  assumes "codegen_inv L s" and "code_fits L" and "rodata_fits L"
  shows "unat (code_size s) < 2 ^ 32" and "unat (rodata_size s) < 2 ^ 32"
proof -
  have ok: "compiled_ok L s" "code_laid_out L s" "rodata_laid_out L s" using assms by (simp_all add: codegen_inv_def)
  note once = compiled_once [OF ok(1)]
  show "unat (code_size s) < 2 ^ 32"
    using ok(2) compiled_length [OF assms(2) once(1,2)] by (simp add: code_laid_out_def)
  have "unat (rodata_size s) \<le> (2 ^ length (cg_functions s) - 1) * all_constants L" using ok(3) by (simp add: rodata_laid_out_def)
  also have "\<dots> \<le> 2 ^ card {f. cg_emit L f \<noteq> None} * all_constants L"
  proof (rule mult_right_mono)
    have "(2::nat) ^ length (cg_functions s) \<le> 2 ^ card {f. cg_emit L f \<noteq> None}" using once(3) by (rule power_increasing) simp
    then show "(2::nat) ^ length (cg_functions s) - 1 \<le> 2 ^ card {f. cg_emit L f \<noteq> None}" by linarith
  qed simp
  finally show "unat (rodata_size s) < 2 ^ 32" using assms(3) by (simp add: rodata_fits_def)
qed

section \<open>The empty binary\<close>

text \<open>The sizes that linking can handle, and tables with globals of their own, as the library gives them.\<close>

definition linkable :: "codegen_env \<Rightarrow> jit_table list \<Rightarrow> bool" where
  "linkable L ts \<longleftrightarrow> code_fits L \<and> rodata_fits L \<and> power_of_two (cg_page_size L) \<and> table_room ts < 2 ^ 62 \<and> tables_distinct ts"

definition consts_below :: "codegen_env \<Rightarrow> linker \<Rightarrow> nat \<Rightarrow> bool" where
  "consts_below L s lo \<longleftrightarrow> (\<forall>x \<in> set (core s). const_size L (fc_function x) \<noteq> 0 \<longrightarrow>
     unat (constpool_offset x) + const_size L (fc_function x) \<le> lo)"

definition image_tables :: "codegen_env \<Rightarrow> jit_table list \<Rightarrow> linker \<Rightarrow> bool" where
  "image_tables L ts s \<longleftrightarrow> (\<exists>lo. consts_below L s lo \<and> tables_placed lo (unat (rodata_size s)) s ts)"

lemma image_tables_same: "same_maps s s' \<Longrightarrow> image_tables L ts s' = image_tables L ts s"
  by (simp add: image_tables_def consts_below_def tables_placed_def table_off_def table_end_def same_maps_def)

lemma idx_of_core: "idx_of (core s) = idx_of (cg_functions s)"
  by (simp add: idx_of_def core_def comp_def)

lemma const_size_iff: "cg_emit L f = Some b \<Longrightarrow> const_size L f = length (bl_constpool b)"
  by (simp add: const_size_def)

lemma consts_below_laid_out:
  assumes "rodata_laid_out L s" and "compiled_ok L s"
  shows "consts_below L s (unat (rodata_size s))"
  using assms by (fastforce simp: consts_below_def core_def rodata_laid_out_def compiled_ok_def const_size_def)

lemma sorted_core: "sorted_wrt (\<lambda>x y. P (x\<lparr>fc_blob := Null_handle\<rparr>) (y\<lparr>fc_blob := Null_handle\<rparr>)) (cg_functions s) \<Longrightarrow> sorted_wrt P (core s)"
  by (simp add: core_def sorted_wrt_map)

lemma consts_apart_blob: "consts_apart L (x\<lparr>fc_blob := h\<rparr>) (y\<lparr>fc_blob := h\<rparr>) = consts_apart L x y"
  by (simp add: consts_apart_def)

lemma page_small: "power_of_two p \<Longrightarrow> unat p < 2 ^ 32"
  using power_strict_increasing [of _ 32 "2::nat"] by (auto elim!: power_of_twoE)

text \<open>What the allocation leaves: the compiled functions, sizes rounded up, and a binary of that size.\<close>

lemma allocate_binary_effect:
  assumes "allocate_binary L s = Inr (u, s')" and "codegen_inv L t" and "linkable L ts"
    and "but_rodata s = but_rodata t" and "unat (rodata_size s) \<le> unat (rodata_size t) + table_room ts"
  shows "cg_functions s' = cg_functions t" and "func_to_idx s' = func_to_idx t" and "global_offsets s' = global_offsets s"
    and "unat (code_size t) \<le> unat (code_size s')" and "unat (rodata_size s) \<le> unat (rodata_size s')"
    and "length (lk_binary s') < 2 ^ 63"
    and "lk_binary s' = replicate (unat (code_size s')) 0xCC @ replicate (unat (rodata_size s')) 0"
proof -
  have fits: "code_fits L" "rodata_fits L" "power_of_two (cg_page_size L)" "table_room ts < 2 ^ 62"
    using assms(3) by (simp_all add: linkable_def)
  have same: "cg_functions s = cg_functions t" "func_to_idx s = func_to_idx t" "code_size s = code_size t"
    using arg_cong [OF assms(4), of cg_functions] arg_cong [OF assms(4), of func_to_idx] arg_cong [OF assms(4), of code_size]
    by (simp_all add: but_rodata_def)
  note small = compiled_sizes [OF assms(2) fits(1,2)] page_small [OF fits(3)]
  note code = align_up_within [OF fits(3), of "code_size t"] and rodata = align_up_within [OF fits(3), of "rodata_size s"]
  have s': "s' = s\<lparr>code_size := align_up (code_size t) (cg_page_size L), rodata_size := align_up (rodata_size s) (cg_page_size L),
      lk_base := lk_base s', lk_binary := replicate (unat (align_up (code_size t) (cg_page_size L))) 0xCC @
        replicate (unat (align_up (rodata_size s) (cg_page_size L))) 0\<rparr>"
    using assms(1) same by (auto simp: allocate_binary_def modify_bind gets_bind run)
  show "cg_functions s' = cg_functions t" "func_to_idx s' = func_to_idx t" "global_offsets s' = global_offsets s"
    by (subst s'; simp add: same)+
  show le: "unat (code_size t) \<le> unat (code_size s')" "unat (rodata_size s) \<le> unat (rodata_size s')"
    using code rodata small fits(4) assms(5) by (subst s'; simp)+
  show bytes: "lk_binary s' = replicate (unat (code_size s')) 0xCC @ replicate (unat (rodata_size s')) 0" by (subst (1 2 3) s') simp
  have "unat (code_size s') < 2 ^ 33" "unat (rodata_size s') < 2 ^ 62 + 2 ^ 33"
    using code rodata small fits(4) assms(5) by (subst s'; simp)+
  then show "length (lk_binary s') < 2 ^ 63" by (simp add: bytes)
qed

lemma allocate_binary_step:
  assumes "allocate_binary L s = Inr (u, s')" and "codegen_inv L t" and "linkable L ts"
    and "but_rodata s = but_rodata t" and "unat (rodata_size t) \<le> unat (rodata_size s)"
    and "unat (rodata_size s) \<le> unat (rodata_size t) + table_room ts"
    and placed: "tables_placed (unat (rodata_size t)) (unat (rodata_size s)) s ts"
  shows "image_ok L s' \<and> image_tables L ts s' \<and> blobs_from L 0 s' \<and> core s' = core t \<and>
    (\<forall>i. unat (code_size s') \<le> i \<longrightarrow> i < length (lk_binary s') \<longrightarrow> lk_binary s' ! i = 0)"
proof -
  have ok: "compiled_ok L t" "code_laid_out L t" "rodata_laid_out L t"
    using assms(2,3) by (simp_all add: codegen_inv_def linkable_def)
  note effect = allocate_binary_effect [OF assms(1-4,6)]
  have core: "core s' = core t" using effect(1) by (simp add: core_def)
  have below: "consts_below L s' (unat (rodata_size t))"
    using consts_below_laid_out [OF ok(3,1)] by (simp add: consts_below_def core)
  have "sorted_wrt (\<lambda>x y. code_at x + code_length L (fc_function x) + 16 \<le> code_at y) (core s')"
    "sorted_wrt (consts_apart L) (core s')"
    using ok(2,3) unfolding core by (simp_all add: sorted_core code_laid_out_def rodata_laid_out_def code_at_def consts_apart_blob)
  moreover have "16 \<le> code_at x \<and> code_at x + code_length L (fc_function x) \<le> unat (code_size s')" if "x \<in> set (core s')" for x
    using that ok(2) effect(4) unfolding core by (fastforce simp: core_def code_laid_out_def code_at_def)
  moreover have "unat (constpool_offset x) + const_size L (fc_function x) \<le> unat (rodata_size s')"
    if "x \<in> set (core s')" "const_size L (fc_function x) \<noteq> 0" for x
    using below that assms(5) effect(5) by (fastforce simp: consts_below_def)
  moreover have "hmap_inv (func_to_idx s')" "hmap_map (func_to_idx s') = idx_of (core s')" "distinct (map fc_function (core s'))"
    using ok(1) unfolding core effect(2) idx_of_core by (simp_all add: compiled_ok_def core_def comp_def)
  ultimately have "image_ok L s'" using effect(6,7) by (simp add: image_ok_def)
  moreover have "tables_placed (unat (rodata_size t)) (unat (rodata_size s')) s' ts"
    using tables_placed_mono [OF placed order_refl effect(5)] tables_placed_same [OF effect(3)] by simp
  moreover have "cg_emit L (fc_function x) \<noteq> None \<and> fc_blob x = Handle (the (cg_emit L (fc_function x)))"
    if "x \<in> set (cg_functions t)" for x
    using ok(1) that by (force simp: compiled_ok_def)
  then have "blobs_from L 0 s'" by (simp add: blobs_from_def Let_def effect(1))
  ultimately show ?thesis
    using below core effect(7) by (auto simp: image_tables_def nth_append)
qed

end
