(* ===== verification/Codegen_Linked.thy ===== *)
theory Codegen_Linked
  imports Codegen_Image
begin

text \<open>
  What linking leaves in the binary: the code of every function outside its relocated fields, its
  constants, and in each field a way to the target of the relocation.
\<close>

section \<open>Targets\<close>

text \<open>The address a relocation of the function \<open>x\<close> is for, by its kind of target.\<close>

definition resolves_to ::
    "codegen_env \<Rightarrow> (jit_helper_kind \<Rightarrow> u32 option) \<Rightarrow> function_codegen \<Rightarrow> reloc \<Rightarrow> linker \<Rightarrow> u64 \<Rightarrow> bool" where
  "resolves_to L helpers x r s target \<longleftrightarrow>
     (case rl_target r of
        Target_constpool \<Rightarrow> target = lk_base s + code_size s + ucast (constpool_offset x)
      | Target_global g \<Rightarrow> (\<exists>off. hmap_lookup (global_offsets s) (ucast g) = Some off \<and> target = lk_base s + code_size s + off)
      | Target_internal_function f \<Rightarrow> (\<exists>y \<in> set (core s). fc_function y = f \<and>
          (if rl_kind r = SPIDIR_RELOC_X64_ABS64 then target = lk_base s + ucast (code_offset y) - 4 \<and> endbr_at s y
           else target = lk_base s + ucast (code_offset y)))
      | Target_external_function f \<Rightarrow>
          (let helper = jit_helper_lookup_address (cg_helper_address L) helpers f in
           if helper \<noteq> 0 then target = helper else hmap_lookup (import_addresses s) (ucast f) = Some target)
      | Target_libcall kind \<Rightarrow> target = jit_resolve_libcall L kind \<and> target \<noteq> 0
      | Target_other \<Rightarrow> False)"

lemma resolves_to_kept:
  assumes "resolves_to L helpers x r s target" and "writes A s s'"
  shows "resolves_to L helpers x r s' target"
  using assms unfolding resolves_to_def writes_def same_maps_def
  by (cases "rl_target r") (auto simp: Let_def split: if_splits)

lemma writes_refl: "writes A s s"
  by (rule writes_order.refl)

lemma core_of: "x \<in> set (cg_functions s) \<Longrightarrow> x\<lparr>fc_blob := Null_handle\<rparr> \<in> set (core s)"
  by (simp add: core_def)

lemma resolves_to_blob [simp]: "resolves_to L helpers (x\<lparr>fc_blob := b\<rparr>) r s target = resolves_to L helpers x r s target"
  by (cases "rl_target r") (simp_all add: resolves_to_def)

lemma jit_get_indirect_blob: "endbr_at s (x\<lparr>fc_blob := b\<rparr>) = endbr_at s x"
  by (simp add: endbr_at_def code_at_def)

lemma debug_owner_same: "debug_owner f s = Inr (x, s') \<Longrightarrow> s' = s"
  by (auto simp: debug_owner_def some_or_fail_def run split: option.splits)

lemma resolve_reloc_step:
  assumes "resolve_reloc L helpers x r s = Inr ((target, idx, cfi), s')" and "image_ok L s"
  shows "writes {} s s' \<and> resolves_to L helpers x r s' target"
proof (cases "rl_target r")
  case (Target_internal_function f)
  obtain callee s1 off s2 where callee: "lookup_func f s = Inr (callee, s1)"
    and off: "(if rl_kind r = SPIDIR_RELOC_X64_ABS64 then jit_get_indirect (ucast (code_offset callee))
               else ret (ucast (code_offset callee))) s1 = Inr (off, s2)"
    and rest: "s' = s2" "target = lk_base s2 + off"
    using assms(1) Target_internal_function
    by (auto simp: resolve_reloc_def gets_bind dest!: debug_owner_same elim!: bind_runE split: if_splits)
  note found = lookup_func_step [OF callee assms(2)]
  let ?y = "callee\<lparr>fc_blob := Null_handle\<rparr>"
  have y: "?y \<in> set (core s)" using found by (simp add: core_of)
  show ?thesis
  proof (cases "rl_kind r = SPIDIR_RELOC_X64_ABS64")
    case True
    then have "jit_get_indirect (ucast (code_offset ?y)) s = Inr (off, s')" using off found rest by simp
    note step = jit_get_indirect_step [OF this assms(2) y]
    then have "?y \<in> set (core s')" using y by (simp add: writes_def same_maps_def)
    then show ?thesis using step True Target_internal_function found rest
      unfolding resolves_to_def by (auto intro!: bexI [of _ ?y] simp: algebra_simps)
  next
    case False
    then have "s' = s" "target = lk_base s + ucast (code_offset ?y)" using off found rest by auto
    then show ?thesis using False y found Target_internal_function
      unfolding resolves_to_def by (auto simp: writes_refl intro!: bexI [of _ ?y])
  qed
next
  case (Target_external_function f)
  then show ?thesis
    using assms(1) by (auto simp: resolve_reloc_def resolves_to_def gets_bind Let_def some_or_fail_def run writes_refl split: if_splits option.splits)
qed (use assms(1) in \<open>auto simp: resolve_reloc_def resolves_to_def gets_bind some_or_fail_def run writes_refl split: option.splits\<close>)

section \<open>Relocated fields\<close>

definition reloc_inside :: "nat \<Rightarrow> reloc \<Rightarrow> bool" where
  "reloc_inside n r \<longleftrightarrow> unat (rl_offset r) + reloc_width r \<le> n"

definition reloc_field :: "function_codegen \<Rightarrow> reloc \<Rightarrow> nat set" where
  "reloc_field x r = {code_at x + unat (rl_offset r) ..< code_at x + unat (rl_offset r) + reloc_width r}"

definition reloc_linked :: "codegen_env \<Rightarrow> (jit_helper_kind \<Rightarrow> u32 option) \<Rightarrow> function_codegen \<Rightarrow> linker \<Rightarrow> reloc \<Rightarrow> bool" where
  "reloc_linked L helpers x s r \<longleftrightarrow>
     (\<exists>target. resolves_to L helpers x r s target \<and> leads_to (ucast (code_offset x)) r target s)"

lemma reloc_field_in_code:
  "reloc_inside (code_length L (fc_function x)) r \<Longrightarrow> reloc_field x r \<subseteq> code_bytes L x"
  by (auto simp: reloc_inside_def reloc_field_def code_bytes_def)

lemma unat_reloc_address:
  assumes "image_ok L s" and "x \<in> set (core s)" and "reloc_inside (code_length L (fc_function x)) r"
  shows "unat (ucast (code_offset x) + rl_offset r) = code_at x + unat (rl_offset r)"
proof -
  have "code_at x + unat (rl_offset r) < 2 ^ 64"
    using image_bounds [OF assms(1,2)] assms(3) by (simp add: reloc_inside_def)
  then show ?thesis by (simp add: unat_word_ariths unat_code_offset)
qed

lemma reloc_width_cases: "reloc_width r = 4 \<or> reloc_width r = 8"
  by (simp add: reloc_width_def)

lemma leads_to_kept:
  assumes "leads_to (ucast (code_offset x)) r target s" and "writes A s s'" and "image_ok L s" and x: "x \<in> set (core s)"
    and inside: "reloc_inside (code_length L (fc_function x)) r" and "reloc_field x r \<inter> A = {}"
  shows "leads_to (ucast (code_offset x)) r target s'"
proof -
  let ?p = "ucast (code_offset x) + rl_offset r :: u64"
  have "take (reloc_width r) (drop (unat ?p) (lk_binary s')) = take (reloc_width r) (drop (unat ?p) (lk_binary s))"
  proof (rule bytes_kept [OF assms(2)])
    fix i assume i: "unat ?p \<le> i" "i < unat ?p + reloc_width r"
    then have field: "i \<in> reloc_field x r" by (simp add: reloc_field_def unat_reloc_address [OF assms(3) x inside])
    then have "i \<in> code_bytes L x" using reloc_field_in_code [OF inside] by blast
    then show "i \<notin> A \<and> (\<forall>y \<in> set (core s). i \<notin> entry_slot y)" using field assms(6) parts_apart(1) [OF assms(3) x] by blast
  qed
  moreover have "lk_base s' = lk_base s" using assms(2) by (simp add: writes_def same_maps_def)
  ultimately show ?thesis using assms(1) by (simp add: leads_to_def field_def reloc_width_def split: if_splits)
qed

lemma reloc_linked_kept:
  assumes "reloc_linked L helpers x s r" and "writes A s s'" and "image_ok L s" and "x \<in> set (core s)"
    and "reloc_inside (code_length L (fc_function x)) r" and "reloc_field x r \<inter> A = {}"
  shows "reloc_linked L helpers x s' r"
  using assms resolves_to_kept leads_to_kept unfolding reloc_linked_def by meson

lemma link_reloc_step:
  assumes "link_reloc L helpers x n owner r s = Inr (u, s')" and "image_ok L s" and x: "x\<lparr>fc_blob := Null_handle\<rparr> \<in> set (core s)"
    and inside: "reloc_inside (code_length L (fc_function x)) r"
  shows "writes (reloc_field x r) s s' \<and> reloc_linked L helpers x s' r"
proof -
  let ?x = "x\<lparr>fc_blob := Null_handle\<rparr>" and ?off = "ucast (code_offset x) :: u64"
  obtain target idx cfi s1 s2 where resolve: "resolve_reloc L helpers x r s = Inr ((target, idx, cfi), s1)"
    and apply_run: "jit_apply_reloc ?off n r target s1 = Inr ((), s2)"
    and noted: "(if cg_capture_debug L then modify (\<lambda>s. s\<lparr>lk_relocs := lk_relocs s @
         [\<lparr>jr_address = lk_base s + ucast (code_offset x) + rl_offset r, jr_addend = rl_addend r,
           jr_kind = rl_kind r, jr_target = rl_target r, jr_target_funcidx = idx,
           jr_target_cfi = cfi, jr_target_address = target,
           jr_owner_funcidx = fst owner, jr_owner_cfi = snd owner\<rparr>]\<rparr>) else ret ()) s2 = Inr (u, s')"
    using assms(1) unfolding link_reloc_def
    by (elim bind_runE) (auto elim!: bind_runE)
  note first = resolve_reloc_step [OF resolve assms(2)]
  have image1: "image_ok L s1" and x1: "?x \<in> set (core s1)"
    using image_ok_same [OF writes_same [OF conjunct1 [OF first]]] first assms(2) x by (simp_all add: writes_def same_maps_def)
  have inside': "reloc_inside (code_length L (fc_function ?x)) r" using inside by simp
  obtain bs where st: "store (?off + rl_offset r) bs s1 = Inr ((), s2)" and len: "length bs = reloc_width r"
    and leads: "leads_to ?off r target s2"
    using apply_run by (rule jit_apply_reloc_effect)
  have at: "unat (?off + rl_offset r) = code_at x + unat (rl_offset r)"
    using unat_reloc_address [OF image1 x1 inside'] by (simp add: code_at_def)
  have field: "reloc_field x r = reloc_field ?x r" "code_bytes L ?x = code_bytes L x"
    by (simp_all add: reloc_field_def code_at_def code_bytes_def)
  have second: "writes (reloc_field x r) s1 s2"
  proof (rule store_writes [OF st image1])
    show "{unat (?off + rl_offset r) ..< unat (?off + rl_offset r) + length bs} \<subseteq> reloc_field x r" by (simp add: reloc_field_def at len)
    show "reloc_field x r \<inter> entry_slot y = {}" if "y \<in> set (core s1)" for y
      using parts_apart(1) [OF image1 x1 that] reloc_field_in_code [OF inside'] field by blast
  qed
  have third: "writes {} s2 s'"
    using noted by (auto simp: writes_def same_maps_def core_def endbr_at_def split: if_splits)
  have "writes (reloc_field x r) s s1" "writes (reloc_field x r) s2 s'"
    using first third by (auto elim: writes_mono)
  then have "writes (reloc_field x r) s s'"
    using second writes_order.trans by metis
  moreover have "resolves_to L helpers x r s' target"
    using resolves_to_kept [OF resolves_to_kept [OF conjunct2 [OF first] second] third] .
  moreover have "leads_to ?off r target s'"
    using leads noted by (auto simp: leads_to_def field_def split: if_splits)
  ultimately show ?thesis by (auto simp: reloc_linked_def)
qed

section \<open>The relocations of a function\<close>

text \<open>Relocations whose fields lie inside the code and do not overlap.\<close>

definition relocs_ok :: "nat \<Rightarrow> reloc list \<Rightarrow> bool" where
  "relocs_ok n rs \<longleftrightarrow> (\<forall>r \<in> set rs. reloc_inside n r) \<and>
     sorted_wrt (\<lambda>r r'. unat (rl_offset r) + reloc_width r \<le> unat (rl_offset r') \<or>
       unat (rl_offset r') + reloc_width r' \<le> unat (rl_offset r)) rs"

definition fields_of :: "function_codegen \<Rightarrow> reloc list \<Rightarrow> nat set" where
  "fields_of x rs = (\<Union>r \<in> set rs. reloc_field x r)"

lemma relocs_ok_Cons:
  assumes "relocs_ok n (r # rs)"
  shows "reloc_inside n r" and "relocs_ok n rs" and "reloc_field x r \<inter> fields_of x rs = {}"
  using assms by (fastforce simp: relocs_ok_def fields_of_def reloc_field_def)+

lemma fields_in_code: "relocs_ok (code_length L (fc_function x)) rs \<Longrightarrow> fields_of x rs \<subseteq> code_bytes L x"
  using reloc_field_in_code by (fastforce simp: relocs_ok_def fields_of_def)

lemma blob_irrelevant [simp]:
  "reloc_field (x\<lparr>fc_blob := h\<rparr>) r = reloc_field x r" "fields_of (x\<lparr>fc_blob := h\<rparr>) rs = fields_of x rs"
  "code_at (x\<lparr>fc_blob := h\<rparr>) = code_at x" "code_bytes L (x\<lparr>fc_blob := h\<rparr>) = code_bytes L x"
  "const_at s (x\<lparr>fc_blob := h\<rparr>) = const_at s x" "const_bytes L s (x\<lparr>fc_blob := h\<rparr>) = const_bytes L s x"
  "reloc_linked L helpers (x\<lparr>fc_blob := h\<rparr>) s r = reloc_linked L helpers x s r"
  by (simp_all add: reloc_field_def fields_of_def code_at_def code_bytes_def const_at_def const_bytes_def reloc_linked_def)

lemma relocs_step:
  assumes "for_each rs (link_reloc L helpers x n owner) s = Inr (u, s')" and "image_ok L s"
    and "x\<lparr>fc_blob := Null_handle\<rparr> \<in> set (core s)" and "relocs_ok (code_length L (fc_function x)) rs"
  shows "writes (fields_of x rs) s s' \<and> (\<forall>r \<in> set rs. reloc_linked L helpers x s' r)"
  using assms
proof (induction rs arbitrary: s)
  case Nil
  then show ?case by (simp add: writes_refl)
next
  case (Cons r rs)
  let ?x = "x\<lparr>fc_blob := Null_handle\<rparr>"
  note apart = relocs_ok_Cons(1,2) [OF Cons.prems(4)] relocs_ok_Cons(3) [OF Cons.prems(4), where x = x]
  obtain t where first: "link_reloc L helpers x n owner r s = Inr ((), t)"
    and others: "for_each rs (link_reloc L helpers x n owner) t = Inr (u, s')"
    using Cons.prems(1) by (auto elim: bind_runE)
  note step = link_reloc_step [OF first Cons.prems(2,3) apart(1)]
  have image: "image_ok L t" and x: "?x \<in> set (core t)"
    using step Cons.prems(2,3) image_ok_same [OF writes_same [OF conjunct1 [OF step]]] by (simp_all add: writes_def same_maps_def)
  note rest = Cons.IH [OF others image x apart(2)]
  have "reloc_linked L helpers ?x s' r"
    by (rule reloc_linked_kept [OF _ conjunct1 [OF rest] image x]) (use step apart in \<open>simp_all\<close>)
  moreover have "writes (fields_of x (r # rs)) s t" "writes (fields_of x (r # rs)) t s'"
    using step rest by (auto simp: fields_of_def elim: writes_mono)
  ultimately show ?case using rest writes_order.trans by auto
qed

section \<open>A function\<close>

text \<open>The code and the constants of \<open>x\<close> are in the binary, and its relocations lead to their targets.\<close>

definition function_linked :: "codegen_env \<Rightarrow> (jit_helper_kind \<Rightarrow> u32 option) \<Rightarrow> linker \<Rightarrow> function_codegen \<Rightarrow> bool" where
  "function_linked L helpers s x \<longleftrightarrow>
     (\<exists>b. cg_emit L (fc_function x) = Some b \<and>
        (\<forall>i < length (bl_code b). code_at x + i \<notin> fields_of x (bl_relocs b) \<longrightarrow> lk_binary s ! (code_at x + i) = bl_code b ! i) \<and>
        (\<forall>r \<in> set (bl_relocs b). reloc_linked L helpers x s r) \<and>
        take (length (bl_constpool b)) (drop (const_at s x) (lk_binary s)) = bl_constpool b)"

definition blobs_ok :: "codegen_env \<Rightarrow> bool" where
  "blobs_ok L \<longleftrightarrow> (\<forall>f b. cg_emit L f = Some b \<longrightarrow> relocs_ok (length (bl_code b)) (bl_relocs b))"

lemma writes_nth:
  assumes "writes A s s'" and "image_ok L s" and "x \<in> set (core s)" and "i \<in> code_bytes L x" and "i \<notin> A"
  shows "lk_binary s' ! i = lk_binary s ! i"
proof -
  have "i < length (lk_binary s)" using image_bounds [OF assms(2,3)] assms(4) by (auto simp: code_bytes_def)
  moreover have "i \<notin> entry_slot y" if "y \<in> set (core s)" for y using parts_apart(1) [OF assms(2,3) that] assms(4) by blast
  ultimately show ?thesis using assms(1,5) by (simp add: writes_def)
qed

lemma constants_kept:
  assumes "writes A s s'" and "image_ok L s" and x: "x \<in> set (core s)" and "const_bytes L s x \<inter> A = {}"
  shows "take (const_size L (fc_function x)) (drop (const_at s' x) (lk_binary s')) =
    take (const_size L (fc_function x)) (drop (const_at s x) (lk_binary s))"
proof -
  have "const_at s' x = const_at s x" using assms(1) by (simp add: const_at_def writes_def same_maps_def)
  moreover have "i \<notin> A \<and> (\<forall>y \<in> set (core s). i \<notin> entry_slot y)" if "i \<in> const_bytes L s x" for i
    using that assms(4) parts_apart(2) [OF assms(2) x] by blast
  ultimately show ?thesis using bytes_kept [OF assms(1), of "const_at s x" "const_size L (fc_function x)"] by (simp add: const_bytes_def)
qed

lemma function_linked_kept:
  assumes "function_linked L helpers s x" and "writes A s s'" and "image_ok L s" and x: "x \<in> set (core s)"
    and "blobs_ok L" and "code_bytes L x \<inter> A = {}" and "const_bytes L s x \<inter> A = {}"
  shows "function_linked L helpers s' x"
proof -
  obtain b where b: "cg_emit L (fc_function x) = Some b"
    and code: "\<And>i. i < length (bl_code b) \<Longrightarrow> code_at x + i \<notin> fields_of x (bl_relocs b) \<Longrightarrow> lk_binary s ! (code_at x + i) = bl_code b ! i"
    and relocs: "\<forall>r \<in> set (bl_relocs b). reloc_linked L helpers x s r"
    and pool: "take (length (bl_constpool b)) (drop (const_at s x) (lk_binary s)) = bl_constpool b"
    using assms(1) by (auto simp: function_linked_def)
  have sizes: "code_length L (fc_function x) = length (bl_code b)" "const_size L (fc_function x) = length (bl_constpool b)"
    using b by (simp_all add: code_length_def const_size_def)
  have ok: "relocs_ok (code_length L (fc_function x)) (bl_relocs b)" using assms(5) b sizes by (simp add: blobs_ok_def)
  have "lk_binary s' ! (code_at x + i) = bl_code b ! i"
    if "i < length (bl_code b)" "code_at x + i \<notin> fields_of x (bl_relocs b)" for i
  proof -
    have "code_at x + i \<in> code_bytes L x" using that(1) sizes by (simp add: code_bytes_def)
    then have "lk_binary s' ! (code_at x + i) = lk_binary s ! (code_at x + i)"
      using assms(6) by (intro writes_nth [OF assms(2,3) x]) auto
    then show ?thesis using code [OF that] by simp
  qed
  moreover have "reloc_linked L helpers x s' r" if r: "r \<in> set (bl_relocs b)" for r
  proof -
    have inside: "reloc_inside (code_length L (fc_function x)) r" using ok r by (simp add: relocs_ok_def)
    then have "reloc_field x r \<inter> A = {}" using reloc_field_in_code assms(6) by blast
    then show ?thesis using reloc_linked_kept [OF _ assms(2,3) x inside] relocs r by blast
  qed
  moreover have "take (length (bl_constpool b)) (drop (const_at s' x) (lk_binary s')) = bl_constpool b"
    using constants_kept [OF assms(2,3) x assms(7)] pool sizes by simp
  ultimately show ?thesis using b by (auto simp: function_linked_def)
qed

lemma core_after:
  assumes "i < length (cg_functions s)"
  shows "core (s\<lparr>cg_functions := (cg_functions s)[i := (cg_functions s ! i)\<lparr>fc_blob := Null_handle\<rparr>]\<rparr>) = core s"
proof -
  have "core s ! i = (cg_functions s ! i)\<lparr>fc_blob := Null_handle\<rparr>" using assms by (simp add: core_def)
  then have "core s = (core s)[i := (cg_functions s ! i)\<lparr>fc_blob := Null_handle\<rparr>]" by (metis list_update_id)
  then show ?thesis by (simp add: core_def map_update)
qed

lemma unat_const_address:
  assumes "image_ok L s" and "x \<in> set (core s)" and "const_size L (fc_function x) \<noteq> 0"
  shows "unat (code_size s + ucast (constpool_offset x)) = const_at s x" and "const_at s x + const_size L (fc_function x) \<le> length (lk_binary s)"
proof -
  have room: "unat (constpool_offset x) + const_size L (fc_function x) \<le> unat (rodata_size s)"
    and total: "unat (code_size s) + unat (rodata_size s) = length (lk_binary s)" "length (lk_binary s) < 2 ^ 63"
    using assms by (auto simp: image_ok_def)
  have "unat (ucast (constpool_offset x) :: u64) = unat (constpool_offset x)"
    using unsigned_less [where ?'a = nat, of "constpool_offset x"] by (simp add: unsigned_ucast_eq take_bit_nat_eq_self)
  then show "unat (code_size s + ucast (constpool_offset x)) = const_at s x"
    using room total by (simp add: unat_word_ariths const_at_def)
  show "const_at s x + const_size L (fc_function x) \<le> length (lk_binary s)" using room total by (simp add: const_at_def)
qed

lemma optional_store_step:
  assumes "(if bs \<noteq> [] then store off bs else ret ()) s = Inr (u, s')" and "image_ok L s"
    and "bs \<noteq> [] \<Longrightarrow> unat off = p" and "{p ..< p + length bs} \<subseteq> A" and "\<And>x. x \<in> set (core s) \<Longrightarrow> A \<inter> entry_slot x = {}"
  shows "writes A s s' \<and> take (length bs) (drop p (lk_binary s')) = bs"
proof (cases "bs = []")
  case True
  then show ?thesis using assms(1) by (simp add: writes_refl)
next
  case False
  then have st: "store off bs s = Inr (u, s')" and at: "unat off = p" using assms(1,3) by simp_all
  have "writes A s s'" using assms(4) by (intro store_writes [OF st assms(2)] assms(5)) (simp add: at)
  then show ?thesis using store_effect(1) [OF st] by (simp add: field_def at)
qed

lemma capture_layout_writes: "capture_layout L x b s = Inr (owner, s') \<Longrightarrow> writes {} s s' \<and> lk_binary s' = lk_binary s"
  by (auto simp: capture_layout_def run writes_def same_maps_def core_def endbr_at_def dest!: debug_owner_same split: if_splits)

lemma writes_image:
  assumes "writes A s s'" and "image_ok L s"
  shows "image_ok L s'" and "core s' = core s" and "const_bytes L s' x = const_bytes L s x" and "code_size s' = code_size s"
    and "length (lk_binary s') = length (lk_binary s)"
  using assms image_ok_same [OF writes_same [OF assms(1)]] by (auto simp: writes_def same_maps_def const_bytes_def const_at_def)

text \<open>Copying the code and the constants.\<close>

lemma copy_step:
  assumes 1: "(if bl_code b \<noteq> [] then store (ucast (code_offset x)) (bl_code b) else ret ()) s = Inr (v, s1)"
    and 2: "(if bl_constpool b \<noteq> [] then store (code_size s1 + ucast (constpool_offset x)) (bl_constpool b) else ret ()) s1 = Inr (w, s2)"
    and image: "image_ok L s" and x: "x\<lparr>fc_blob := Null_handle\<rparr> \<in> set (core s)" and emit: "cg_emit L (fc_function x) = Some b"
  shows "writes (code_bytes L x \<union> const_bytes L s x) s s2 \<and> take (length (bl_code b)) (drop (code_at x) (lk_binary s2)) = bl_code b \<and>
    take (length (bl_constpool b)) (drop (const_at s x) (lk_binary s2)) = bl_constpool b"
proof -
  let ?x = "x\<lparr>fc_blob := Null_handle\<rparr>" and ?A = "code_bytes L x \<union> const_bytes L s x"
  have sizes: "code_length L (fc_function x) = length (bl_code b)" "const_size L (fc_function x) = length (bl_constpool b)"
    using emit by (simp_all add: code_length_def const_size_def)
  note apart = parts_apart [OF image x, simplified]
  have code: "writes (code_bytes L x) s s1 \<and> take (length (bl_code b)) (drop (code_at x) (lk_binary s1)) = bl_code b"
    by (rule optional_store_step [OF 1 image]) (use apart(1) unat_code_offset [of x] sizes in \<open>auto simp: code_bytes_def\<close>)
  note image1 = writes_image [OF conjunct1 [OF code] image]
  have pool: "writes (const_bytes L s x) s1 s2 \<and> take (length (bl_constpool b)) (drop (const_at s x) (lk_binary s2)) = bl_constpool b"
  proof (rule optional_store_step [OF 2 image1(1)])
    show "unat (code_size s1 + ucast (constpool_offset x)) = const_at s x" if "bl_constpool b \<noteq> []"
      using unat_const_address(1) [OF image x] that sizes image1(4) by (simp add: const_at_def)
  qed (use apart(2) sizes image1(2) in \<open>auto simp: const_bytes_def\<close>)
  have "k \<notin> const_bytes L s x \<and> (\<forall>y \<in> set (core s1). k \<notin> entry_slot y)" if "k \<in> code_bytes L x" for k
    using that apart(1) apart(3) [OF x] image1(2) by auto
  then have "take (length (bl_code b)) (drop (code_at x) (lk_binary s2)) = take (length (bl_code b)) (drop (code_at x) (lk_binary s1))"
    using sizes by (intro bytes_kept [OF conjunct1 [OF pool]]) (simp add: code_bytes_def)
  moreover have "writes ?A s s1" "writes ?A s1 s2" using code pool by (auto elim: writes_mono)
  ultimately show ?thesis using code pool writes_order.trans by metis
qed

text \<open>Linking them: the code outside the fields, and the constants, stay.\<close>

lemma relocate_step:
  assumes run: "for_each (bl_relocs b) (link_reloc L helpers x n owner) s = Inr (u, s')" and image: "image_ok L s"
    and x: "x\<lparr>fc_blob := Null_handle\<rparr> \<in> set (core s)" and emit: "cg_emit L (fc_function x) = Some b" and ok: "blobs_ok L"
    and code: "take (length (bl_code b)) (drop (code_at x) (lk_binary s)) = bl_code b"
    and pool: "take (length (bl_constpool b)) (drop (const_at s x) (lk_binary s)) = bl_constpool b"
  shows "writes (code_bytes L x) s s' \<and> function_linked L helpers s' (x\<lparr>fc_blob := Null_handle\<rparr>)"
proof -
  let ?x = "x\<lparr>fc_blob := Null_handle\<rparr>"
  have sizes: "code_length L (fc_function x) = length (bl_code b)" "const_size L (fc_function x) = length (bl_constpool b)"
    using emit by (simp_all add: code_length_def const_size_def)
  have rel: "relocs_ok (code_length L (fc_function x)) (bl_relocs b)" using ok emit sizes by (simp add: blobs_ok_def)
  note relocs = relocs_step [OF run image x rel]
  have fields: "fields_of x (bl_relocs b) \<subseteq> code_bytes L x" using fields_in_code [OF rel] .
  have "lk_binary s' ! (code_at x + k) = bl_code b ! k" if k: "k < length (bl_code b)" "code_at x + k \<notin> fields_of x (bl_relocs b)" for k
  proof -
    have "code_at x + k \<in> code_bytes L ?x" using k(1) sizes by (simp add: code_bytes_def)
    then have "lk_binary s' ! (code_at x + k) = lk_binary s ! (code_at x + k)"
      using writes_nth [OF conjunct1 [OF relocs] image x] k(2) by simp
    then show ?thesis
      using arg_cong [OF code, of "\<lambda>bs. bs ! k"] k(1) image_bounds [OF image x] sizes by simp
  qed
  moreover have "const_bytes L s ?x \<inter> fields_of x (bl_relocs b) = {}"
    using parts_apart(3) [OF image x x] fields by auto
  then have "take (length (bl_constpool b)) (drop (const_at s' x) (lk_binary s')) = bl_constpool b"
    using constants_kept [OF conjunct1 [OF relocs] image x] pool sizes by simp
  ultimately have "function_linked L helpers s' ?x"
    using emit relocs by (auto simp: function_linked_def)
  then show ?thesis using relocs fields by (auto elim: writes_mono)
qed

text \<open>The parts of a successful run for function \<open>i\<close>, and what no part changes.\<close>

lemma link_function_parts:
  assumes "link_function L helpers i s = Inr (u, s')" and i: "i < length (cg_functions s)" and blob: "fc_blob (cg_functions s ! i) = Handle b"
  defines "x \<equiv> cg_functions s ! i"
  obtains s1 s2 s3 s4 owner v w where
    "(if bl_code b \<noteq> [] then store (ucast (code_offset x)) (bl_code b) else ret ()) s = Inr (v, s1)" and
    "(if bl_constpool b \<noteq> [] then store (code_size s1 + ucast (constpool_offset x)) (bl_constpool b) else ret ()) s1 = Inr (w, s2)" and
    "capture_layout L x b s2 = Inr (owner, s3)" and
    "for_each (bl_relocs b) (link_reloc L helpers x (word_of_nat (length (bl_code b))) owner) s3 = Inr ((), s4)" and
    "s' = s4\<lparr>cg_functions := (cg_functions s4)[i := x\<lparr>fc_blob := Null_handle\<rparr>]\<rparr>" and "static s s4"
proof -
  obtain s1 s2 s3 s4 owner where
    1: "(if bl_code b \<noteq> [] then store (ucast (code_offset x)) (bl_code b) else ret ()) s = Inr ((), s1)" and
    2: "(if bl_constpool b \<noteq> [] then store (code_size s1 + ucast (constpool_offset x)) (bl_constpool b) else ret ()) s1 = Inr ((), s2)" and
    3: "capture_layout L x b s2 = Inr (owner, s3)" and
    4: "for_each (bl_relocs b) (link_reloc L helpers x (word_of_nat (length (bl_code b))) owner) s3 = Inr ((), s4)" and
    5: "s' = s4\<lparr>cg_functions := (cg_functions s4)[i := x\<lparr>fc_blob := Null_handle\<rparr>]\<rparr>"
    using assms(1) i blob unfolding link_function_def x_def by (auto simp: gets_bind index_def elim!: bind_runE)
  have "static s s4"
    using alongD [OF capture_layout_static 3] static_order.along_for_each [OF link_reloc_static, THEN alongD, OF 4]
      alongD [OF static_order.along_if [OF store_static static_order.along_ret] 1]
      alongD [OF static_order.along_if [OF store_static static_order.along_ret] 2]
    by (auto intro: static_order.trans)
  with 1 2 3 4 5 show thesis by (rule that)
qed

lemma link_function_frame:
  assumes "link_function L helpers i s = Inr (u, s')" and i: "i < length (cg_functions s)" and blob: "fc_blob (cg_functions s ! i) = Handle b"
  shows "cg_functions s' = (cg_functions s)[i := (cg_functions s ! i)\<lparr>fc_blob := Null_handle\<rparr>]" and "same_maps s s'"
proof -
  obtain s4 where s': "s' = s4\<lparr>cg_functions := (cg_functions s4)[i := (cg_functions s ! i)\<lparr>fc_blob := Null_handle\<rparr>]\<rparr>" and st: "static s s4"
    using assms by (rule link_function_parts)
  then show "cg_functions s' = (cg_functions s)[i := (cg_functions s ! i)\<lparr>fc_blob := Null_handle\<rparr>]" by (simp add: static_def)
  show "same_maps s s'" using core_after [of i s4] i st by (simp add: s' static_def same_maps_def)
qed

lemma link_function_step:
  assumes "link_function L helpers i s = Inr (u, s')" and "image_ok L s" and i: "i < length (cg_functions s)"
    and blob: "fc_blob (cg_functions s ! i) = Handle b" and emit: "cg_emit L (fc_function (cg_functions s ! i)) = Some b" and ok: "blobs_ok L"
  defines "x \<equiv> cg_functions s ! i"
  shows "writes (code_bytes L x \<union> const_bytes L s x) s s' \<and> function_linked L helpers s' (x\<lparr>fc_blob := Null_handle\<rparr>)"
proof -
  let ?x = "x\<lparr>fc_blob := Null_handle\<rparr>" and ?A = "code_bytes L x \<union> const_bytes L s x"
  have x: "?x \<in> set (core s)" and emit': "cg_emit L (fc_function x) = Some b" using i emit by (simp_all add: core_def x_def)
  from assms(1) i blob obtain s1 s2 s3 s4 owner v w where
    1: "(if bl_code b \<noteq> [] then store (ucast (code_offset x)) (bl_code b) else ret ()) s = Inr (v, s1)" and
    2: "(if bl_constpool b \<noteq> [] then store (code_size s1 + ucast (constpool_offset x)) (bl_constpool b) else ret ()) s1 = Inr (w, s2)" and
    3: "capture_layout L x b s2 = Inr (owner, s3)" and
    4: "for_each (bl_relocs b) (link_reloc L helpers x (word_of_nat (length (bl_code b))) owner) s3 = Inr ((), s4)" and
    5: "s' = s4\<lparr>cg_functions := (cg_functions s4)[i := ?x]\<rparr>" and st: "static s s4"
    unfolding x_def by (rule link_function_parts)
  note copied = copy_step [OF 1 2 assms(2) x emit'] and layout = capture_layout_writes [OF 3]
  note image2 = writes_image [OF conjunct1 [OF copied] assms(2)]
  note image3 = writes_image [OF conjunct1 [OF layout] image2(1)]
  have x3: "?x \<in> set (core s3)" using x image2(2) image3(2) by simp
  have linked: "writes (code_bytes L x) s3 s4 \<and> function_linked L helpers s4 ?x"
    by (rule relocate_step [OF 4 image3(1) x3 emit' ok]) (use copied layout image2(4) image3(4) in \<open>simp_all add: const_at_def\<close>)
  note image4 = writes_image [OF conjunct1 [OF linked] image3(1)]
  have last: "writes {} s4 s'"
    using core_after [of i s4] i st by (simp add: 5 x_def static_def writes_def same_maps_def endbr_at_def)
  have "function_linked L helpers s' ?x"
    using x3 image4(2) by (intro function_linked_kept [OF conjunct2 [OF linked] last image4(1) _ ok]) simp_all
  moreover have "writes ?A s s2" "writes ?A s2 s3" "writes ?A s3 s4" "writes ?A s4 s'"
    using copied layout linked last by (auto elim: writes_mono)
  then have "writes ?A s s'" using writes_order.trans by metis
  ultimately show ?thesis by simp
qed

lemma blobs_from_next:
  assumes "blobs_from L i s" and "cg_functions s' = (cg_functions s)[i := (cg_functions s ! i)\<lparr>fc_blob := Null_handle\<rparr>]"
  shows "blobs_from L (Suc i) s'"
  using assms by (auto simp: blobs_from_def Let_def nth_list_update less_Suc_eq)

lemma blobs_fromE:
  assumes "blobs_from L i s" and "i < length (cg_functions s)"
  obtains b where "fc_blob (cg_functions s ! i) = Handle b" and "cg_emit L (fc_function (cg_functions s ! i)) = Some b"
  using assms by (auto simp: blobs_from_def Let_def)

section \<open>All functions\<close>

lemma other_linked:
  assumes "function_linked L helpers s x" and "writes (code_bytes L y \<union> const_bytes L s y) s t" and "image_ok L s"
    and x: "x \<in> set (core s)" and y: "y \<in> set (core s)" and "x \<noteq> y" and "blobs_ok L"
  shows "function_linked L helpers t x"
proof (rule function_linked_kept [OF assms(1-3) x assms(7)])
  note apart = parts_apart(3) [OF assms(3) x y] parts_apart(3) [OF assms(3) y x] parts_apart(4,5) [OF assms(3) x y assms(6)]
  show "code_bytes L x \<inter> (code_bytes L y \<union> const_bytes L s y) = {}" "const_bytes L s x \<inter> (code_bytes L y \<union> const_bytes L s y) = {}"
    using apart by auto
qed

text \<open>The bytes of all functions.\<close>

definition all_parts :: "codegen_env \<Rightarrow> linker \<Rightarrow> nat set" where
  "all_parts L s = (\<Union>x \<in> set (core s). code_bytes L x \<union> const_bytes L s x)"

lemma all_parts_same: "writes A s s' \<Longrightarrow> all_parts L s' = all_parts L s"
  by (simp add: all_parts_def const_bytes_def const_at_def writes_def same_maps_def)

lemma link_functions_step:
  assumes "for_each [i..<n] (link_function L helpers) s = Inr (u, s')" and "image_ok L s" and "blobs_ok L"
    and "n = length (cg_functions s)" and "blobs_from L i s" and "\<forall>j < i. j < n \<longrightarrow> function_linked L helpers s (core s ! j)"
  shows "writes (all_parts L s) s s' \<and> (\<forall>x \<in> set (core s'). function_linked L helpers s' x)"
  using assms(1,2,4,5,6)
proof (induction "n - i" arbitrary: i s)
  case 0
  then have "\<forall>j < length (core s). function_linked L helpers s (core s ! j)" by (simp add: core_def)
  then show ?case using 0 by (auto simp: in_set_conv_nth writes_refl)
next
  case (Suc k)
  let ?x = "cg_functions s ! i"
  have i: "i < n" using Suc.hyps(2) by simp
  then obtain t where first: "link_function L helpers i s = Inr ((), t)"
    and others: "for_each [Suc i..<n] (link_function L helpers) t = Inr (u, s')"
    using Suc.prems(1) by (auto simp: upt_conv_Cons elim: bind_runE)
  obtain b where b: "fc_blob ?x = Handle b" "cg_emit L (fc_function ?x) = Some b"
    using blobs_fromE [OF Suc.prems(4)] i Suc.prems(3) by metis
  note step = link_function_step [OF first Suc.prems(2) i [unfolded Suc.prems(3)] b assms(3)]
    and frame = link_function_frame [OF first i [unfolded Suc.prems(3)] b(1)]
  note image = writes_image [OF conjunct1 [OF step] Suc.prems(2)]
  have len: "n = length (cg_functions t)" using frame(1) Suc.prems(3) by simp
  have here: "core s ! i = ?x\<lparr>fc_blob := Null_handle\<rparr>" "core s ! i \<in> set (core s)" using i Suc.prems(3) by (simp_all add: core_def)
  have "function_linked L helpers t (core t ! j)" if j: "j < Suc i" "j < n" for j
  proof (cases "j = i")
    case True
    then show ?thesis using step here image(2) by simp
  next
    case False
    have there: "core s ! j \<in> set (core s)" using j(2) Suc.prems(3) by (simp add: core_def)
    have "distinct (core s)" using Suc.prems(2) by (simp add: image_ok_def distinct_map)
    moreover have "i < length (core s)" "j < length (core s)" using i j(2) Suc.prems(3) by (simp_all add: core_def)
    ultimately have apart: "core s ! j \<noteq> core s ! i" using False by (simp add: nth_eq_iff_index_eq)
    show ?thesis
      unfolding image(2)
      by (rule other_linked [OF _ _ Suc.prems(2) there here(2) apart assms(3)]) (use step Suc.prems(5) False j here(1) in simp_all)
  qed
  moreover have "blobs_from L (Suc i) t"
    using blobs_from_next [OF Suc.prems(4) frame(1)] .
  ultimately have "writes (all_parts L t) t s' \<and> (\<forall>x \<in> set (core s'). function_linked L helpers s' x)"
    using Suc.hyps(2) by (intro Suc.hyps(1) [OF _ others image(1) len]) auto
  moreover have "writes (all_parts L s) s t"
    using step here by (auto simp: all_parts_def elim!: writes_mono intro!: bexI [of _ "core s ! i"])
  moreover have "all_parts L t = all_parts L s" using all_parts_same step by blast
  ultimately show ?case using writes_order.trans by metis
qed

end
