(* ===== verification/Codegen_Run.thy ===== *)
theory Codegen_Run
  imports Codegen_Allocate Codegen_Linked Jit_Run
begin

text \<open>
  Code generation as a whole: nothing undefined happens on any path, from the maps for the debug
  information to the last table slot, and what is in the binary at the end.
\<close>

section \<open>Before the binary exists\<close>

text \<open>The maps of the context are sound, and no table has been placed yet.\<close>

definition emitting :: "linker \<Rightarrow> bool" where
  "emitting s \<longleftrightarrow> hmap_inv (func_to_idx s) \<and> hmap_inv (import_addresses s) \<and> hmap_inv (dbg_func_to_funcidx s) \<and>
     hmap_inv (dbg_cfi_to_funcidx s) \<and> hmap_inv (dbg_extern_to_funcidx s) \<and> global_offsets s = HMAP_INIT"

text \<open>The indices of the module lie inside the arrays of the context.\<close>

definition indices_ok :: "wasm_module \<Rightarrow> jit_context \<Rightarrow> bool" where
  "indices_ok m C \<longleftrightarrow>
     (\<forall>e \<in> set (mod_exports m). (export_kind e = WASM_EXPORT_FUNC \<longrightarrow> unat (export_index e) < length (jc_functions C)) \<and>
        (export_kind e = WASM_EXPORT_GLOBAL \<longrightarrow> unat (export_index e) < length (jc_globals C))) \<and>
     length (mod_imports m) \<le> length (jc_functions C) \<and>
     (\<forall>e \<in> set (mod_elems m). \<forall>i \<in> set (elem_funcs e). unat i < length (jc_functions C)) \<and>
     (mod_start_func m \<ge> 0 \<longrightarrow> unat (word_of_int (mod_start_func m) :: u32) < length (jc_functions C))"

lemma keeps_insert:
  assumes "\<And>s. I s \<Longrightarrow> hmap_inv (get s)" and "\<And>s t. I s \<Longrightarrow> hmap_inv t \<Longrightarrow> I (put t s)"
  shows "keeps I (on_part get put (hmap_insert h k v))"
proof (rule keepsI)
  show "on_part get put (hmap_insert h k v) s \<noteq> Inl Undefined" if "I s" for s
    using hm.insert_fault [OF assms(1) [OF that]] by (intro on_part_fault) blast
  show "I s'" if "I s" "on_part get put (hmap_insert h k v) s = Inr (a, s')" for s a s'
    using that hm.insert_law [OF assms(1) [OF that(1)]] assms(2) by (auto simp: on_part_run)
qed

lemma inserts_keep [keeps]:
  "keeps emitting (insert_func L f i)" "keeps emitting (insert_import L f a)"
  "keeps emitting (insert_dbg L dbg_func_to_funcidx dbg_func_to_funcidx_update f n)"
  "keeps emitting (insert_dbg L dbg_cfi_to_funcidx dbg_cfi_to_funcidx_update f n)"
  "keeps emitting (insert_dbg L dbg_extern_to_funcidx dbg_extern_to_funcidx_update f n)"
  unfolding insert_func_def insert_import_def insert_dbg_def by (rule keeps_insert; simp add: emitting_def)+

lemma modify_emitting: "(\<And>s. emitting s \<Longrightarrow> emitting (f s)) \<Longrightarrow> keeps emitting (modify f)"
  by (rule keeps_modify)

lemma queue_callee_emitting [keeps]: "keeps emitting (queue_callee r)"
  unfolding queue_callee_def by (auto split: reloc_target.split intro!: keeps modify_emitting simp: emitting_def)

lemma jit_codegen_function_emitting [keeps]: "keeps emitting (jit_codegen_function L f)"
  unfolding jit_codegen_function_def add_function_def update_last_def place_code_def place_constpool_def Let_def
  by (intro keeps modify_emitting; simp add: emitting_def)

lemma jit_try_codegen_function_emitting: "unat i < length fs \<Longrightarrow> keeps emitting (jit_try_codegen_function L fs i)"
  unfolding jit_try_codegen_function_def by (intro keeps keeps_bind_index) (auto split: spidir_funcref.split intro!: keeps)

lemma codegen_roots_emitting:
  assumes "indices_ok (cg_module L) C"
  shows "keeps emitting (codegen_roots L (jc_functions C))"
proof -
  let ?m = "cg_module L" and ?fs = "jc_functions C"
  have "keeps emitting (codegen_export L ?fs e)" if "e \<in> set (mod_exports ?m)" for e
    unfolding codegen_export_def using that assms by (auto simp: indices_ok_def intro!: keeps jit_try_codegen_function_emitting)
  moreover have "keeps emitting (codegen_import L ?fs x)" if "x \<in> set (zip [0..<length (mod_imports ?m)] (mod_imports ?m))" for x
  proof -
    have "fst x < length (mod_imports ?m)" using that by (auto simp: in_set_zip)
    then have "fst x < length ?fs" using assms by (simp add: indices_ok_def)
    then show ?thesis
      unfolding codegen_import_def by (cases x) (auto split: option.split spidir_funcref.split intro!: keeps keeps_bind_index)
  qed
  moreover have "keeps emitting (codegen_elem L ?fs e)" if "e \<in> set (mod_elems ?m)" for e
    unfolding codegen_elem_def using that assms by (auto simp: indices_ok_def intro!: keeps jit_try_codegen_function_emitting)
  moreover have "keeps emitting (jit_try_codegen_function L ?fs (word_of_int (mod_start_func ?m)))" if "mod_start_func ?m \<ge> 0"
    using that assms by (intro jit_try_codegen_function_emitting) (simp add: indices_ok_def)
  ultimately show ?thesis unfolding codegen_roots_def Let_def by (intro keeps)
qed

lemma emitting_queue [simp]: "emitting (s\<lparr>cg_queue := q\<rparr>) = emitting s"
  by (simp add: emitting_def)

lemma jit_codegen_functions_emitting:
  assumes "jit_codegen_functions L (jc_functions C) s = Some r" and "emitting s" and "indices_ok (cg_module L) C"
  shows "case r of Inl e \<Rightarrow> e \<noteq> Undefined | Inr (_, s') \<Rightarrow> emitting s'"
proof (cases "codegen_roots L (jc_functions C) s")
  case (Inl e)
  then have "r = Inl e" using assms(1) by (simp add: jit_codegen_functions_def)
  then show ?thesis using Inl keeps_no_fault [OF codegen_roots_emitting [OF assms(3)] assms(2)] by auto
next
  case (Inr x)
  then obtain t where t: "codegen_roots L (jc_functions C) s = Inr ((), t)" by (cases x) simp
  then have "emitting t" by (rule keeps_post [OF codegen_roots_emitting [OF assms(3)] assms(2)])
  moreover have "drain_codegen_queue L t = Some r" using assms(1) t by (simp add: jit_codegen_functions_def)
  ultimately have "case r of Inl e \<Rightarrow> e \<noteq> Undefined | Inr (_, s') \<Rightarrow> emitting s' \<and> cg_queue s' = []"
  proof (intro drain_codegen_queue_rule [where I = emitting])
    fix s f q assume "emitting s"
    then have s: "emitting (s\<lparr>cg_queue := q\<rparr>)" by simp
    show "case jit_codegen_function L f (s\<lparr>cg_queue := q\<rparr>) of Inl e \<Rightarrow> e \<noteq> Undefined | Inr (_, s') \<Rightarrow> emitting s'"
      using keeps_no_fault [OF jit_codegen_function_emitting s] keeps_post [OF jit_codegen_function_emitting s]
      by (auto split: sum.split)
  qed
  then show ?thesis by (auto split: sum.split)
qed

text \<open>The maps for the debug information touch nothing else.\<close>

definition before_functions :: "linker \<Rightarrow> bool" where
  "before_functions s \<longleftrightarrow> emitting s \<and> fresh_codegen s"

lemma start_linker_before: "before_functions start_linker"
  by (simp add: before_functions_def emitting_def start_linker_def start_codegen_def fresh_codegen_def codegen_ctx.defs hm.new_inv)

lemma debug_maps_before: "keeps before_functions (jit_codegen_prepare_debug_maps L fs)"
proof -
  have "keeps before_functions (insert_dbg L dbg_func_to_funcidx dbg_func_to_funcidx_update f n)"
    "keeps before_functions (insert_dbg L dbg_cfi_to_funcidx dbg_cfi_to_funcidx_update f n)"
    "keeps before_functions (insert_dbg L dbg_extern_to_funcidx dbg_extern_to_funcidx_update f n)" for f n
    unfolding insert_dbg_def by (rule keeps_insert; simp add: before_functions_def emitting_def fresh_codegen_def hm.new_inv)+
  then show ?thesis
    unfolding jit_codegen_prepare_debug_maps_def debug_map_entry_def
    by (intro keeps) (auto split: option.split spidir_funcref.split intro!: keeps)
qed

section \<open>Tables and the allocation\<close>

lemma codegen_table_safe:
  assumes "hmap_inv (global_offsets s)"
  shows "codegen_table L t s \<noteq> Inl Undefined" and "codegen_table L t s = Inr (u, s') \<Longrightarrow> hmap_inv (global_offsets s')"
proof -
  have k: "keeps (\<lambda>s. hmap_inv (global_offsets s)) (codegen_table L t)"
    unfolding codegen_table_def insert_global_def by (intro keeps keeps_modify keeps_insert) simp_all
  show "codegen_table L t s \<noteq> Inl Undefined" by (rule keeps_no_fault [OF k assms])
  show "codegen_table L t s = Inr (u, s') \<Longrightarrow> hmap_inv (global_offsets s')" by (rule keeps_post [OF k assms])
qed

lemma jit_codegen_tables_safe:
  assumes "hmap_inv (global_offsets s)"
  shows "jit_codegen_tables L ts s \<noteq> Inl Undefined"
  unfolding jit_codegen_tables_def using codegen_table_safe
  by (intro for_each_safe [where I = "\<lambda>s. hmap_inv (global_offsets s)"] assms)

lemma allocate_binary_safe: "allocate_binary L s \<noteq> Inl Undefined"
  unfolding allocate_binary_def by (intro safe)

lemma capture_extents_step: "capture_extents L a b s = Inr (u, s') \<Longrightarrow> static s s' \<and> lk_binary s' = lk_binary s"
  by (auto simp: capture_extents_def CALLOC_def static_def same_maps_def core_def run split: if_splits)

lemma capture_extents_safe: "capture_extents L a b s \<noteq> Inl Undefined"
  unfolding capture_extents_def CALLOC_def by (intro safe)

text \<open>The state that linking starts from.\<close>

lemma linking_starts:
  assumes "codegen_inv L s" and "emitting s" and "linkable L ts" and "jit_codegen_tables L ts s = Inr (u1, s1)"
    and "allocate_binary L s1 = Inr (u2, s2)" and "capture_extents L a b s2 = Inr (u3, s3)"
  shows "image_ok L s3 \<and> image_tables L ts s3 \<and> blobs_from L 0 s3 \<and> core s3 = core s \<and>
    (\<forall>i. unat (code_size s3) \<le> i \<longrightarrow> i < length (lk_binary s3) \<longrightarrow> lk_binary s3 ! i = 0)"
proof -
  have fits: "code_fits L" "rodata_fits L" "table_room ts < 2 ^ 62" "tables_distinct ts" using assms(3) by (simp_all add: linkable_def)
  have inv: "hmap_inv (global_offsets s)" using assms(2) by (simp add: emitting_def hm.new_inv)
  have "unat (rodata_size s) + table_room ts < 2 ^ 63" using compiled_sizes [OF assms(1) fits(1,2)] fits(3) by simp
  note placed = jit_codegen_tables_step [OF assms(4) [unfolded jit_codegen_tables_def] inv this fits(4)]
  have allocated: "image_ok L s2 \<and> image_tables L ts s2 \<and> blobs_from L 0 s2 \<and> core s2 = core s \<and>
    (\<forall>i. unat (code_size s2) \<le> i \<longrightarrow> i < length (lk_binary s2) \<longrightarrow> lk_binary s2 ! i = 0)"
    by (rule allocate_binary_step [OF assms(5,1,3)]) (use placed in simp_all)
  have "same_maps s2 s3" "cg_functions s3 = cg_functions s2" "lk_binary s3 = lk_binary s2" "code_size s3 = code_size s2" "core s3 = core s2"
    using capture_extents_step [OF assms(6)] by (simp_all add: static_def same_maps_def)
  then show ?thesis
    using allocated image_ok_same [of s2 s3 L] image_tables_same [of s2 s3 L ts] by (simp add: blobs_from_def)
qed

section \<open>Linking does nothing undefined\<close>

lemma some_or_fail_safe [safe]: "some_or_fail x s \<noteq> Inl Undefined"
  by (cases x) (simp_all add: some_or_fail_def ret_apply fail_apply)

lemma debug_owner_safe [safe]: "debug_owner f s \<noteq> Inl Undefined"
  unfolding debug_owner_def by (intro safe)

lemma static_image:
  assumes "static s s'"
  shows "image_ok L s' = image_ok L s" and "core s' = core s"
  using image_ok_same [of s s' L] assms by (simp_all add: static_def) (simp add: same_maps_def)

lemma get_indirect_found_safe:
  assumes "lookup_func f s = Inr (x, s')" and "image_ok L s"
  shows "jit_get_indirect (ucast (code_offset x)) s' \<noteq> Inl Undefined"
proof -
  note found = lookup_func_step [OF assms]
  then show ?thesis using jit_get_indirect_safe [OF assms(2) core_of, of x] by simp
qed

lemma resolve_reloc_safe:
  assumes "image_ok L s"
  shows "resolve_reloc L helpers x r s \<noteq> Inl Undefined"
proof (cases "rl_target r")
  case (Target_internal_function f)
  show ?thesis
    unfolding resolve_reloc_def gets_bind Target_internal_function reloc_target.case
    by (intro safe lookup_func_safe [OF assms] get_indirect_found_safe [OF _ assms])
qed (simp_all only: resolve_reloc_def gets_bind Let_def reloc_target.case, (intro safe)+)

lemma reloc_store_bounds:
  assumes "image_ok L s" and x: "x\<lparr>fc_blob := Null_handle\<rparr> \<in> set (core s)" and "unat w \<le> 16"
    and "rl_offset r + w \<le> word_of_nat (code_length L (fc_function x))"
  shows "unat (ucast (code_offset x) + rl_offset r) + unat w \<le> length (lk_binary s)"
proof -
  let ?off = "ucast (code_offset x) :: u64" and ?e = "rl_offset r + w"
  note bounds = image_bounds [OF assms(1) x, simplified]
  have e: "unat ?e \<le> code_length L (fc_function x)"
    using assms(4) bounds by (simp add: word_le_nat_alt unat_of_nat take_bit_nat_eq_self)
  have "unat (?off + ?e) = code_at x + unat ?e" using e bounds unat_code_offset [of x] by (simp add: unat_word_ariths)
  moreover have "?off + rl_offset r = ?off + ?e - w" by simp
  moreover have "unat (?off + ?e - w) = unat (?off + ?e) - unat w"
    using calculation(1) bounds(1) assms(3) by (intro unat_sub) (simp add: word_le_nat_alt)
  ultimately have "unat (?off + rl_offset r) = code_at x + unat ?e - unat w" by simp
  then show ?thesis using e bounds assms(3) by simp
qed

lemma jit_apply_reloc_safe:
  assumes "image_ok L s" and x: "x\<lparr>fc_blob := Null_handle\<rparr> \<in> set (core s)"
  shows "jit_apply_reloc (ucast (code_offset x)) (word_of_nat (code_length L (fc_function x))) r target s \<noteq> Inl Undefined"
proof -
  note room = reloc_store_bounds [OF assms, of _ r]
  show ?thesis
  proof (cases "rl_kind r")
    case SPIDIR_RELOC_X64_PC32
    show ?thesis
      unfolding jit_apply_reloc_def Let_def SPIDIR_RELOC_X64_PC32 reloc_kind.case
      by (intro safe store_safe) (use room [of 4] in simp)
  next
    case SPIDIR_RELOC_X64_ABS64
    show ?thesis
      unfolding jit_apply_reloc_def Let_def SPIDIR_RELOC_X64_ABS64 reloc_kind.case
      by (intro safe store_safe) (use room [of 8] in simp)
  next
    case Reloc_other
    show ?thesis unfolding jit_apply_reloc_def Let_def Reloc_other reloc_kind.case by (intro safe)
  qed
qed

lemma link_reloc_safe:
  assumes "image_ok L s" and x: "x\<lparr>fc_blob := Null_handle\<rparr> \<in> set (core s)"
  shows "link_reloc L helpers x (word_of_nat (code_length L (fc_function x))) owner r s \<noteq> Inl Undefined"
  unfolding link_reloc_def
proof (intro safe)
  show "resolve_reloc L helpers x r s \<noteq> Inl Undefined" by (rule resolve_reloc_safe [OF assms(1)])
  fix a s1 target idx cfi
  assume run: "resolve_reloc L helpers x r s = Inr (a, s1)"
  note same = static_image [OF alongD [OF resolve_reloc_static run]]
  show "jit_apply_reloc (ucast (code_offset x)) (word_of_nat (code_length L (fc_function x))) r target s1 \<noteq> Inl Undefined"
    using assms by (intro jit_apply_reloc_safe) (simp_all only: same)
qed

lemma capture_layout_safe [safe]: "capture_layout L x b s \<noteq> Inl Undefined"
  unfolding capture_layout_def by (intro safe)

lemma link_function_safe:
  assumes "image_ok L s" and "blobs_from L i s" and i: "i < length (cg_functions s)"
  shows "link_function L helpers i s \<noteq> Inl Undefined"
proof -
  let ?x = "cg_functions s ! i"
  obtain b where blob: "fc_blob ?x = Handle b" "cg_emit L (fc_function ?x) = Some b"
    using assms(2) i by (auto simp: blobs_from_def Let_def)
  have x: "?x\<lparr>fc_blob := Null_handle\<rparr> \<in> set (core s)" using i by (simp add: core_of)
  have sizes: "code_length L (fc_function ?x) = length (bl_code b)" "const_size L (fc_function ?x) = length (bl_constpool b)"
    using blob by (simp_all add: code_length_def const_size_def)
  have code: "store (ucast (code_offset ?x)) (bl_code b) s \<noteq> Inl Undefined"
    using image_bounds [OF assms(1) x] unat_code_offset [of ?x] sizes by (intro store_safe) simp
  have pool: "store (code_size s1 + ucast (constpool_offset ?x)) (bl_constpool b) s1 \<noteq> Inl Undefined"
    if "static s s1" "bl_constpool b \<noteq> []" for s1
    using that unat_const_address [OF assms(1) x] sizes by (intro store_safe) (auto simp: static_def same_maps_def)
  have relocs: "for_each (bl_relocs b) (link_reloc L helpers ?x (word_of_nat (length (bl_code b))) owner) s1 \<noteq> Inl Undefined"
    if "static s s1" for owner s1
  proof (rule for_each_safe [where I = "static s"])
    show "link_reloc L helpers ?x (word_of_nat (length (bl_code b))) owner r t \<noteq> Inl Undefined" if "static s t" for r t
      using link_reloc_safe [of L t ?x] assms(1) x unfolding static_image [OF that] sizes(1) by simp
    show "static s t'" if "static s t" "link_reloc L helpers ?x (word_of_nat (length (bl_code b))) owner r t = Inr (u, t')" for r t u t'
      using static_order.trans that(1) alongD [OF link_reloc_static that(2)] .
  qed (rule that)
  have st: "static s t" if "(if c then store off bs else ret ()) s = Inr (u, t)" for c off bs u s t
    using alongD [OF static_order.along_if [OF store_static static_order.along_ret] that] .
  show ?thesis
    unfolding link_function_def gets_bind index_def blob if_P [OF i] bind_ret blob_handle.case
  proof (intro bind_safe value_safe capture_layout_safe)
    show "(if bl_code b \<noteq> [] then store (ucast (code_offset ?x)) (bl_code b) else ret ()) s \<noteq> Inl Undefined"
      using code by (simp add: ret_apply)
    fix u s1 assume 1: "(if bl_code b \<noteq> [] then store (ucast (code_offset ?x)) (bl_code b) else ret ()) s = Inr (u, s1)"
    show "(if bl_constpool b \<noteq> [] then store (code_size s1 + ucast (constpool_offset ?x)) (bl_constpool b) else ret ()) s1 \<noteq> Inl Undefined"
      using pool [OF st [OF 1]] by (simp add: ret_apply)
    fix v s2 assume 2: "(if bl_constpool b \<noteq> [] then store (code_size s1 + ucast (constpool_offset ?x)) (bl_constpool b) else ret ()) s1 = Inr (v, s2)"
    fix owner s3 assume 3: "capture_layout L ?x b s2 = Inr (owner, s3)"
    have "static s s3"
      using st [OF 1] st [OF 2] alongD [OF capture_layout_static 3] by (blast intro: static_order.trans)
    then show "for_each (bl_relocs b) (link_reloc L helpers ?x (word_of_nat (length (bl_code b))) owner) s3 \<noteq> Inl Undefined"
      by (rule relocs)
  qed
qed

lemma jit_codegen_link_safe:
  assumes "image_ok L s" and "blobs_from L 0 s"
  shows "jit_codegen_link L helpers s \<noteq> Inl Undefined"
proof -
  let ?n = "length (cg_functions s)"
  define I where "I i t \<longleftrightarrow> image_ok L t \<and> blobs_from L i t \<and> length (cg_functions t) = ?n" for i t
  have "for_each [0..<?n] (link_function L helpers) s \<noteq> Inl Undefined"
  proof (rule for_each_upt_safe [where I = I])
    show "I 0 s" using assms by (simp add: I_def)
    fix i t assume i: "i < ?n" and t: "I i t"
    then show "link_function L helpers i t \<noteq> Inl Undefined" by (intro link_function_safe) (simp_all add: I_def)
    fix u t' assume run: "link_function L helpers i t = Inr (u, t')"
    from t i obtain b where "fc_blob (cg_functions t ! i) = Handle b" by (auto simp: I_def elim: blobs_fromE)
    note frame = link_function_frame [OF run _ this]
    show "I (Suc i) t'"
      using t i frame image_ok_same [OF frame(2), of L] blobs_from_next [of L i t t'] by (simp add: I_def)
  qed
  then show ?thesis by (simp add: jit_codegen_link_def gets_bind)
qed

lemma jit_codegen_link_frame:
  assumes "jit_codegen_link L helpers s = Inr (u, s')" and "blobs_from L 0 s"
  shows "same_maps s s'" and "blobs_from L (length (cg_functions s')) s'"
proof -
  let ?n = "length (cg_functions s)"
  have "same_maps t s' \<and> blobs_from L ?n s' \<and> length (cg_functions s') = ?n"
    if "for_each [i..<?n] (link_function L helpers) t = Inr (u, s')" "blobs_from L i t" "length (cg_functions t) = ?n" "i \<le> ?n" for i t
    using that
  proof (induction "?n - i" arbitrary: i t)
    case 0
    then show ?case by (simp add: same_maps_def)
  next
    case (Suc k)
    then have i: "i < ?n" and k: "k = ?n - Suc i" by simp_all
    obtain t1 where first: "link_function L helpers i t = Inr ((), t1)" and others: "for_each [Suc i..<?n] (link_function L helpers) t1 = Inr (u, s')"
      using Suc.prems(1) i by (auto simp: upt_conv_Cons elim: bind_runE)
    from Suc.prems(2,3) i obtain b where "fc_blob (cg_functions t ! i) = Handle b" by (auto elim: blobs_fromE)
    note frame = link_function_frame [OF first _ this]
    have "same_maps t1 s' \<and> blobs_from L ?n s' \<and> length (cg_functions s') = ?n"
      using frame(1) i Suc.prems(2,3) by (intro Suc.hyps(1) [OF k others] blobs_from_next) simp_all
    then show ?case using frame(2) i Suc.prems(3) by (simp add: same_maps_def)
  qed
  from this [of 0 s] show "same_maps s s'" "blobs_from L (length (cg_functions s')) s'"
    using assms by (simp_all add: jit_codegen_link_def gets_bind)
qed

section \<open>Tables and exports\<close>

lemma static_tables: "static s s' \<Longrightarrow> image_tables L ts s' = image_tables L ts s"
  by (simp add: static_def image_tables_same)

lemma jit_get_internal_function_addr_safe:
  assumes "image_ok L s"
  shows "jit_get_internal_function_addr f s \<noteq> Inl Undefined"
  unfolding jit_get_internal_function_addr_def
  by (intro safe lookup_func_safe [OF assms] get_indirect_found_safe [OF _ assms])

lemma jit_get_function_addr_safe:
  assumes "image_ok L s" and "unat i < length fs"
  shows "jit_get_function_addr fs i s \<noteq> Inl Undefined"
proof -
  have "(case jf_spidir x of Some (Funcref_external _) \<Rightarrow> ret (jf_address x)
       | Some (Funcref_internal f) \<Rightarrow> jit_get_internal_function_addr f | None \<Rightarrow> fail Check_failed) s \<noteq> Inl Undefined" for x
    using jit_get_internal_function_addr_safe [OF assms(1)] by (auto simp: ret_apply fail_apply split: option.split spidir_funcref.split)
  then show ?thesis
    unfolding jit_get_function_addr_def using assms(2) by (intro bind_safe value_safe index_safe) auto
qed

lemma slot_address:
  assumes "image_ok L s" and "image_tables L ts s" and "t \<in> set ts" and "jt_used t"
    and "hmap_lookup (global_offsets s) (ucast (jt_global t)) = Some off" and "k < unat (jt_length t)" and "unat slot = k"
  shows "unat (code_size s + off + 8 * slot) = unat (code_size s) + table_off s t + 8 * k"
    and "unat (code_size s) + table_end s t \<le> length (lk_binary s)"
proof -
  have total: "unat (code_size s) + unat (rodata_size s) = length (lk_binary s)" "length (lk_binary s) < 2 ^ 63"
    using assms(1) by (auto simp: image_ok_def)
  have off: "table_off s t = unat off" using assms(5) by (simp add: table_off_def)
  have inside: "table_end s t \<le> unat (rodata_size s)" using assms(2-4) by (auto simp: image_tables_def tables_placed_def)
  then show "unat (code_size s) + table_end s t \<le> length (lk_binary s)" using total by simp
  have "unat (code_size s) + unat off + 8 * k < 2 ^ 63" using inside total off assms(6) by (simp add: table_end_def)
  then show "unat (code_size s + off + 8 * slot) = unat (code_size s) + table_off s t + 8 * k"
    using off assms(7) by (simp add: unat_word_ariths)
qed

text \<open>The slots of an element segment, as the numbers of the table's slots.\<close>

abbreviation slots_of :: "wasm_elem_segment \<Rightarrow> (u64 \<times> u32) list" where
  "slots_of e \<equiv> zip (map (\<lambda>j. ucast (elem_offset e) + word_of_nat j) [0..<length (elem_funcs e)]) (elem_funcs e)"

lemma elem_slots:
  assumes "x \<in> set (slots_of e)"
    and "unat (elem_offset e) + length (elem_funcs e) \<le> unat (jt_length t)"
  shows "unat (fst x :: u64) < unat (jt_length t)" and "snd x \<in> set (elem_funcs e)"
proof -
  obtain j where j: "j < length (elem_funcs e)" "fst x = ucast (elem_offset e) + word_of_nat j" "snd x = elem_funcs e ! j"
    using assms(1) by (auto simp: in_set_zip)
  have "unat (ucast (elem_offset e) :: u64) = unat (elem_offset e)"
    using unat_u32_bound [of "elem_offset e"] by (simp add: unsigned_ucast_eq take_bit_nat_eq_self)
  then have "unat (fst x) = unat (elem_offset e) + j"
    using j(1,2) assms(2) unat_u32_bound [of "jt_length t"] by (simp add: unat_word_ariths unat_of_nat)
  then show "unat (fst x) < unat (jt_length t)" using j(1) assms(2) by simp
  show "snd x \<in> set (elem_funcs e)" using j by simp
qed

lemma fill_slot_safe:
  assumes "image_ok L s" and "image_tables L ts s" and "t \<in> set ts" and "jt_used t"
    and "hmap_lookup (global_offsets s) (ucast (jt_global t)) = Some off"
    and "unat (fst x) < unat (jt_length t)" and "unat (snd x) < length fs"
  shows "fill_slot fs (code_size s + off) x s \<noteq> Inl Undefined"
proof (cases x)
  case (Pair slot funcidx)
  note at = slot_address [OF assms(1-5)]
  have room: "unat (code_size s + off + 8 * slot) + 8 \<le> length (lk_binary s')" if "static s s'" for s'
    using at [OF _ refl, of slot] assms(6) that by (simp add: Pair table_end_def static_def same_maps_def)
  show ?thesis
    unfolding fill_slot_def Pair prod.case
  proof (intro bind_safe value_safe)
    show "index fs (unat funcidx) s \<noteq> Inl Undefined" using assms(7) by (intro index_safe) (simp add: Pair)
    fix func s1 v s2
    assume "index fs (unat funcidx) s = Inr (func, s1)" and "check (jf_has_cfi func) s1 = Inr (v, s2)"
    then have s2: "s2 = s" by simp
    show "jit_get_internal_function_addr (jf_cfi_thunk func) s2 \<noteq> Inl Undefined"
      unfolding s2 by (rule jit_get_internal_function_addr_safe [OF assms(1)])
    fix a s3 assume "jit_get_internal_function_addr (jf_cfi_thunk func) s2 = Inr (a, s3)"
    then have "static s s3" unfolding s2 by (rule alongD [OF function_addr_static(1)])
    then show "store (code_size s + off + 8 * slot) (le_bytes 8 a) s3 \<noteq> Inl Undefined"
      using room by (intro store_safe) simp
  qed
qed

lemma fill_elem_safe:
  assumes "image_ok L s" and "image_tables L (jc_tables C) s" and "\<forall>i \<in> set (elem_funcs e). unat i < length (jc_functions C)"
  shows "fill_elem C e s \<noteq> Inl Undefined"
proof -
  define t where "t = jc_tables C ! unat (elem_tableidx e)"
  have slots: "for_each (slots_of e)
      (fill_slot (jc_functions C) (code_size s + off)) s \<noteq> Inl Undefined"
    if t: "t \<in> set (jc_tables C)" "jt_used t" and found: "hmap_lookup (global_offsets s) (ucast (jt_global t)) = Some off"
      and room: "unat (elem_offset e) + length (elem_funcs e) \<le> unat (jt_length t)" for off
  proof (rule for_each_safe [where I = "static s"])
    fix x s' assume x: "x \<in> set (slots_of e)"
      and st: "static s s'"
    note same = static_image [OF st] static_tables [OF st]
    have eqs: "code_size s' = code_size s" "global_offsets s' = global_offsets s" using st by (simp_all add: static_def same_maps_def)
    show "fill_slot (jc_functions C) (code_size s + off) x s' \<noteq> Inl Undefined"
      unfolding eqs(1) [symmetric]
      using assms t found room elem_slots [OF x room] by (intro fill_slot_safe) (simp_all add: same eqs)
    show "static s s''" if "fill_slot (jc_functions C) (code_size s + off) x s' = Inr (u, s'')" for u s''
      using static_order.trans st alongD [OF fill_static(1) that] .
  qed (rule static_order.refl)
  show ?thesis
    unfolding fill_elem_def
  proof (intro bind_safe value_safe if_safe)
    show "index (jc_tables C) (unat (elem_tableidx e)) s1 \<noteq> Inl Undefined" if "check (unat (elem_tableidx e) < length (jc_tables C)) s = Inr (u, s1)" for u s1
      using that by (intro index_safe) simp
  qed (use slots in \<open>auto simp: t_def some_or_fail_def ret_apply fail_apply split: option.splits\<close>)
qed

lemma jit_codegen_fill_tables_safe:
  assumes "image_ok L s" and "image_tables L (jc_tables C) s" and "indices_ok (cg_module L) C"
  shows "jit_codegen_fill_tables L C s \<noteq> Inl Undefined"
  unfolding jit_codegen_fill_tables_def
proof (rule for_each_safe [where I = "static s"])
  fix e s' assume e: "e \<in> set (mod_elems (cg_module L))" and st: "static s s'"
  show "fill_elem C e s' \<noteq> Inl Undefined"
    using assms e static_image [OF st] static_tables [OF st] by (intro fill_elem_safe) (simp_all add: indices_ok_def)
  show "static s s''" if "fill_elem C e s' = Inr (u, s'')" for u s''
    using static_order.trans st alongD [OF fill_static(2) that] .
qed (rule static_order.refl)

lemma fill_export_safe:
  assumes "image_ok L s" and "export_kind e = WASM_EXPORT_FUNC \<longrightarrow> unat (export_index e) < length (jc_functions C)"
    and "export_kind e = WASM_EXPORT_GLOBAL \<longrightarrow> unat (export_index e) < length (jc_globals C)"
  shows "fill_export C e s \<noteq> Inl Undefined"
proof (cases "export_kind e")
  case WASM_EXPORT_FUNC
  show ?thesis
    unfolding fill_export_def WASM_EXPORT_FUNC wasm_export_type.case
    using assms(2) WASM_EXPORT_FUNC by (intro bind_safe value_safe jit_get_function_addr_safe [OF assms(1)]) simp
next
  case WASM_EXPORT_GLOBAL
  show ?thesis
    unfolding fill_export_def WASM_EXPORT_GLOBAL wasm_export_type.case
    using assms(3) WASM_EXPORT_GLOBAL by (intro bind_safe value_safe index_safe) simp
qed (simp_all add: fill_export_def ret_apply fail_apply)

lemma jit_codegen_fill_functions_safe:
  assumes "image_ok L s" and "indices_ok (cg_module L) C"
  shows "jit_codegen_fill_functions L C s \<noteq> Inl Undefined"
proof -
  let ?exports = "map_each (mod_exports (cg_module L)) (fill_export C)"
  have exports: "?exports s \<noteq> Inl Undefined"
  proof (rule map_each_safe [where I = "static s"])
    fix e s' assume "e \<in> set (mod_exports (cg_module L))" and st: "static s s'"
    then show "fill_export C e s' \<noteq> Inl Undefined"
      using assms static_image [OF st] by (intro fill_export_safe) (simp_all add: indices_ok_def)
    show "static s s''" if "fill_export C e s' = Inr (y, s'')" for y s''
      using static_order.trans st alongD [OF fill_static(3) that] .
  qed (rule static_order.refl)
  have start: "jit_get_function_addr (jc_functions C) (word_of_int (mod_start_func (cg_module L))) (t\<lparr>lk_exports := es\<rparr>) \<noteq> Inl Undefined"
    if run: "?exports s = Inr (es, t)" and le: "0 \<le> mod_start_func (cg_module L)" for es t
  proof (rule jit_get_function_addr_safe)
    have "static s t" using alongD [OF static_order.along_map_each [OF fill_static(3)] run] .
    then show "image_ok L (t\<lparr>lk_exports := es\<rparr>)"
      using assms(1) image_ok_same [of s "t\<lparr>lk_exports := es\<rparr>" L] by (simp add: static_def same_maps_def core_def)
    show "unat (word_of_int (mod_start_func (cg_module L)) :: u32) < length (jc_functions C)" using assms(2) le by (simp add: indices_ok_def)
  qed
  show ?thesis
    unfolding jit_codegen_fill_functions_def Let_def
    by (intro bind_safe value_safe if_safe exports; simp add: exports start modify_bind split: if_splits)
qed

section \<open>The whole\<close>

lemma codegen_cleanup_safe:
  assumes "blobs_from L (length (cg_functions s)) s"
  shows "codegen_cleanup s \<noteq> Inl Undefined"
proof -
  have "fc_blob x = Null_handle" if "x \<in> set (cg_functions s)" for x
    using that assms by (auto simp: blobs_from_def Let_def in_set_conv_nth)
  then have "for_each (cg_functions s) destroy_blob s \<noteq> Inl Undefined"
    by (intro for_each_safe [where I = "\<lambda>_. True"]) (simp_all add: destroy_blob_def ret_apply)
  then show ?thesis by (simp add: codegen_cleanup_def gets_bind)
qed

text \<open>The stages of a successful run.\<close>

lemma link_all_safe:
  assumes "codegen_inv L s" and "emitting s" and "linkable L (jc_tables C)" and "indices_ok (cg_module L) C"
  shows "link_all L C s \<noteq> Inl Undefined"
  unfolding link_all_def
proof (intro bind_safe value_safe allocate_binary_safe capture_extents_safe)
  let ?ts = "jc_tables C"
  show "jit_codegen_tables L ?ts s \<noteq> Inl Undefined"
    using assms(2) by (intro jit_codegen_tables_safe) (simp add: emitting_def hm.new_inv)
  fix u1 s1 a s1' b s1'' assume 1: "jit_codegen_tables L ?ts s = Inr (u1, s1)" "gets code_size s1 = Inr (a, s1')" "gets rodata_size s1' = Inr (b, s1'')"
  fix u2 s2 assume 2: "allocate_binary L s1'' = Inr (u2, s2)"
  fix u3 s3 assume 3: "capture_extents L a b s2 = Inr (u3, s3)"
  have "allocate_binary L s1 = Inr (u2, s2)" using 1 2 by simp
  note start = linking_starts [OF assms(1-3) 1(1) this 3]
  show "jit_codegen_link L (jc_helpers C) s3 \<noteq> Inl Undefined" using start by (intro jit_codegen_link_safe) simp_all
  fix u4 s4 assume 4: "jit_codegen_link L (jc_helpers C) s3 = Inr (u4, s4)"
  note link = jit_codegen_link_frame [OF 4 conjunct1 [OF conjunct2 [OF conjunct2 [OF start]]]]
  have image4: "image_ok L s4" "image_tables L ?ts s4" using start image_ok_same [OF link(1)] image_tables_same [OF link(1)] by simp_all
  show "jit_codegen_fill_functions L C s4 \<noteq> Inl Undefined" by (rule jit_codegen_fill_functions_safe [OF image4(1) assms(4)])
  fix u5 s5 assume 5: "jit_codegen_fill_functions L C s4 = Inr (u5, s5)"
  have st5: "static s4 s5" by (rule alongD [OF fill_static(4) 5])
  show "jit_codegen_fill_tables L C s5 \<noteq> Inl Undefined"
    using image4 static_image [OF st5] static_tables [OF st5] by (intro jit_codegen_fill_tables_safe assms(4)) simp_all
  fix u6 s6 assume 6: "jit_codegen_fill_tables L C s5 = Inr (u6, s6)"
  have "along static (jit_codegen_fill_tables L C)" unfolding jit_codegen_fill_tables_def by (intro along)
  from alongD [OF this 6] have "cg_functions s6 = cg_functions s4" using st5 by (simp add: static_def)
  moreover fix u7 s7 assume "check (cg_jit_lock L) s6 = Inr (u7, s7)"
  ultimately have "blobs_from L (length (cg_functions s7)) s7" using link(2) by (simp add: blobs_from_def)
  then show "codegen_cleanup s7 \<noteq> Inl Undefined" by (rule codegen_cleanup_safe)
qed

end
