(* ===== verification/Codegen_Entries.thy ===== *)
theory Codegen_Entries
  imports Codegen_Run
begin

text \<open>
  The addresses that leave the binary: exports, the start function and the slots of tables hold the
  address of an endbr64 right before the code of a function, and a table slot that no element segment
  covers stays null.
\<close>

section \<open>Entry addresses\<close>

definition entry_of :: "linker \<Rightarrow> u32 \<Rightarrow> u64 \<Rightarrow> bool" where
  "entry_of s f a \<longleftrightarrow> (\<exists>y \<in> set (core s). fc_function y = f \<and> a = lk_base s + ucast (code_offset y) - 4 \<and> endbr_at s y)"

lemma entry_of_kept: "entry_of s f a \<Longrightarrow> writes A s s' \<Longrightarrow> entry_of s' f a"
  by (auto simp: entry_of_def writes_def same_maps_def)

lemma internal_addr_step:
  assumes "jit_get_internal_function_addr f s = Inr (a, s')" and "image_ok L s"
  shows "writes {} s s' \<and> entry_of s' f a"
proof -
  obtain x s1 off where found: "lookup_func f s = Inr (x, s1)" and mark: "jit_get_indirect (ucast (code_offset x)) s1 = Inr (off, s')"
    and a: "a = lk_base s' + off"
    using assms(1) by (auto simp: jit_get_internal_function_addr_def elim!: bind_runE)
  note f = lookup_func_step [OF found assms(2)]
  let ?x = "x\<lparr>fc_blob := Null_handle\<rparr>"
  have x: "?x \<in> set (core s)" using f by (simp add: core_of)
  have mark': "jit_get_indirect (ucast (code_offset ?x)) s = Inr (off, s')" using mark f by simp
  note step = jit_get_indirect_step [OF mark' assms(2) x]
  have "?x \<in> set (core s')" using x writes_image(2) [OF conjunct1 [OF conjunct2 [OF step]] assms(2)] by simp
  then show ?thesis using step f a unfolding entry_of_def by (auto intro!: bexI [of _ ?x])
qed

text \<open>Runs that change the bytes of the binary at most.\<close>

definition binary_only :: "linker \<Rightarrow> linker \<Rightarrow> bool" where
  "binary_only s s' \<longleftrightarrow> s'\<lparr>lk_binary := []\<rparr> = s\<lparr>lk_binary := []\<rparr>"

interpretation binary_order: run_preorder binary_only
  by unfold_locales (simp_all add: binary_only_def)

lemma binary_onlyD:
  assumes "binary_only s s'"
  shows "lk_exports s' = lk_exports s" and "lk_start_func s' = lk_start_func s"
  using arg_cong [OF assms [unfolded binary_only_def], of lk_exports] arg_cong [OF assms [unfolded binary_only_def], of lk_start_func]
  by simp_all

lemma store_binary [along]: "along binary_only (store off bs)"
  by (rule alongI) (auto simp: store_run binary_only_def)

lemma addr_binary [along]:
  "along binary_only (some_or_fail z)" "along binary_only (lookup_func f)" "along binary_only (jit_get_internal_function_addr f)"
  "along binary_only (jit_get_function_addr fs i)" "along binary_only (fill_slot fs start slot)" "along binary_only (fill_elem C e)"
proof -
  show 0: "along binary_only (some_or_fail z)" for z :: "'z option" unfolding some_or_fail_def by (intro along)
  show 1: "along binary_only (lookup_func f)" for f unfolding lookup_func_def by (intro along 0)
  show 2: "along binary_only (jit_get_internal_function_addr f)" for f
    unfolding jit_get_internal_function_addr_def jit_get_indirect_def by (intro along 1)
  show "along binary_only (jit_get_function_addr fs i)"
    unfolding jit_get_function_addr_def by (intro along) (auto split: option.split spidir_funcref.split intro!: along 2)
  show 3: "along binary_only (fill_slot fs start slot)" for start slot fs unfolding fill_slot_def by (intro along 2)
  show "along binary_only (fill_elem C e)" unfolding fill_elem_def by (intro along 3 0)
qed

text \<open>The address of a function for an export: the import's own, or an entry.\<close>

definition function_addr :: "jit_function list \<Rightarrow> linker \<Rightarrow> u32 \<Rightarrow> u64 \<Rightarrow> bool" where
  "function_addr fs s i a \<longleftrightarrow> unat i < length fs \<and>
     (case jf_spidir (fs ! unat i) of
        Some (Funcref_external _) \<Rightarrow> a = jf_address (fs ! unat i)
      | Some (Funcref_internal f) \<Rightarrow> entry_of s f a
      | None \<Rightarrow> False)"

lemma function_addr_kept: "function_addr fs s i a \<Longrightarrow> writes A s s' \<Longrightarrow> function_addr fs s' i a"
  using entry_of_kept by (auto simp: function_addr_def split: option.splits spidir_funcref.splits)

lemma function_addr_step:
  assumes "jit_get_function_addr fs i s = Inr (a, s')" and "image_ok L s"
  shows "writes {} s s' \<and> function_addr fs s' i a"
  using assms internal_addr_step
  by (auto simp: jit_get_function_addr_def function_addr_def run writes_refl split: option.splits spidir_funcref.splits)

definition export_exact :: "jit_context \<Rightarrow> linker \<Rightarrow> wasm_export \<Rightarrow> jit_export \<Rightarrow> bool" where
  "export_exact C s e x \<longleftrightarrow>
     (case export_kind e of
        WASM_EXPORT_FUNC \<Rightarrow> (\<exists>a. x = Export_func a \<and> function_addr (jc_functions C) s (export_index e) a)
      | WASM_EXPORT_GLOBAL \<Rightarrow> x = Export_global (jg_offset (jc_globals C ! unat (export_index e)))
      | WASM_EXPORT_MEMORY \<Rightarrow> x = Export_zero
      | _ \<Rightarrow> False)"

lemma export_exact_kept: "export_exact C s e x \<Longrightarrow> writes A s s' \<Longrightarrow> export_exact C s' e x"
  using function_addr_kept by (auto simp: export_exact_def split: wasm_export_type.splits)

lemma fill_export_step:
  assumes "fill_export C e s = Inr (x, s')" and "image_ok L s"
  shows "writes {} s s' \<and> export_exact C s' e x"
  using assms function_addr_step
  by (auto simp: fill_export_def export_exact_def run writes_refl split: wasm_export_type.splits)

lemma fill_exports_step:
  assumes "map_each es (fill_export C) s = Inr (xs, s')" and "image_ok L s"
  shows "writes {} s s' \<and> list_all2 (export_exact C s') es xs"
  using assms
proof (induction es arbitrary: s xs)
  case Nil
  then show ?case by (simp add: writes_refl)
next
  case (Cons e es)
  obtain x t xs' where first: "fill_export C e s = Inr (x, t)" and others: "map_each es (fill_export C) t = Inr (xs', s')" and xs: "xs = x # xs'"
    using Cons.prems(1) by (auto elim!: bind_runE)
  note step = fill_export_step [OF first Cons.prems(2)]
  have image: "image_ok L t" using writes_image(1) [OF conjunct1 [OF step] Cons.prems(2)] .
  note rest = Cons.IH [OF others image]
  show ?case using step rest export_exact_kept writes_order.trans unfolding xs by auto
qed

definition start_exact :: "codegen_env \<Rightarrow> jit_context \<Rightarrow> linker \<Rightarrow> bool" where
  "start_exact L C s \<longleftrightarrow> (mod_start_func (cg_module L) \<ge> 0 \<longrightarrow>
     function_addr (jc_functions C) s (word_of_int (mod_start_func (cg_module L))) (lk_start_func s))"

lemma outside_binary:
  assumes "core s' = core s" and "func_to_idx s' = func_to_idx s" and "global_offsets s' = global_offsets s" and "import_addresses s' = import_addresses s"
    and "code_size s' = code_size s" and "rodata_size s' = rodata_size s" and "lk_base s' = lk_base s" and "lk_binary s' = lk_binary s"
  shows "writes {} s s'"
  using assms by (simp add: writes_def same_maps_def endbr_at_def)

lemma fill_functions_step:
  assumes "jit_codegen_fill_functions L C s = Inr (u, s')" and "image_ok L s"
  shows "writes {} s s' \<and> list_all2 (export_exact C s') (mod_exports (cg_module L)) (lk_exports s') \<and> start_exact L C s'"
proof -
  obtain xs t where exports: "map_each (mod_exports (cg_module L)) (fill_export C) s = Inr (xs, t)"
    and start: "(if mod_start_func (cg_module L) \<ge> 0 then
       bind (jit_get_function_addr (jc_functions C) (word_of_int (mod_start_func (cg_module L)))) (\<lambda>entry.
       modify (\<lambda>s. s\<lparr>lk_start_func := entry\<rparr>))
     else ret ()) (t\<lparr>lk_exports := xs\<rparr>) = Inr (u, s')"
    using assms(1) by (auto simp: jit_codegen_fill_functions_def Let_def elim!: bind_runE)
  note first = fill_exports_step [OF exports assms(2)]
  let ?t = "t\<lparr>lk_exports := xs\<rparr>"
  have t: "writes {} t ?t" by (rule outside_binary) (simp_all add: core_def)
  have image: "image_ok L ?t" using writes_image(1) [OF t] writes_image(1) [OF conjunct1 [OF first] assms(2)] by simp
  have exact: "list_all2 (export_exact C s') (mod_exports (cg_module L)) xs" if "writes {} t s'"
    using first export_exact_kept [OF _ that] by (auto elim: list_all2_mono)
  show ?thesis
  proof (cases "mod_start_func (cg_module L) \<ge> 0")
    case False
    then have "s' = ?t" using start by simp
    then show ?thesis using first t exact False writes_order.trans by (auto simp: start_exact_def)
  next
    case True
    then obtain entry r where addr: "jit_get_function_addr (jc_functions C) (word_of_int (mod_start_func (cg_module L))) ?t = Inr (entry, r)"
      and s': "s' = r\<lparr>lk_start_func := entry\<rparr>"
      using start by (auto elim!: bind_runE)
    note second = function_addr_step [OF addr image]
    have last: "writes {} r s'" unfolding s' by (rule outside_binary) (simp_all add: core_def)
    have "lk_exports r = xs" using binary_onlyD(1) [OF alongD [OF addr_binary(4) addr]] by simp
    moreover have ts: "writes {} t s'" using t second last writes_order.trans by metis
    moreover have "function_addr (jc_functions C) s' (word_of_int (mod_start_func (cg_module L))) entry"
      using function_addr_kept second last by blast
    ultimately show ?thesis using first exact [OF ts] writes_order.trans by (auto simp: start_exact_def s')
  qed
qed

section \<open>Slots of tables\<close>

definition slot_at :: "linker \<Rightarrow> jit_table \<Rightarrow> nat \<Rightarrow> nat" where
  "slot_at s t k = unat (code_size s) + table_off s t + 8 * k"

definition slot_bytes :: "linker \<Rightarrow> jit_table \<Rightarrow> nat \<Rightarrow> nat set" where
  "slot_bytes s t k = {slot_at s t k ..< slot_at s t k + 8}"

definition slot_word :: "linker \<Rightarrow> jit_table \<Rightarrow> nat \<Rightarrow> u64" where
  "slot_word s t k = le_word (take 8 (drop (slot_at s t k) (lk_binary s)))"

lemma slot_inside:
  assumes "image_tables L ts s" and "t \<in> set ts" and "jt_used t" and "k < unat (jt_length t)" and "x \<in> set (core s)" and "image_ok L s"
  shows "slot_bytes s t k \<inter> code_bytes L x = {}" and "slot_bytes s t k \<inter> const_bytes L s x = {}" and "slot_bytes s t k \<inter> entry_slot x = {}"
proof -
  obtain lo where lo: "consts_below L s lo" "tables_placed lo (unat (rodata_size s)) s ts" using assms(1) by (auto simp: image_tables_def)
  have "lo \<le> table_off s t" using lo(2) assms(2,3) by (simp add: tables_placed_def)
  moreover have "const_size L (fc_function x) \<noteq> 0 \<Longrightarrow> unat (constpool_offset x) + const_size L (fc_function x) \<le> lo"
    using lo(1) assms(5) by (simp add: consts_below_def)
  ultimately show "slot_bytes s t k \<inter> const_bytes L s x = {}"
    by (cases "const_size L (fc_function x) = 0") (auto simp: slot_bytes_def slot_at_def const_bytes_def const_at_def)
  show "slot_bytes s t k \<inter> code_bytes L x = {}" "slot_bytes s t k \<inter> entry_slot x = {}"
    using image_bounds [OF assms(6,5)] by (auto simp: slot_bytes_def slot_at_def code_bytes_def entry_slot_def)
qed

lemma slots_apart:
  assumes "image_tables L ts s" and "i < length ts" and "j < length ts" and "jt_used (ts ! i)" and "jt_used (ts ! j)"
    and "k < unat (jt_length (ts ! i))" and "l < unat (jt_length (ts ! j))" and "(i, k) \<noteq> (j, l)"
  shows "slot_bytes s (ts ! i) k \<inter> slot_bytes s (ts ! j) l = {}"
proof -
  have order: "table_end s (ts ! a) \<le> table_off s (ts ! b)" if "a < b" "b < length ts" "jt_used (ts ! a)" "jt_used (ts ! b)" for a b
    using assms(1) that by (auto simp: image_tables_def tables_placed_def sorted_wrt_iff_nth_less)
  consider "i < j" | "j < i" | "i = j" "k \<noteq> l" using assms(8) by fastforce
  then show ?thesis
  proof cases
    case 1
    then show ?thesis using order [OF 1 assms(3-5)] assms(6) by (auto simp: slot_bytes_def slot_at_def table_end_def)
  next
    case 2
    then show ?thesis using order [OF 2 assms(2,5,4)] assms(7) by (auto simp: slot_bytes_def slot_at_def table_end_def)
  next
    case 3
    then show ?thesis by (auto simp: slot_bytes_def slot_at_def)
  qed
qed

lemma slot_same: "same_maps s s' \<Longrightarrow> slot_at s' t k = slot_at s t k \<and> slot_bytes s' t k = slot_bytes s t k"
  by (simp add: slot_at_def slot_bytes_def table_off_def same_maps_def)

lemma slot_word_kept:
  assumes "writes A s s'" and "image_tables L ts s" and "t \<in> set ts" and "jt_used t" and "k < unat (jt_length t)" and "image_ok L s"
    and "slot_bytes s t k \<inter> A = {}"
  shows "slot_word s' t k = slot_word s t k"
proof -
  have "take 8 (drop (slot_at s t k) (lk_binary s')) = take 8 (drop (slot_at s t k) (lk_binary s))"
  proof (rule bytes_kept [OF assms(1)])
    fix i assume "slot_at s t k \<le> i" "i < slot_at s t k + 8"
    then have "i \<in> slot_bytes s t k" by (simp add: slot_bytes_def)
    then show "i \<notin> A \<and> (\<forall>x \<in> set (core s). i \<notin> entry_slot x)" using assms(7) slot_inside(3) [OF assms(2-5) _ assms(6)] by blast
  qed
  then show ?thesis using slot_same [OF writes_same [OF assms(1)]] by (simp add: slot_word_def)
qed

text \<open>What the element segments put into the tables, in the order of the module: for a table and a slot the function.\<close>

definition segment_init :: "wasm_elem_segment \<Rightarrow> (nat \<Rightarrow> nat \<rightharpoonup> u32) \<Rightarrow> nat \<Rightarrow> nat \<rightharpoonup> u32" where
  "segment_init e W = W(unat (elem_tableidx e) :=
     fold (\<lambda>(k, f) m. m(k \<mapsto> f)) (zip [unat (elem_offset e)..<unat (elem_offset e) + length (elem_funcs e)] (elem_funcs e))
       (W (unat (elem_tableidx e))))"

definition table_init :: "wasm_elem_segment list \<Rightarrow> nat \<Rightarrow> nat \<rightharpoonup> u32" where
  "table_init es = fold segment_init es (\<lambda>_. Map.empty)"

text \<open>A slot holds null, or the entry of the thunk of its function.\<close>

definition slot_exact :: "jit_function list \<Rightarrow> linker \<Rightarrow> jit_table \<Rightarrow> nat \<Rightarrow> u32 option \<Rightarrow> bool" where
  "slot_exact fs s t k init \<longleftrightarrow>
     (case init of
        None \<Rightarrow> slot_word s t k = 0
      | Some f \<Rightarrow> unat f < length fs \<and> jf_has_cfi (fs ! unat f) \<and> entry_of s (jf_cfi_thunk (fs ! unat f)) (slot_word s t k))"

definition slots_exact :: "jit_context \<Rightarrow> linker \<Rightarrow> (nat \<Rightarrow> nat \<rightharpoonup> u32) \<Rightarrow> bool" where
  "slots_exact C s W \<longleftrightarrow> (\<forall>i < length (jc_tables C). jt_used (jc_tables C ! i) \<longrightarrow>
     (\<forall>k < unat (jt_length (jc_tables C ! i)). slot_exact (jc_functions C) s (jc_tables C ! i) k (W i k)))"

lemma slot_exact_kept:
  assumes "slot_exact fs s t k init" and "writes A s s'" and "slot_word s' t k = slot_word s t k"
  shows "slot_exact fs s' t k init"
  using assms entry_of_kept by (auto simp: slot_exact_def split: option.splits)

lemma slots_exact_kept:
  assumes "slots_exact C s W" and "writes A s s'" and "image_tables L (jc_tables C) s" and "image_ok L s"
    and "\<And>t k. t \<in> set (jc_tables C) \<Longrightarrow> jt_used t \<Longrightarrow> k < unat (jt_length t) \<Longrightarrow> slot_bytes s t k \<inter> A = {}"
  shows "slots_exact C s' W"
  unfolding slots_exact_def
proof (intro allI impI)
  fix i k let ?t = "jc_tables C ! i"
  assume t: "i < length (jc_tables C)" "jt_used ?t" "k < unat (jt_length ?t)"
  then have "slot_word s' ?t k = slot_word s ?t k"
    by (intro slot_word_kept [OF assms(2,3) _ _ _ assms(4)] assms(5)) simp_all
  then show "slot_exact (jc_functions C) s' ?t k (W i k)"
    using slot_exact_kept [OF _ assms(2)] assms(1) t by (simp add: slots_exact_def)
qed

section \<open>Filling the tables\<close>

definition table_bytes :: "linker \<Rightarrow> jit_table list \<Rightarrow> nat set" where
  "table_bytes s ts = (\<Union>t \<in> {t \<in> set ts. jt_used t}. \<Union>k < unat (jt_length t). slot_bytes s t k)"

lemma fill_slot_step:
  assumes run: "fill_slot (jc_functions C) (code_size s + off) (slot, f) s = Inr (u, s')" and image: "image_ok L s"
    and tables: "image_tables L (jc_tables C) s" and i: "i < length (jc_tables C)" and used: "jt_used (jc_tables C ! i)"
    and found: "hmap_lookup (global_offsets s) (ucast (jt_global (jc_tables C ! i))) = Some off"
    and k: "unat slot < unat (jt_length (jc_tables C ! i))" and exact: "slots_exact C s W"
  shows "writes (table_bytes s (jc_tables C)) s s' \<and> slots_exact C s' (W(i := (W i)(unat slot \<mapsto> f)))"
proof -
  let ?ts = "jc_tables C" and ?fs = "jc_functions C" let ?t = "?ts ! i"
  have t: "?t \<in> set ?ts" using i by simp
  note at = slot_address(1) [OF image tables t used found k refl]
  obtain a s1 where f: "unat f < length ?fs" "jf_has_cfi (?fs ! unat f)"
    and addr: "jit_get_internal_function_addr (jf_cfi_thunk (?fs ! unat f)) s = Inr (a, s1)"
    and st: "store (code_size s + off + 8 * slot) (le_bytes 8 a) s1 = Inr (u, s')"
    using run by (auto simp: fill_slot_def elim!: bind_runE)
  note first = internal_addr_step [OF addr image]
  note same = writes_same [OF conjunct1 [OF first]]
  have image1: "image_ok L s1" and tables1: "image_tables L ?ts s1"
    using image tables image_ok_same [OF same] image_tables_same [OF same] by simp_all
  have slot1: "slot_bytes s1 ?t (unat slot) = slot_bytes s ?t (unat slot)" "slot_at s1 ?t (unat slot) = slot_at s ?t (unat slot)"
    using slot_same [OF same] by simp_all
  have here: "unat (code_size s + off + 8 * slot) = slot_at s ?t (unat slot)" using at by (simp add: slot_at_def)
  have second: "writes (slot_bytes s ?t (unat slot)) s1 s'"
  proof (rule store_writes [OF st image1])
    show "{unat (code_size s + off + 8 * slot) ..< unat (code_size s + off + 8 * slot) + length (le_bytes 8 a)} \<subseteq> slot_bytes s ?t (unat slot)"
      by (simp add: here slot_bytes_def)
    show "slot_bytes s ?t (unat slot) \<inter> entry_slot x = {}" if "x \<in> set (core s1)" for x
      using slot_inside(3) [OF tables1 t used k that image1] slot1 by simp
  qed
  have stored: "slot_word s' ?t (unat slot) = a"
    using store_effect(1) [OF st] slot_same [OF writes_same [OF second], of ?t "unat slot"] slot1 here
    by (simp add: slot_word_def field_def le_word_le_bytes)
  have exact1: "slots_exact C s1 W"
    by (rule slots_exact_kept [OF exact conjunct1 [OF first] tables image]) simp
  have "slots_exact C s' (W(i := (W i)(unat slot \<mapsto> f)))"
    unfolding slots_exact_def
  proof (intro allI impI)
    fix j l assume j: "j < length ?ts" "jt_used (?ts ! j)" "l < unat (jt_length (?ts ! j))"
    show "slot_exact ?fs s' (?ts ! j) l ((W(i := (W i)(unat slot \<mapsto> f))) j l)"
    proof (cases "(j, l) = (i, unat slot)")
      case True
      then show ?thesis using f stored entry_of_kept [OF conjunct2 [OF first] second] by (simp add: slot_exact_def)
    next
      case False
      then have "slot_bytes s1 (?ts ! j) l \<inter> slot_bytes s1 ?t (unat slot) = {}" using slots_apart [OF tables1 j(1) i j(2) used j(3) k] by simp
      then have "slot_word s' (?ts ! j) l = slot_word s1 (?ts ! j) l"
        using j slot1(1) by (intro slot_word_kept [OF second tables1 _ _ _ image1]) simp_all
      from slot_exact_kept [OF _ second this] show ?thesis using exact1 j False by (auto simp: slots_exact_def)
    qed
  qed
  moreover have "slot_bytes s ?t (unat slot) \<subseteq> table_bytes s ?ts" using t used k by (auto simp: table_bytes_def)
  then have "writes (table_bytes s ?ts) s s1" "writes (table_bytes s ?ts) s1 s'" using first second by (auto elim: writes_mono)
  then have "writes (table_bytes s ?ts) s s'" using writes_order.trans by metis
  ultimately show ?thesis by simp
qed

lemma fill_slots_step:
  assumes "for_each xs (fill_slot (jc_functions C) start) s = Inr (u, s')" and "image_ok L s"
    and "image_tables L (jc_tables C) s" and i: "i < length (jc_tables C)" and used: "jt_used (jc_tables C ! i)"
    and "hmap_lookup (global_offsets s) (ucast (jt_global (jc_tables C ! i))) = Some off" and "start = code_size s + off"
    and "\<forall>x \<in> set xs. unat (fst x) < unat (jt_length (jc_tables C ! i))" and "slots_exact C s W"
  shows "writes (table_bytes s (jc_tables C)) s s' \<and>
    slots_exact C s' (W(i := fold (\<lambda>(k, f) m. m(k \<mapsto> f)) (map (\<lambda>(slot, f). (unat slot, f)) xs) (W i)))"
  using assms(1-3,6-9)
proof (induction xs arbitrary: s W)
  case Nil
  then show ?case by (simp add: writes_refl)
next
  case (Cons x xs)
  obtain slot f where x: "x = (slot, f)" by (cases x)
  obtain t where first: "fill_slot (jc_functions C) (code_size s + off) (slot, f) s = Inr ((), t)"
    and others: "for_each xs (fill_slot (jc_functions C) start) t = Inr (u, s')"
    using Cons.prems(1,5) x by (auto elim: bind_runE)
  have k: "unat slot < unat (jt_length (jc_tables C ! i))" using Cons.prems(6) x by simp
  note step = fill_slot_step [OF first Cons.prems(2,3) i used Cons.prems(4) k Cons.prems(7)]
  note same = writes_same [OF conjunct1 [OF step]]
  have t: "image_ok L t" "image_tables L (jc_tables C) t" "hmap_lookup (global_offsets t) (ucast (jt_global (jc_tables C ! i))) = Some off"
      "start = code_size t + off" "\<forall>x \<in> set xs. unat (fst x) < unat (jt_length (jc_tables C ! i))"
    using Cons.prems image_ok_same [OF same] image_tables_same [OF same] same by (simp_all add: same_maps_def)
  have "table_bytes t (jc_tables C) = table_bytes s (jc_tables C)" using slot_same [OF same] by (simp add: table_bytes_def)
  moreover note Cons.IH [OF others t conjunct2 [OF step]]
  ultimately show ?case using step writes_order.trans unfolding x by (auto simp: fun_upd_def cong: if_cong)
qed

lemma slots_of_nat:
  assumes "unat (elem_offset e) + length (elem_funcs e) < 2 ^ 64"
  shows "map (\<lambda>(slot, f). (unat slot, f)) (slots_of e) =
    zip [unat (elem_offset e)..<unat (elem_offset e) + length (elem_funcs e)] (elem_funcs e)"
proof (rule nth_equalityI)
  have off: "unat (ucast (elem_offset e) :: u64) = unat (elem_offset e)"
    using unat_u32_bound [of "elem_offset e"] by (simp add: unsigned_ucast_eq take_bit_nat_eq_self)
  fix j assume "j < length (map (\<lambda>(slot, f). (unat slot, f)) (slots_of e))"
  then have j: "j < length (elem_funcs e)" by simp
  then have "unat (ucast (elem_offset e) + word_of_nat j :: u64) = unat (elem_offset e) + j"
    using assms off by (simp add: unat_word_ariths unat_of_nat)
  then show "map (\<lambda>(slot, f). (unat slot, f)) (slots_of e) ! j =
      zip [unat (elem_offset e)..<unat (elem_offset e) + length (elem_funcs e)] (elem_funcs e) ! j"
    using j by simp
qed simp

lemma fill_elem_step:
  assumes "fill_elem C e s = Inr (u, s')" and image: "image_ok L s" and tables: "image_tables L (jc_tables C) s" and exact: "slots_exact C s W"
  shows "writes (table_bytes s (jc_tables C)) s s' \<and> slots_exact C s' (segment_init e W)"
proof -
  let ?i = "unat (elem_tableidx e)" let ?t = "jc_tables C ! ?i"
  have i: "?i < length (jc_tables C)" using assms(1) by (auto simp: fill_elem_def elim!: bind_runE)
  show ?thesis
  proof (cases "jt_used ?t")
    case False
    then have "s' = s" using assms(1) by (auto simp: fill_elem_def elim!: bind_runE)
    then show ?thesis using exact False by (auto simp: writes_refl slots_exact_def segment_init_def)
  next
    case True
    then obtain off where found: "hmap_lookup (global_offsets s) (ucast (jt_global ?t)) = Some off"
      and room: "uint (elem_offset e) + int (length (elem_funcs e)) < 2 ^ 64" "unat (elem_offset e) + length (elem_funcs e) \<le> unat (jt_length ?t)"
      and slots: "for_each (slots_of e) (fill_slot (jc_functions C) (code_size s + off)) s = Inr (u, s')"
      using assms(1) by (auto simp: fill_elem_def some_or_fail_def elim!: bind_runE split: option.splits)
    have "int (unat (elem_offset e) + length (elem_funcs e)) < int (2 ^ 64)" using room(1) by simp
    then have small: "unat (elem_offset e) + length (elem_funcs e) < 2 ^ 64" by (simp only: of_nat_less_iff)
    have "\<forall>x \<in> set (slots_of e). unat (fst x) < unat (jt_length ?t)" using elem_slots(1) [OF _ room(2)] by blast
    from fill_slots_step [OF slots image tables i True found refl this exact] show ?thesis
      unfolding slots_of_nat [OF small] segment_init_def .
  qed
qed

lemma fill_tables_step:
  assumes "for_each es (fill_elem C) s = Inr (u, s')" and "image_ok L s" and "image_tables L (jc_tables C) s" and "slots_exact C s W"
  shows "writes (table_bytes s (jc_tables C)) s s' \<and> slots_exact C s' (fold segment_init es W)"
  using assms
proof (induction es arbitrary: s W)
  case Nil
  then show ?case by (simp add: writes_refl)
next
  case (Cons e es)
  obtain t where first: "fill_elem C e s = Inr ((), t)" and others: "for_each es (fill_elem C) t = Inr (u, s')"
    using Cons.prems(1) by (auto elim: bind_runE)
  note step = fill_elem_step [OF first Cons.prems(2-4)]
  note same = writes_same [OF conjunct1 [OF step]]
  have t: "image_ok L t" "image_tables L (jc_tables C) t"
    using Cons.prems image_ok_same [OF same] image_tables_same [OF same] by simp_all
  have "table_bytes t (jc_tables C) = table_bytes s (jc_tables C)" using slot_same [OF same] by (simp add: table_bytes_def)
  then show ?case using step Cons.IH [OF others t conjunct2 [OF step]] writes_order.trans by auto
qed

section \<open>The finished binary\<close>

lemma slot_in_binary:
  assumes "image_ok L s" and "image_tables L ts s" and "t \<in> set ts" and "jt_used t" and "k < unat (jt_length t)"
  shows "slot_at s t k + 8 \<le> length (lk_binary s)"
  using assms by (auto simp: image_ok_def image_tables_def tables_placed_def slot_at_def table_end_def)

lemma slots_start_null:
  assumes "image_ok L s" and "image_tables L (jc_tables C) s"
    and zero: "\<forall>i. unat (code_size s) \<le> i \<longrightarrow> i < length (lk_binary s) \<longrightarrow> lk_binary s ! i = 0"
  shows "slots_exact C s (\<lambda>_. Map.empty)"
proof -
  have "slot_word s t k = 0" if t: "t \<in> set (jc_tables C)" "jt_used t" "k < unat (jt_length t)" for t k
  proof -
    have "take 8 (drop (slot_at s t k) (lk_binary s)) = replicate 8 0"
      using slot_in_binary [OF assms(1,2) t] zero by (intro nth_equalityI) (auto simp: slot_at_def)
    then show ?thesis by (simp add: slot_word_def le_word_def eval_nat_numeral)
  qed
  then show ?thesis by (simp add: slots_exact_def slot_exact_def)
qed

text \<open>Linking: the functions are in place, the slots still null.\<close>

lemma linked_stage:
  assumes "jit_codegen_link L helpers s = Inr (u, s')" and "image_ok L s" and "image_tables L (jc_tables C) s" and "blobs_from L 0 s"
    and "blobs_ok L" and "\<forall>i. unat (code_size s) \<le> i \<longrightarrow> i < length (lk_binary s) \<longrightarrow> lk_binary s ! i = 0"
  shows "image_ok L s' \<and> image_tables L (jc_tables C) s' \<and> core s' = core s \<and>
    (\<forall>x \<in> set (core s'). function_linked L helpers s' x) \<and> slots_exact C s' (\<lambda>_. Map.empty)"
proof -
  have "for_each [0..<length (cg_functions s)] (link_function L helpers) s = Inr (u, s')"
    using assms(1) by (simp add: jit_codegen_link_def gets_bind)
  from link_functions_step [OF this assms(2,5) refl assms(4)]
  have linked: "writes (all_parts L s) s s'" "\<forall>x \<in> set (core s'). function_linked L helpers s' x" by simp_all
  have "slots_exact C s' (\<lambda>_. Map.empty)"
    using slot_inside [OF assms(3) _ _ _ _ assms(2)]
    by (intro slots_exact_kept [OF slots_start_null [OF assms(2,3,6)] linked(1) assms(3,2)]) (fastforce simp: all_parts_def)
  then show ?thesis
    using linked(2) writes_image [OF linked(1) assms(2)] image_tables_same [OF writes_same [OF linked(1)]] assms(3) by simp
qed

text \<open>Exports and tables: they leave the functions as they are.\<close>

lemma function_linked_entries:
  assumes "function_linked L helpers s x" and "writes (table_bytes s ts) s s'" and "image_ok L s" and "x \<in> set (core s)"
    and "blobs_ok L" and "image_tables L ts s"
  shows "function_linked L helpers s' x"
  using slot_inside(1,2) [OF assms(6) _ _ _ assms(4,3)]
  by (intro function_linked_kept [OF assms(1-5)]) (fastforce simp: table_bytes_def)+

lemma filled_stage:
  assumes "jit_codegen_fill_functions L C s = Inr (u, t)" and "jit_codegen_fill_tables L C t = Inr (v, s')" and "image_ok L s"
    and "image_tables L (jc_tables C) s" and "blobs_ok L" and "\<forall>x \<in> set (core s). function_linked L helpers s x"
    and "slots_exact C s (\<lambda>_. Map.empty)"
  shows "image_ok L s' \<and> core s' = core s \<and> (\<forall>x \<in> set (core s'). function_linked L helpers s' x) \<and>
    list_all2 (export_exact C s') (mod_exports (cg_module L)) (lk_exports s') \<and> start_exact L C s' \<and>
    slots_exact C s' (table_init (mod_elems (cg_module L)))"
proof -
  note first = fill_functions_step [OF assms(1,3)]
  note w1 = conjunct1 [OF first]
  note image1 = writes_image [OF w1 assms(3)]
  have tables1: "image_tables L (jc_tables C) t" using assms(4) image_tables_same [OF writes_same [OF w1]] by simp
  have "slots_exact C t (\<lambda>_. Map.empty)" by (rule slots_exact_kept [OF assms(7) w1 assms(4,3)]) simp
  note second = fill_tables_step [OF assms(2) [unfolded jit_codegen_fill_tables_def] image1(1) tables1 this]
  note w2 = conjunct1 [OF second]
  note image2 = writes_image [OF w2 image1(1)]
  have "binary_only t s'"
    using binary_order.along_for_each [OF addr_binary(6), THEN alongD, OF assms(2) [unfolded jit_codegen_fill_tables_def]] .
  note same = binary_onlyD [OF this]
  have "function_linked L helpers s' x" if x: "x \<in> set (core s)" for x
  proof -
    have "function_linked L helpers t x" by (rule function_linked_kept [OF _ w1 assms(3) x assms(5)]) (use assms(6) x in simp_all)
    then show ?thesis using x image1(2) by (intro function_linked_entries [OF _ w2 image1(1) _ assms(5) tables1]) simp_all
  qed
  moreover have "list_all2 (export_exact C s') (mod_exports (cg_module L)) (lk_exports s')"
    using first export_exact_kept [OF _ w2] unfolding same by (auto elim: list_all2_mono)
  moreover have "start_exact L C s'" using first function_addr_kept [OF _ w2] same by (auto simp: start_exact_def)
  ultimately show ?thesis using second image1(2) image2(1,2) by (simp add: table_init_def)
qed

text \<open>Everything the binary and the results hold after the run.\<close>

lemma destroy_blobs_same: "codegen_cleanup s = Inr (u, s') \<Longrightarrow> s' = s"
proof -
  have "for_each fs destroy_blob s = Inr (u, s') \<Longrightarrow> s' = s" for fs s
    by (induction fs arbitrary: s) (auto simp: destroy_blob_def elim!: bind_runE)
  then show "codegen_cleanup s = Inr (u, s') \<Longrightarrow> s' = s" by (simp add: codegen_cleanup_def gets_bind)
qed

lemma link_all_step:
  assumes "link_all L C s = Inr (u, s')" and "codegen_inv L s" and "emitting s" and "linkable L (jc_tables C)" and ok: "blobs_ok L"
  shows "image_ok L s' \<and> core s' = core s \<and> (\<forall>x \<in> set (core s'). function_linked L (jc_helpers C) s' x) \<and>
    list_all2 (export_exact C s') (mod_exports (cg_module L)) (lk_exports s') \<and> start_exact L C s' \<and>
    slots_exact C s' (table_init (mod_elems (cg_module L)))"
proof -
  obtain s1 s2 s3 s4 s5 s6 where 1: "jit_codegen_tables L (jc_tables C) s = Inr ((), s1)" and 2: "allocate_binary L s1 = Inr ((), s2)"
    and 3: "capture_extents L (code_size s1) (rodata_size s1) s2 = Inr ((), s3)" and 4: "jit_codegen_link L (jc_helpers C) s3 = Inr ((), s4)"
    and 5: "jit_codegen_fill_functions L C s4 = Inr ((), s5)" and 6: "jit_codegen_fill_tables L C s5 = Inr ((), s6)"
    and 7: "codegen_cleanup s6 = Inr (u, s')"
    using assms(1) by (auto simp: link_all_def elim!: bind_runE)
  note start = linking_starts [OF assms(2-4) 1 2 3]
  have linked: "image_ok L s4 \<and> image_tables L (jc_tables C) s4 \<and> core s4 = core s3 \<and>
    (\<forall>x \<in> set (core s4). function_linked L (jc_helpers C) s4 x) \<and> slots_exact C s4 (\<lambda>_. Map.empty)"
    by (rule linked_stage [OF 4 _ _ _ ok]) (use start in simp_all)
  then have "image_ok L s6 \<and> core s6 = core s4 \<and> (\<forall>x \<in> set (core s6). function_linked L (jc_helpers C) s6 x) \<and>
    list_all2 (export_exact C s6) (mod_exports (cg_module L)) (lk_exports s6) \<and> start_exact L C s6 \<and>
    slots_exact C s6 (table_init (mod_elems (cg_module L)))"
    by (intro filled_stage [OF 5 6 _ _ ok]) simp_all
  then show ?thesis using destroy_blobs_same [OF 7] linked start by simp
qed

end
