(* ===== verification/Codegen_Correct.thy ===== *)
theory Codegen_Correct
  imports Codegen_Entries
begin

text \<open>
  The properties of code generation as a whole: from a translated module to the binary, nothing
  undefined happens; the binary holds the code, the constants and the targets of relocations; exports
  and tables hold entry addresses.
\<close>

section \<open>From translation to linking\<close>

lemma drain_queue_ok:
  assumes "all_locals_within (env_module E)"
  shows "drain_queue E fuel s = Some (Inr (u, s')) \<Longrightarrow> ctx_ok E s \<Longrightarrow> queue_ok s \<Longrightarrow> ctx_ok E s'"
proof (induction fuel arbitrary: s)
  case 0
  then show ?case by (auto simp: drain_queue.simps split: list.splits)
next
  case (Suc fuel)
  show ?case
  proof (cases "jc_queue s")
    case Nil
    then show ?thesis using Suc.prems by (simp add: drain_queue.simps)
  next
    case (Cons i queue)
    let ?s = "s\<lparr>jc_queue := queue\<rparr>"
    have ok: "ctx_ok E ?s" "queue_ok ?s" and i: "unat i < total_funcs (env_module E)"
      using Suc.prems Cons by (auto simp: queue_ok_def ctx_ok_def)
    obtain t where step: "jit_function_run E i ?s = Inr ((), t)" and rest: "drain_queue E fuel t = Some (Inr (u, s'))"
      using Suc.prems(1) Cons by (auto simp: drain_queue.simps [of E "Suc fuel" s] split: sum.splits)
    show ?thesis
    proof (rule Suc.IH [OF rest])
      show "ctx_ok E t" by (rule keeps_post [OF jit_function_run_keeps [OF assms i] ok(1) step])
      show "queue_ok t" using alongD [OF jit_function_run_work step] ok(2) by (simp add: work_le_def)
    qed
  qed
qed

lemma translated_ctx_ok:
  assumes "jit_translate_module E data_address = Some (Inr (C, n, st))" and "env_ok E"
    and "all_locals_within (env_module E)" and "few_slots (env_module E)"
  shows "ctx_ok E C"
proof -
  obtain gs ds where layout: "jit_prepare_state (env_host E) (env_module E) = Inr (gs, ds, n)"
    and emit: "jit_emit_spidir E (start_context (env_module E) gs ds) = Some (Inr ((), C))"
    using assms(1) by (auto simp: jit_translate_module_def Let_def split: if_splits sum.splits option.splits)
  let ?s = "start_context (env_module E) gs ds"
  have start: "ctx_ok E ?s" by (rule start_context_ok [OF assms(2) layout assms(4)])
  obtain t where roots: "prepare_roots E ?s = Inr ((), t)" and drain: "drain_queue E (total_funcs (env_module E)) t = Some (Inr ((), C))"
    using emit by (auto simp: jit_emit_spidir_def split: sum.splits)
  show ?thesis
  proof (rule drain_queue_ok [OF assms(3) drain])
    show "ctx_ok E t" by (rule keeps_post [OF roots_keep start roots])
    show "queue_ok t" using alongD [OF work_module.roots_along roots] by (auto simp: work_le_def queue_ok_def start_context_def)
  qed
qed

text \<open>The indices of a valid module fit the context translation leaves.\<close>

lemma ctx_indices_ok:
  assumes "ctx_ok E C" and ok: "module_ok (env_module E)"
  shows "indices_ok (env_module E) C"
proof -
  let ?m = "env_module E"
  have lengths: "length (jc_functions C) = total_funcs ?m" "length (jc_globals C) = length (mod_globals ?m)"
    using assms(1) by (auto simp: ctx_ok_def list_all2_lengthD)
  have start: "unat (word_of_int (mod_start_func ?m) :: u32) < total_funcs ?m" if "mod_start_func ?m \<ge> 0"
  proof -
    have "mod_start_func ?m < int (total_funcs ?m)" using ok that by (auto simp: module_ok_def start_ok_def)
    moreover have "uint (word_of_int (mod_start_func ?m) :: u32) \<le> mod_start_func ?m"
      using that by (simp add: uint_word_of_int zmod_le_nonneg_dividend)
    ultimately have "int (unat (word_of_int (mod_start_func ?m) :: u32)) < int (total_funcs ?m)" by (simp del: of_nat_less_iff)
    then show ?thesis by (simp only: of_nat_less_iff)
  qed
  have "export_ok ?m e" if "e \<in> set (mod_exports ?m)" for e using ok that by (simp add: module_ok_def list_all_iff)
  moreover have "elem_ok ?m e" if "e \<in> set (mod_elems ?m)" for e using ok that by (simp add: module_ok_def list_all_iff)
  ultimately show ?thesis
    using start lengths
    by (fastforce simp: indices_ok_def export_ok_def elem_ok_def funcidx_ok_def list_all_iff total_funcs_def split: wasm_export_type.splits)
qed

section \<open>The run of code generation\<close>

lemma jit_codegen_stages:
  assumes "jit_codegen L C = Some (Inr (u, s'))" and "indices_ok (cg_module L) C"
  obtains s where "codegen_inv L s" and "emitting s" and "link_all L C s = Inr (u, s')"
proof -
  let ?maps = "if cg_capture_debug L then jit_codegen_prepare_debug_maps L (jc_functions C) else ret ()"
  obtain t s where t: "?maps start_linker = Inr ((), t)" and s: "jit_codegen_functions L (jc_functions C) t = Some (Inr ((), s))"
    and link: "link_all L C s = Inr (u, s')"
    using assms(1) by (auto simp: jit_codegen_def split: sum.splits option.splits)
  have "keeps before_functions ?maps" by (intro keeps debug_maps_before)
  from keeps_post [OF this start_linker_before t] have before: "emitting t" "fresh_codegen t" by (simp_all add: before_functions_def)
  have "codegen_inv L s" using jit_codegen_functions_step [OF s before(2)] by simp
  moreover have "emitting s" using jit_codegen_functions_emitting [OF s before(1) assms(2)] by simp
  ultimately show thesis using link by (rule that)
qed

lemma jit_codegen_safe:
  assumes "linkable L (jc_tables C)" and "indices_ok (cg_module L) C"
  shows "\<exists>r. jit_codegen L C = Some r \<and> r \<noteq> Inl Undefined"
proof -
  let ?maps = "if cg_capture_debug L then jit_codegen_prepare_debug_maps L (jc_functions C) else ret ()"
  have keep: "keeps before_functions ?maps" by (intro keeps debug_maps_before)
  show ?thesis
  proof (cases "?maps start_linker")
    case (Inl e)
    then show ?thesis using keeps_no_fault [OF keep start_linker_before] by (auto simp: jit_codegen_def)
  next
    case (Inr x)
    then obtain t where t: "?maps start_linker = Inr ((), t)" by (cases x) simp
    from keeps_post [OF keep start_linker_before t] have before: "emitting t" "fresh_codegen t" by (simp_all add: before_functions_def)
    obtain r where r: "jit_codegen_functions L (jc_functions C) t = Some r" using codegen_functions_total [OF before(2)] by blast
    note faults = jit_codegen_functions_emitting [OF r before(1) assms(2)]
    show ?thesis
    proof (cases r)
      case (Inl e)
      then show ?thesis using faults t r by (simp add: jit_codegen_def)
    next
      case (Inr y)
      then obtain s where s: "r = Inr ((), s)" by (cases y) simp
      have "codegen_inv L s" using jit_codegen_functions_step [OF r [unfolded s] before(2)] by simp
      moreover have "emitting s" using faults s by simp
      ultimately have "link_all L C s \<noteq> Inl Undefined" by (rule link_all_safe [OF _ _ assms])
      then show ?thesis using t r s by (simp add: jit_codegen_def)
    qed
  qed
qed

section \<open>The error path\<close>

text \<open>
  Between \<open>vec_add\<close> and the end of the library's work the new entry has no blob yet. Where the function is left
  there, because the hash map cannot grow or the library fails, the cleanup reads the uninitialised handle.
\<close>

lemma destroys_uninitialised:
  assumes "\<exists>x \<in> set fs. fc_blob x = Uninitialised"
  shows "for_each fs destroy_blob s = Inl Undefined"
  using assms
proof (induction fs)
  case (Cons x fs)
  then show ?case
    by (cases "fc_blob x = Uninitialised") (auto simp: destroy_blob_def bind_def defined_def ret_def fail_def)
qed simp

lemma cleanup_after_failure:
  assumes "add_function f s = Inr (u, s')"
  shows "codegen_cleanup s' = Inl Undefined"
  using assms by (auto simp: codegen_cleanup_def gets_bind add_function_def intro!: destroys_uninitialised)

section \<open>Properties\<close>


lemma function_linked_blob: "function_linked L helpers s (x\<lparr>fc_blob := h\<rparr>) = function_linked L helpers s x"
  by (simp add: function_linked_def)



section \<open>Witnesses\<close>

text \<open>Bytes of words, computed on words.\<close>

lemma ucast_of_nat_unat: "(word_of_nat (unat (w :: 'a::len word)) :: 'b::len word) = ucast w"
  by simp

lemma le_bytes_code [code]:
  "le_bytes n (w :: 'w::len word) = (case n of 0 \<Rightarrow> [] | Suc m \<Rightarrow> ucast w # le_bytes m (drop_bit 8 w))"
proof (cases n)
  case (Suc m)
  have "unat (drop_bit 8 w) = unat w div 256" 
    using unsigned_less [where ?'a = nat, of w] by (simp only: unsigned_drop_bit_eq) (simp add: drop_bit_eq_div take_bit_nat_eq_self)
  then show ?thesis by (simp add: Suc le_bytes_def ucast_of_nat_unat)
qed (simp add: le_bytes_def)

lemma le_word_code [code]:
  "le_word [] = 0" "le_word (b # bs) = ucast b + 256 * le_word bs"
  by (simp_all add: le_word_def ucast_of_nat_unat)

text \<open>
  A module with one function, exported and in the second slot of a table of two; function 5 of the library
  is its code, which calls function 6 and has a constant, function 6 is its thunk, 7 the global of the table.
\<close>

definition linked_codegen :: codegen_env where
  "linked_codegen = sample_codegen\<lparr>
     cg_emit := [5 \<mapsto> \<lparr>bl_code = [0xE8, 0, 0, 0, 0], bl_constpool = [1, 2], bl_constpool_align = 2, bl_relocs = [call_to 6]\<rparr>,
       6 \<mapsto> \<lparr>bl_code = [0xC3], bl_constpool = [], bl_constpool_align = 1, bl_relocs = []\<rparr>],
     cg_page_size := 8, cg_jit_alloc := (\<lambda>_ _. 64),
     cg_module := (cg_module sample_codegen)\<lparr>mod_elems := [\<lparr>elem_tableidx = 0, elem_offset = 1, elem_funcs = [0]\<rparr>]\<rparr>\<rparr>"

definition linked_context :: jit_context where
  "linked_context = (start_context sample_module [] [])\<lparr>
     jc_functions := [\<lparr>jf_spidir = Some (Funcref_internal 5), jf_cfi_thunk = 6, jf_address = 0, jf_inited = True, jf_has_cfi = True\<rparr>],
     jc_tables := [\<lparr>jt_global = 7, jt_length = 2, jt_used = True\<rparr>]\<rparr>"

lemma sample_links:
  "ends_in (\<lambda>s. map fc_function (cg_functions s) = [5, 6] \<and> lk_exports s = [Export_func 76] \<and>
     slot_word s (jc_tables linked_context ! 0) 0 = 0 \<and> slot_word s (jc_tables linked_context ! 0) 1 = 108)
   (jit_codegen linked_codegen linked_context)"
  by code_simp

lemma linked_context_ok:
  "linkable linked_codegen (jc_tables linked_context)" "indices_ok (cg_module linked_codegen) linked_context" "blobs_ok linked_codegen"
proof -
  have funcs: "{f. cg_emit linked_codegen f \<noteq> None} = {5, 6}" by (auto simp: linked_codegen_def sample_codegen_def split: if_splits)
  have "code_fits linked_codegen"
    unfolding code_fits_def funcs by (simp add: code_length_def) (simp add: linked_codegen_def)
  moreover have "rodata_fits linked_codegen"
    unfolding rodata_fits_def all_constants_def funcs
    by (auto simp: const_room_def linked_codegen_def power_of_two_def split: if_splits intro!: exI [of _ 1])
  moreover have "power_of_two (cg_page_size linked_codegen)"
    by (simp add: linked_codegen_def power_of_two_def) (intro exI [of _ 3], simp)
  ultimately show "linkable linked_codegen (jc_tables linked_context)"
    by (simp add: linkable_def linked_context_def table_room_def tables_distinct_def)
  show "indices_ok (cg_module linked_codegen) linked_context"
    by (simp add: indices_ok_def linked_codegen_def sample_codegen_def sample_module_def zero_module_def linked_context_def)
  show "blobs_ok linked_codegen"
    by (auto simp: blobs_ok_def relocs_ok_def reloc_inside_def reloc_width_def linked_codegen_def call_to_def split: if_splits)
qed



lemma sample_translates: "case jit_translate_module sample_env (\<lambda>_. 0) of Some (Inr _) \<Rightarrow> True | _ \<Rightarrow> False"
  by code_simp


end
