(* ===== verification/Elf64.thy ===== *)
theory Elf64
  imports Prelude
begin

text \<open>
  The 64-bit ELF structures of src/util/elf64.h and the constants of src/util/elf_common.h that the
  debug writer uses. A structure is a record with the fields of the source; \<open>_bytes\<close> is its
  representation in memory, on the little-endian x86-64 the code targets, where none of these
  structures has padding.

  The second half reads structures back: what a debugger sees in a file.
\<close>

type_synonym u16 = "16 word"

section \<open>Structures\<close>

record elf64_ehdr =
  e_ident :: "u8 list"
  e_type :: u16
  e_machine :: u16
  e_version :: u32
  e_entry :: u64
  e_phoff :: u64
  e_shoff :: u64
  e_flags :: u32
  e_ehsize :: u16
  e_phentsize :: u16
  e_phnum :: u16
  e_shentsize :: u16
  e_shnum :: u16
  e_shstrndx :: u16

record elf64_shdr =
  sh_name :: u32
  sh_type :: u32
  sh_flags :: u64
  sh_addr :: u64
  sh_offset :: u64
  sh_size :: u64
  sh_link :: u32
  sh_info :: u32
  sh_addralign :: u64
  sh_entsize :: u64

record elf64_sym =
  st_name :: u32
  st_info :: u8
  st_other :: u8
  st_shndx :: u16
  st_value :: u64
  st_size :: u64

record elf64_rela =
  r_offset :: u64
  r_info :: u64
  r_addend :: u64

section \<open>Constants\<close>

definition ELFMAG :: "u8 list" where "ELFMAG = [0x7f, 0x45, 0x4C, 0x46]"

definition ELFCLASS64 :: u8 where "ELFCLASS64 = 2"

definition ELFDATA2LSB :: u8 where "ELFDATA2LSB = 1"

definition EV_CURRENT :: "'w::len word" where "EV_CURRENT = 1"

definition ET_DYN :: u16 where "ET_DYN = 3"

definition EM_X86_64 :: u16 where "EM_X86_64 = 62"

definition SHN_UNDEF :: u16 where "SHN_UNDEF = 0"

definition SHN_ABS :: u16 where "SHN_ABS = 0xfff1"

definition SHT_PROGBITS :: u32 where "SHT_PROGBITS = 1"

definition SHT_SYMTAB :: u32 where "SHT_SYMTAB = 2"

definition SHT_STRTAB :: u32 where "SHT_STRTAB = 3"

definition SHT_RELA :: u32 where "SHT_RELA = 4"

definition SHF_ALLOC :: u64 where "SHF_ALLOC = 0x2"

definition SHF_EXECINSTR :: u64 where "SHF_EXECINSTR = 0x4"

definition SHF_INFO_LINK :: u64 where "SHF_INFO_LINK = 0x40"

definition STB_LOCAL :: u8 where "STB_LOCAL = 0"

definition STB_GLOBAL :: u8 where "STB_GLOBAL = 1"

definition STT_NOTYPE :: u8 where "STT_NOTYPE = 0"

definition STT_OBJECT :: u8 where "STT_OBJECT = 1"

definition STT_FUNC :: u8 where "STT_FUNC = 2"

definition STT_SECTION :: u8 where "STT_SECTION = 3"

definition R_X86_64_64 :: u64 where "R_X86_64_64 = 1"

definition ELF64_ST_INFO :: "u8 \<Rightarrow> u8 \<Rightarrow> u8" where
  "ELF64_ST_INFO b type = push_bit 4 b + (type AND 0xf)"

definition ELF64_ST_BIND :: "u8 \<Rightarrow> u8" where
  "ELF64_ST_BIND info = drop_bit 4 info"

definition ELF64_R_INFO :: "u64 \<Rightarrow> u64 \<Rightarrow> u64" where
  "ELF64_R_INFO symbol type = push_bit 32 symbol + (type AND 0xffffffff)"

definition ELF64_R_SYM :: "u64 \<Rightarrow> u64" where
  "ELF64_R_SYM info = drop_bit 32 info"

section \<open>Representation\<close>

definition ehdr_bytes :: "elf64_ehdr \<Rightarrow> u8 list" where
  "ehdr_bytes h = e_ident h @ le_bytes 2 (e_type h) @ le_bytes 2 (e_machine h) @ le_bytes 4 (e_version h) @
     le_bytes 8 (e_entry h) @ le_bytes 8 (e_phoff h) @ le_bytes 8 (e_shoff h) @ le_bytes 4 (e_flags h) @
     le_bytes 2 (e_ehsize h) @ le_bytes 2 (e_phentsize h) @ le_bytes 2 (e_phnum h) @
     le_bytes 2 (e_shentsize h) @ le_bytes 2 (e_shnum h) @ le_bytes 2 (e_shstrndx h)"

definition shdr_bytes :: "elf64_shdr \<Rightarrow> u8 list" where
  "shdr_bytes h = le_bytes 4 (sh_name h) @ le_bytes 4 (sh_type h) @ le_bytes 8 (sh_flags h) @
     le_bytes 8 (sh_addr h) @ le_bytes 8 (sh_offset h) @ le_bytes 8 (sh_size h) @ le_bytes 4 (sh_link h) @
     le_bytes 4 (sh_info h) @ le_bytes 8 (sh_addralign h) @ le_bytes 8 (sh_entsize h)"

definition sym_bytes :: "elf64_sym \<Rightarrow> u8 list" where
  "sym_bytes s = le_bytes 4 (st_name s) @ le_bytes 1 (st_info s) @ le_bytes 1 (st_other s) @ le_bytes 2 (st_shndx s) @
     le_bytes 8 (st_value s) @ le_bytes 8 (st_size s)"

definition rela_bytes :: "elf64_rela \<Rightarrow> u8 list" where
  "rela_bytes r = le_bytes 8 (r_offset r) @ le_bytes 8 (r_info r) @ le_bytes 8 (r_addend r)"

lemma record_lengths [simp]:
  "length (shdr_bytes h) = 64" "length (sym_bytes s) = 24" "length (rela_bytes r) = 24"
  by (simp_all add: shdr_bytes_def sym_bytes_def rela_bytes_def)

lemma ehdr_length [simp]: "length (ehdr_bytes h) = length (e_ident h) + 48"
  by (simp add: ehdr_bytes_def)

section \<open>Reading\<close>

text \<open>The \<open>n\<close> bytes of a structure's field at \<open>off\<close>.\<close>

definition field_at :: "nat \<Rightarrow> nat \<Rightarrow> u8 list \<Rightarrow> 'w::len word" where
  "field_at off n bs = le_word (take n (drop off bs))"

definition ehdr_of :: "u8 list \<Rightarrow> elf64_ehdr" where
  "ehdr_of bs = \<lparr>e_ident = take 16 bs, e_type = field_at 16 2 bs, e_machine = field_at 18 2 bs,
     e_version = field_at 20 4 bs, e_entry = field_at 24 8 bs, e_phoff = field_at 32 8 bs,
     e_shoff = field_at 40 8 bs, e_flags = field_at 48 4 bs, e_ehsize = field_at 52 2 bs,
     e_phentsize = field_at 54 2 bs, e_phnum = field_at 56 2 bs, e_shentsize = field_at 58 2 bs,
     e_shnum = field_at 60 2 bs, e_shstrndx = field_at 62 2 bs\<rparr>"

definition shdr_of :: "u8 list \<Rightarrow> elf64_shdr" where
  "shdr_of bs = \<lparr>sh_name = field_at 0 4 bs, sh_type = field_at 4 4 bs, sh_flags = field_at 8 8 bs,
     sh_addr = field_at 16 8 bs, sh_offset = field_at 24 8 bs, sh_size = field_at 32 8 bs,
     sh_link = field_at 40 4 bs, sh_info = field_at 44 4 bs, sh_addralign = field_at 48 8 bs,
     sh_entsize = field_at 56 8 bs\<rparr>"

definition sym_of :: "u8 list \<Rightarrow> elf64_sym" where
  "sym_of bs = \<lparr>st_name = field_at 0 4 bs, st_info = field_at 4 1 bs, st_other = field_at 5 1 bs,
     st_shndx = field_at 6 2 bs, st_value = field_at 8 8 bs, st_size = field_at 16 8 bs\<rparr>"

definition rela_of :: "u8 list \<Rightarrow> elf64_rela" where
  "rela_of bs = \<lparr>r_offset = field_at 0 8 bs, r_info = field_at 8 8 bs, r_addend = field_at 16 8 bs\<rparr>"

lemma ehdr_of_bytes [simp]: "length (e_ident h) = 16 \<Longrightarrow> ehdr_of (ehdr_bytes h @ r) = h"
  by (simp add: ehdr_of_def ehdr_bytes_def field_at_def le_word_le_bytes)

lemma shdr_of_bytes [simp]: "shdr_of (shdr_bytes h @ r) = h"
  by (simp add: shdr_of_def shdr_bytes_def field_at_def le_word_le_bytes)

lemma sym_of_bytes [simp]: "sym_of (sym_bytes s @ r) = s"
  by (simp add: sym_of_def sym_bytes_def field_at_def le_word_le_bytes)

lemma rela_of_bytes [simp]: "rela_of (rela_bytes x @ r) = x"
  by (simp add: rela_of_def rela_bytes_def field_at_def le_word_le_bytes)

text \<open>A table of entries of \<open>n\<close> bytes, and the string at an offset of a string table.\<close>

definition table_of :: "nat \<Rightarrow> (u8 list \<Rightarrow> 'a) \<Rightarrow> u8 list \<Rightarrow> 'a list" where
  "table_of n entry bs = map (\<lambda>i. entry (take n (drop (n * i) bs))) [0..<length bs div n]"

definition string_at :: "u8 list \<Rightarrow> nat \<Rightarrow> u8 list option" where
  "string_at t off = (if 0 \<in> set (drop off t) then Some (takeWhile (\<lambda>b. b \<noteq> 0) (drop off t)) else None)"

lemma length_table_of [simp]: "length (table_of n entry bs) = length bs div n"
  by (simp add: table_of_def)

lemma table_of_nth: "i < length bs div n \<Longrightarrow> table_of n entry bs ! i = entry (take n (drop (n * i) bs))"
  by (simp add: table_of_def)

lemma table_of_Nil [simp]: "table_of n entry [] = []"
  by (simp add: table_of_def)

lemma table_of_append:
  assumes "n dvd length bs"
  shows "table_of n entry (bs @ x) = table_of n entry bs @ table_of n entry x"
proof (cases "n = 0")
  case False
  obtain k where k: "length bs = n * k" using assms by blast
  have "length (bs @ x) div n = k + length x div n" using k False by simp
  then have split: "[0..<length (bs @ x) div n] = [0..<k] @ map (\<lambda>i. i + k) [0..<length x div n]"
    using upt_add_eq_append [of 0 k "length x div n"] map_add_upt [of k "length x div n"] by (simp only: zero_le add.commute)
  have old: "take n (drop (n * i) (bs @ x)) = take n (drop (n * i) bs)" if "i < k" for i
  proof -
    have "n * Suc i \<le> n * k" using that by (intro mult_le_mono) simp_all
    then have "n * i + n \<le> length bs" using k by simp
    then show ?thesis by simp
  qed
  have new: "drop (n * (i + k)) (bs @ x) = drop (n * i) x" for i using k by (simp add: distrib_left)
  have "length bs div n = k" using k False by simp
  then show ?thesis
    unfolding table_of_def split map_append map_map comp_def new by (simp add: old del: drop_append take_append)
qed (simp add: table_of_def)

lemma table_of_snoc:
  assumes "n dvd length bs" and "length x = n" and "0 < n"
  shows "table_of n entry (bs @ x) = table_of n entry bs @ [entry x]"
  using assms by (simp add: table_of_append) (simp add: table_of_def)

lemma string_at_append: "string_at t off = Some str \<Longrightarrow> string_at (t @ u) off = Some str"
  by (auto simp: string_at_def split: if_splits intro: takeWhile_append1)

lemma string_at_new:
  assumes "0 \<notin> set str"
  shows "string_at (t @ str @ 0 # u) (length t) = Some str"
proof -
  have "takeWhile (\<lambda>b. b \<noteq> 0) (str @ 0 # u) = str" using assms by (induction str) auto
  then show ?thesis by (simp add: string_at_def)
qed

end
