(* ===== verification/Debug_Elf.thy ===== *)
theory Debug_Elf
  imports Codegen_Link Elf64 Module_Load
begin

text \<open>
  The debug ELF, src/jit/debug_elf.c: a file that mirrors the code in memory, with a symbol for each
  import, function, thunk and export, and a relocation entry for each absolute relocation.

  The buffers the code accumulates into are \<open>buffer\<close>s of \<open>Buffer\<close>, written with \<open>buffer_push\<close>; the
  symbol table is the bytes of its entries, read back as the code does. \<open>debug_info\<close> is
  \<open>wasm_jit_debug_info_t\<close>; its two ranges of live memory are given by their address and bytes. A C
  string is a list of bytes that ends at its first NUL, so names, which may hold NUL bytes, are
  read through \<open>c_string\<close>. \<open>address\<close> gives the addresses of the JIT's helpers, as in \<open>Jit_Helpers\<close>.
\<close>

section \<open>State\<close>

record debug_info =
  di_funcs :: "func_layout list"
  di_relocs :: "jit_reloc list"
  di_code_base :: u64
  di_code :: "u8 list"
  di_rodata_base :: u64
  di_rodata :: "u8 list"

text \<open>What \<open>jit_codegen\<close> leaves in \<open>jit->debug\<close> when it captures.\<close>

definition captured_debug_info :: "linker \<Rightarrow> debug_info" where
  "captured_debug_info s =
     \<lparr>di_funcs = lk_layouts s, di_relocs = lk_relocs s,
      di_code_base = lk_base s, di_code = take (unat (lk_code_extent s)) (lk_binary s),
      di_rodata_base = lk_base s + code_size s,
      di_rodata = take (unat (lk_rodata_extent s)) (drop (unat (code_size s)) (lk_binary s))\<rparr>"

record func_sym_slot =
  sym_index :: u32
  cfi_sym_index :: u32

record elf_state =
  es_shstrtab :: buffer
  es_strtab :: buffer
  es_symtab :: buffer
  es_rela :: buffer
  es_slots :: "func_sym_slot list"
  es_ext_cache :: "(u64 \<times> u32) list"
  es_out :: "u8 list"

type_synonym 'a elf_op = "(elf_state, 'a) sm"

definition start_elf :: elf_state where
  "start_elf = \<lparr>es_shstrtab = init_buffer [], es_strtab = init_buffer [], es_symtab = init_buffer [],
     es_rela = init_buffer [], es_slots = [], es_ext_cache = [], es_out = []\<rparr>"

definition on_shstrtab :: "'a parser \<Rightarrow> 'a elf_op" where
  "on_shstrtab = on_part es_shstrtab (\<lambda>b s. s\<lparr>es_shstrtab := b\<rparr>)"

definition on_strtab :: "'a parser \<Rightarrow> 'a elf_op" where
  "on_strtab = on_part es_strtab (\<lambda>b s. s\<lparr>es_strtab := b\<rparr>)"

definition on_symtab :: "'a parser \<Rightarrow> 'a elf_op" where
  "on_symtab = on_part es_symtab (\<lambda>b s. s\<lparr>es_symtab := b\<rparr>)"

definition on_rela :: "'a parser \<Rightarrow> 'a elf_op" where
  "on_rela = on_part es_rela (\<lambda>b s. s\<lparr>es_rela := b\<rparr>)"

definition on_out :: "(u8 list, 'a) sm \<Rightarrow> 'a elf_op" where
  "on_out = on_part es_out (\<lambda>b s. s\<lparr>es_out := b\<rparr>)"

section \<open>The string table\<close>

definition printable :: "u8 \<Rightarrow> u8" where
  "printable b = (if b < 0x20 \<or> b = 0x7f then 0x3F else b)"

definition strtab_emit_chars :: "host \<Rightarrow> u8 list \<Rightarrow> unit parser" where
  "strtab_emit_chars h str = for_each (c_string str) (\<lambda>b. buffer_push h [printable b])"

definition strtab_emit_str :: "host \<Rightarrow> u8 list \<Rightarrow> u32 parser" where
  "strtab_emit_str h str =
     bind (gets (\<lambda>b. word_of_nat (buffer_len b))) (\<lambda>out_off.
     bind (strtab_emit_chars h str) (\<lambda>_.
     bind (buffer_push h [0]) (\<lambda>_.
     ret out_off)))"

definition strtab_emit_prefixed_str :: "host \<Rightarrow> u8 list \<Rightarrow> u8 list \<Rightarrow> u32 parser" where
  "strtab_emit_prefixed_str h prefix str =
     bind (gets (\<lambda>b. word_of_nat (buffer_len b))) (\<lambda>out_off.
     bind (strtab_emit_chars h prefix) (\<lambda>_.
     bind (strtab_emit_chars h str) (\<lambda>_.
     bind (buffer_push h [0]) (\<lambda>_.
     ret out_off))))"

section \<open>Labels\<close>

text \<open>The four sources of a label, in the order of their priority.\<close>

definition debug_label :: "wasm_module \<Rightarrow> u32 \<Rightarrow> ('s, u8 list option) sm" where
  "debug_label m funcidx =
     (case mod_function_names m of
        None \<Rightarrow> ret None
      | Some names \<Rightarrow>
          bind (index names (unat funcidx)) (\<lambda>dbg.
          ret (case dbg of None \<Rightarrow> None | Some n \<Rightarrow> if c_string n \<noteq> [] then Some (c_string n) else None)))"

definition import_label :: "wasm_import \<Rightarrow> u8 list" where
  "import_label imp = c_string (import_module_name imp) @ [0x2E] @ c_string (import_item_name imp)"

definition export_label :: "wasm_module \<Rightarrow> u32 \<Rightarrow> u8 list option" where
  "export_label m funcidx =
     map_option (\<lambda>e. c_string (export_name e))
       (List.find (\<lambda>e. export_kind e = WASM_EXPORT_FUNC \<and> export_index e = funcidx) (mod_exports m))"

definition make_func_label :: "host \<Rightarrow> wasm_module \<Rightarrow> u32 \<Rightarrow> ('s, u8 list) sm" where
  "make_func_label h m funcidx =
     bind (debug_label m funcidx) (\<lambda>dbg.
     case dbg of
       Some buf \<Rightarrow> bind (check (calloc_ok h 1 (length buf + 1))) (\<lambda>_. ret buf)
     | None \<Rightarrow>
         if unat funcidx < length (mod_imports m) then
           bind (index (mod_imports m) (unat funcidx)) (\<lambda>imp.
           bind (check (calloc_ok h 1 (length (import_label imp) + 1))) (\<lambda>_.
           ret (import_label imp)))
         else
           (case export_label m funcidx of
              Some buf \<Rightarrow> bind (check (calloc_ok h 1 (length buf + 1))) (\<lambda>_. ret buf)
            | None \<Rightarrow>
                bind (check (calloc_ok h 1 32)) (\<lambda>_.
                ret (bytes_of ''func'' @ u64toa (ucast funcidx)))))"

section \<open>Sections\<close>

record section_indices =
  shidx_text :: u16
  shidx_rodata :: u16
  shidx_symtab :: u16
  shidx_strtab :: u16
  shidx_rela :: u16
  shidx_shstrtab :: u16
  shnum :: u16

definition number_sections :: "bool \<Rightarrow> bool \<Rightarrow> section_indices" where
  "number_sections have_rodata have_rela =
     (let n = 1; t = n; n = n + 1;
          ro = (if have_rodata then n else 0); n = (if have_rodata then n + 1 else n);
          symt = n; n = n + 1; strt = n; n = n + 1;
          rela = (if have_rela then n else 0); n = (if have_rela then n + 1 else n);
          shstr = n; n = n + 1
      in \<lparr>shidx_text = t, shidx_rodata = ro, shidx_symtab = symt, shidx_strtab = strt,
          shidx_rela = rela, shidx_shstrtab = shstr, shnum = n\<rparr>)"

record section_names =
  name_text :: u32
  name_rodata :: u32
  name_symtab :: u32
  name_strtab :: u32
  name_rela :: u32
  name_shstrtab :: u32

definition emit_section_names :: "host \<Rightarrow> bool \<Rightarrow> bool \<Rightarrow> section_names parser" where
  "emit_section_names h have_rodata have_rela =
     bind (strtab_emit_str h (bytes_of ''.text'')) (\<lambda>t.
     bind (if have_rodata then strtab_emit_str h (bytes_of ''.rodata'') else ret 0) (\<lambda>ro.
     bind (strtab_emit_str h (bytes_of ''.symtab'')) (\<lambda>symt.
     bind (strtab_emit_str h (bytes_of ''.strtab'')) (\<lambda>strt.
     bind (if have_rela then strtab_emit_str h (bytes_of ''.rela.text'') else ret 0) (\<lambda>rela.
     bind (strtab_emit_str h (bytes_of ''.shstrtab'')) (\<lambda>shstr.
     ret \<lparr>name_text = t, name_rodata = ro, name_symtab = symt, name_strtab = strt,
          name_rela = rela, name_shstrtab = shstr\<rparr>))))))"

section \<open>Symbols\<close>

text \<open>\<open>symtab.len / sizeof(Elf64_Sym)\<close>, and the entry at an index.\<close>

definition symbol_count :: "elf_state \<Rightarrow> u32" where
  "symbol_count s = word_of_nat (buffer_len (es_symtab s) div 24)"

definition push_sym :: "host \<Rightarrow> elf64_sym \<Rightarrow> unit elf_op" where
  "push_sym h symbol = on_symtab (buffer_push h (sym_bytes symbol))"

definition load_sym :: "u32 \<Rightarrow> elf64_sym elf_op" where
  "load_sym i =
     bind (gets (\<lambda>s. rest (es_symtab s))) (\<lambda>bs.
     bind (defined (24 * unat i + 24 \<le> length bs)) (\<lambda>_.
     ret (sym_of (take 24 (drop (24 * unat i) bs)))))"

definition load_string :: "u32 \<Rightarrow> u8 list elf_op" where
  "load_string off =
     bind (gets (\<lambda>s. string_at (rest (es_strtab s)) (unat off))) (\<lambda>str.
     case str of None \<Rightarrow> fail Undefined | Some str \<Rightarrow> ret str)"

text \<open>The symbols every file starts with; the result is the index of the symbol of .rodata.\<close>

definition emit_first_symbols :: "host \<Rightarrow> wasm_module \<Rightarrow> debug_info \<Rightarrow> section_indices \<Rightarrow> u32 elf_op" where
  "emit_first_symbols h m D idx =
     bind (push_sym h \<lparr>st_name = 0, st_info = ELF64_ST_INFO STB_LOCAL STT_NOTYPE, st_other = 0, st_shndx = SHN_UNDEF,
       st_value = 0, st_size = 0\<rparr>) (\<lambda>_.
     bind (case mod_module_name m of
             None \<Rightarrow> ret ()
           | Some name \<Rightarrow>
               bind (on_strtab (strtab_emit_str h name)) (\<lambda>off.
               push_sym h \<lparr>st_name = off, st_info = ELF64_ST_INFO STB_LOCAL STT_OBJECT, st_other = 0, st_shndx = SHN_ABS,
                 st_value = 0, st_size = 0\<rparr>)) (\<lambda>_.
     bind (push_sym h \<lparr>st_name = 0, st_info = ELF64_ST_INFO STB_LOCAL STT_SECTION, st_other = 0, st_shndx = shidx_text idx,
       st_value = di_code_base D, st_size = 0\<rparr>) (\<lambda>_.
     if di_rodata D \<noteq> [] then
       bind (gets symbol_count) (\<lambda>sym_rodata_section.
       bind (push_sym h \<lparr>st_name = 0, st_info = ELF64_ST_INFO STB_LOCAL STT_SECTION, st_other = 0,
         st_shndx = shidx_rodata idx, st_value = di_rodata_base D, st_size = 0\<rparr>) (\<lambda>_.
       ret sym_rodata_section))
     else ret 0)))"

definition elf_total_funcs :: "wasm_module \<Rightarrow> nat" where
  "elf_total_funcs m = length (mod_imports m) + length (mod_functions m)"

definition alloc_slots :: "host \<Rightarrow> wasm_module \<Rightarrow> unit elf_op" where
  "alloc_slots h m =
     (if elf_total_funcs m \<noteq> 0 then
        bind (check (calloc_ok h (elf_total_funcs m) 8)) (\<lambda>_.
        modify (\<lambda>s. s\<lparr>es_slots := replicate (elf_total_funcs m) \<lparr>sym_index = UINT32_MAX, cfi_sym_index = UINT32_MAX\<rparr>\<rparr>))
      else ret ())"

definition set_slot :: "nat \<Rightarrow> (func_sym_slot \<Rightarrow> func_sym_slot) \<Rightarrow> unit elf_op" where
  "set_slot i f =
     bind (gets es_slots) (\<lambda>slots.
     bind (index slots i) (\<lambda>slot.
     modify (\<lambda>s. s\<lparr>es_slots := slots[i := f slot]\<rparr>)))"

text \<open>The host address of an import, from the first relocation against it.\<close>

definition import_address :: "debug_info \<Rightarrow> u32 \<Rightarrow> u64" where
  "import_address D i =
     (case List.find (\<lambda>r. jr_target_funcidx r = i \<and> \<not> jr_target_cfi r) (di_relocs D) of
        Some r \<Rightarrow> jr_target_address r | None \<Rightarrow> 0)"

definition emit_import_symbol :: "host \<Rightarrow> wasm_module \<Rightarrow> debug_info \<Rightarrow> nat \<times> wasm_import \<Rightarrow> unit elf_op" where
  "emit_import_symbol h m D x =
     (case x of (i, import) \<Rightarrow>
        if import_kind import \<noteq> WASM_EXTERN_FUNC then ret ()
        else
          bind (make_func_label h m (word_of_nat i)) (\<lambda>label.
          bind (on_strtab (strtab_emit_str h label)) (\<lambda>off.
          bind (gets symbol_count) (\<lambda>symbol.
          bind (set_slot i (\<lambda>slot. slot\<lparr>sym_index := symbol\<rparr>)) (\<lambda>_.
          push_sym h \<lparr>st_name = off, st_info = ELF64_ST_INFO STB_GLOBAL STT_FUNC, st_other = 0, st_shndx = SHN_UNDEF,
            st_value = import_address D (word_of_nat i), st_size = 0\<rparr>)))))"

definition emit_function_symbol :: "host \<Rightarrow> wasm_module \<Rightarrow> section_indices \<Rightarrow> func_layout \<Rightarrow> unit elf_op" where
  "emit_function_symbol h m idx fl =
     bind (make_func_label h m (ly_funcidx fl)) (\<lambda>label.
     bind (gets symbol_count) (\<lambda>symbol.
     bind (if ly_cfi_thunk fl then
             bind (on_strtab (strtab_emit_prefixed_str h (bytes_of ''cfi.'') label)) (\<lambda>off.
             bind (set_slot (unat (ly_funcidx fl)) (\<lambda>slot. slot\<lparr>cfi_sym_index := symbol\<rparr>)) (\<lambda>_.
             ret off))
           else
             bind (on_strtab (strtab_emit_str h label)) (\<lambda>off.
             bind (set_slot (unat (ly_funcidx fl)) (\<lambda>slot. slot\<lparr>sym_index := symbol\<rparr>)) (\<lambda>_.
             ret off))) (\<lambda>off.
     push_sym h \<lparr>st_name = off, st_info = ELF64_ST_INFO STB_GLOBAL STT_FUNC, st_other = 0, st_shndx = shidx_text idx,
       st_value = ly_address fl, st_size = ly_code_size fl\<rparr>)))"

definition emit_export_alias :: "host \<Rightarrow> wasm_module \<Rightarrow> wasm_export \<Rightarrow> unit elf_op" where
  "emit_export_alias h m e =
     (if export_kind e = WASM_EXPORT_FUNC then
        if unat (export_index e) \<ge> elf_total_funcs m then ret ()
        else
          bind (gets es_slots) (\<lambda>slots.
          bind (index slots (unat (export_index e))) (\<lambda>slot.
          if sym_index slot = UINT32_MAX then ret ()
          else
            bind (load_sym (sym_index slot)) (\<lambda>primary.
            bind (load_string (st_name primary)) (\<lambda>prim_name.
            if prim_name = c_string (export_name e) then ret ()
            else
              bind (on_strtab (strtab_emit_str h (export_name e))) (\<lambda>off.
              bind (load_sym (sym_index slot)) (\<lambda>primary.
              push_sym h \<lparr>st_name = off, st_info = ELF64_ST_INFO STB_GLOBAL STT_FUNC, st_other = 0,
                st_shndx = st_shndx primary, st_value = st_value primary, st_size = st_size primary\<rparr>))))))
      else ret ())"

section \<open>Relocation entries\<close>

definition jit_get_libcall_name :: "libcall_kind \<Rightarrow> string option" where
  "jit_get_libcall_name kind =
     (case kind of
        SPIDIR_LIBCALL_X64_POPCNT32 \<Rightarrow> Some ''__popcountsi2''
      | SPIDIR_LIBCALL_X64_POPCNT64 \<Rightarrow> Some ''__popcountdi2''
      | Libcall_other \<Rightarrow> None)"

definition reloc_slot_symbol :: "wasm_module \<Rightarrow> jit_reloc \<Rightarrow> u32 elf_op" where
  "reloc_slot_symbol m r =
     (if jr_target_funcidx r \<noteq> UINT32_MAX \<and> unat (jr_target_funcidx r) < elf_total_funcs m then
        bind (gets es_slots) (\<lambda>slots.
        bind (index slots (unat (jr_target_funcidx r))) (\<lambda>slot.
        ret (if jr_target_cfi r then cfi_sym_index slot else sym_index slot)))
      else ret UINT32_MAX)"

text \<open>
  The symbol and the addend of a relocation; or, for a target without symbol, the name of one to
  synthesize, if the target has a name.
\<close>

definition resolve_reloc_symbol ::
    "(jit_helper_kind \<Rightarrow> u64) \<Rightarrow> wasm_module \<Rightarrow> debug_info \<Rightarrow> u32 \<Rightarrow> jit_reloc \<Rightarrow> (u32 \<times> u64 \<times> string option option) elf_op" where
  "resolve_reloc_symbol address m D sym_rodata_section r =
     (let by_slot =
        bind (reloc_slot_symbol m r) (\<lambda>slot_sym.
        if slot_sym \<noteq> UINT32_MAX then
          bind (load_sym slot_sym) (\<lambda>symbol.
          ret (slot_sym, jr_addend r + (jr_target_address r - st_value symbol), None))
        else ret (0, jr_addend r, Some (jit_get_helper_name address (jr_target_address r))));
      in_rodata =
        (if di_rodata D \<noteq> [] then
           ret (sym_rodata_section, jr_addend r + (jr_target_address r - di_rodata_base D), None)
         else ret (0, jr_addend r, None))
      in case jr_target r of
        Target_internal_function _ \<Rightarrow> by_slot
      | Target_external_function _ \<Rightarrow> by_slot
      | Target_constpool \<Rightarrow> in_rodata
      | Target_global _ \<Rightarrow> in_rodata
      | Target_libcall kind \<Rightarrow> ret (0, jr_addend r, Some (jit_get_libcall_name kind))
      | Target_other \<Rightarrow> ret (0, jr_addend r, None))"

definition synthesize_symbol :: "host \<Rightarrow> string option \<Rightarrow> u64 \<Rightarrow> u32 elf_op" where
  "synthesize_symbol h synth_name target =
     bind (gets es_ext_cache) (\<lambda>cache.
     let cached = (case List.find (\<lambda>c. fst c = target) cache of Some c \<Rightarrow> snd c | None \<Rightarrow> 0) in
     if cached = 0 then
       bind (on_strtab (strtab_emit_str h (bytes_of (case synth_name of Some n \<Rightarrow> n | None \<Rightarrow> ''<unknown>'')))) (\<lambda>off.
       bind (gets symbol_count) (\<lambda>symbol.
       bind (push_sym h \<lparr>st_name = off, st_info = ELF64_ST_INFO STB_GLOBAL STT_FUNC, st_other = 0, st_shndx = SHN_UNDEF,
         st_value = target, st_size = 0\<rparr>) (\<lambda>_.
       bind (modify (\<lambda>s. s\<lparr>es_ext_cache := es_ext_cache s @ [(target, symbol)]\<rparr>)) (\<lambda>_.
       ret symbol))))
     else ret cached)"

definition is_absolute :: "jit_reloc \<Rightarrow> bool" where
  "is_absolute r \<longleftrightarrow> jr_kind r = SPIDIR_RELOC_X64_ABS64"

definition abs_reloc_count :: "debug_info \<Rightarrow> u32" where
  "abs_reloc_count D = word_of_nat (length (filter is_absolute (di_relocs D)))"

definition emit_rela ::
    "host \<Rightarrow> (jit_helper_kind \<Rightarrow> u64) \<Rightarrow> wasm_module \<Rightarrow> debug_info \<Rightarrow> u32 \<Rightarrow> jit_reloc \<Rightarrow> unit elf_op" where
  "emit_rela h address m D sym_rodata_section r =
     (if \<not> is_absolute r then ret ()
      else
        bind (resolve_reloc_symbol address m D sym_rodata_section r) (\<lambda>(symbol, addend, synth).
        bind (case synth of None \<Rightarrow> ret symbol | Some name \<Rightarrow> synthesize_symbol h name (jr_target_address r)) (\<lambda>symbol.
        on_rela (buffer_push h (rela_bytes
          \<lparr>r_offset = jr_address r, r_info = ELF64_R_INFO (ucast symbol) R_X86_64_64, r_addend = addend\<rparr>)))))"

section \<open>The file\<close>

text \<open>Offsets, each part aligned as its section demands.\<close>

record elf_layout =
  off_text :: u64
  off_rodata :: u64
  off_symtab :: u64
  off_strtab :: u64
  off_rela :: u64
  off_shstrtab :: u64
  off_shdrs :: u64
  file_size :: u64

definition lay_out_file :: "debug_info \<Rightarrow> bool \<Rightarrow> section_indices \<Rightarrow> elf_state \<Rightarrow> elf_layout" where
  "lay_out_file D have_rela idx s =
     (let size_of = (\<lambda>bs. word_of_nat (length bs));
          off = 64;
          off = align_up off 16; txt = off; off = off + size_of (di_code D);
          ro = (if di_rodata D \<noteq> [] then align_up off 16 else 0);
          off = (if di_rodata D \<noteq> [] then align_up off 16 + size_of (di_rodata D) else off);
          off = align_up off 8; symt = off; off = off + size_of (rest (es_symtab s));
          strt = off; off = off + size_of (rest (es_strtab s));
          rela = (if have_rela then align_up off 8 else 0);
          off = (if have_rela then align_up off 8 + size_of (rest (es_rela s)) else off);
          shstr = off; off = off + size_of (rest (es_shstrtab s));
          off = align_up off 8; shdrs = off; off = off + ucast (shnum idx) * 64
      in \<lparr>off_text = txt, off_rodata = ro, off_symtab = symt, off_strtab = strt, off_rela = rela,
          off_shstrtab = shstr, off_shdrs = shdrs, file_size = off\<rparr>)"

definition elf_header :: "section_indices \<Rightarrow> elf_layout \<Rightarrow> elf64_ehdr" where
  "elf_header idx lay =
     \<lparr>e_ident = ELFMAG @ [ELFCLASS64, ELFDATA2LSB, EV_CURRENT, 0] @ replicate 8 0, e_type = ET_DYN, e_machine = EM_X86_64,
      e_version = EV_CURRENT, e_entry = 0, e_phoff = 0, e_shoff = off_shdrs lay, e_flags = 0, e_ehsize = 64,
      e_phentsize = 0, e_phnum = 0, e_shentsize = 64, e_shnum = shnum idx, e_shstrndx = shidx_shstrtab idx\<rparr>"

definition null_shdr :: elf64_shdr where
  "null_shdr = \<lparr>sh_name = 0, sh_type = 0, sh_flags = 0, sh_addr = 0, sh_offset = 0, sh_size = 0, sh_link = 0, sh_info = 0,
     sh_addralign = 0, sh_entsize = 0\<rparr>"

text \<open>The headers in the order in which the code stores them, each with its index.\<close>

definition section_headers ::
    "debug_info \<Rightarrow> bool \<Rightarrow> section_indices \<Rightarrow> section_names \<Rightarrow> u32 \<Rightarrow> elf_layout \<Rightarrow> elf_state \<Rightarrow> (u16 \<times> elf64_shdr) list" where
  "section_headers D have_rela idx names first_global lay s =
     [(0, null_shdr),
      (shidx_text idx, null_shdr\<lparr>sh_name := name_text names, sh_type := SHT_PROGBITS, sh_flags := SHF_ALLOC OR SHF_EXECINSTR,
         sh_addr := di_code_base D, sh_offset := off_text lay, sh_size := word_of_nat (length (di_code D)), sh_addralign := 16\<rparr>)] @
     (if di_rodata D \<noteq> [] then
        [(shidx_rodata idx, null_shdr\<lparr>sh_name := name_rodata names, sh_type := SHT_PROGBITS, sh_flags := SHF_ALLOC,
           sh_addr := di_rodata_base D, sh_offset := off_rodata lay, sh_size := word_of_nat (length (di_rodata D)),
           sh_addralign := 16\<rparr>)]
      else []) @
     [(shidx_symtab idx, null_shdr\<lparr>sh_name := name_symtab names, sh_type := SHT_SYMTAB, sh_flags := SHF_ALLOC, sh_addr := 0,
         sh_offset := off_symtab lay, sh_size := word_of_nat (length (rest (es_symtab s))), sh_link := ucast (shidx_strtab idx),
         sh_info := first_global, sh_addralign := 8, sh_entsize := 24\<rparr>),
      (shidx_strtab idx, null_shdr\<lparr>sh_name := name_strtab names, sh_type := SHT_STRTAB, sh_offset := off_strtab lay,
         sh_size := word_of_nat (length (rest (es_strtab s))), sh_addralign := 1\<rparr>)] @
     (if have_rela then
        [(shidx_rela idx, null_shdr\<lparr>sh_name := name_rela names, sh_type := SHT_RELA, sh_flags := SHF_INFO_LINK,
           sh_offset := off_rela lay, sh_size := word_of_nat (length (rest (es_rela s))), sh_link := ucast (shidx_symtab idx),
           sh_info := ucast (shidx_text idx), sh_addralign := 8, sh_entsize := 24\<rparr>)]
      else []) @
     [(shidx_shstrtab idx, null_shdr\<lparr>sh_name := name_shstrtab names, sh_type := SHT_STRTAB, sh_offset := off_shstrtab lay,
         sh_size := word_of_nat (length (rest (es_shstrtab s))), sh_addralign := 1\<rparr>)]"

definition copy_part :: "u64 \<Rightarrow> u8 list \<Rightarrow> unit elf_op" where
  "copy_part off bs = (if bs \<noteq> [] then on_out (poke off bs) else ret ())"

definition write_file ::
    "host \<Rightarrow> debug_info \<Rightarrow> bool \<Rightarrow> section_indices \<Rightarrow> section_names \<Rightarrow> u32 \<Rightarrow> unit elf_op" where
  "write_file h D have_rela idx names first_global =
     bind (gets (lay_out_file D have_rela idx)) (\<lambda>lay.
     bind (check (calloc_ok h 1 (unat (file_size lay)))) (\<lambda>_.
     bind (modify (\<lambda>s. s\<lparr>es_out := replicate (unat (file_size lay)) 0\<rparr>)) (\<lambda>_.
     bind (on_out (poke 0 (ehdr_bytes (elf_header idx lay)))) (\<lambda>_.
     bind (copy_part (off_text lay) (di_code D)) (\<lambda>_.
     bind (if di_rodata D \<noteq> [] then on_out (poke (off_rodata lay) (di_rodata D)) else ret ()) (\<lambda>_.
     bind (gets (\<lambda>s. rest (es_symtab s))) (\<lambda>symtab.
     bind (copy_part (off_symtab lay) symtab) (\<lambda>_.
     bind (gets (\<lambda>s. rest (es_strtab s))) (\<lambda>strtab.
     bind (copy_part (off_strtab lay) strtab) (\<lambda>_.
     bind (gets (\<lambda>s. rest (es_rela s))) (\<lambda>rela.
     bind (if have_rela then copy_part (off_rela lay) rela else ret ()) (\<lambda>_.
     bind (gets (\<lambda>s. rest (es_shstrtab s))) (\<lambda>shstrtab.
     bind (copy_part (off_shstrtab lay) shstrtab) (\<lambda>_.
     bind (gets (section_headers D have_rela idx names first_global lay)) (\<lambda>shdrs.
     for_each shdrs (\<lambda>(i, hdr). on_out (poke (off_shdrs lay + 64 * ucast i) (shdr_bytes hdr))))))))))))))))))"

section \<open>Everything\<close>

text \<open>All symbols and relocation entries; the result is the index of the first global symbol.\<close>

definition emit_tables ::
    "host \<Rightarrow> (jit_helper_kind \<Rightarrow> u64) \<Rightarrow> wasm_module \<Rightarrow> debug_info \<Rightarrow> bool \<Rightarrow> section_indices \<Rightarrow> u32 elf_op" where
  "emit_tables h address m D have_rela idx =
     bind (emit_first_symbols h m D idx) (\<lambda>sym_rodata_section.
     bind (alloc_slots h m) (\<lambda>_.
     bind (gets symbol_count) (\<lambda>first_global.
     bind (for_each (zip [0..<length (mod_imports m)] (mod_imports m)) (emit_import_symbol h m D)) (\<lambda>_.
     bind (for_each (di_funcs D) (emit_function_symbol h m idx)) (\<lambda>_.
     bind (for_each (mod_exports m) (emit_export_alias h m)) (\<lambda>_.
     bind (if have_rela then for_each (di_relocs D) (emit_rela h address m D sym_rodata_section) else ret ()) (\<lambda>_.
     ret first_global)))))))"

definition wasm_jit_emit_debug_elf ::
    "host \<Rightarrow> (jit_helper_kind \<Rightarrow> u64) \<Rightarrow> wasm_module \<Rightarrow> debug_info \<Rightarrow> u8 list elf_op" where
  "wasm_jit_emit_debug_elf h address m D =
     bind (on_shstrtab (buffer_push h [0])) (\<lambda>_.
     bind (on_strtab (buffer_push h [0])) (\<lambda>_.
     let have_rodata = (di_rodata D \<noteq> []); have_rela = (abs_reloc_count D \<noteq> 0);
         idx = number_sections have_rodata have_rela in
     bind (on_shstrtab (emit_section_names h have_rodata have_rela)) (\<lambda>names.
     bind (emit_tables h address m D have_rela idx) (\<lambda>first_global.
     bind (write_file h D have_rela idx names first_global) (\<lambda>_.
     gets es_out)))))"

end
