(* ===== verification/Debug_Elf_Symbols.thy ===== *)
theory Debug_Elf_Symbols
  imports Debug_Elf
begin

text \<open>
  The tables of the debug ELF: what each operation appends to the symbol and string tables, the
  invariant that keeps every name inside the string table and every slot inside the symbol table,
  and the symbols and relocation entries that result.
\<close>

section \<open>Buffers\<close>

lemma buffer_push_run:
  "buffer_push h bs b = Inr (u, b') \<longleftrightarrow> realloc_ok h (length (rest b) + length bs) \<and> b' = b\<lparr>rest := rest b @ bs\<rparr>"
  by (auto simp: buffer_push_def buffer_len_def run)

lemma buffer_push_fault: "buffer_push h bs b \<noteq> Inl Undefined"
  by (simp add: buffer_push_def check_def gets_def modify_def ret_def fail_def bind_def)

definition printed :: "u8 list \<Rightarrow> u8 list" where
  "printed str = map printable (c_string str)"

lemma printable_nonzero [simp]: "printable b \<noteq> 0"
  by (auto simp: printable_def)

lemma printed_nonzero [simp]: "0 \<notin> set (printed str)"
  using printable_nonzero by (fastforce simp: printed_def)

text \<open>Appending a list by pieces is appending it, as long as the allocator allows the whole.\<close>

lemma push_each_run:
  assumes "for_each xs (\<lambda>x. buffer_push h [f x]) b = Inr (u, b')"
  shows "b' = b\<lparr>rest := rest b @ map f xs\<rparr>"
  using assms
proof (induction xs arbitrary: b)
  case (Cons x xs)
  then have "for_each xs (\<lambda>x. buffer_push h [f x]) (b\<lparr>rest := rest b @ [f x]\<rparr>) = Inr (u, b')"
    by (auto simp: run buffer_push_run)
  from Cons.IH [OF this] show ?case by simp
qed (simp add: ret_def)

lemma push_each_fault: "for_each xs (\<lambda>x. buffer_push h [f x]) b \<noteq> Inl Undefined"
proof (induction xs arbitrary: b)
  case (Cons x xs)
  then show ?case using buffer_push_fault [of h "[f x]" b] by (auto simp: bind_def split: sum.splits)
qed (simp add: ret_def)

text \<open>A buffer after a string was appended, with the bound that the allocator put on its length.\<close>

definition appended :: "host \<Rightarrow> u8 list \<Rightarrow> buffer \<Rightarrow> buffer \<Rightarrow> bool" where
  "appended h bs b b' \<longleftrightarrow> b' = b\<lparr>rest := rest b @ bs\<rparr> \<and> realloc_ok h (length (rest b'))"

lemma strtab_emit_str_run:
  assumes "strtab_emit_str h str b = Inr (off, b')"
  shows "off = word_of_nat (length (rest b))" and "appended h (printed str @ [0]) b b'"
  using assms
  by (auto simp: strtab_emit_str_def strtab_emit_chars_def buffer_len_def run buffer_push_run appended_def printed_def
    dest!: push_each_run)

lemma strtab_emit_prefixed_str_run:
  assumes "strtab_emit_prefixed_str h prefix str b = Inr (off, b')"
  shows "off = word_of_nat (length (rest b))" and "appended h (printed prefix @ printed str @ [0]) b b'"
  using assms
  by (auto simp: strtab_emit_prefixed_str_def strtab_emit_chars_def buffer_len_def run buffer_push_run appended_def printed_def
    dest!: push_each_run)

lemma strtab_emit_fault:
  "strtab_emit_str h str b \<noteq> Inl Undefined" "strtab_emit_prefixed_str h prefix str b \<noteq> Inl Undefined"
  unfolding strtab_emit_str_def strtab_emit_prefixed_str_def strtab_emit_chars_def
  by (intro bind_safe push_each_fault buffer_push_fault; simp add: gets_def ret_def)+

section \<open>Labels\<close>

text \<open>The label of a function, as a value.\<close>

definition named_in :: "wasm_module \<Rightarrow> u32 \<Rightarrow> u8 list option" where
  "named_in m i = (case mod_function_names m of None \<Rightarrow> None
     | Some names \<Rightarrow> (case names ! unat i of None \<Rightarrow> None | Some n \<Rightarrow> if c_string n \<noteq> [] then Some (c_string n) else None))"

definition func_label :: "wasm_module \<Rightarrow> u32 \<Rightarrow> u8 list" where
  "func_label m i = (case named_in m i of Some n \<Rightarrow> n
     | None \<Rightarrow> if unat i < length (mod_imports m) then import_label (mod_imports m ! unat i)
       else (case export_label m i of Some n \<Rightarrow> n | None \<Rightarrow> bytes_of ''func'' @ u64toa (ucast i)))"

definition names_cover :: "wasm_module \<Rightarrow> bool" where
  "names_cover m \<longleftrightarrow> (\<forall>names. mod_function_names m = Some names \<longrightarrow> length names = elf_total_funcs m)"

lemma make_func_label_run [run]:
  "make_func_label h m i s = Inr (label, s') \<Longrightarrow> label = func_label m i \<and> s' = s"
  by (auto simp: make_func_label_def debug_label_def func_label_def named_in_def run split: option.splits if_splits)

lemma debug_label_ret:
  "names_cover m \<Longrightarrow> unat i < elf_total_funcs m \<Longrightarrow> debug_label m i = ret (named_in m i)"
  by (auto simp: debug_label_def named_in_def names_cover_def index_def fun_eq_iff ret_def bind_def split: option.split)

lemma make_func_label_fault:
  assumes "names_cover m" and "unat i < elf_total_funcs m"
  shows "make_func_label h m i s \<noteq> Inl Undefined"
  by (simp add: make_func_label_def debug_label_ret [OF assms] check_def index_def ret_apply fail_apply bind_ret split: option.split)

section \<open>Adding a symbol\<close>

abbreviation strings :: "elf_state \<Rightarrow> u8 list" where
  "strings s \<equiv> rest (es_strtab s)"

definition symbols :: "elf_state \<Rightarrow> elf64_sym list" where
  "symbols s = table_of 24 sym_of (rest (es_symtab s))"

text \<open>What a reader sees of a symbol: its name, and the rest of the entry.\<close>

definition shown :: "u8 list \<Rightarrow> elf64_sym \<Rightarrow> u8 list option \<times> elf64_sym" where
  "shown t x = (string_at t (unat (st_name x)), x\<lparr>st_name := 0\<rparr>)"

definition entries :: "elf_state \<Rightarrow> (u8 list option \<times> elf64_sym) list" where
  "entries s = map (shown (strings s)) (symbols s)"

definition tables_ok :: "elf_state \<Rightarrow> bool" where
  "tables_ok s \<longleftrightarrow> 24 dvd length (rest (es_symtab s)) \<and> strings s \<noteq> [] \<and> hd (strings s) = 0 \<and> last (strings s) = 0 \<and>
     (\<forall>x \<in> set (symbols s). unat (st_name x) < length (strings s))"

definition grown :: "elf_state \<Rightarrow> elf_state \<Rightarrow> bool" where
  "grown s s' \<longleftrightarrow> (\<exists>x. rest (es_symtab s') = rest (es_symtab s) @ x) \<and> (\<exists>y. strings s' = strings s @ y)"

definition small :: "elf_state \<Rightarrow> bool" where
  "small s \<longleftrightarrow> length (strings s) < 2 ^ 32 \<and> length (symbols s) < 2 ^ 32"

lemma named_inside:
  assumes "tables_ok s" and "x \<in> set (symbols s)"
  shows "string_at (strings s) (unat (st_name x)) \<noteq> None"
proof -
  have "unat (st_name x) < length (strings s)" "last (strings s) = 0" using assms by (auto simp: tables_ok_def)
  then have "0 \<in> set (drop (unat (st_name x)) (strings s))"
    using last_in_set [of "drop (unat (st_name x)) (strings s)"] by simp
  then show ?thesis by (simp add: string_at_def)
qed

text \<open>A symbol appended without a name of its own, and one with a new name.\<close>

definition with_symbol :: "elf64_sym \<Rightarrow> elf_state \<Rightarrow> elf_state" where
  "with_symbol x s = s\<lparr>es_symtab := (es_symtab s)\<lparr>rest := rest (es_symtab s) @ sym_bytes x\<rparr>\<rparr>"

definition with_string :: "u8 list \<Rightarrow> elf_state \<Rightarrow> elf_state" where
  "with_string str s = s\<lparr>es_strtab := (es_strtab s)\<lparr>rest := strings s @ str @ [0]\<rparr>\<rparr>"

definition with_named :: "u8 list \<Rightarrow> elf64_sym \<Rightarrow> elf_state \<Rightarrow> elf_state" where
  "with_named str x s = with_symbol (x\<lparr>st_name := word_of_nat (length (strings s))\<rparr>) (with_string str s)"

lemma with_fields [simp]:
  "es_slots (with_symbol x s) = es_slots s" "es_slots (with_string str s) = es_slots s"
  "es_rela (with_symbol x s) = es_rela s" "es_rela (with_string str s) = es_rela s"
  "es_ext_cache (with_symbol x s) = es_ext_cache s" "es_ext_cache (with_string str s) = es_ext_cache s"
  "strings (with_symbol x s) = strings s" "strings (with_string str s) = strings s @ str @ [0]"
  "es_shstrtab (with_symbol x s) = es_shstrtab s" "es_shstrtab (with_string str s) = es_shstrtab s"
  "es_slots (with_named str x s) = es_slots s" "es_rela (with_named str x s) = es_rela s"
  "es_ext_cache (with_named str x s) = es_ext_cache s" "strings (with_named str x s) = strings s @ str @ [0]"
  "es_shstrtab (with_named str x s) = es_shstrtab s"
  by (simp_all add: with_symbol_def with_string_def with_named_def)

lemma symbols_with:
  "tables_ok s \<Longrightarrow> symbols (with_symbol x s) = symbols s @ [x]"
  "symbols (with_string str s) = symbols s"
  using sym_of_bytes [of x "[]"]
  by (simp_all add: tables_ok_def symbols_def with_symbol_def with_string_def table_of_snoc)

lemma tables_ok_with_string: "tables_ok s \<Longrightarrow> tables_ok (with_string str s)"
  using symbols_with(2) [of str s] by (fastforce simp: tables_ok_def with_string_def)

lemma tables_ok_with_symbol:
  "tables_ok s \<Longrightarrow> unat (st_name x) < length (strings s) \<Longrightarrow> tables_ok (with_symbol x s)"
  using symbols_with(1) [of s x] by (auto simp: tables_ok_def with_symbol_def)

lemma name_below: "unat (word_of_nat n :: u32) \<le> n"
  by (simp add: unat_of_nat)

lemma tables_ok_with_named: "tables_ok s \<Longrightarrow> tables_ok (with_named str x s)"
  unfolding with_named_def using name_below [of "length (strings s)"]
  by (intro tables_ok_with_symbol tables_ok_with_string) (auto intro: order_le_less_trans)

lemma symbols_with_named:
  "tables_ok s \<Longrightarrow> symbols (with_named str x s) = symbols s @ [x\<lparr>st_name := word_of_nat (length (strings s))\<rparr>]"
  by (simp add: with_named_def symbols_with tables_ok_with_string)

interpretation grown_order: run_preorder grown
  by unfold_locales (fastforce simp: grown_def)+

lemma grown_with [simp]: "grown s (with_symbol x s)" "grown s (with_string str s)" "grown s (with_named str x s)"
  by (auto simp: grown_def with_symbol_def with_string_def with_named_def)

text \<open>Names stay what they are when the string table grows.\<close>

lemma shown_append:
  assumes "tables_ok s" and "x \<in> set (symbols s)"
  shows "shown (strings s @ t) x = shown (strings s) x"
  using named_inside [OF assms] string_at_append [of "strings s" "unat (st_name x)"] by (auto simp: shown_def)

lemma entries_with_symbol:
  assumes "tables_ok s"
  shows "entries (with_symbol x s) = entries s @ [shown (strings s) x]"
  by (simp add: entries_def symbols_with(1) [OF assms])

lemma entries_with_named:
  assumes "tables_ok s" and "0 \<notin> set str" and "small (with_named str x s)"
  shows "entries (with_named str x s) = entries s @ [(Some str, x\<lparr>st_name := 0\<rparr>)]"
proof -
  have "unat (word_of_nat (length (strings s)) :: u32) = length (strings s)"
    using assms(3) by (simp add: small_def unat_of_nat)
  then have "shown (strings s @ str @ [0]) (x\<lparr>st_name := word_of_nat (length (strings s))\<rparr>) = (Some str, x\<lparr>st_name := 0\<rparr>)"
    using string_at_new [OF assms(2), of "strings s" "[]"] by (simp add: shown_def)
  then show ?thesis
    using shown_append [OF assms(1)] by (simp add: entries_def symbols_with_named [OF assms(1)])
qed

lemma first_name: "tables_ok s \<Longrightarrow> string_at (strings s) 0 = Some []"
  by (cases "strings s") (auto simp: tables_ok_def string_at_def)

section \<open>What one operation does\<close>

text \<open>The blocks of the buffers are as long as the allocator allowed.\<close>

definition blocks_ok :: "host \<Rightarrow> elf_state \<Rightarrow> bool" where
  "blocks_ok h s \<longleftrightarrow> (\<forall>b \<in> {es_shstrtab s, es_strtab s, es_symtab s, es_rela s}. rest b = [] \<or> realloc_ok h (length (rest b)))"

lemma emit_string_run:
  assumes "on_strtab (strtab_emit_str h str) s = Inr (off, s')"
  shows "off = word_of_nat (length (strings s)) \<and> s' = with_string (printed str) s \<and> (blocks_ok h s \<longrightarrow> blocks_ok h s')"
proof -
  obtain t where t: "strtab_emit_str h str (es_strtab s) = Inr (off, t)" "s' = s\<lparr>es_strtab := t\<rparr>"
    using assms by (auto simp: on_strtab_def on_part_run)
  show ?thesis using strtab_emit_str_run [OF t(1)] t(2) by (auto simp: with_string_def appended_def blocks_ok_def)
qed

lemma emit_prefixed_run:
  assumes "on_strtab (strtab_emit_prefixed_str h prefix str) s = Inr (off, s')"
  shows "off = word_of_nat (length (strings s)) \<and> s' = with_string (printed prefix @ printed str) s \<and>
    (blocks_ok h s \<longrightarrow> blocks_ok h s')"
proof -
  obtain t where t: "strtab_emit_prefixed_str h prefix str (es_strtab s) = Inr (off, t)" "s' = s\<lparr>es_strtab := t\<rparr>"
    using assms by (auto simp: on_strtab_def on_part_run)
  show ?thesis using strtab_emit_prefixed_str_run [OF t(1)] t(2) by (auto simp: with_string_def appended_def blocks_ok_def)
qed

lemma push_sym_run:
  assumes "push_sym h x s = Inr (u, s')"
  shows "s' = with_symbol x s \<and> (blocks_ok h s \<longrightarrow> blocks_ok h s')"
  using assms by (auto simp: push_sym_def on_symtab_def on_part_run buffer_push_run with_symbol_def blocks_ok_def)

lemma emit_faults [safe]:
  "on_strtab (strtab_emit_str h str) s \<noteq> Inl Undefined" "on_strtab (strtab_emit_prefixed_str h prefix str) s \<noteq> Inl Undefined"
  "push_sym h x s \<noteq> Inl Undefined" "on_rela (buffer_push h bs) s \<noteq> Inl Undefined" "on_shstrtab (buffer_push h bs) s \<noteq> Inl Undefined"
  "on_strtab (buffer_push h bs) s \<noteq> Inl Undefined" "on_shstrtab (strtab_emit_str h str) s \<noteq> Inl Undefined"
  unfolding on_strtab_def push_sym_def on_symtab_def on_rela_def on_shstrtab_def
  by (intro on_part_fault strtab_emit_fault buffer_push_fault)+

lemma symbol_count_eq: "symbol_count s = word_of_nat (length (symbols s))"
  by (simp add: symbol_count_def symbols_def buffer_len_def)

lemma symbol_count_with [simp]:
  "symbol_count (with_string str s) = symbol_count s" "symbol_count (s\<lparr>es_slots := x\<rparr>) = symbol_count s"
  by (simp_all add: symbol_count_def with_string_def)

lemma load_sym_run:
  assumes "load_sym i s = Inr (x, s')"
  shows "s' = s" and "unat i < length (symbols s)" and "x = symbols s ! unat i"
proof -
  have "24 * unat i + 24 \<le> length (rest (es_symtab s))" "x = sym_of (take 24 (drop (24 * unat i) (rest (es_symtab s))))" "s' = s"
    using assms by (auto simp: load_sym_def run)
  moreover from this(1) have "unat i < length (rest (es_symtab s)) div 24" by linarith
  ultimately show "s' = s" "unat i < length (symbols s)" "x = symbols s ! unat i"
    by (simp_all add: symbols_def table_of_nth)
qed

lemma load_sym_fault: "unat i < length (symbols s) \<Longrightarrow> load_sym i s \<noteq> Inl Undefined"
proof -
  assume "unat i < length (symbols s)"
  then have "24 * unat i + 24 \<le> length (rest (es_symtab s))" unfolding symbols_def length_table_of by linarith
  then show ?thesis by (simp add: load_sym_def gets_bind bind_ret ret_apply)
qed

lemma load_string_run: "load_string off s = Inr (str, s') \<Longrightarrow> s' = s \<and> string_at (strings s) (unat off) = Some str"
  by (simp add: load_string_def gets_bind fail_def ret_def split: option.splits)

definition import_symbol :: "debug_info \<Rightarrow> nat \<Rightarrow> elf64_sym" where
  "import_symbol D i = \<lparr>st_name = 0, st_info = ELF64_ST_INFO STB_GLOBAL STT_FUNC, st_other = 0, st_shndx = SHN_UNDEF,
     st_value = import_address D (word_of_nat i), st_size = 0\<rparr>"

definition function_symbol :: "section_indices \<Rightarrow> func_layout \<Rightarrow> elf64_sym" where
  "function_symbol idx fl = \<lparr>st_name = 0, st_info = ELF64_ST_INFO STB_GLOBAL STT_FUNC, st_other = 0,
     st_shndx = shidx_text idx, st_value = ly_address fl, st_size = ly_code_size fl\<rparr>"

definition function_name :: "wasm_module \<Rightarrow> func_layout \<Rightarrow> u8 list" where
  "function_name m fl = (if ly_cfi_thunk fl then printed (bytes_of ''cfi.'') else []) @ printed (func_label m (ly_funcidx fl))"

lemma set_slot_run:
  "set_slot i f s = Inr (u, s') \<longleftrightarrow> i < length (es_slots s) \<and> s' = s\<lparr>es_slots := (es_slots s)[i := f (es_slots s ! i)]\<rparr>"
  by (auto simp: set_slot_def run)

lemma with_slots [simp]:
  "with_string str (s\<lparr>es_slots := x\<rparr>) = (with_string str s)\<lparr>es_slots := x\<rparr>"
  "with_named str y (s\<lparr>es_slots := x\<rparr>) = (with_named str y s)\<lparr>es_slots := x\<rparr>"
  by (simp_all add: with_string_def with_named_def with_symbol_def)

lemma blocks_ok_other [simp]:
  "blocks_ok h (s\<lparr>es_slots := x\<rparr>) = blocks_ok h s" "blocks_ok h (s\<lparr>es_ext_cache := y\<rparr>) = blocks_ok h s"
  "blocks_ok h (s\<lparr>es_out := z\<rparr>) = blocks_ok h s"
  by (simp_all add: blocks_ok_def)

lemma emit_import_symbol_run:
  assumes "emit_import_symbol h m D (i, import) s = Inr (u, s')" and "i < 2 ^ 32"
  shows "(import_kind import \<noteq> WASM_EXTERN_FUNC \<and> s' = s) \<or>
    (import_kind import = WASM_EXTERN_FUNC \<and> i < length (es_slots s) \<and> (blocks_ok h s \<longrightarrow> blocks_ok h s') \<and>
     s' = (with_named (printed (func_label m (word_of_nat i))) (import_symbol D i) s)
       \<lparr>es_slots := (es_slots s)[i := (es_slots s ! i)\<lparr>sym_index := symbol_count s\<rparr>]\<rparr>)"
proof (cases "import_kind import = WASM_EXTERN_FUNC")
  case False
  then show ?thesis using assms(1) by (simp add: emit_import_symbol_def)
next
  case True
  with assms(1) obtain label off s1 s2 s3 where
    1: "make_func_label h m (word_of_nat i) s = Inr (label, s1)" and 2: "on_strtab (strtab_emit_str h label) s1 = Inr (off, s2)" and
    3: "set_slot i (\<lambda>slot. slot\<lparr>sym_index := symbol_count s2\<rparr>) s2 = Inr ((), s3)"
    "push_sym h ((import_symbol D i)\<lparr>st_name := off\<rparr>) s3 = Inr (u, s')"
    by (auto simp: emit_import_symbol_def import_symbol_def gets_bind elim!: bind_runE)
  note 1 = make_func_label_run [OF 1]
  note 2 = emit_string_run [OF 2]
  from 1 2 3(1) True push_sym_run [OF 3(2)] show ?thesis by (auto simp: set_slot_run with_named_def with_symbol_def)
qed

definition slot_set :: "func_layout \<Rightarrow> u32 \<Rightarrow> func_sym_slot \<Rightarrow> func_sym_slot" where
  "slot_set fl k slot = (if ly_cfi_thunk fl then slot\<lparr>cfi_sym_index := k\<rparr> else slot\<lparr>sym_index := k\<rparr>)"

lemma emit_function_symbol_run:
  assumes "emit_function_symbol h m idx fl s = Inr (u, s')"
  shows "unat (ly_funcidx fl) < length (es_slots s) \<and> (blocks_ok h s \<longrightarrow> blocks_ok h s') \<and>
     s' = (with_named (function_name m fl) (function_symbol idx fl) s)
       \<lparr>es_slots := (es_slots s)[unat (ly_funcidx fl) := slot_set fl (symbol_count s) (es_slots s ! unat (ly_funcidx fl))]\<rparr>"
proof -
  let ?i = "unat (ly_funcidx fl)"
  obtain label s1 where 1: "make_func_label h m (ly_funcidx fl) s = Inr (label, s1)"
    and 2: "bind (if ly_cfi_thunk fl then
             bind (on_strtab (strtab_emit_prefixed_str h (bytes_of ''cfi.'') label)) (\<lambda>off.
             bind (set_slot ?i (\<lambda>slot. slot\<lparr>cfi_sym_index := symbol_count s1\<rparr>)) (\<lambda>_.
             ret off))
           else
             bind (on_strtab (strtab_emit_str h label)) (\<lambda>off.
             bind (set_slot ?i (\<lambda>slot. slot\<lparr>sym_index := symbol_count s1\<rparr>)) (\<lambda>_.
             ret off))) (\<lambda>off. push_sym h ((function_symbol idx fl)\<lparr>st_name := off\<rparr>)) s1 = Inr (u, s')"
    using assms(1) by (auto simp: emit_function_symbol_def function_symbol_def gets_bind elim!: bind_runE [of "make_func_label h m (ly_funcidx fl)"])
  note 1 = make_func_label_run [OF 1]
  obtain off s3 where 3: "?i < length (es_slots s)" "off = word_of_nat (length (strings s))" "blocks_ok h s \<longrightarrow> blocks_ok h s3"
    "s3 = (with_string (function_name m fl) s)\<lparr>es_slots := (es_slots s)[?i := slot_set fl (symbol_count s) (es_slots s ! ?i)]\<rparr>"
    and 4: "push_sym h ((function_symbol idx fl)\<lparr>st_name := off\<rparr>) s3 = Inr (u, s')"
  proof (cases "ly_cfi_thunk fl")
    case True
    with 2 obtain off s2 where e: "on_strtab (strtab_emit_prefixed_str h (bytes_of ''cfi.'') label) s1 = Inr (off, s2)"
      and r: "?i < length (es_slots s2)" "push_sym h ((function_symbol idx fl)\<lparr>st_name := off\<rparr>)
        (s2\<lparr>es_slots := (es_slots s2)[?i := slot_set fl (symbol_count s1) (es_slots s2 ! ?i)]\<rparr>) = Inr (u, s')"
      by (auto simp: set_slot_run slot_set_def elim!: bind_runE)
    note emit_prefixed_run [OF e]
    with r 1 True show thesis by (intro that [OF _ _ _ _ r(2)]) (auto simp: function_name_def)
  next
    case False
    with 2 obtain off s2 where e: "on_strtab (strtab_emit_str h label) s1 = Inr (off, s2)"
      and r: "?i < length (es_slots s2)" "push_sym h ((function_symbol idx fl)\<lparr>st_name := off\<rparr>)
        (s2\<lparr>es_slots := (es_slots s2)[?i := slot_set fl (symbol_count s1) (es_slots s2 ! ?i)]\<rparr>) = Inr (u, s')"
      by (auto simp: set_slot_run slot_set_def elim!: bind_runE)
    note emit_string_run [OF e]
    with r 1 False show thesis by (intro that [OF _ _ _ _ r(2)]) (auto simp: function_name_def)
  qed
  show ?thesis using 3 push_sym_run [OF 4] by (auto simp: with_named_def with_symbol_def)
qed

text \<open>An alias has the address of its primary symbol.\<close>

definition alias_symbol :: "elf64_sym \<Rightarrow> elf64_sym" where
  "alias_symbol p = \<lparr>st_name = 0, st_info = ELF64_ST_INFO STB_GLOBAL STT_FUNC, st_other = 0, st_shndx = st_shndx p,
     st_value = st_value p, st_size = st_size p\<rparr>"

definition exported_slot :: "wasm_module \<Rightarrow> elf_state \<Rightarrow> wasm_export \<Rightarrow> u32 option" where
  "exported_slot m s e = (if export_kind e = WASM_EXPORT_FUNC \<and> unat (export_index e) < elf_total_funcs m \<and>
       sym_index (es_slots s ! unat (export_index e)) \<noteq> UINT32_MAX
     then Some (sym_index (es_slots s ! unat (export_index e))) else None)"

lemma emit_export_alias_cases:
  assumes "emit_export_alias h m e s = Inr (u, s')"
  obtains (skipped) "exported_slot m s e = None" and "s' = s"
  | (same) k where "exported_slot m s e = Some k" and "unat k < length (symbols s)" and "s' = s"
      and "string_at (strings s) (unat (st_name (symbols s ! unat k))) = Some (c_string (export_name e))"
  | (added) k where "exported_slot m s e = Some k" and "unat k < length (symbols s)"
      and "s' = with_named (printed (export_name e)) (alias_symbol (symbols s ! unat k)) s"
      and "blocks_ok h s \<longrightarrow> blocks_ok h s'"
      and "string_at (strings s) (unat (st_name (symbols s ! unat k))) \<noteq> Some (c_string (export_name e))"
proof (cases "exported_slot m s e")
  case None
  then have "export_kind e \<noteq> WASM_EXPORT_FUNC \<or> elf_total_funcs m \<le> unat (export_index e) \<or>
      sym_index (es_slots s ! unat (export_index e)) = UINT32_MAX"
    by (auto simp: exported_slot_def split: if_splits)
  then have "s' = s"
    using assms by (elim disjE) (simp_all add: emit_export_alias_def gets_bind index_def split: if_splits)
  with None show thesis by (rule skipped)
next
  case (Some k)
  then have k: "k = sym_index (es_slots s ! unat (export_index e))" by (auto simp: exported_slot_def split: if_splits)
  have e: "export_kind e = WASM_EXPORT_FUNC" "\<not> unat (export_index e) \<ge> elf_total_funcs m" "k \<noteq> UINT32_MAX"
    using Some by (auto simp: exported_slot_def split: if_splits)
  have "bind (index (es_slots s) (unat (export_index e))) (\<lambda>slot.
          if sym_index slot = UINT32_MAX then ret ()
          else
            bind (load_sym (sym_index slot)) (\<lambda>p.
            bind (load_string (st_name p)) (\<lambda>n.
            if n = c_string (export_name e) then ret () else
              bind (on_strtab (strtab_emit_str h (export_name e))) (\<lambda>off.
              bind (load_sym (sym_index slot)) (\<lambda>primary. push_sym h ((alias_symbol primary)\<lparr>st_name := off\<rparr>)))))) s = Inr (u, s')"
    using assms e(1,2) by (simp add: emit_export_alias_def gets_bind alias_symbol_def cong: if_cong)
  then obtain p n s1 s2 where 1: "load_sym k s = Inr (p, s1)" and 2: "load_string (st_name p) s1 = Inr (n, s2)"
    and 3: "(if n = c_string (export_name e) then ret () else
              bind (on_strtab (strtab_emit_str h (export_name e))) (\<lambda>off.
              bind (load_sym k) (\<lambda>primary. push_sym h ((alias_symbol primary)\<lparr>st_name := off\<rparr>)))) s2 = Inr (u, s')"
    using e(3) unfolding k by (auto elim!: bind_runE)
  note 1 = load_sym_run [OF 1]
  note 2 = load_string_run [OF 2]
  show thesis
  proof (cases "n = c_string (export_name e)")
    case True
    then show thesis using same [OF Some] 1 2 3 by simp
  next
    case False
    with 3 1 2 obtain off s3 q s4 where e: "on_strtab (strtab_emit_str h (export_name e)) s = Inr (off, s3)"
      and l: "load_sym k s3 = Inr (q, s4)" and p: "push_sym h ((alias_symbol q)\<lparr>st_name := off\<rparr>) s4 = Inr (u, s')"
      by (auto elim!: bind_runE)
    note l = load_sym_run [OF l]
    have "string_at (strings s) (unat (st_name (symbols s ! unat k))) \<noteq> Some (c_string (export_name e))"
      using 1 2 False by simp
    then show thesis
      using added [OF Some 1(2)] emit_string_run [OF e] l push_sym_run [OF p]
      by (auto simp: with_named_def symbols_with(2))
  qed
qed

section \<open>Relocation entries\<close>

definition with_rela :: "elf64_rela \<Rightarrow> elf_state \<Rightarrow> elf_state" where
  "with_rela x s = s\<lparr>es_rela := (es_rela s)\<lparr>rest := rest (es_rela s) @ rela_bytes x\<rparr>\<rparr>"

lemma with_rela_fields [simp]:
  "strings (with_rela x s) = strings s" "symbols (with_rela x s) = symbols s" "es_slots (with_rela x s) = es_slots s"
  "es_ext_cache (with_rela x s) = es_ext_cache s" "tables_ok (with_rela x s) = tables_ok s" "small (with_rela x s) = small s"
  "entries (with_rela x s) = entries s" "grown s (with_rela x s)"
  by (auto simp: with_rela_def symbols_def tables_ok_def small_def entries_def grown_def)

definition synthesized :: "u64 \<Rightarrow> elf64_sym" where
  "synthesized target = \<lparr>st_name = 0, st_info = ELF64_ST_INFO STB_GLOBAL STT_FUNC, st_other = 0, st_shndx = SHN_UNDEF,
     st_value = target, st_size = 0\<rparr>"

lemma synthesize_symbol_cases:
  assumes "synthesize_symbol h name target s = Inr (k, s')"
  obtains (cached) "(target, k) \<in> set (es_ext_cache s)" and "s' = s"
  | (fresh) str where "k = symbol_count s" and "0 \<notin> set str" and "blocks_ok h s \<longrightarrow> blocks_ok h s'"
      and "s' = (with_named str (synthesized target) s)\<lparr>es_ext_cache := es_ext_cache s @ [(target, k)]\<rparr>"
proof (cases "(case List.find (\<lambda>c. fst c = target) (es_ext_cache s) of Some c \<Rightarrow> snd c | None \<Rightarrow> 0) = 0")
  case False
  then obtain c where "List.find (\<lambda>c. fst c = target) (es_ext_cache s) = Some c" by (auto split: option.splits)
  moreover from this have "c \<in> set (es_ext_cache s)" "fst c = target" by (auto simp: find_Some_iff)
  ultimately have "s' = s" "k = snd c" "c \<in> set (es_ext_cache s)" "fst c = target"
    using assms False by (simp_all add: synthesize_symbol_def gets_bind Let_def)
  then show thesis by (intro cached) (cases c, simp_all)
next
  case True
  let ?str = "bytes_of (case name of Some n \<Rightarrow> n | None \<Rightarrow> ''<unknown>'')"
  obtain off s1 s2 where e: "on_strtab (strtab_emit_str h ?str) s = Inr (off, s1)"
    and p: "push_sym h ((synthesized target)\<lparr>st_name := off\<rparr>) s1 = Inr ((), s2)"
    and r: "k = symbol_count s1" "s' = s2\<lparr>es_ext_cache := es_ext_cache s2 @ [(target, k)]\<rparr>"
    using assms True by (auto simp: synthesize_symbol_def gets_bind Let_def synthesized_def modify_def ret_def bind_ret elim!: bind_runE)
  show thesis
  proof (rule fresh)
    show "k = symbol_count s" using r(1) emit_string_run [OF e] by simp
    show "0 \<notin> set (printed ?str)" by simp
    show "blocks_ok h s \<longrightarrow> blocks_ok h s'"
      using r(2) emit_string_run [OF e] push_sym_run [OF p] by auto
    show "s' = (with_named (printed ?str) (synthesized target) s)\<lparr>es_ext_cache := es_ext_cache s @ [(target, k)]\<rparr>"
      using r(2) emit_string_run [OF e] push_sym_run [OF p] by (auto simp: with_named_def)
  qed
qed

end
