(* ===== verification/Debug_Elf_Tables.thy ===== *)
theory Debug_Elf_Tables
  imports Debug_Elf_Symbols
begin

text \<open>
  The invariant of the tables of the debug ELF, and the symbols and relocation entries that
  \<open>emit_tables\<close> leaves: which symbols there are, in which order, and where they point.
\<close>

section \<open>Growing\<close>

lemma grown_symbols:
  assumes "grown s s'" and "tables_ok s"
  obtains more where "symbols s' = symbols s @ more"
  using assms by (auto simp: grown_def tables_ok_def symbols_def table_of_append)

lemma grown_entries:
  assumes "grown s s'" and "tables_ok s"
  obtains more where "entries s' = entries s @ more"
proof -
  obtain more where more: "symbols s' = symbols s @ more" using assms by (rule grown_symbols)
  obtain t where t: "strings s' = strings s @ t" using assms(1) by (auto simp: grown_def)
  have "entries s' = entries s @ map (shown (strings s')) more"
    using shown_append [OF assms(2), of _ t] by (simp add: entries_def more t)
  then show thesis by (rule that)
qed

lemma grown_small: "grown s s' \<Longrightarrow> small s' \<Longrightarrow> small s"
proof -
  assume g: "grown s s'" "small s'"
  then obtain x y where "rest (es_symtab s') = rest (es_symtab s) @ x" "strings s' = strings s @ y" by (auto simp: grown_def)
  moreover from this have "length (symbols s) \<le> length (symbols s')" by (simp add: symbols_def div_le_mono)
  ultimately show "small s" using g(2) by (simp add: small_def)
qed

lemma length_entries [simp]: "length (entries s) = length (symbols s)"
  by (simp add: entries_def)

lemma for_each_entries:
  assumes "for_each xs f s = Inr (u, s')" and "I s" and "\<And>s. I s \<Longrightarrow> tables_ok s"
    and step: "\<And>x s u s'. x \<in> set xs \<Longrightarrow> f x s = Inr (u, s') \<Longrightarrow> I s \<Longrightarrow>
      I s' \<and> grown s s' \<and> (small s' \<longrightarrow> entries s' = entries s @ g x)"
  shows "I s' \<and> grown s s' \<and> (small s' \<longrightarrow> entries s' = entries s @ concat (map g xs))"
  using assms(1,2) step
proof (induction xs arbitrary: s)
  case Nil
  then show ?case by (simp add: grown_order.refl)
next
  case (Cons x xs)
  then obtain v t where 1: "f x s = Inr (v, t)" and 2: "for_each xs f t = Inr (u, s')" by (auto simp: run)
  note a = Cons.prems(3) [OF _ 1 Cons.prems(2)]
  have b: "I s' \<and> grown t s' \<and> (small s' \<longrightarrow> entries s' = entries t @ concat (map g xs))"
    using a by (intro Cons.IH [OF 2] Cons.prems(3)) simp_all
  then show ?case using a grown_small [of t s'] grown_order.trans [of s t s'] by auto
qed

section \<open>The invariant\<close>

definition in_table :: "elf_state \<Rightarrow> u32 \<Rightarrow> bool" where
  "in_table s k \<longleftrightarrow> k = UINT32_MAX \<or> unat k < length (symbols s)"

definition elf_inv :: "host \<Rightarrow> nat \<Rightarrow> elf_state \<Rightarrow> bool" where
  "elf_inv h n s \<longleftrightarrow> tables_ok s \<and> blocks_ok h s \<and> length (es_slots s) = n \<and>
     (\<forall>slot \<in> set (es_slots s). in_table s (sym_index slot) \<and> in_table s (cfi_sym_index slot))"

lemma in_table_count: "tables_ok s \<Longrightarrow> in_table (with_named str x s) (symbol_count s)"
  using name_below [of "length (symbols s)"] by (simp add: in_table_def symbol_count_eq symbols_with_named le_imp_less_Suc)

lemma in_table_grown:
  assumes "grown s s'" and "tables_ok s" and "in_table s k"
  shows "in_table s' k"
proof -
  obtain more where "symbols s' = symbols s @ more" using assms(1,2) by (rule grown_symbols)
  then show ?thesis using assms(3) by (auto simp: in_table_def)
qed

lemma elf_inv_grown:
  assumes "elf_inv h n s" and "grown s s'" and "tables_ok s'" and "blocks_ok h s'" and "es_slots s' = es_slots s"
  shows "elf_inv h n s'"
  using assms in_table_grown [OF assms(2)] by (auto simp: elf_inv_def)

lemma slot_update_inv:
  assumes "elf_inv h n s" and "blocks_ok h (with_named str x s)"
    and "slot = (es_slots s ! i)\<lparr>sym_index := symbol_count s\<rparr> \<or> slot = (es_slots s ! i)\<lparr>cfi_sym_index := symbol_count s\<rparr>"
    and "i < n"
  shows "elf_inv h n ((with_named str x s)\<lparr>es_slots := (es_slots s)[i := slot]\<rparr>)"
proof -
  have ok: "tables_ok s" "es_slots s ! i \<in> set (es_slots s)" using assms(1,4) by (auto simp: elf_inv_def)
  have same: "in_table (y\<lparr>es_slots := z\<rparr>) k = in_table y k" "tables_ok (y\<lparr>es_slots := z\<rparr>) = tables_ok y" for y z k
    by (simp_all add: in_table_def symbols_def tables_ok_def)
  have old: "in_table (with_named str x s) k" if "in_table s k" for k
    by (rule in_table_grown [OF _ ok(1) that]) simp
  have "in_table (with_named str x s) (sym_index slot) \<and> in_table (with_named str x s) (cfi_sym_index slot)"
    using assms(1,3) ok in_table_count [OF ok(1)] old by (auto simp: elf_inv_def)
  then show ?thesis
    using assms(1,2) old tables_ok_with_named [OF ok(1)]
    by (auto simp: elf_inv_def same dest!: set_update_subset_insert [THEN subsetD])
qed

section \<open>Imports and functions\<close>

definition import_entries :: "wasm_module \<Rightarrow> debug_info \<Rightarrow> nat \<times> wasm_import \<Rightarrow> (u8 list option \<times> elf64_sym) list" where
  "import_entries m D x = (if import_kind (snd x) = WASM_EXTERN_FUNC
     then [(Some (printed (func_label m (word_of_nat (fst x)))), import_symbol D (fst x))] else [])"

definition function_entry :: "wasm_module \<Rightarrow> section_indices \<Rightarrow> func_layout \<Rightarrow> u8 list option \<times> elf64_sym" where
  "function_entry m idx fl = (Some (function_name m fl), function_symbol idx fl)"

lemma entries_slots [simp]: "entries (s\<lparr>es_slots := x\<rparr>) = entries s" "small (s\<lparr>es_slots := x\<rparr>) = small s"
  "grown s (t\<lparr>es_slots := x\<rparr>) = grown s t" "symbols (s\<lparr>es_slots := x\<rparr>) = symbols s"
  by (simp_all add: entries_def symbols_def small_def grown_def)

lemma symbols_unnamed [simp]:
  "(import_symbol D i)\<lparr>st_name := 0\<rparr> = import_symbol D i" "(function_symbol idx fl)\<lparr>st_name := 0\<rparr> = function_symbol idx fl"
  "(alias_symbol p)\<lparr>st_name := 0\<rparr> = alias_symbol p" "(synthesized a)\<lparr>st_name := 0\<rparr> = synthesized a"
  by (simp_all add: import_symbol_def function_symbol_def alias_symbol_def synthesized_def)

lemma function_name_nonzero [simp]: "0 \<notin> set (function_name m fl)"
  by (simp add: function_name_def)

lemma emit_import_symbol_step:
  assumes "emit_import_symbol h m D (i, import) s = Inr (u, s')" and "elf_inv h n s" and "i < 2 ^ 32"
  shows "elf_inv h n s' \<and> grown s s' \<and> (small s' \<longrightarrow> entries s' = entries s @ import_entries m D (i, import))"
proof -
  have ok: "tables_ok s" "blocks_ok h s" "length (es_slots s) = n" using assms(2) by (simp_all add: elf_inv_def)
  show ?thesis
    using emit_import_symbol_run [OF assms(1,3)] assms(2) ok entries_with_named [OF ok(1) printed_nonzero]
    by (auto simp: import_entries_def grown_order.refl intro!: slot_update_inv)
qed

lemma emit_function_symbol_step:
  assumes "emit_function_symbol h m idx fl s = Inr (u, s')" and "elf_inv h n s"
  shows "elf_inv h n s' \<and> grown s s' \<and> (small s' \<longrightarrow> entries s' = entries s @ [function_entry m idx fl])"
proof -
  have ok: "tables_ok s" "blocks_ok h s" "length (es_slots s) = n" using assms(2) by (simp_all add: elf_inv_def)
  show ?thesis
    using emit_function_symbol_run [OF assms(1)] assms(2) ok entries_with_named [OF ok(1) function_name_nonzero]
    by (auto simp: function_entry_def slot_set_def intro!: slot_update_inv)
qed

section \<open>Aliases\<close>

text \<open>The aliases of the exports, from the tables as they were before the first alias.\<close>

definition alias_entries :: "wasm_module \<Rightarrow> elf_state \<Rightarrow> wasm_export \<Rightarrow> (u8 list option \<times> elf64_sym) list" where
  "alias_entries m s e =
     (case exported_slot m s e of
        None \<Rightarrow> []
      | Some k \<Rightarrow> (let primary = entries s ! unat k in
          if fst primary = Some (c_string (export_name e)) then []
          else [(Some (printed (export_name e)), alias_symbol (snd primary))]))"

definition like :: "elf_state \<Rightarrow> elf_state \<Rightarrow> bool" where
  "like s t \<longleftrightarrow> grown s t \<and> es_slots t = es_slots s"

lemma emit_export_alias_fault:
  assumes "elf_inv h (elf_total_funcs m) s"
  shows "emit_export_alias h m e s \<noteq> Inl Undefined"
proof (cases "exported_slot m s e")
  case None
  then have "export_kind e \<noteq> WASM_EXPORT_FUNC \<or> elf_total_funcs m \<le> unat (export_index e) \<or>
      (unat (export_index e) < length (es_slots s) \<and> sym_index (es_slots s ! unat (export_index e)) = UINT32_MAX)"
    using assms by (auto simp: exported_slot_def elf_inv_def split: if_splits)
  then show ?thesis
    by (elim disjE conjE) (simp_all add: emit_export_alias_def gets_bind index_def bind_ret ret_apply)
next
  case (Some k)
  let ?slot = "es_slots s ! unat (export_index e)"
  have k: "k = sym_index ?slot" "unat (export_index e) < length (es_slots s)" "k \<noteq> UINT32_MAX"
    using Some assms by (auto simp: exported_slot_def elf_inv_def split: if_splits)
  then have "in_table s k" using assms by (auto simp: elf_inv_def)
  then have in_s: "unat k < length (symbols s)" using k(3) by (simp add: in_table_def)
  have ok: "tables_ok s" using assms by (simp add: elf_inv_def)
  have str: "load_string (st_name (symbols s ! unat k)) s \<noteq> Inl Undefined"
    using named_inside [OF ok, of "symbols s ! unat k"] in_s by (auto simp: load_string_def gets_bind ret_def)
  have last: "bind (on_strtab (strtab_emit_str h (export_name e))) (\<lambda>off. bind (load_sym k) (\<lambda>p. push_sym h (f off p))) s \<noteq> Inl Undefined" for f
    using in_s by (intro bind_safe emit_faults load_sym_fault) (auto simp: symbols_with(2) dest!: emit_string_run)
  have "bind (load_sym k) (\<lambda>p. bind (load_string (st_name p)) (\<lambda>n. if n = c_string (export_name e) then ret ()
      else bind (on_strtab (strtab_emit_str h (export_name e))) (\<lambda>off. bind (load_sym k) (\<lambda>p. push_sym h (f off p))))) s \<noteq> Inl Undefined" for f
  proof (rule bind_safe, rule load_sym_fault [OF in_s])
    fix p s1
    assume "load_sym k s = Inr (p, s1)"
    from load_sym_run [OF this] have p: "s1 = s" "p = symbols s ! unat k" by simp_all
    show "bind (load_string (st_name p)) (\<lambda>n. if n = c_string (export_name e) then ret ()
      else bind (on_strtab (strtab_emit_str h (export_name e))) (\<lambda>off. bind (load_sym k) (\<lambda>p. push_sym h (f off p)))) s1 \<noteq> Inl Undefined"
      unfolding p by (rule bind_safe, rule str) (auto simp: ret_apply last dest!: load_string_run)
  qed
  then show ?thesis using k Some by (auto simp: emit_export_alias_def gets_bind index_def bind_ret exported_slot_def split: if_splits)
qed

lemma emit_export_alias_step:
  assumes "emit_export_alias h m e s = Inr (u, s')" and "elf_inv h n s" and "like s0 s" and "elf_inv h n s0" and "n = elf_total_funcs m"
  shows "elf_inv h n s' \<and> like s0 s' \<and> grown s s' \<and> (small s' \<longrightarrow> entries s' = entries s @ alias_entries m s0 e)"
proof -
  have ok: "tables_ok s" "tables_ok s0" using assms(2,4) by (simp_all add: elf_inv_def)
  have slot: "exported_slot m s e = exported_slot m s0 e" using assms(3) by (simp add: exported_slot_def like_def)
  obtain more where more: "entries s = entries s0 @ more"
    using assms(3) ok by (auto simp: like_def elim: grown_entries)
  have k: "unat k < length (symbols s0) \<and> entries s ! unat k = entries s0 ! unat k" if "exported_slot m s0 e = Some k" for k
  proof -
    have "k = sym_index (es_slots s0 ! unat (export_index e))" "unat (export_index e) < length (es_slots s0)" "k \<noteq> UINT32_MAX"
      using that assms(4,5) by (auto simp: exported_slot_def elf_inv_def split: if_splits)
    then have "unat k < length (symbols s0)" using assms(4) nth_mem by (fastforce simp: elf_inv_def in_table_def)
    then show ?thesis by (simp add: more nth_append)
  qed
  have shown_k: "fst (entries s ! j) = string_at (strings s) (unat (st_name (symbols s ! j)))"
      "snd (entries s ! j) = (symbols s ! j)\<lparr>st_name := 0\<rparr>"
    if "j < length (symbols s)" for j using that by (simp_all add: entries_def shown_def)
  have same_alias: "alias_symbol (p\<lparr>st_name := 0\<rparr>) = alias_symbol p" for p by (simp add: alias_symbol_def)
  show ?thesis
    using assms(1)
  proof (cases rule: emit_export_alias_cases)
    case skipped
    then show ?thesis using assms(2,3) slot by (simp add: alias_entries_def grown_order.refl)
  next
    case (same j)
    then have "fst (entries s0 ! unat j) = Some (c_string (export_name e))"
      using k [of j] slot shown_k [of "unat j"] by simp
    then show ?thesis using same assms(2,3) slot by (simp add: alias_entries_def grown_order.refl Let_def)
  next
    case (added j)
    have "elf_inv h n s'"
      using added(3,4) assms(2) tables_ok_with_named [OF ok(1)] by (intro elf_inv_grown [OF assms(2)]) (auto simp: elf_inv_def)
    moreover have "like s0 s'" using added(3) assms(3) by (auto simp: like_def intro: grown_order.trans)
    moreover have "fst (entries s0 ! unat j) \<noteq> Some (c_string (export_name e))"
      using added(1,2,5) k [of j] slot shown_k [of "unat j"] by simp
    ultimately show ?thesis
      using added k [of j] slot shown_k [of "unat j"] entries_with_named [OF ok(1) printed_nonzero]
      by (auto simp: alias_entries_def Let_def same_alias)
  qed
qed

end
