(* ===== verification/Debug_Elf_Relocs.thy ===== *)
theory Debug_Elf_Relocs
  imports Debug_Elf_Tables
begin

text \<open>
  The relocation entries of the debug ELF: each absolute relocation gets an entry whose symbol and
  addend give the address the linked code holds.
\<close>

section \<open>Where symbols point\<close>

definition points :: "elf_state \<Rightarrow> u32 \<Rightarrow> u64 \<Rightarrow> bool" where
  "points s k a \<longleftrightarrow> (small s \<longrightarrow> unat k < length (entries s) \<and> st_value (snd (entries s ! unat k)) = a)"

lemma points_grown:
  assumes "points s k a" and "grown s s'" and "tables_ok s"
  shows "points s' k a"
proof -
  obtain more where "entries s' = entries s @ more" using assms(2,3) by (rule grown_entries)
  then show ?thesis
    using assms(1) grown_small [OF assms(2)] by (auto simp: points_def nth_append simp del: length_entries)
qed

lemma points_symbol: "unat k < length (symbols s) \<Longrightarrow> points s k (st_value (symbols s ! unat k))"
  by (simp add: points_def entries_def shown_def)

lemma entries_with_named_snd:
  "tables_ok s \<Longrightarrow> \<exists>e. entries (with_named str x s) = entries s @ [e] \<and> snd e = x\<lparr>st_name := 0\<rparr>"
  using shown_append [of s] by (auto simp: entries_def symbols_with_named shown_def)

lemma count_small: "small s \<Longrightarrow> unat (symbol_count s) = length (symbols s)"
  by (simp add: small_def symbol_count_eq unat_of_nat)

lemma points_new:
  assumes "tables_ok s"
  shows "points (with_named str x s) (symbol_count s) (st_value x)"
proof -
  obtain e where e: "entries (with_named str x s) = entries s @ [e]" "snd e = x\<lparr>st_name := 0\<rparr>"
    using entries_with_named_snd [OF assms] by blast
  have "small s" if "small (with_named str x s)" using that by (rule grown_small [rotated]) simp
  then show ?thesis using count_small [of s] by (auto simp: points_def e nth_append simp del: length_entries) (simp_all add: e(2))
qed

section \<open>The invariant of the loop\<close>

definition relas :: "elf_state \<Rightarrow> elf64_rela list" where
  "relas s = table_of 24 rela_of (rest (es_rela s))"

definition has_symbol :: "debug_info \<Rightarrow> jit_reloc \<Rightarrow> bool" where
  "has_symbol D r \<longleftrightarrow> (case jr_target r of Target_other \<Rightarrow> False | Target_constpool \<Rightarrow> di_rodata D \<noteq> []
     | Target_global _ \<Rightarrow> di_rodata D \<noteq> [] | _ \<Rightarrow> True)"

text \<open>The entry of a relocation names a symbol that, with the addend, gives the linked value.\<close>

definition rela_means :: "debug_info \<Rightarrow> elf_state \<Rightarrow> jit_reloc \<Rightarrow> elf64_rela \<Rightarrow> bool" where
  "rela_means D s r x \<longleftrightarrow> r_offset x = jr_address r \<and>
     (has_symbol D r \<longrightarrow> (\<exists>k. r_info x = ELF64_R_INFO (ucast (k :: u32)) R_X86_64_64 \<and>
        points s k (jr_target_address r + jr_addend r - r_addend x)))"

definition rela_inv :: "host \<Rightarrow> debug_info \<Rightarrow> nat \<Rightarrow> u32 \<Rightarrow> jit_reloc list \<Rightarrow> elf_state \<Rightarrow> bool" where
  "rela_inv h D n rodata finished s \<longleftrightarrow> elf_inv h n s \<and> (\<forall>c \<in> set (es_ext_cache s). points s (snd c) (fst c)) \<and>
     (di_rodata D \<noteq> [] \<longrightarrow> points s rodata (di_rodata_base D)) \<and> 24 dvd length (rest (es_rela s)) \<and>
     list_all2 (rela_means D s) (filter is_absolute finished) (relas s)"

lemma rela_means_grown:
  assumes "rela_means D s r x" and "grown s s'" and "tables_ok s"
  shows "rela_means D s' r x"
  using assms(1) points_grown [OF _ assms(2,3)] by (auto simp: rela_means_def)

lemma relas_with_rela: "24 dvd length (rest (es_rela s)) \<Longrightarrow> relas (with_rela x s) = relas s @ [x]"
  using rela_of_bytes [of x "[]"] by (simp add: relas_def with_rela_def table_of_snoc)

lemma points_with_rela [simp]: "points (with_rela x s) k a = points s k a"
  by (simp add: points_def)

lemma blocks_ok_rela:
  assumes "on_rela (buffer_push h (rela_bytes x)) s = Inr (u, s')"
  shows "s' = with_rela x s \<and> (blocks_ok h s \<longrightarrow> blocks_ok h s')"
  using assms by (auto simp: on_rela_def on_part_run buffer_push_run with_rela_def blocks_ok_def)

section \<open>One relocation\<close>

lemma reloc_slot_symbol_run: "reloc_slot_symbol m r s = Inr (k, s') \<Longrightarrow> s' = s"
  by (auto simp: reloc_slot_symbol_def gets_bind index_def split: if_splits)

lemma resolve_reloc_symbol_run:
  assumes "resolve_reloc_symbol address m D rodata r s = Inr ((k, addend, synth), s')"
    and "di_rodata D \<noteq> [] \<longrightarrow> points s rodata (di_rodata_base D)"
  shows "s' = s \<and> (has_symbol D r \<longrightarrow> (case synth of
      None \<Rightarrow> points s k (jr_target_address r + jr_addend r - addend) | Some _ \<Rightarrow> addend = jr_addend r))"
proof -
  have slot: ?thesis if h: "bind (reloc_slot_symbol m r) (\<lambda>slot_sym.
        if slot_sym \<noteq> UINT32_MAX then
          bind (load_sym slot_sym) (\<lambda>symbol.
          ret (slot_sym, jr_addend r + (jr_target_address r - st_value symbol), None))
        else ret (0, jr_addend r, Some (jit_get_helper_name address (jr_target_address r)))) s = Inr ((k, addend, synth), s')"
  proof -
    obtain j s1 where 1: "reloc_slot_symbol m r s = Inr (j, s1)" and 2: "(if j \<noteq> UINT32_MAX then
          bind (load_sym j) (\<lambda>symbol. ret (j, jr_addend r + (jr_target_address r - st_value symbol), None))
        else ret (0, jr_addend r, Some (jit_get_helper_name address (jr_target_address r)))) s1 = Inr ((k, addend, synth), s')"
      using h by (rule bind_runE)
    note 1 = reloc_slot_symbol_run [OF 1]
    show ?thesis
    proof (cases "j = UINT32_MAX")
      case False
      then obtain x where "load_sym j s1 = Inr (x, s')" "k = j" "synth = None"
        "addend = jr_addend r + (jr_target_address r - st_value x)"
        using 2 by (auto simp: bind_run)
      with load_sym_run [OF this(1)] 1 points_symbol [of j s] show ?thesis by simp
    qed (use 1 2 in simp)
  qed
  show ?thesis
  proof (cases "jr_target r")
    case (Target_internal_function f)
    with assms(1) show ?thesis by (intro slot) (simp add: resolve_reloc_symbol_def Let_def)
  next
    case (Target_external_function f)
    with assms(1) show ?thesis by (intro slot) (simp add: resolve_reloc_symbol_def Let_def)
  qed (use assms in \<open>auto simp: resolve_reloc_symbol_def has_symbol_def Let_def split: if_splits\<close>)
qed

lemma resolve_reloc_symbol_fault:
  assumes "elf_inv h (elf_total_funcs m) s"
  shows "resolve_reloc_symbol address m D rodata r s \<noteq> Inl Undefined"
proof -
  have slots: "length (es_slots s) = elf_total_funcs m" using assms by (simp add: elf_inv_def)
  have in_table: "in_table s (sym_index slot) \<and> in_table s (cfi_sym_index slot)" if "slot \<in> set (es_slots s)" for slot
    using assms that by (simp add: elf_inv_def)
  have slot: "reloc_slot_symbol m r s \<noteq> Inl Undefined"
    using slots by (auto simp: reloc_slot_symbol_def gets_bind index_def bind_ret ret_apply)
  have found: "in_table s k" if "reloc_slot_symbol m r s = Inr (k, t)" for k t
    using that in_table nth_mem slots
    by (auto simp: reloc_slot_symbol_def gets_bind index_def bind_ret in_table_def split: if_splits)
  have by_slot: "bind (reloc_slot_symbol m r) (\<lambda>k. if k \<noteq> UINT32_MAX then bind (load_sym k) (\<lambda>x. ret (f k x)) else ret y) s \<noteq> Inl Undefined" for f y
    using found by (intro bind_safe slot)
      (auto simp: in_table_def bind_def ret_def split: sum.split dest: reloc_slot_symbol_run load_sym_fault)
  show ?thesis
    using by_slot [of "\<lambda>k x. (k, jr_addend r + (jr_target_address r - st_value x), None)"]
    by (auto simp: resolve_reloc_symbol_def Let_def ret_apply split: reloc_target.split)
qed

lemma synthesize_symbol_fault: "synthesize_symbol h name target s \<noteq> Inl Undefined"
  unfolding synthesize_symbol_def Let_def by (intro safe)

lemma emit_rela_fault:
  assumes "elf_inv h (elf_total_funcs m) s"
  shows "emit_rela h address m D rodata r s \<noteq> Inl Undefined"
  unfolding emit_rela_def by (intro safe resolve_reloc_symbol_fault [OF assms] synthesize_symbol_fault)

text \<open>Only synthesized symbols are added.\<close>

definition adds_synthesized :: "elf_state \<Rightarrow> elf_state \<Rightarrow> bool" where
  "adds_synthesized s s' \<longleftrightarrow> grown s s' \<and> (\<exists>more. entries s' = entries s @ more \<and> (\<forall>e \<in> set more. \<exists>a. snd e = synthesized a))"

interpretation synthesized_order: run_preorder adds_synthesized
proof unfold_locales
  fix s t u
  assume "adds_synthesized s t" "adds_synthesized t u"
  moreover from this obtain m1 m2 where "entries t = entries s @ m1" "entries u = entries t @ m2"
    "\<forall>e \<in> set m1. \<exists>a. snd e = synthesized a" "\<forall>e \<in> set m2. \<exists>a. snd e = synthesized a"
    unfolding adds_synthesized_def by blast
  then have "entries u = entries s @ (m1 @ m2)" "\<forall>e \<in> set (m1 @ m2). \<exists>a. snd e = synthesized a" by auto
  ultimately show "adds_synthesized s u" unfolding adds_synthesized_def by (blast intro: grown_order.trans)
qed (auto simp: adds_synthesized_def grown_order.refl)

lemma synthesize_symbol_step:
  assumes "synthesize_symbol h name target s = Inr (k, s')" and "rela_inv h D n rodata finished s"
  shows "rela_inv h D n rodata finished s' \<and> adds_synthesized s s' \<and> points s' k target"
  using assms(1)
proof (cases rule: synthesize_symbol_cases)
  case cached
  then show ?thesis using assms(2) by (auto simp: rela_inv_def synthesized_order.refl)
next
  case (fresh str)
  let ?t = "with_named str (synthesized target) s"
  have ok: "tables_ok s" using assms(2) by (simp add: rela_inv_def elf_inv_def)
  have same: "points (y\<lparr>es_ext_cache := z\<rparr>) j a = points y j a" "tables_ok (y\<lparr>es_ext_cache := z\<rparr>) = tables_ok y"
    "relas (y\<lparr>es_ext_cache := z\<rparr>) = relas y" "grown s (y\<lparr>es_ext_cache := z\<rparr>) = grown s y"
    "entries (y\<lparr>es_ext_cache := z\<rparr>) = entries y" for y z j a
    by (simp_all add: points_def entries_def symbols_def small_def tables_ok_def relas_def grown_def)
  have old: "points s' j a" if "points s j a" for j a
    unfolding fresh(4) same by (rule points_grown [OF that _ ok]) simp
  have grown: "grown s s'" unfolding fresh(4) same by simp
  have new: "points s' k target" using points_new [OF ok, of str "synthesized target"] fresh(1)
    unfolding fresh(4) same by (simp add: synthesized_def)
  have inv: "elf_inv h n s" using assms(2) by (simp add: rela_inv_def)
  have "elf_inv h n s'"
  proof (rule elf_inv_grown [OF inv grown])
    show "tables_ok s'" unfolding fresh(4) same(2) by (rule tables_ok_with_named [OF ok])
    show "blocks_ok h s'" using fresh(3) inv by (simp add: elf_inv_def)
    show "es_slots s' = es_slots s" by (simp add: fresh(4))
  qed
  moreover have "list_all2 (rela_means D s') (filter is_absolute finished) (relas s')"
  proof (rule list_all2_mono)
    show "list_all2 (rela_means D s) (filter is_absolute finished) (relas s')"
      using assms(2) by (simp add: rela_inv_def fresh(4) same(3)) (simp add: relas_def)
  qed (rule rela_means_grown [OF _ grown ok])
  ultimately have "rela_inv h D n rodata finished s'"
    using assms(2) old new fresh(4) by (auto simp: rela_inv_def)
  moreover have "adds_synthesized s s'"
    using grown entries_with_named_snd [OF ok, of str "synthesized target"] fresh(4) same(5)
    by (fastforce simp: adds_synthesized_def)
  ultimately show ?thesis using new by simp
qed

lemma emit_rela_step:
  assumes "emit_rela h address m D rodata r s = Inr (u, s')" and "rela_inv h D n rodata finished s"
  shows "rela_inv h D n rodata (finished @ [r]) s' \<and> adds_synthesized s s'"
proof (cases "is_absolute r")
  case False
  then show ?thesis using assms by (simp add: emit_rela_def rela_inv_def synthesized_order.refl)
next
  case True
  then obtain x s1 where "resolve_reloc_symbol address m D rodata r s = Inr (x, s1)" and
    "(case x of (k, addend, synth) \<Rightarrow>
        bind (case synth of None \<Rightarrow> ret k | Some name \<Rightarrow> synthesize_symbol h name (jr_target_address r)) (\<lambda>k.
        on_rela (buffer_push h (rela_bytes
          \<lparr>r_offset = jr_address r, r_info = ELF64_R_INFO (ucast k) R_X86_64_64, r_addend = addend\<rparr>)))) s1 = Inr (u, s')"
    using assms(1) by (simp add: emit_rela_def) (erule bind_runE, blast)
  moreover obtain k addend synth where x: "x = (k, addend, synth)" by (cases x)
  ultimately obtain j s2 where
    1: "resolve_reloc_symbol address m D rodata r s = Inr ((k, addend, synth), s1)" and
    2: "(case synth of None \<Rightarrow> ret k | Some name \<Rightarrow> synthesize_symbol h name (jr_target_address r)) s1 = Inr (j, s2)" and
    3: "on_rela (buffer_push h (rela_bytes
          \<lparr>r_offset = jr_address r, r_info = ELF64_R_INFO (ucast j) R_X86_64_64, r_addend = addend\<rparr>)) s2 = Inr (u, s')"
    unfolding x prod.case by (elim bind_runE) blast
  let ?x = "\<lparr>r_offset = jr_address r, r_info = ELF64_R_INFO (ucast j) R_X86_64_64, r_addend = addend\<rparr>"
  have 1: "s1 = s" "has_symbol D r \<longrightarrow> (case synth of
      None \<Rightarrow> points s k (jr_target_address r + jr_addend r - addend) | Some _ \<Rightarrow> addend = jr_addend r)"
    using resolve_reloc_symbol_run [OF 1] assms(2) by (auto simp: rela_inv_def)
  have 2: "rela_inv h D n rodata finished s2 \<and> adds_synthesized s s2 \<and>
      (has_symbol D r \<longrightarrow> points s2 j (jr_target_address r + jr_addend r - addend))"
  proof (cases synth)
    case None
    then show ?thesis using 1 2 assms(2) by (auto simp: synthesized_order.refl)
  next
    case (Some name)
    then have "synthesize_symbol h name (jr_target_address r) s = Inr (j, s2)" using 1(1) 2 by simp
    from synthesize_symbol_step [OF this assms(2)] show ?thesis using 1(2) Some by simp
  qed
  have 3: "s' = with_rela ?x s2" "blocks_ok h s'" using blocks_ok_rela [OF 3] 2 by (auto simp: rela_inv_def elf_inv_def)
  have same: "rela_means D (with_rela ?x s2) = rela_means D s2" by (simp add: rela_means_def fun_eq_iff)
  have "rela_means D s2 r ?x" using 2 by (auto simp: rela_means_def)
  then have "rela_inv h D n rodata (finished @ [r]) s'"
    using 2 3 True relas_with_rela [of s2 ?x]
    by (auto simp: rela_inv_def same elf_inv_def in_table_def intro!: list_all2_appendI) (simp_all add: with_rela_def)
  moreover have "adds_synthesized s s'" using 2 3(1) by (auto simp: adds_synthesized_def intro: grown_order.trans)
  ultimately show ?thesis by simp
qed

lemma emit_relas:
  assumes "for_each rs (emit_rela h address m D rodata) s = Inr (u, s')" and "rela_inv h D n rodata finished s"
  shows "rela_inv h D n rodata (finished @ rs) s' \<and> adds_synthesized s s'"
  using assms
proof (induction rs arbitrary: s finished)
  case (Cons r rs)
  then obtain v t where 1: "emit_rela h address m D rodata r s = Inr (v, t)" and 2: "for_each rs (emit_rela h address m D rodata) t = Inr (u, s')"
    by (auto simp: run)
  note a = emit_rela_step [OF 1 Cons.prems(2)]
  from Cons.IH [OF 2, of "finished @ [r]"] a show ?case by (auto intro: synthesized_order.trans)
qed (simp add: synthesized_order.refl)

lemma emit_relas_fault:
  assumes "rela_inv h D (elf_total_funcs m) rodata finished s"
  shows "for_each rs (emit_rela h address m D rodata) s \<noteq> Inl Undefined"
  using assms
proof (induction rs arbitrary: s finished)
  case (Cons r rs)
  have "elf_inv h (elf_total_funcs m) s" using Cons.prems by (simp add: rela_inv_def)
  note fault = emit_rela_fault [OF this]
  have "for_each rs (emit_rela h address m D rodata) t \<noteq> Inl Undefined" if "emit_rela h address m D rodata r s = Inr (u, t)" for u t
    using emit_rela_step [OF that Cons.prems] by (intro Cons.IH) (rule conjunct1)
  then show ?case unfolding for_each.simps by (intro safe fault) simp
qed (simp add: ret_apply)

end
