(* ===== verification/Debug_Elf_Emit.thy ===== *)
theory Debug_Elf_Emit
  imports Debug_Elf_Relocs
begin

text \<open>
  The tables of the debug ELF as a whole: \<open>emit_tables\<close> does nothing undefined, and the symbols it
  leaves are, in order, the local ones, imports, functions, aliases, and synthesized ones.
\<close>

section \<open>Emitting the tables\<close>

definition first_entries :: "wasm_module \<Rightarrow> debug_info \<Rightarrow> section_indices \<Rightarrow> (u8 list option \<times> elf64_sym) list" where
  "first_entries m D idx =
     [(Some [], \<lparr>st_name = 0, st_info = ELF64_ST_INFO STB_LOCAL STT_NOTYPE, st_other = 0, st_shndx = SHN_UNDEF,
        st_value = 0, st_size = 0\<rparr>)] @
     (case mod_module_name m of None \<Rightarrow> []
      | Some n \<Rightarrow> [(Some (printed n), \<lparr>st_name = 0, st_info = ELF64_ST_INFO STB_LOCAL STT_OBJECT, st_other = 0,
          st_shndx = SHN_ABS, st_value = 0, st_size = 0\<rparr>)]) @
     [(Some [], \<lparr>st_name = 0, st_info = ELF64_ST_INFO STB_LOCAL STT_SECTION, st_other = 0, st_shndx = shidx_text idx,
        st_value = di_code_base D, st_size = 0\<rparr>)] @
     (if di_rodata D \<noteq> [] then
        [(Some [], \<lparr>st_name = 0, st_info = ELF64_ST_INFO STB_LOCAL STT_SECTION, st_other = 0, st_shndx = shidx_rodata idx,
           st_value = di_rodata_base D, st_size = 0\<rparr>)]
      else [])"

text \<open>A state of the tables with nothing else in it yet.\<close>

definition fresh_tables :: "host \<Rightarrow> elf_state \<Rightarrow> bool" where
  "fresh_tables h s \<longleftrightarrow> strings s = [0] \<and> rest (es_symtab s) = [] \<and> rest (es_rela s) = [] \<and> es_slots s = [] \<and>
     es_ext_cache s = [] \<and> blocks_ok h s"

lemma fresh_tables_ok: "fresh_tables h s \<Longrightarrow> tables_ok s \<and> entries s = []"
  by (simp add: fresh_tables_def tables_ok_def symbols_def entries_def)

lemma push_unnamed:
  assumes "push_sym h x s = Inr (u, s')" and "tables_ok s" and "blocks_ok h s" and "st_name x = 0"
  shows "s' = with_symbol x s \<and> tables_ok s' \<and> blocks_ok h s' \<and> entries s' = entries s @ [(Some [], x)]"
proof -
  have s': "s' = with_symbol x s" using push_sym_run [OF assms(1)] by simp
  have "shown (strings s) x = (Some [], x)" using first_name [OF assms(2)] assms(4) by (simp add: shown_def)
  moreover have "tables_ok s'"
    unfolding s' using assms(2,4) by (intro tables_ok_with_symbol) (auto simp: tables_ok_def)
  moreover have "blocks_ok h s'" using push_sym_run [OF assms(1)] assms(3) by auto
  ultimately show ?thesis using entries_with_symbol [OF assms(2), of x] s' by simp
qed

lemma emit_first_symbols_step:
  assumes "emit_first_symbols h m D idx s = Inr (rodata, s')" and "fresh_tables h s"
  shows "tables_ok s' \<and> blocks_ok h s' \<and> es_slots s' = [] \<and> es_ext_cache s' = [] \<and> rest (es_rela s') = [] \<and>
    length (entries s') = length (first_entries m D idx) \<and> (small s' \<longrightarrow> entries s' = first_entries m D idx) \<and>
    (di_rodata D \<noteq> [] \<longrightarrow> points s' rodata (di_rodata_base D)) \<and> es_shstrtab s' = es_shstrtab s \<and> grown s s'"
proof -
  let ?null = "\<lparr>st_name = 0, st_info = ELF64_ST_INFO STB_LOCAL STT_NOTYPE, st_other = 0, st_shndx = SHN_UNDEF,
       st_value = 0, st_size = 0\<rparr> :: elf64_sym"
  let ?mod = "\<lparr>st_name = 0, st_info = ELF64_ST_INFO STB_LOCAL STT_OBJECT, st_other = 0, st_shndx = SHN_ABS,
       st_value = 0, st_size = 0\<rparr> :: elf64_sym"
  let ?text = "\<lparr>st_name = 0, st_info = ELF64_ST_INFO STB_LOCAL STT_SECTION, st_other = 0, st_shndx = shidx_text idx,
       st_value = di_code_base D, st_size = 0\<rparr> :: elf64_sym"
  let ?ro = "\<lparr>st_name = 0, st_info = ELF64_ST_INFO STB_LOCAL STT_SECTION, st_other = 0, st_shndx = shidx_rodata idx,
       st_value = di_rodata_base D, st_size = 0\<rparr> :: elf64_sym"
  have s: "tables_ok s" "entries s = []" "blocks_ok h s" using fresh_tables_ok [OF assms(2)] assms(2) by (simp_all add: fresh_tables_def)
  obtain s1 s2 s3 where 1: "push_sym h ?null s = Inr ((), s1)"
    and 2: "(case mod_module_name m of None \<Rightarrow> ret ()
       | Some name \<Rightarrow> bind (on_strtab (strtab_emit_str h name)) (\<lambda>off. push_sym h \<lparr>st_name = off,
           st_info = ELF64_ST_INFO STB_LOCAL STT_OBJECT, st_other = 0, st_shndx = SHN_ABS, st_value = 0, st_size = 0\<rparr>)) s1 = Inr ((), s2)"
    and 3: "push_sym h ?text s2 = Inr ((), s3)"
    and 4: "(if di_rodata D \<noteq> [] then bind (gets symbol_count) (\<lambda>sym_rodata_section. bind (push_sym h ?ro) (\<lambda>_. ret sym_rodata_section))
       else ret 0) s3 = Inr (rodata, s')"
    using assms(1) unfolding emit_first_symbols_def by (elim bind_runE) (simp add: that)
  have a1: "s1 = with_symbol ?null s" "tables_ok s1" "entries s1 = [(Some [], ?null)]" "blocks_ok h s1"
    using push_unnamed [OF 1 s(1,3)] s(2) by auto
  have "blocks_ok h s2 \<and> tables_ok s2 \<and> es_slots s2 = es_slots s \<and> es_ext_cache s2 = es_ext_cache s \<and> es_rela s2 = es_rela s \<and>
      es_shstrtab s2 = es_shstrtab s \<and> grown s s2 \<and>
      (\<exists>more. entries s2 = [(Some [], ?null)] @ more \<and> length more = (if mod_module_name m = None then 0 else 1) \<and>
        (small s2 \<longrightarrow> more = (case mod_module_name m of None \<Rightarrow> [] | Some n \<Rightarrow> [(Some (printed n), ?mod)])))"
  proof (cases "mod_module_name m")
    case None
    then show ?thesis using 2 a1 by auto
  next
    case (Some n)
    then obtain off t where e: "on_strtab (strtab_emit_str h n) s1 = Inr (off, t)" and p: "push_sym h (?mod\<lparr>st_name := off\<rparr>) t = Inr ((), s2)"
      using 2 by (auto elim!: bind_runE)
    have s2: "s2 = with_named (printed n) ?mod s1" "blocks_ok h s2"
      using emit_string_run [OF e] push_sym_run [OF p] a1(4) by (auto simp: with_named_def)
    have "tables_ok s2" unfolding s2(1) by (rule tables_ok_with_named [OF a1(2)])
    moreover obtain x where "entries s2 = entries s1 @ [x]" using entries_with_named_snd [OF a1(2), of "printed n" ?mod] s2(1) by auto
    moreover have "entries s2 = entries s1 @ [(Some (printed n), ?mod)]" if "small s2"
      using entries_with_named [OF a1(2) printed_nonzero, of n ?mod] that s2(1) by simp
    moreover have "grown s s2" unfolding s2(1) a1(1) by (rule grown_order.trans [OF _ grown_with(3)]) simp
    ultimately show ?thesis using Some s2 a1(1,3) by auto
  qed
  then obtain more where a2: "blocks_ok h s2" "tables_ok s2" "es_slots s2 = es_slots s" "es_ext_cache s2 = es_ext_cache s"
      "es_rela s2 = es_rela s" "es_shstrtab s2 = es_shstrtab s" "grown s s2" "entries s2 = [(Some [], ?null)] @ more"
      "length more = (if mod_module_name m = None then 0 else 1)"
      "small s2 \<longrightarrow> more = (case mod_module_name m of None \<Rightarrow> [] | Some n \<Rightarrow> [(Some (printed n), ?mod)])"
    by blast
  have a3: "s3 = with_symbol ?text s2" "tables_ok s3" "entries s3 = entries s2 @ [(Some [], ?text)]" "blocks_ok h s3"
    using push_unnamed [OF 3 a2(2,1)] by auto
  have g3: "grown s2 s3" unfolding a3(1) by simp
  show ?thesis
  proof (cases "di_rodata D = []")
    case True
    then show ?thesis
      using 4 a2 a3 assms(2) g3 grown_small [OF g3] grown_order.trans [OF a2(7) g3]
      by (auto simp: fresh_tables_def first_entries_def split: option.splits)
  next
    case False
    then have p: "push_sym h ?ro s3 = Inr ((), s')" "rodata = symbol_count s3" using 4 by (auto simp: gets_bind elim!: bind_runE)
    have a4: "s' = with_symbol ?ro s3" "tables_ok s'" "entries s' = entries s3 @ [(Some [], ?ro)]" "blocks_ok h s'"
      using push_unnamed [OF p(1) a3(2,4)] by auto
    have g4: "grown s3 s'" unfolding a4(1) by simp
    have "points s' rodata (di_rodata_base D)"
      using count_small [of s3] grown_small [OF g4] by (auto simp: points_def p(2) a4(3) nth_append simp flip: length_entries)
    then show ?thesis
      using a2 a3 a4 assms(2) False grown_small [OF g3] grown_small [OF g4] grown_order.trans [OF grown_order.trans [OF a2(7) g3] g4]
      by (auto simp: fresh_tables_def first_entries_def split: option.splits)
  qed
qed

definition tables_entries :: "wasm_module \<Rightarrow> debug_info \<Rightarrow> section_indices \<Rightarrow> (u8 list option \<times> elf64_sym) list" where
  "tables_entries m D idx = first_entries m D idx @
     concat (map (import_entries m D) (zip [0..<length (mod_imports m)] (mod_imports m))) @
     map (function_entry m idx) (di_funcs D)"

definition funcs_in :: "wasm_module \<Rightarrow> debug_info \<Rightarrow> bool" where
  "funcs_in m D \<longleftrightarrow> names_cover m \<and> length (mod_imports m) < 2 ^ 32 \<and>
     (\<forall>fl \<in> set (di_funcs D). unat (ly_funcidx fl) < elf_total_funcs m)"

lemma set_slot_fault: "i < length (es_slots s) \<Longrightarrow> set_slot i f s \<noteq> Inl Undefined"
  by (simp add: set_slot_def gets_bind index_def bind_ret modify_def)

lemma slots_kept:
  "make_func_label h m i s = Inr (label, s') \<Longrightarrow> es_slots s' = es_slots s"
  "on_strtab (strtab_emit_str h str) s = Inr (off, s') \<Longrightarrow> es_slots s' = es_slots s"
  "on_strtab (strtab_emit_prefixed_str h prefix str) s = Inr (off, s') \<Longrightarrow> es_slots s' = es_slots s"
  "gets f s = Inr (x, s') \<Longrightarrow> es_slots s' = es_slots s"
  by (auto dest!: make_func_label_run emit_string_run emit_prefixed_run)

lemma emit_import_symbol_fault:
  assumes "elf_inv h (elf_total_funcs m) s" and "names_cover m" and "(i, import) \<in> set (zip [0..<length (mod_imports m)] (mod_imports m))"
    and "length (mod_imports m) < 2 ^ 32"
  shows "emit_import_symbol h m D (i, import) s \<noteq> Inl Undefined"
proof -
  have i: "i < length (mod_imports m)" using assms(3) by (auto dest: set_zip_leftD)
  then have "unat (word_of_nat i :: u32) < elf_total_funcs m" using assms(4) by (simp add: unat_of_nat elf_total_funcs_def)
  note label = make_func_label_fault [OF assms(2) this]
  have slots: "i < length (es_slots s)" using i assms(1) by (simp add: elf_inv_def elf_total_funcs_def)
  show ?thesis
    unfolding emit_import_symbol_def prod.case
    by (intro safe label set_slot_fault) (use slots in \<open>simp_all only: slots_kept\<close>)
qed

lemma emit_function_symbol_fault:
  assumes "elf_inv h (elf_total_funcs m) s" and "names_cover m" and "unat (ly_funcidx fl) < elf_total_funcs m"
  shows "emit_function_symbol h m idx fl s \<noteq> Inl Undefined"
proof -
  have slots: "unat (ly_funcidx fl) < length (es_slots s)" using assms(1,3) by (simp add: elf_inv_def)
  show ?thesis
    unfolding emit_function_symbol_def
    by (intro safe make_func_label_fault [OF assms(2,3)] set_slot_fault)
      (use slots in \<open>simp_all only: slots_kept\<close>)
qed

section \<open>All tables\<close>

text \<open>The stages of \<open>emit_tables\<close>, with what holds between them.\<close>

lemma alloc_slots_step:
  assumes "alloc_slots h m s = Inr (u, s')" and "tables_ok s" and "blocks_ok h s" and "es_slots s = []"
  shows "elf_inv h (elf_total_funcs m) s' \<and>
    s' = s\<lparr>es_slots := replicate (elf_total_funcs m) \<lparr>sym_index = UINT32_MAX, cfi_sym_index = UINT32_MAX\<rparr>\<rparr>"
proof -
  have same: "tables_ok (s\<lparr>es_slots := z\<rparr>) = tables_ok s" for z by (simp add: tables_ok_def symbols_def)
  have "s' = s\<lparr>es_slots := replicate (elf_total_funcs m) \<lparr>sym_index = UINT32_MAX, cfi_sym_index = UINT32_MAX\<rparr>\<rparr>"
    using assms(1,4) by (cases "elf_total_funcs m = 0") (auto simp: alloc_slots_def modify_def elim!: bind_runE)
  then show ?thesis using assms(2,3) same by (simp add: elf_inv_def in_table_def)
qed

lemma elf_inv_tables: "elf_inv h n s \<Longrightarrow> tables_ok s"
  by (simp add: elf_inv_def)

text \<open>What adding symbols does not touch.\<close>

definition apart :: "elf_state \<Rightarrow> elf_state \<Rightarrow> bool" where
  "apart s s' \<longleftrightarrow> es_shstrtab s' = es_shstrtab s \<and> es_rela s' = es_rela s \<and> es_ext_cache s' = es_ext_cache s"

interpretation apart_order: run_preorder apart
  by unfold_locales (auto simp: apart_def)

definition no_names :: "elf_state \<Rightarrow> elf_state \<Rightarrow> bool" where
  "no_names s s' \<longleftrightarrow> es_shstrtab s' = es_shstrtab s"

interpretation no_names_order: run_preorder no_names
  by unfold_locales (auto simp: no_names_def)

lemma symbols_apart [along]:
  "along apart (emit_function_symbol h m idx fl)" "along apart (emit_export_alias h m e)"
  by (auto intro!: alongI simp: apart_def dest!: emit_function_symbol_run elim!: emit_export_alias_cases)

lemma import_apart: "i < 2 ^ 32 \<Longrightarrow> along apart (emit_import_symbol h m D (i, import))"
  by (auto intro!: alongI simp: apart_def dest!: emit_import_symbol_run)

lemma import_elements_apart:
  assumes "for_each xs (emit_import_symbol h m D) s = Inr (u, s')" and "\<forall>x \<in> set xs. fst x < 2 ^ 32"
  shows "apart s s'"
  using assms
proof (induction xs arbitrary: s)
  case (Cons x xs)
  then obtain v t where 1: "emit_import_symbol h m D x s = Inr (v, t)" and 2: "for_each xs (emit_import_symbol h m D) t = Inr (u, s')"
    by (auto simp: run)
  have "apart s t" using alongD [OF import_apart [of "fst x" h m D "snd x"], of s v t] 1 Cons.prems(2) by simp
  moreover have "apart t s'" using Cons.IH [OF 2] Cons.prems(2) by simp
  ultimately show ?case by (rule apart_order.trans)
qed (simp add: apart_order.refl)

lemma on_apart [along]:
  "along no_names (on_strtab p)" "along no_names (on_symtab q)" "along no_names (on_rela r)"
  by (auto intro!: alongI simp: no_names_def on_strtab_def on_symtab_def on_rela_def on_part_run)

lemma synthesize_no_names [along]: "along no_names (synthesize_symbol h name target)"
  unfolding synthesize_symbol_def push_sym_def Let_def
  by (intro along no_names_order.along_modify) (simp add: no_names_def)

lemma emit_rela_no_names [along]: "along no_names (emit_rela h address m D rodata r)"
proof (rule alongI)
  fix s u s'
  assume run: "emit_rela h address m D rodata r s = Inr (u, s')"
  show "no_names s s'"
  proof (cases "is_absolute r")
    case True
    then obtain x t where 1: "resolve_reloc_symbol address m D rodata r s = Inr (x, t)"
      and 2: "(case x of (k, addend, synth) \<Rightarrow>
        bind (case synth of None \<Rightarrow> ret k | Some name \<Rightarrow> synthesize_symbol h name (jr_target_address r)) (\<lambda>k.
        on_rela (buffer_push h (rela_bytes
          \<lparr>r_offset = jr_address r, r_info = ELF64_R_INFO (ucast k) R_X86_64_64, r_addend = addend\<rparr>)))) t = Inr (u, s')"
      using run by (simp add: emit_rela_def) (erule bind_runE, blast)
    have "along no_names (case x of (k, addend, synth) \<Rightarrow>
        bind (case synth of None \<Rightarrow> ret k | Some name \<Rightarrow> synthesize_symbol h name (jr_target_address r)) (\<lambda>k.
        on_rela (buffer_push h (rela_bytes
          \<lparr>r_offset = jr_address r, r_info = ELF64_R_INFO (ucast k) R_X86_64_64, r_addend = addend\<rparr>))))"
      by (intro along)
    from alongD [OF this 2] have "no_names t s'" .
    moreover have res: "along no_names (resolve_reloc_symbol address m D rodata r)"
      unfolding resolve_reloc_symbol_def reloc_slot_symbol_def load_sym_def Let_def
      by (auto split: reloc_target.split intro!: along)
    ultimately show ?thesis using alongD [OF res 1] by (blast intro: no_names_order.trans)
  qed (use run in \<open>simp add: emit_rela_def no_names_def\<close>)
qed

lemma imports_stage:
  assumes "for_each (zip [0..<length (mod_imports m)] (mod_imports m)) (emit_import_symbol h m D) s = Inr (u, s')"
    and "elf_inv h n s" and "funcs_in m D"
  shows "elf_inv h n s' \<and> grown s s' \<and> apart s s' \<and>
    (small s' \<longrightarrow> entries s' = entries s @ concat (map (import_entries m D) (zip [0..<length (mod_imports m)] (mod_imports m))))"
proof -
  let ?imports = "zip [0..<length (mod_imports m)] (mod_imports m)"
  have few: "fst x < 2 ^ 32" if "x \<in> set ?imports" for x
  proof -
    have "fst x \<in> set [0..<length (mod_imports m)]" using that by (metis set_zip_leftD prod.collapse)
    then show ?thesis using assms(3) by (simp add: funcs_in_def)
  qed
  have "elf_inv h n s' \<and> grown s s' \<and> (small s' \<longrightarrow> entries s' = entries s @ concat (map (import_entries m D) ?imports))"
  proof (rule for_each_entries [OF assms(1), of "elf_inv h n"])
    show "elf_inv h n r' \<and> grown r r' \<and> (small r' \<longrightarrow> entries r' = entries r @ import_entries m D x)"
      if "x \<in> set ?imports" "emit_import_symbol h m D x r = Inr (v, r')" "elf_inv h n r" for x r v r'
      using emit_import_symbol_step [of h m D "fst x" "snd x" r v r'] few [OF that(1)] that(2,3) by simp
  qed (use assms(2) elf_inv_tables in simp_all)
  moreover have "apart s s'" by (rule import_elements_apart [OF assms(1)]) (use few in blast)
  ultimately show ?thesis by blast
qed

lemma functions_stage:
  assumes "for_each fls (emit_function_symbol h m idx) s = Inr (u, s')" and "elf_inv h n s"
  shows "elf_inv h n s' \<and> grown s s' \<and> apart s s' \<and> (small s' \<longrightarrow> entries s' = entries s @ map (function_entry m idx) fls)"
proof -
  have "along apart (for_each fls (emit_function_symbol h m idx))" by (intro along)
  from alongD [OF this assms(1)] have "apart s s'" .
  moreover have "elf_inv h n s' \<and> grown s s' \<and> (small s' \<longrightarrow> entries s' = entries s @ concat (map (\<lambda>fl. [function_entry m idx fl]) fls))"
    by (rule for_each_entries [OF assms(1), of "elf_inv h n"]) (use assms(2) elf_inv_tables emit_function_symbol_step in simp_all)
  ultimately show ?thesis by simp
qed

lemma exports_stage:
  assumes "for_each es (emit_export_alias h m) t = Inr (u, s')" and "elf_inv h (elf_total_funcs m) t"
  shows "elf_inv h (elf_total_funcs m) s' \<and> grown t s' \<and> apart t s' \<and>
    (small s' \<longrightarrow> entries s' = entries t @ concat (map (alias_entries m t) es))"
proof -
  let ?n = "elf_total_funcs m"
  have "along apart (for_each es (emit_export_alias h m))" by (intro along)
  from alongD [OF this assms(1)] have "apart t s'" .
  moreover have "(elf_inv h ?n s' \<and> like t s') \<and> grown t s' \<and>
      (small s' \<longrightarrow> entries s' = entries t @ concat (map (alias_entries m t) es))"
  proof (rule for_each_entries [OF assms(1), of "\<lambda>s. elf_inv h ?n s \<and> like t s"])
    show "elf_inv h ?n t \<and> like t t" using assms(2) by (simp add: like_def grown_order.refl)
    show "(elf_inv h ?n r' \<and> like t r') \<and> grown r r' \<and> (small r' \<longrightarrow> entries r' = entries r @ alias_entries m t x)"
      if "emit_export_alias h m x r = Inr (v, r')" "elf_inv h ?n r \<and> like t r" for x r v r'
      using emit_export_alias_step [OF that(1) _ _ assms(2) refl] that(2) by blast
  qed (auto dest: elf_inv_tables)
  ultimately show ?thesis by blast
qed

section \<open>What the slots name\<close>

text \<open>The symbols that the slot of a function may name.\<close>

definition primary_symbol :: "wasm_module \<Rightarrow> debug_info \<Rightarrow> section_indices \<Rightarrow> nat \<Rightarrow> u8 list option \<times> elf64_sym \<Rightarrow> bool" where
  "primary_symbol m D idx i e \<longleftrightarrow>
     (i < length (mod_imports m) \<and> e \<in> set (import_entries m D (i, mod_imports m ! i))) \<or>
     (\<exists>fl \<in> set (di_funcs D). \<not> ly_cfi_thunk fl \<and> unat (ly_funcidx fl) = i \<and> e = function_entry m idx fl)"

definition slots_mean :: "(nat \<Rightarrow> u8 list option \<times> elf64_sym \<Rightarrow> bool) \<Rightarrow> elf_state \<Rightarrow> bool" where
  "slots_mean P s \<longleftrightarrow> (small s \<longrightarrow> (\<forall>i < length (es_slots s). sym_index (es_slots s ! i) \<noteq> UINT32_MAX \<longrightarrow>
     unat (sym_index (es_slots s ! i)) < length (entries s) \<and> P i (entries s ! unat (sym_index (es_slots s ! i)))))"

definition compiled_slots :: "func_layout list \<Rightarrow> elf_state \<Rightarrow> bool" where
  "compiled_slots fls s \<longleftrightarrow>
     (small s \<longrightarrow> (\<forall>fl \<in> set fls. \<not> ly_cfi_thunk fl \<longrightarrow> sym_index (es_slots s ! unat (ly_funcidx fl)) \<noteq> UINT32_MAX))"

lemma slots_mean_added:
  assumes "slots_mean P s" and "small s' \<longrightarrow> entries s' = entries s @ [x]" and "grown s s'"
    and "es_slots s' = (es_slots s)[i := slot]" and "sym_index slot = sym_index (es_slots s ! i) \<or> sym_index slot = symbol_count s \<and> P i x"
  shows "slots_mean P s'"
proof -
  have "sym_index (es_slots s' ! j) = sym_index (es_slots s ! j) \<or> (sym_index (es_slots s' ! j) = symbol_count s \<and> P j x)"
    if "j < length (es_slots s)" for j
    using assms(4,5) that by (cases "j = i") auto
  moreover have "unat (symbol_count s) = length (entries s) \<and> small s" if "small s'"
    using grown_small [OF assms(3) that] count_small [of s] by simp
  ultimately show ?thesis
    using assms(1,2,4) unfolding slots_mean_def by (fastforce simp: nth_append)
qed

lemma import_slots_step:
  assumes "emit_import_symbol h m D (i, import) s = Inr (u, s')" and "elf_inv h n s" and "i < length (mod_imports m)"
    and "length (mod_imports m) < 2 ^ 32" and "import = mod_imports m ! i" and "slots_mean (primary_symbol m D idx) s"
  shows "slots_mean (primary_symbol m D idx) s'"
proof -
  have i: "i < 2 ^ 32" using assms(3,4) by simp
  note step = emit_import_symbol_step [OF assms(1,2) i]
  show ?thesis
  proof (cases "import_kind import = WASM_EXTERN_FUNC")
    case True
    show ?thesis
    proof (rule slots_mean_added [OF assms(6)])
      show "sym_index ((es_slots s ! i)\<lparr>sym_index := symbol_count s\<rparr>) = sym_index (es_slots s ! i) \<or>
        sym_index ((es_slots s ! i)\<lparr>sym_index := symbol_count s\<rparr>) = symbol_count s \<and>
          primary_symbol m D idx i (Some (printed (func_label m (word_of_nat i))), import_symbol D i)"
        using True assms(3,5) by (simp add: primary_symbol_def import_entries_def)
    qed (use True step emit_import_symbol_run [OF assms(1) i] in \<open>simp_all add: import_entries_def\<close>)
  qed (use emit_import_symbol_run [OF assms(1) i] assms(6) in simp)
qed

lemma function_slots_step:
  assumes "emit_function_symbol h m idx fl s = Inr (u, s')" and "elf_inv h n s" and "fl \<in> set (di_funcs D)"
    and "slots_mean (primary_symbol m D idx) s" and "compiled_slots fls s"
  shows "slots_mean (primary_symbol m D idx) s' \<and> compiled_slots (fls @ [fl]) s'"
proof -
  note step = emit_function_symbol_step [OF assms(1,2)] and run = emit_function_symbol_run [OF assms(1)]
  let ?i = "unat (ly_funcidx fl)"
  have slot: "sym_index (slot_set fl k z) = (if ly_cfi_thunk fl then sym_index z else k)" for k z by (simp add: slot_set_def)
  have mean: "slots_mean (primary_symbol m D idx) s'"
  proof (rule slots_mean_added [OF assms(4)])
    show "sym_index (slot_set fl (symbol_count s) (es_slots s ! ?i)) = sym_index (es_slots s ! ?i) \<or>
      sym_index (slot_set fl (symbol_count s) (es_slots s ! ?i)) = symbol_count s \<and> primary_symbol m D idx ?i (function_entry m idx fl)"
      using assms(3) by (auto simp: slot primary_symbol_def)
  qed (use step run in simp_all)
  have fresh: "symbol_count s \<noteq> UINT32_MAX" "small s" if "small s'"
  proof -
    show "small s" using grown_small [OF _ that] step by blast
    have "length (entries s') = Suc (length (entries s))" using step that by simp
    then have "length (symbols s) < 2 ^ 32 - 1" using that by (simp add: small_def)
    then show "symbol_count s \<noteq> UINT32_MAX" using count_small [OF \<open>small s\<close>] by (auto simp: UINT32_MAX_def)
  qed
  have "compiled_slots (fls @ [fl]) s'"
    unfolding compiled_slots_def
  proof (intro impI ballI)
    fix gl assume small: "small s'" and gl: "gl \<in> set (fls @ [fl])" "\<not> ly_cfi_thunk gl"
    show "sym_index (es_slots s' ! unat (ly_funcidx gl)) \<noteq> UINT32_MAX"
      using gl assms(5) fresh [OF small] run
      by (cases "unat (ly_funcidx gl) = ?i") (auto simp: compiled_slots_def slot)
  qed
  with mean show ?thesis ..
qed

lemma function_slots:
  assumes "for_each fls (emit_function_symbol h m idx) s = Inr (u, s')" and "elf_inv h n s" and "set fls \<subseteq> set (di_funcs D)"
    and "slots_mean (primary_symbol m D idx) s" and "compiled_slots seen s"
  shows "slots_mean (primary_symbol m D idx) s' \<and> compiled_slots (seen @ fls) s'"
  using assms
proof (induction fls arbitrary: s seen)
  case (Cons fl fls)
  then obtain v t where 1: "emit_function_symbol h m idx fl s = Inr (v, t)" and 2: "for_each fls (emit_function_symbol h m idx) t = Inr (u, s')"
    by (auto simp: run)
  have "elf_inv h n t" using emit_function_symbol_step [OF 1 Cons.prems(2)] by blast
  moreover have "slots_mean (primary_symbol m D idx) t \<and> compiled_slots (seen @ [fl]) t"
    using function_slots_step [OF 1 Cons.prems(2) _ Cons.prems(4,5)] Cons.prems(3) by simp
  ultimately show ?case using Cons.IH [OF 2, of "seen @ [fl]"] Cons.prems(3) by simp
qed (simp add: ret_apply)

lemma import_slots:
  assumes "for_each (zip [0..<length (mod_imports m)] (mod_imports m)) (emit_import_symbol h m D) s = Inr (u, s')"
    and "elf_inv h n s" and "funcs_in m D" and "slots_mean (primary_symbol m D idx) s"
  shows "slots_mean (primary_symbol m D idx) s'"
proof -
  let ?imports = "zip [0..<length (mod_imports m)] (mod_imports m)"
  have few: "length (mod_imports m) < 2 ^ 32" using assms(3) by (simp add: funcs_in_def)
  have "(elf_inv h n s' \<and> slots_mean (primary_symbol m D idx) s') \<and> grown s s' \<and>
      (small s' \<longrightarrow> entries s' = entries s @ concat (map (import_entries m D) ?imports))"
  proof (rule for_each_entries [OF assms(1), where I = "\<lambda>s. elf_inv h n s \<and> slots_mean (primary_symbol m D idx) s"])
    show "(elf_inv h n r' \<and> slots_mean (primary_symbol m D idx) r') \<and> grown r r' \<and> (small r' \<longrightarrow> entries r' = entries r @ import_entries m D x)"
      if x: "x \<in> set ?imports" and "emit_import_symbol h m D x r = Inr (v, r')" "elf_inv h n r \<and> slots_mean (primary_symbol m D idx) r" for x r v r'
    proof -
      obtain i where i: "x = (i, mod_imports m ! i)" "i < length (mod_imports m)" using x by (force simp: in_set_zip)
      show ?thesis
        using emit_import_symbol_step [of h m D i "mod_imports m ! i" r v r' n] import_slots_step [of h m D i "mod_imports m ! i" r v r' n idx]
          i that(2,3) few by simp
    qed
  qed (use assms(2,4) in \<open>auto dest: elf_inv_tables\<close>)
  then show ?thesis by simp
qed

text \<open>The state before the relocation entries.\<close>

lemma symbols_stage:
  assumes 1: "emit_first_symbols h m D idx s = Inr (rodata, s1)" and 2: "alloc_slots h m s1 = Inr ((), s2)"
    and 3: "for_each (zip [0..<length (mod_imports m)] (mod_imports m)) (emit_import_symbol h m D) s2 = Inr ((), s3)"
    and 4: "for_each (di_funcs D) (emit_function_symbol h m idx) s3 = Inr ((), t)"
    and 5: "for_each (mod_exports m) (emit_export_alias h m) t = Inr ((), s5)"
    and fresh: "fresh_tables h s" and funcs: "funcs_in m D"
  shows "elf_inv h (elf_total_funcs m) t \<and> grown t s5 \<and> rela_inv h D (elf_total_funcs m) rodata [] s5 \<and>
    slots_mean (primary_symbol m D idx) t \<and> compiled_slots (di_funcs D) t \<and>
    es_shstrtab s5 = es_shstrtab s \<and> rest (es_rela s5) = [] \<and> symbol_count s2 = word_of_nat (length (first_entries m D idx)) \<and>
    (small t \<longrightarrow> entries t = tables_entries m D idx) \<and>
    (small s5 \<longrightarrow> entries s5 = entries t @ concat (map (alias_entries m t) (mod_exports m)))"
proof -
  let ?n = "elf_total_funcs m"
  note a1 = emit_first_symbols_step [OF 1 fresh]
  have a2: "elf_inv h ?n s2" "entries s2 = entries s1" "small s2 = small s1" "points s2 k a = points s1 k a"
      "es_ext_cache s2 = es_ext_cache s1" "es_rela s2 = es_rela s1" "es_shstrtab s2 = es_shstrtab s1" for k a
    using alloc_slots_step [OF 2] a1 by (auto simp: points_def grown_order.refl)
  note a3 = imports_stage [OF 3 a2(1) funcs]
  note a4 = functions_stage [OF 4 a3 [THEN conjunct1]]
  note a5 = exports_stage [OF 5 a4 [THEN conjunct1]]
  have same: "es_shstrtab s5 = es_shstrtab s" "rest (es_rela s5) = []" "es_ext_cache s5 = []"
    using a1 a2(5-7) a3 a4 a5 by (auto simp: apart_def)
  have g: "grown s2 s5" using a3 a4 a5 by (blast intro: grown_order.trans)
  have "di_rodata D \<noteq> [] \<longrightarrow> points s5 rodata (di_rodata_base D)"
    using a1 a2(1,4) points_grown [OF _ g] elf_inv_tables by blast
  then have "rela_inv h D ?n rodata [] s5" using a5 same by (simp add: rela_inv_def relas_def)
  moreover have "symbol_count s2 = word_of_nat (length (first_entries m D idx))"
    using a1 a2(2) by (simp add: symbol_count_eq flip: length_entries)
  moreover have "entries t = tables_entries m D idx" if "small t"
  proof -
    have "small s3" "small s2" using that a3 a4 by (auto dest: grown_small)
    then show ?thesis using that a1 a2(2,3) a3 a4 by (simp add: tables_entries_def)
  qed
  moreover have "slots_mean (primary_symbol m D idx) t \<and> compiled_slots (di_funcs D) t"
  proof -
    have "slots_mean (primary_symbol m D idx) s2" using alloc_slots_step [OF 2] a1 by (simp add: slots_mean_def)
    then have "slots_mean (primary_symbol m D idx) s3" by (rule import_slots [OF 3 a2(1) funcs])
    then show ?thesis using function_slots [OF 4 a3 [THEN conjunct1], of D "[]"] by (simp add: compiled_slots_def)
  qed
  ultimately show ?thesis using a4 a5 same by blast
qed

lemma emit_tables_step:
  assumes "emit_tables h address m D have_rela idx s = Inr (first_global, s')" and "fresh_tables h s" and "funcs_in m D"
  obtains t where "elf_inv h (elf_total_funcs m) t" and "slots_mean (primary_symbol m D idx) t" and "compiled_slots (di_funcs D) t"
    and "grown t s'"
    and "tables_ok s'" and "blocks_ok h s'" and "es_shstrtab s' = es_shstrtab s"
    and "first_global = word_of_nat (length (first_entries m D idx))"
    and "small s' \<longrightarrow> entries t = tables_entries m D idx \<and>
      (\<exists>more. entries s' = entries t @ concat (map (alias_entries m t) (mod_exports m)) @ more \<and>
        (\<forall>e \<in> set more. \<exists>a. snd e = synthesized a))"
    and "have_rela \<longrightarrow> 24 dvd length (rest (es_rela s')) \<and> list_all2 (rela_means D s') (filter is_absolute (di_relocs D)) (relas s')"
    and "\<not> have_rela \<longrightarrow> rest (es_rela s') = []"
proof -
  let ?n = "elf_total_funcs m"
  obtain rodata s1 s2 s3 t s5 where
    1: "emit_first_symbols h m D idx s = Inr (rodata, s1)" and 2: "alloc_slots h m s1 = Inr ((), s2)" and
    3: "for_each (zip [0..<length (mod_imports m)] (mod_imports m)) (emit_import_symbol h m D) s2 = Inr ((), s3)" and
    4: "for_each (di_funcs D) (emit_function_symbol h m idx) s3 = Inr ((), t)" and
    5: "for_each (mod_exports m) (emit_export_alias h m) t = Inr ((), s5)" and
    6: "(if have_rela then for_each (di_relocs D) (emit_rela h address m D rodata) else ret ()) s5 = Inr ((), s')" and
    fg: "first_global = symbol_count s2"
    using assms(1) unfolding emit_tables_def by (elim bind_runE) (simp add: that gets_def)
  note a5 = symbols_stage [OF 1 2 3 4 5 assms(2,3)]
  then have start: "rela_inv h D ?n rodata [] s5" and t: "elf_inv h ?n t" "slots_mean (primary_symbol m D idx) t"
    "compiled_slots (di_funcs D) t" by simp_all
  have a6: "tables_ok s' \<and> blocks_ok h s' \<and> adds_synthesized s5 s' \<and> es_shstrtab s' = es_shstrtab s5 \<and>
    (have_rela \<longrightarrow> 24 dvd length (rest (es_rela s')) \<and> list_all2 (rela_means D s') (filter is_absolute (di_relocs D)) (relas s')) \<and>
    (\<not> have_rela \<longrightarrow> rest (es_rela s') = [])"
  proof (cases have_rela)
    case True
    then have loop: "for_each (di_relocs D) (emit_rela h address m D rodata) s5 = Inr ((), s')" using 6 by simp
    have "along no_names (for_each (di_relocs D) (emit_rela h address m D rodata))" by (intro along)
    from alongD [OF this loop] have "no_names s5 s'" .
    with emit_relas [OF loop start] True show ?thesis by (simp add: rela_inv_def elf_inv_def no_names_def)
  qed (use 6 a5 in \<open>auto simp: rela_inv_def elf_inv_def synthesized_order.refl\<close>)
  show thesis
  proof (rule that [OF t])
    show "grown t s'" using a5 a6 by (auto simp: adds_synthesized_def intro: grown_order.trans)
    show "first_global = word_of_nat (length (first_entries m D idx))"
      using a5 by (simp add: fg)
    show "small s' \<longrightarrow> entries t = tables_entries m D idx \<and>
      (\<exists>more. entries s' = entries t @ concat (map (alias_entries m t) (mod_exports m)) @ more \<and>
        (\<forall>e \<in> set more. \<exists>a. snd e = synthesized a))"
    proof
      assume small: "small s'"
      then have "small s5" "small t" using a5 a6 by (auto simp: adds_synthesized_def dest: grown_small)
      then show "entries t = tables_entries m D idx \<and>
      (\<exists>more. entries s' = entries t @ concat (map (alias_entries m t) (mod_exports m)) @ more \<and>
        (\<forall>e \<in> set more. \<exists>a. snd e = synthesized a))"
        using a5 a6 by (auto simp: adds_synthesized_def)
    qed
  qed (use a5 a6 in simp_all)
qed

section \<open>Nothing undefined\<close>

lemma emit_first_symbols_fault: "emit_first_symbols h m D idx s \<noteq> Inl Undefined"
  unfolding emit_first_symbols_def by (intro safe)

lemma alloc_slots_fault: "alloc_slots h m s \<noteq> Inl Undefined"
  unfolding alloc_slots_def by (intro safe)

lemma emit_tables_fault:
  assumes "fresh_tables h s" and "funcs_in m D"
  shows "emit_tables h address m D have_rela idx s \<noteq> Inl Undefined"
proof -
  let ?n = "elf_total_funcs m" and ?imports = "zip [0..<length (mod_imports m)] (mod_imports m)"
  have imps: "for_each ?imports (emit_import_symbol h m D) s2 \<noteq> Inl Undefined" if "elf_inv h ?n s2" for s2
  proof (rule for_each_safe [where I = "elf_inv h ?n", OF that])
    fix x s assume x: "x \<in> set ?imports" and inv: "elf_inv h ?n s"
    obtain i import where i: "x = (i, import)" by (cases x)
    show "emit_import_symbol h m D x s \<noteq> Inl Undefined"
      using emit_import_symbol_fault [OF inv] assms(2) x i by (simp add: funcs_in_def)
    have "fst x \<in> set [0..<length (mod_imports m)]" using x by (metis set_zip_leftD prod.collapse)
    then show "elf_inv h ?n s'" if "emit_import_symbol h m D x s = Inr (u, s')" for u s'
      using emit_import_symbol_step [of h m D i import s u s'] that inv assms(2) i by (simp add: funcs_in_def)
  qed
  have fns: "for_each (di_funcs D) (emit_function_symbol h m idx) s3 \<noteq> Inl Undefined" if "elf_inv h ?n s3" for s3
    by (rule for_each_safe [where I = "elf_inv h ?n", OF that])
      (use emit_function_symbol_fault emit_function_symbol_step assms(2) in \<open>auto simp: funcs_in_def\<close>)
  have exports: "for_each (mod_exports m) (emit_export_alias h m) t \<noteq> Inl Undefined" if "elf_inv h ?n t" for t
    by (rule for_each_safe [where I = "\<lambda>s. elf_inv h ?n s \<and> like t s"])
      (use that emit_export_alias_fault emit_export_alias_step [OF _ _ _ that refl] in \<open>auto simp: like_def grown_order.refl\<close>)
  show ?thesis
    unfolding emit_tables_def
  proof (intro safe emit_first_symbols_fault alloc_slots_fault)
    fix rodata s1 u2 s2 c s2' u3 s3 u4 t u5 s5
    assume 1: "emit_first_symbols h m D idx s = Inr (rodata, s1)" and 2: "alloc_slots h m s1 = Inr (u2, s2)" and
      g: "gets symbol_count s2 = Inr (c, s2')"
    then have s2: "s2' = s2" "elf_inv h ?n s2"
      using emit_first_symbols_step [OF 1 assms(1)] alloc_slots_step [OF 2] by auto
    then show "for_each ?imports (emit_import_symbol h m D) s2' \<noteq> Inl Undefined" using imps by simp
    assume 3: "for_each ?imports (emit_import_symbol h m D) s2' = Inr (u3, s3)"
    then have s3: "elf_inv h ?n s3" using imports_stage [OF _ s2(2) assms(2)] s2(1) by blast
    then show "for_each (di_funcs D) (emit_function_symbol h m idx) s3 \<noteq> Inl Undefined" by (rule fns)
    assume 4: "for_each (di_funcs D) (emit_function_symbol h m idx) s3 = Inr (u4, t)"
    then have t: "elf_inv h ?n t" using functions_stage [OF _ s3] by blast
    then show "for_each (mod_exports m) (emit_export_alias h m) t \<noteq> Inl Undefined" by (rule exports)
    assume 5: "for_each (mod_exports m) (emit_export_alias h m) t = Inr (u5, s5)"
    have "rela_inv h D ?n rodata [] s5" using symbols_stage [OF 1, of s2 s3 t s5] 2 3 4 5 s2(1) assms by simp
    then show "for_each (di_relocs D) (emit_rela h address m D rodata) s5 \<noteq> Inl Undefined" by (rule emit_relas_fault)
  qed
qed

end
