(* ===== verification/Debug_Elf_File.thy ===== *)
theory Debug_Elf_File
  imports Debug_Elf_Emit Jit_Layout
begin

text \<open>
  The file of the debug ELF: the parts are written to disjoint places, each aligned as its section
  says, so that a reader that knows the ELF format finds every part again.
\<close>

section \<open>Writing blocks\<close>

definition do_blocks :: "(u64 \<times> u8 list) list \<Rightarrow> unit elf_op" where
  "do_blocks bs = on_out (for_each bs poke_block)"

lemma on_out_bind: "on_out (bind m (\<lambda>_. n)) = bind (on_out m) (\<lambda>_. on_out n)"
  by (auto simp: on_out_def on_part_def bind_def fun_eq_iff split: sum.splits)

lemma on_out_ret [simp]: "on_out (ret ()) = ret ()"
  by (auto simp: on_out_def on_part_def ret_def fun_eq_iff)

lemma do_blocks_single: "on_out (poke off bs) = do_blocks [(off, bs)]"
  unfolding do_blocks_def for_each.simps on_out_bind on_out_ret by (simp add: fun_eq_iff bind_def ret_def split: sum.split)

lemma do_blocks_append: "bind (do_blocks xs) (\<lambda>_. bind (do_blocks ys) k) = bind (do_blocks (xs @ ys)) k"
  unfolding do_blocks_def for_each_append on_out_bind by (simp only: bind_assoc)

lemma do_blocks_end: "bind (do_blocks xs) (\<lambda>_. do_blocks ys) = do_blocks (xs @ ys)"
  unfolding do_blocks_def for_each_append on_out_bind ..

lemma do_blocks_each: "for_each xs (\<lambda>x. on_out (poke (f x) (g x))) = do_blocks (map (\<lambda>x. (f x, g x)) xs)"
proof (induction xs)
  case (Cons x xs)
  then show ?case by (simp only: for_each.simps list.map do_blocks_single do_blocks_end append.simps)
qed (simp add: do_blocks_def)

definition nonempty :: "(u64 \<times> u8 list) list \<Rightarrow> (u64 \<times> u8 list) list" where
  "nonempty bs = filter (\<lambda>b. snd b \<noteq> []) bs"

lemma copy_part_blocks: "copy_part off bs = do_blocks (nonempty [(off, bs)])"
  by (simp add: copy_part_def nonempty_def do_blocks_single) (simp add: do_blocks_def)

lemma gets_after_blocks:
  assumes "\<And>s t. f (s\<lparr>es_out := t\<rparr>) = f s"
  shows "bind (do_blocks xs) (\<lambda>_. bind (gets f) g) s = bind (do_blocks xs) (\<lambda>_. g (f s)) s"
  by (auto simp: do_blocks_def on_out_def on_part_def bind_def gets_def assms split: sum.split)

lemma in_order_filter: "in_order lo (map f xs) hi \<Longrightarrow> in_order lo (map f (filter P xs)) hi"
proof (induction xs arbitrary: lo)
  case (Cons x xs)
  obtain a b where x: "f x = (a, b)" by (cases "f x")
  have "in_order lo (map f xs) hi" using Cons.prems x by (auto intro: in_order_lower)
  then show ?case using Cons x by auto
qed simp

lemma nonempty_run:
  assumes "in_order 0 (block_slots bs) (length (es_out s))"
  obtains mem where "do_blocks (nonempty bs) s = Inr ((), s\<lparr>es_out := mem\<rparr>)" and "length mem = length (es_out s)"
    and "\<And>b. b \<in> set bs \<Longrightarrow> holds_block mem b"
proof -
  have "in_order 0 (block_slots (nonempty bs)) (length (es_out s))"
    using assms unfolding block_slots_def nonempty_def by (rule in_order_filter)
  from poke_blocks_run [OF this] obtain mem where mem: "for_each (nonempty bs) poke_block (es_out s) = Inr ((), mem)"
    "length mem = length (es_out s)" "list_all (holds_block mem) (nonempty bs)" by auto
  show thesis
  proof (rule that)
    show "do_blocks (nonempty bs) s = Inr ((), s\<lparr>es_out := mem\<rparr>)" using mem(1) by (simp add: do_blocks_def on_out_def on_part_def)
    show "length mem = length (es_out s)" by (rule mem(2))
    show "holds_block mem b" if "b \<in> set bs" for b
      using that mem(3) by (cases "snd b = []") (auto simp: holds_block_def list_all_iff nonempty_def)
  qed
qed

section \<open>The blocks of the file\<close>

lemma bytes_nonempty [simp]: "ehdr_bytes h \<noteq> []" "shdr_bytes k \<noteq> []"
  by (simp_all only: length_greater_0_conv [symmetric] ehdr_length record_lengths)

definition part_blocks :: "debug_info \<Rightarrow> bool \<Rightarrow> elf_layout \<Rightarrow> elf_state \<Rightarrow> (u64 \<times> u8 list) list" where
  "part_blocks D have_rela lay s =
     [(off_text lay, di_code D)] @ (if di_rodata D \<noteq> [] then [(off_rodata lay, di_rodata D)] else []) @
     [(off_symtab lay, rest (es_symtab s)), (off_strtab lay, strings s)] @
     (if have_rela then [(off_rela lay, rest (es_rela s))] else []) @ [(off_shstrtab lay, rest (es_shstrtab s))]"

definition header_blocks :: "elf_layout \<Rightarrow> (u16 \<times> elf64_shdr) list \<Rightarrow> (u64 \<times> u8 list) list" where
  "header_blocks lay shdrs = map (\<lambda>x. (off_shdrs lay + 64 * ucast (fst x), shdr_bytes (snd x))) shdrs"

definition file_blocks ::
    "debug_info \<Rightarrow> bool \<Rightarrow> section_indices \<Rightarrow> section_names \<Rightarrow> u32 \<Rightarrow> elf_state \<Rightarrow> (u64 \<times> u8 list) list" where
  "file_blocks D have_rela idx names first_global s =
     (let lay = lay_out_file D have_rela idx s in
      [(0, ehdr_bytes (elf_header idx lay))] @ part_blocks D have_rela lay s @
      header_blocks lay (section_headers D have_rela idx names first_global lay s))"

lemma section_headers_out [simp]:
  "section_headers D have_rela idx names fg lay (s\<lparr>es_out := t\<rparr>) = section_headers D have_rela idx names fg lay s"
  by (simp add: section_headers_def)

lemma write_file_blocks:
  "write_file h D have_rela idx names first_global s =
     (if calloc_ok h 1 (unat (file_size (lay_out_file D have_rela idx s)))
      then do_blocks (nonempty (file_blocks D have_rela idx names first_global s))
        (s\<lparr>es_out := replicate (unat (file_size (lay_out_file D have_rela idx s))) 0\<rparr>)
      else Inl Check_failed)"
proof -
  let ?lay = "lay_out_file D have_rela idx s"
  have headers: "(\<lambda>(i, hdr). on_out (poke (off_shdrs ?lay + 64 * ucast i) (shdr_bytes hdr))) =
    (\<lambda>x. on_out (poke (off_shdrs ?lay + 64 * ucast (fst x)) (shdr_bytes (snd x))))"
    by (simp add: fun_eq_iff split_beta)
  have first: "on_out (poke 0 (ehdr_bytes (elf_header idx ?lay))) = do_blocks (nonempty [(0, ehdr_bytes (elf_header idx ?lay))])"
    by (simp add: do_blocks_single nonempty_def)
  have rodata: "(if di_rodata D \<noteq> [] then on_out (poke (off_rodata ?lay) (di_rodata D)) else ret ()) =
    do_blocks (nonempty (if di_rodata D \<noteq> [] then [(off_rodata ?lay, di_rodata D)] else []))"
    by (simp add: do_blocks_single nonempty_def) (simp add: do_blocks_def)
  have rela: "(if have_rela then do_blocks (nonempty [(off_rela ?lay, bs)]) else ret ()) =
    do_blocks (nonempty (if have_rela then [(off_rela ?lay, bs)] else []))" for bs
    by (simp add: nonempty_def do_blocks_def)
  have split: "nonempty (xs @ ys) = nonempty xs @ nonempty ys" for xs ys by (simp add: nonempty_def)
  have last: "do_blocks (map (\<lambda>x. (off_shdrs ?lay + 64 * ucast (fst x), shdr_bytes (snd x))) hs) =
    do_blocks (nonempty (header_blocks ?lay hs))" for hs
    by (simp add: header_blocks_def nonempty_def filter_map comp_def)
  let ?s = "s\<lparr>es_out := replicate (unat (file_size ?lay)) 0\<rparr>"
  have "bind (do_blocks (nonempty [(0, ehdr_bytes (elf_header idx ?lay))])) (\<lambda>_.
     bind (do_blocks (nonempty [(off_text ?lay, di_code D)])) (\<lambda>_.
     bind (do_blocks (nonempty (if di_rodata D \<noteq> [] then [(off_rodata ?lay, di_rodata D)] else []))) (\<lambda>_.
     bind (gets (\<lambda>s. rest (es_symtab s))) (\<lambda>symtab.
     bind (do_blocks (nonempty [(off_symtab ?lay, symtab)])) (\<lambda>_.
     bind (gets (\<lambda>s. rest (es_strtab s))) (\<lambda>strtab.
     bind (do_blocks (nonempty [(off_strtab ?lay, strtab)])) (\<lambda>_.
     bind (gets (\<lambda>s. rest (es_rela s))) (\<lambda>rela.
     bind (do_blocks (nonempty (if have_rela then [(off_rela ?lay, rela)] else []))) (\<lambda>_.
     bind (gets (\<lambda>s. rest (es_shstrtab s))) (\<lambda>shstrtab.
     bind (do_blocks (nonempty [(off_shstrtab ?lay, shstrtab)])) (\<lambda>_.
     bind (gets (section_headers D have_rela idx names first_global ?lay)) (\<lambda>shdrs.
     do_blocks (nonempty (header_blocks ?lay shdrs)))))))))))))) ?s =
    do_blocks (nonempty (file_blocks D have_rela idx names first_global s)) ?s"
    unfolding do_blocks_append
    by (simp add: gets_after_blocks do_blocks_append do_blocks_end split del: if_split)
      (simp add: file_blocks_def part_blocks_def Let_def nonempty_def)
  note parts = this
  show ?thesis
  proof (cases "calloc_ok h 1 (unat (file_size ?lay))")
    case True
    then show ?thesis
      unfolding write_file_def
      by (subst gets_bind)
        (simp only: headers first rodata rela copy_part_blocks do_blocks_each last check_True bind_ret modify_bind parts if_True)
  next
    case False
    then show ?thesis
      unfolding write_file_def by (subst gets_bind) (simp only: check_False bind_fail fail_apply if_False)
  qed
qed

section \<open>The layout\<close>

text \<open>
  An address is below \<open>2 ^ 47\<close> on x86-64, so no allocation is that large; the offsets, sums of a few
  lengths, then do not wrap around.
\<close>

definition addressable :: "host \<Rightarrow> bool" where
  "addressable h \<longleftrightarrow> (\<forall>n. realloc_ok h n \<longrightarrow> n < 2 ^ 47)"

definition parts_small :: "debug_info \<Rightarrow> elf_state \<Rightarrow> bool" where
  "parts_small D s \<longleftrightarrow> length (di_code D) < 2 ^ 47 \<and> length (di_rodata D) < 2 ^ 47 \<and> length (rest (es_symtab s)) < 2 ^ 47 \<and>
     length (strings s) < 2 ^ 47 \<and> length (rest (es_rela s)) < 2 ^ 47 \<and> length (rest (es_shstrtab s)) < 2 ^ 47"

lemma blocks_small:
  "blocks_ok h s \<Longrightarrow> addressable h \<Longrightarrow> length (di_code D) < 2 ^ 47 \<Longrightarrow> length (di_rodata D) < 2 ^ 47 \<Longrightarrow> parts_small D s"
  by (auto simp: blocks_ok_def addressable_def parts_small_def)

lemma unat_add_len: "unat x + n < 2 ^ 64 \<Longrightarrow> unat (x + word_of_nat n :: u64) = unat x + n"
  by (simp add: unat_word_ariths unat_of_nat)

lemma align_up_pow:
  assumes "k \<in> {3, 4}" and "unat x + 2 ^ k < 2 ^ 64"
  shows "unat x \<le> unat (align_up x (2 ^ k))" and "unat (align_up x (2 ^ k)) < unat x + 2 ^ k" and "2 ^ k dvd unat (align_up x (2 ^ k))"
proof -
  have m: "(2 ^ k :: u64) - 1 = mask k" by (simp add: mask_eq_exp_minus_1)
  have u: "unat ((2 ^ k :: u64) - 1) = 2 ^ k - 1" using assms(1) by auto
  let ?y = "unat x + (2 ^ k - 1)"
  have up: "unat (align_up x (2 ^ k)) = ?y div 2 ^ k * 2 ^ k" using unat_align_up_mask [OF m u assms(2)] .
  have "?y div 2 ^ k * 2 ^ k + ?y mod 2 ^ k = ?y" by (rule div_mult_mod_eq)
  moreover have "?y mod 2 ^ k < 2 ^ k" by simp
  moreover have "0 < (2 ^ k :: nat)" by simp
  ultimately show "unat x \<le> unat (align_up x (2 ^ k))" "unat (align_up x (2 ^ k)) < unat x + 2 ^ k"
    unfolding up by linarith+
  show "2 ^ k dvd unat (align_up x (2 ^ k))" unfolding up by simp
qed

lemmas align_up_16 = align_up_pow [of 4, simplified]
lemmas align_up_8 = align_up_pow [of 3, simplified]

lemma shnum_bound: "unat (shnum (number_sections ro re)) = 5 + (if ro then 1 else 0) + (if re then 1 else 0)"
  by (simp add: number_sections_def)

lemma layout_order:
  assumes "parts_small D s" and idx: "idx = number_sections (di_rodata D \<noteq> []) have_rela"
  defines "lay \<equiv> lay_out_file D have_rela idx s"
  shows "in_order 64 (block_slots (part_blocks D have_rela lay s)) (unat (off_shdrs lay))"
    and "unat (file_size lay) = unat (off_shdrs lay) + 64 * unat (shnum idx)"
    and "unat (file_size lay) < 2 ^ 60"
    and "16 dvd unat (off_text lay)" and "16 dvd unat (off_rodata lay)" and "8 dvd unat (off_symtab lay)"
    and "8 dvd unat (off_rela lay)" and "8 dvd unat (off_shdrs lay)"
    and "unat (file_size lay) \<le> length (di_code D) + length (di_rodata D) + length (rest (es_symtab s)) + length (strings s) +
      length (rest (es_rela s)) + length (rest (es_shstrtab s)) + 552"
proof -
  let ?n = "\<lambda>bs. word_of_nat (length (bs :: u8 list)) :: u64"
  note small = assms(1) [unfolded parts_small_def, simplified]
  define o1 where "o1 = (64 :: u64) + ?n (di_code D)"
  define ro where "ro = align_up o1 16"
  define o2 where "o2 = (if di_rodata D \<noteq> [] then ro + ?n (di_rodata D) else o1)"
  define sy where "sy = align_up o2 8"
  define st where "st = sy + ?n (rest (es_symtab s))"
  define o4 where "o4 = st + ?n (strings s)"
  define re where "re = align_up o4 8"
  define o5 where "o5 = (if have_rela then re + ?n (rest (es_rela s)) else o4)"
  define o6 where "o6 = o5 + ?n (rest (es_shstrtab s))"
  define sh where "sh = align_up o6 8"
  have start: "align_up (64 :: u64) 16 = 64" by (simp add: align_up_def)
  have lay: "lay = \<lparr>off_text = 64, off_rodata = (if di_rodata D \<noteq> [] then ro else 0), off_symtab = sy, off_strtab = st,
      off_rela = (if have_rela then re else 0), off_shstrtab = o5, off_shdrs = sh, file_size = sh + ucast (shnum idx) * 64\<rparr>"
    unfolding lay_def lay_out_file_def Let_def start
    by (simp add: o1_def ro_def o2_def sy_def st_def o4_def re_def o5_def o6_def sh_def)
  have 1: "unat o1 = 64 + length (di_code D)" using small unat_add_len [of 64 "length (di_code D)"] by (simp add: o1_def)
  have 2: "unat o1 \<le> unat ro" "unat ro < unat o1 + 16" "16 dvd unat ro"
    using align_up_16 [of o1] small 1 by (simp_all add: ro_def)
  have 3: "unat o2 = (if di_rodata D \<noteq> [] then unat ro + length (di_rodata D) else unat o1)"
    using small unat_add_len [of ro "length (di_rodata D)"] 1 2 by (simp add: o2_def)
  then have 3: "unat o2 = (if di_rodata D \<noteq> [] then unat ro + length (di_rodata D) else unat o1)"
      "unat o1 \<le> unat o2" "unat o2 < 2 ^ 50" using 1 2 small by auto
  have 4: "unat o2 \<le> unat sy" "unat sy < unat o2 + 8" "8 dvd unat sy" using align_up_8 [of o2] 3 by (simp_all add: sy_def)
  have 5: "unat st = unat sy + length (rest (es_symtab s))" using small 3 4 unat_add_len [of sy "length (rest (es_symtab s))"] by (simp add: st_def)
  have 6: "unat o4 = unat st + length (strings s)" using small 3 4 5 unat_add_len [of st "length (strings s)"] by (simp add: o4_def)
  then have 6: "unat o4 = unat st + length (strings s)" "unat o4 < 2 ^ 51" using small 3 4 5 by simp_all
  have 7: "unat o4 \<le> unat re" "unat re < unat o4 + 8" "8 dvd unat re" using align_up_8 [of o4] 6 by (simp_all add: re_def)
  have 8: "unat o5 = (if have_rela then unat re + length (rest (es_rela s)) else unat o4)"
    using small unat_add_len [of re "length (rest (es_rela s))"] 6 7 by (simp add: o5_def)
  then have 8: "unat o5 = (if have_rela then unat re + length (rest (es_rela s)) else unat o4)" "unat o4 \<le> unat o5" "unat o5 < 2 ^ 52"
    using 6 7 small by auto
  have 9: "unat o6 = unat o5 + length (rest (es_shstrtab s))"
    using small 8 unat_add_len [of o5 "length (rest (es_shstrtab s))"] by (simp add: o6_def)
  have 10: "unat o6 \<le> unat sh" "unat sh < unat o6 + 8" "8 dvd unat sh" using align_up_8 [of o6] 8 9 small by (simp_all add: sh_def)
  have n: "unat (ucast (shnum idx) * 64 :: u64) = 64 * unat (shnum idx)" "unat (shnum idx) \<le> 7"
    unfolding idx number_sections_def by simp_all
  have 11: "unat (file_size lay) = unat sh + 64 * unat (shnum idx)"
    using 8 9 10 small n by (simp add: lay unat_word_ariths)
  show "in_order 64 (block_slots (part_blocks D have_rela lay s)) (unat (off_shdrs lay))"
    using 1 2 3(1) 4 5 6(1) 7 8(1) 9 10 by (cases have_rela; cases "di_rodata D = []") (simp_all add: part_blocks_def lay)
  show "unat (file_size lay) = unat (off_shdrs lay) + 64 * unat (shnum idx)" using 11 by (simp add: lay)
  show "unat (file_size lay) < 2 ^ 60" using 11 n(2) 8(3) 9 10 small by simp
  have "unat o2 \<le> unat o1 + 16 + length (di_rodata D)" "unat o5 \<le> unat o4 + 8 + length (rest (es_rela s))"
    using 2 3(1) 7 8(1) by auto
  then show "unat (file_size lay) \<le> length (di_code D) + length (di_rodata D) + length (rest (es_symtab s)) + length (strings s) +
      length (rest (es_rela s)) + length (rest (es_shstrtab s)) + 552"
    using 1 4(2) 5 6(1) 9 10(2) 11 n(2) by simp
  show "16 dvd unat (off_text lay)" "16 dvd unat (off_rodata lay)" "8 dvd unat (off_symtab lay)"
    "8 dvd unat (off_rela lay)" "8 dvd unat (off_shdrs lay)"
    using 2 4 7 10 by (simp_all add: lay)
qed

section \<open>The section headers\<close>

lemma section_header_indices:
  "map fst (section_headers D have_rela (number_sections (di_rodata D \<noteq> []) have_rela) names fg lay s) =
     map word_of_nat [0..<unat (shnum (number_sections (di_rodata D \<noteq> []) have_rela))]"
  by (simp add: section_headers_def number_sections_def Let_def upt_rec)

lemma header_blocks_order:
  assumes "map fst hs = map word_of_nat [k..<k + length hs]" and "unat (off_shdrs lay) + 64 * (k + length hs) < 2 ^ 60"
    and "k + length hs < 2 ^ 16"
  shows "in_order (unat (off_shdrs lay) + 64 * k) (block_slots (header_blocks lay hs)) (unat (off_shdrs lay) + 64 * (k + length hs))"
  using assms
proof (induction hs arbitrary: k)
  case (Cons x hs)
  have "[k..<k + length (x # hs)] = k # [Suc k..<Suc k + length hs]" by (simp add: upt_rec)
  then have x: "fst x = word_of_nat k" "map fst hs = map word_of_nat [Suc k..<Suc k + length hs]" using Cons.prems(1) by simp_all
  have k: "unat (ucast (fst x) :: u64) = k" using x(1) Cons.prems(3) by (simp add: unsigned_ucast_eq unat_of_nat take_bit_nat_eq_self)
  have "unat (64 * ucast (fst x) :: u64) = 64 * k"
    using k Cons.prems(2) by (simp add: unat_word_ariths)
  then have at: "unat (off_shdrs lay + 64 * ucast (fst x)) = unat (off_shdrs lay) + 64 * k"
    using Cons.prems(2) by (simp add: unat_word_ariths)
  have "in_order (unat (off_shdrs lay) + 64 * Suc k) (block_slots (header_blocks lay hs)) (unat (off_shdrs lay) + 64 * (Suc k + length hs))"
    using Cons.IH [OF x(2)] Cons.prems(2,3) by simp
  then show ?case using at by (simp add: header_blocks_def ac_simps)
qed (simp add: header_blocks_def)

lemma file_order:
  assumes "parts_small D s" and idx: "idx = number_sections (di_rodata D \<noteq> []) have_rela"
  shows "in_order 0 (block_slots (file_blocks D have_rela idx names fg s)) (unat (file_size (lay_out_file D have_rela idx s)))"
proof -
  let ?lay = "lay_out_file D have_rela idx s"
  let ?hs = "section_headers D have_rela idx names fg ?lay s"
  note order = layout_order [OF assms]
  have len: "length ?hs = unat (shnum idx)" using arg_cong [OF section_header_indices [of D have_rela names fg ?lay s], of length] idx by simp
  have "unat (shnum idx) \<le> 7" unfolding idx number_sections_def by simp
  then have "in_order (unat (off_shdrs ?lay) + 64 * 0) (block_slots (header_blocks ?lay ?hs)) (unat (off_shdrs ?lay) + 64 * (0 + length ?hs))"
    using section_header_indices [of D have_rela names fg ?lay s] order(2,3) idx len by (intro header_blocks_order) simp_all
  then have "in_order (unat (off_shdrs ?lay)) (block_slots (header_blocks ?lay ?hs)) (unat (file_size ?lay))"
    using order(2) len by simp
  with order(1) have "in_order 64 (block_slots (part_blocks D have_rela ?lay s @ header_blocks ?lay ?hs)) (unat (file_size ?lay))"
    unfolding block_slots_simps(3) by (rule in_order_append)
  then show ?thesis by (simp add: file_blocks_def Let_def elf_header_def ELFMAG_def)
qed

section \<open>Reading the file\<close>

text \<open>The sections of a file, their contents, and their names, as a reader finds them.\<close>

definition file_header :: "u8 list \<Rightarrow> elf64_ehdr" where
  "file_header f = ehdr_of (take 64 f)"

definition file_sections :: "u8 list \<Rightarrow> elf64_shdr list" where
  "file_sections f = map (\<lambda>i. shdr_of (take 64 (drop (unat (e_shoff (file_header f)) + 64 * i) f)))
     [0..<unat (e_shnum (file_header f))]"

definition section_bytes :: "u8 list \<Rightarrow> elf64_shdr \<Rightarrow> u8 list" where
  "section_bytes f h = take (unat (sh_size h)) (drop (unat (sh_offset h)) f)"

definition named_sections :: "u8 list \<Rightarrow> (u8 list option \<times> u8 list) list" where
  "named_sections f =
     (let shstr = section_bytes f (file_sections f ! unat (e_shstrndx (file_header f)))
      in map (\<lambda>h. (string_at shstr (unat (sh_name h)), section_bytes f h)) (file_sections f))"

text \<open>The section of a type, and through it the symbols with their names, and the relocation entries.\<close>

definition section_of :: "u32 \<Rightarrow> u8 list \<Rightarrow> elf64_shdr option" where
  "section_of type f = List.find (\<lambda>h. sh_type h = type) (file_sections f)"

definition file_symbols :: "u8 list \<Rightarrow> (u8 list option \<times> elf64_sym) list" where
  "file_symbols f =
     (case section_of SHT_SYMTAB f of
        None \<Rightarrow> []
      | Some h \<Rightarrow> (let str = section_bytes f (file_sections f ! unat (sh_link h))
          in map (shown str) (table_of 24 sym_of (section_bytes f h))))"

definition file_relocs :: "u8 list \<Rightarrow> elf64_rela list" where
  "file_relocs f = (case section_of SHT_RELA f of None \<Rightarrow> [] | Some h \<Rightarrow> table_of 24 rela_of (section_bytes f h))"

definition first_global_of :: "u8 list \<Rightarrow> nat" where
  "first_global_of f = (case section_of SHT_SYMTAB f of None \<Rightarrow> 0 | Some h \<Rightarrow> unat (sh_info h))"

definition part_contents :: "debug_info \<Rightarrow> bool \<Rightarrow> elf_state \<Rightarrow> u8 list list" where
  "part_contents D have_rela s = [[], di_code D] @ (if di_rodata D \<noteq> [] then [di_rodata D] else []) @
     [rest (es_symtab s), strings s] @ (if have_rela then [rest (es_rela s)] else []) @ [rest (es_shstrtab s)]"

lemma header_place:
  assumes "unat off + 64 * i < 2 ^ 60" and "i < 2 ^ 16"
  shows "unat (off + 64 * ucast (word_of_nat i :: u16) :: u64) = unat off + 64 * i"
proof -
  have "unat (ucast (word_of_nat i :: u16) :: u64) = i"
    using assms(2) by (simp add: unsigned_ucast_eq unat_of_nat take_bit_nat_eq_self)
  then have "unat (64 * ucast (word_of_nat i :: u16) :: u64) = 64 * i" using assms(1) by (simp add: unat_word_ariths)
  then show ?thesis using assms(1) by (simp add: unat_word_ariths)
qed

text \<open>What the written file holds.\<close>

lemma written:
  assumes "write_file h D have_rela idx names fg s = Inr (u, s')" and small: "parts_small D s"
    and idx: "idx = number_sections (di_rodata D \<noteq> []) have_rela"
  defines "lay \<equiv> lay_out_file D have_rela idx s" and "f \<equiv> es_out s'"
  shows "s' = s\<lparr>es_out := f\<rparr>" and "length f = unat (file_size lay)" and "file_header f = elf_header idx lay"
    and "file_sections f = map snd (section_headers D have_rela idx names fg lay s)"
    and "map (section_bytes f) (file_sections f) = part_contents D have_rela s"
proof -
  let ?s = "s\<lparr>es_out := replicate (unat (file_size lay)) 0\<rparr>"
  let ?hs = "section_headers D have_rela idx names fg lay s"
  have run: "do_blocks (nonempty (file_blocks D have_rela idx names fg s)) ?s = Inr (u, s')"
    using assms(1) by (simp add: write_file_blocks lay_def split: if_splits)
  have "in_order 0 (block_slots (file_blocks D have_rela idx names fg s)) (length (es_out ?s))"
    using file_order [OF small idx] by (simp add: lay_def)
  then obtain mem where mem: "do_blocks (nonempty (file_blocks D have_rela idx names fg s)) ?s = Inr ((), ?s\<lparr>es_out := mem\<rparr>)"
    "length mem = length (es_out ?s)" "\<And>b. b \<in> set (file_blocks D have_rela idx names fg s) \<Longrightarrow> holds_block mem b"
    by (rule nonempty_run) blast
  have s': "s' = s\<lparr>es_out := mem\<rparr>" using run mem(1) by simp
  then have f: "f = mem" unfolding f_def by simp
  with s' show "s' = s\<lparr>es_out := f\<rparr>" "length f = unat (file_size lay)" using mem(2) by simp_all
  have held: "take (length bs) (drop (unat off) f) = bs" if "(off, bs) \<in> set (file_blocks D have_rela idx names fg s)" for off bs
    using mem(3) [OF that] f by (simp add: holds_block_def)
  have ident: "length (e_ident (elf_header idx lay)) = 16" by (simp add: elf_header_def ELFMAG_def)
  have "(0, ehdr_bytes (elf_header idx lay)) \<in> set (file_blocks D have_rela idx names fg s)"
    by (simp add: file_blocks_def Let_def lay_def)
  from held [OF this] have "take 64 f = ehdr_bytes (elf_header idx lay)" using ident by simp
  then show header: "file_header f = elf_header idx lay"
    using ehdr_of_bytes [OF ident, of "[]"] by (simp add: file_header_def)
  have indices: "map fst ?hs = map word_of_nat [0..<unat (shnum idx)]" unfolding idx by (rule section_header_indices)
  from arg_cong [OF this, of length] have len: "length ?hs = unat (shnum idx)" by simp
  have few: "unat (shnum idx) \<le> 7" unfolding idx number_sections_def by simp
  have "unat (file_size lay) = unat (off_shdrs lay) + 64 * unat (shnum idx)" "unat (file_size lay) < 2 ^ 60"
    using layout_order(2,3) [OF small idx] by (simp_all add: lay_def)
  then have room: "unat (off_shdrs lay) + 64 * unat (shnum idx) < 2 ^ 60" by simp
  have shdr: "shdr_of (take 64 (drop (unat (off_shdrs lay) + 64 * i) f)) = snd (?hs ! i)" if i: "i < unat (shnum idx)" for i
  proof -
    have "fst (?hs ! i) = word_of_nat i" using arg_cong [OF indices, of "\<lambda>xs. xs ! i"] i len by simp
    moreover have "?hs ! i \<in> set ?hs" using i len by simp
    ultimately have "(off_shdrs lay + 64 * ucast (word_of_nat i :: u16), shdr_bytes (snd (?hs ! i)))
        \<in> set (file_blocks D have_rela idx names fg s)"
      by (force simp: file_blocks_def header_blocks_def Let_def lay_def)
    from held [OF this] have "take 64 (drop (unat (off_shdrs lay) + 64 * i) f) = shdr_bytes (snd (?hs ! i))"
      using header_place [of "off_shdrs lay" i] room few i by simp
    then show ?thesis using shdr_of_bytes [of "snd (?hs ! i)" "[]"] by simp
  qed
  show sections: "file_sections f = map snd ?hs"
    by (rule nth_equalityI) (simp_all add: file_sections_def header elf_header_def len shdr)
  have part: "take (unat (word_of_nat (length bs) :: u64)) (drop (unat off) f) = bs"
    if "(off, bs) \<in> set (part_blocks D have_rela lay s)" for off bs
  proof -
    have "length bs < 2 ^ 47" using that small by (auto simp: part_blocks_def parts_small_def split: if_splits)
    then have "unat (word_of_nat (length bs) :: u64) = length bs" by (simp add: unat_of_nat)
    moreover have "(off, bs) \<in> set (file_blocks D have_rela idx names fg s)"
      using that by (simp add: file_blocks_def Let_def lay_def)
    ultimately show ?thesis using held by simp
  qed
  show "map (section_bytes f) (file_sections f) = part_contents D have_rela s"
    unfolding sections
    by (simp add: section_headers_def part_contents_def section_bytes_def null_shdr_def part part_blocks_def del: unat_of_nat)
qed

end
