(* ===== verification/Debug_Elf_Correct.thy ===== *)
theory Debug_Elf_Correct
  imports Debug_Elf_File
begin

text \<open>
  What \<open>wasm_jit_emit_debug_elf\<close> promises: it does nothing undefined, and a reader of its file finds
  the sections, symbols and relocation entries that describe the code.
\<close>

section \<open>The names of the sections\<close>

definition section_name_list :: "bool \<Rightarrow> bool \<Rightarrow> string list" where
  "section_name_list have_rodata have_rela = ['''', ''.text''] @ (if have_rodata then [''.rodata''] else []) @
     [''.symtab'', ''.strtab''] @ (if have_rela then [''.rela.text''] else []) @ [''.shstrtab'']"

definition name_offsets :: "bool \<Rightarrow> bool \<Rightarrow> section_names \<Rightarrow> u32 list" where
  "name_offsets have_rodata have_rela names = [0, name_text names] @ (if have_rodata then [name_rodata names] else []) @
     [name_symtab names, name_strtab names] @ (if have_rela then [name_rela names] else []) @ [name_shstrtab names]"

definition named_at :: "u8 list \<Rightarrow> u32 \<Rightarrow> string \<Rightarrow> bool" where
  "named_at t off n \<longleftrightarrow> string_at t (unat off) = Some (bytes_of n)"

lemma length_bytes_of [simp]: "length (bytes_of n) = length n"
  by (simp add: bytes_of_def)

lemma named_at_append: "named_at t off n \<Longrightarrow> named_at (t @ u) off n"
  by (simp add: named_at_def string_at_append)

text \<open>A state of the table of section names: what it holds so far, and room for more.\<close>

definition names_so_far :: "host \<Rightarrow> nat \<Rightarrow> (u32 \<times> string) list \<Rightarrow> buffer \<Rightarrow> bool" where
  "names_so_far h k ns b \<longleftrightarrow> length (rest b) \<le> k \<and> (\<forall>(off, n) \<in> set ns. named_at (rest b) off n) \<and> realloc_ok h (length (rest b))"

lemma emit_name_step:
  assumes "strtab_emit_str h (bytes_of n) b = Inr (off, b')" and "names_so_far h k ns b" and "k < 2 ^ 32"
    and "printed (bytes_of n) = bytes_of n"
  shows "names_so_far h (k + length (bytes_of n) + 1) (ns @ [(off, n)]) b'"
proof -
  have b': "off = word_of_nat (length (rest b))" "rest b' = rest b @ bytes_of n @ [0]" "realloc_ok h (length (rest b'))"
    using strtab_emit_str_run [OF assms(1)] assms(4) by (auto simp: appended_def)
  have "0 \<notin> set (bytes_of n)" using printed_nonzero [of "bytes_of n"] assms(4) by simp
  moreover have "unat off = length (rest b)" using assms(2,3) b'(1) by (simp add: names_so_far_def unat_of_nat)
  ultimately have "named_at (rest b') off n"
    using string_at_new [of "bytes_of n" "rest b" "[]"] b'(2) by (simp add: named_at_def)
  then show ?thesis using assms(2) b' by (auto simp: names_so_far_def named_at_append)
qed

lemma section_names_printed:
  "printed (bytes_of ''.text'') = bytes_of ''.text''" "printed (bytes_of ''.rodata'') = bytes_of ''.rodata''"
  "printed (bytes_of ''.symtab'') = bytes_of ''.symtab''" "printed (bytes_of ''.strtab'') = bytes_of ''.strtab''"
  "printed (bytes_of ''.rela.text'') = bytes_of ''.rela.text''" "printed (bytes_of ''.shstrtab'') = bytes_of ''.shstrtab''"
  by code_simp+

lemma emit_optional_name:
  assumes "(if c then strtab_emit_str h (bytes_of n) else ret 0) b = Inr (off, b')" and "names_so_far h k ns b" and "k < 2 ^ 32"
    and "printed (bytes_of n) = bytes_of n"
  shows "names_so_far h (k + length (bytes_of n) + 1) (ns @ (if c then [(off, n)] else [])) b'"
proof (cases c)
  case True
  then show ?thesis using emit_name_step [OF _ assms(2-4)] assms(1) by simp
next
  case False
  then show ?thesis using assms(1,2) by (auto simp: names_so_far_def ret_apply)
qed

lemma names_so_far_more: "names_so_far h k ns b \<Longrightarrow> k \<le> k' \<Longrightarrow> names_so_far h k' ns b"
  by (simp add: names_so_far_def)

lemma emit_section_names_run:
  assumes "emit_section_names h have_rodata have_rela b = Inr (names, b')" and "rest b = [0]" and "realloc_ok h 1"
  shows "list_all2 (named_at (rest b')) (name_offsets have_rodata have_rela names) (section_name_list have_rodata have_rela)"
    and "realloc_ok h (length (rest b'))"
proof -
  obtain t b1 ro b2 symt b3 strt b4 rela b5 shstr where
    1: "strtab_emit_str h (bytes_of ''.text'') b = Inr (t, b1)" and
    2: "(if have_rodata then strtab_emit_str h (bytes_of ''.rodata'') else ret 0) b1 = Inr (ro, b2)" and
    3: "strtab_emit_str h (bytes_of ''.symtab'') b2 = Inr (symt, b3)" and
    4: "strtab_emit_str h (bytes_of ''.strtab'') b3 = Inr (strt, b4)" and
    5: "(if have_rela then strtab_emit_str h (bytes_of ''.rela.text'') else ret 0) b4 = Inr (rela, b5)" and
    6: "strtab_emit_str h (bytes_of ''.shstrtab'') b5 = Inr (shstr, b')" and
    names: "names = \<lparr>name_text = t, name_rodata = ro, name_symtab = symt, name_strtab = strt, name_rela = rela, name_shstrtab = shstr\<rparr>"
    using assms(1) unfolding emit_section_names_def by (elim bind_runE) (simp add: that)
  have "names_so_far h 1 [(0, '''')] b"
    using assms(2,3) by (simp add: names_so_far_def named_at_def string_at_def bytes_of_def)
  note step = emit_name_step [OF 1 this _ section_names_printed(1), simplified]
  note step = emit_optional_name [OF 2 step _ section_names_printed(2), simplified]
  note step = emit_name_step [OF 3 step _ section_names_printed(3), simplified]
  note step = emit_name_step [OF 4 step _ section_names_printed(4), simplified]
  note step = emit_optional_name [OF 5 step _ section_names_printed(5), simplified]
  note step = emit_name_step [OF 6 step _ section_names_printed(6), simplified]
  show "list_all2 (named_at (rest b')) (name_offsets have_rodata have_rela names) (section_name_list have_rodata have_rela)"
    and "realloc_ok h (length (rest b'))"
    using step by (auto simp: names_so_far_def names name_offsets_def section_name_list_def split: if_splits)
qed

lemma emit_section_names_fault: "on_shstrtab (emit_section_names h have_rodata have_rela) s \<noteq> Inl Undefined"
  unfolding on_shstrtab_def emit_section_names_def by (intro on_part_fault safe strtab_emit_fault)

section \<open>The run as a whole\<close>

lemma write_file_fault:
  assumes "parts_small D s"
  shows "write_file h D have_rela (number_sections (di_rodata D \<noteq> []) have_rela) names fg s \<noteq> Inl Undefined"
proof -
  let ?idx = "number_sections (di_rodata D \<noteq> []) have_rela"
  let ?size = "unat (file_size (lay_out_file D have_rela ?idx s))"
  have "in_order 0 (block_slots (file_blocks D have_rela ?idx names fg s)) (length (es_out (s\<lparr>es_out := replicate ?size 0\<rparr>)))"
    using file_order [OF assms refl] by simp
  then obtain mem where "do_blocks (nonempty (file_blocks D have_rela ?idx names fg s)) (s\<lparr>es_out := replicate ?size 0\<rparr>) =
      Inr ((), s\<lparr>es_out := replicate ?size 0\<rparr>\<lparr>es_out := mem\<rparr>)"
    by (rule nonempty_run) blast
  then show ?thesis unfolding write_file_blocks by (cases "calloc_ok h 1 ?size") simp_all
qed

text \<open>
  The code and the constants of a debug ELF lie in memory, so they are shorter than an address
  can count; the functions they are of are the module's.
\<close>

definition debug_info_ok :: "wasm_module \<Rightarrow> debug_info \<Rightarrow> bool" where
  "debug_info_ok m D \<longleftrightarrow> funcs_in m D \<and> length (di_code D) < 2 ^ 47 \<and> length (di_rodata D) < 2 ^ 47"

definition has_rela :: "debug_info \<Rightarrow> bool" where
  "has_rela D \<longleftrightarrow> abs_reloc_count D \<noteq> 0"

definition sections_of :: "debug_info \<Rightarrow> section_indices" where
  "sections_of D = number_sections (di_rodata D \<noteq> []) (has_rela D)"

lemma first_pushes:
  assumes "on_shstrtab (buffer_push h [0]) start_elf = Inr (u, s1)" and "on_strtab (buffer_push h [0]) s1 = Inr (v, s2)"
  shows "realloc_ok h 1 \<and> s2 = start_elf\<lparr>es_shstrtab := init_buffer [0], es_strtab := init_buffer [0]\<rparr>"
  using assms by (auto simp: on_shstrtab_def on_strtab_def on_part_run buffer_push_run start_elf_def init_buffer_def)

lemma names_stage:
  assumes "on_shstrtab (emit_section_names h (di_rodata D \<noteq> []) have_rela)
      (start_elf\<lparr>es_shstrtab := init_buffer [0], es_strtab := init_buffer [0]\<rparr>) = Inr (names, s)"
    and "realloc_ok h 1"
  shows "fresh_tables h s \<and> list_all2 (named_at (rest (es_shstrtab s)))
    (name_offsets (di_rodata D \<noteq> []) have_rela names) (section_name_list (di_rodata D \<noteq> []) have_rela)"
proof -
  obtain b where b: "emit_section_names h (di_rodata D \<noteq> []) have_rela (init_buffer [0]) = Inr (names, b)"
    "s = start_elf\<lparr>es_strtab := init_buffer [0], es_shstrtab := b\<rparr>"
    using assms(1) by (auto simp: on_shstrtab_def on_part_run)
  have "rest (init_buffer [0]) = [0]" by (simp add: init_buffer_def)
  note emit_section_names_run [OF b(1) this assms(2)]
  then show ?thesis
    using assms(2) by (auto simp: b(2) fresh_tables_def start_elf_def init_buffer_def blocks_ok_def)
qed

lemma debug_elf_run:
  assumes "wasm_jit_emit_debug_elf h address m D start_elf = Inr (f, s')" and "addressable h" and "debug_info_ok m D"
  obtains names fg s2 s3 where "fresh_tables h s2"
    and "list_all2 (named_at (rest (es_shstrtab s3))) (name_offsets (di_rodata D \<noteq> []) (has_rela D) names)
      (section_name_list (di_rodata D \<noteq> []) (has_rela D))"
    and "emit_tables h address m D (has_rela D) (sections_of D) s2 = Inr (fg, s3)"
    and "write_file h D (has_rela D) (sections_of D) names fg s3 = Inr ((), s')"
    and "parts_small D s3" and "f = es_out s'"
proof -
  obtain s0 s1 names s2 fg s3 where
    0: "on_shstrtab (buffer_push h [0]) start_elf = Inr ((), s0)" and 1: "on_strtab (buffer_push h [0]) s0 = Inr ((), s1)" and
    2: "on_shstrtab (emit_section_names h (di_rodata D \<noteq> []) (has_rela D)) s1 = Inr (names, s2)" and
    3: "emit_tables h address m D (has_rela D) (sections_of D) s2 = Inr (fg, s3)" and
    4: "write_file h D (has_rela D) (sections_of D) names fg s3 = Inr ((), s')" and f: "f = es_out s'"
    using assms(1) unfolding wasm_jit_emit_debug_elf_def Let_def has_rela_def sections_of_def
    by (elim bind_runE) (simp add: that gets_def)
  note first_pushes [OF 0 1]
  then have names: "fresh_tables h s2" "list_all2 (named_at (rest (es_shstrtab s2))) (name_offsets (di_rodata D \<noteq> []) (has_rela D) names)
      (section_name_list (di_rodata D \<noteq> []) (has_rela D))"
    using names_stage [of h D "has_rela D" names s2] 2 by simp_all
  have "blocks_ok h s3 \<and> es_shstrtab s3 = es_shstrtab s2"
    using 3 names(1) assms(3) unfolding debug_info_ok_def by (elim conjE) (erule (2) emit_tables_step, blast)
  then show thesis
    using that [OF names(1) _ 3 4 _ f] names(2) assms(2,3) blocks_small [of h s3 D] by (simp add: debug_info_ok_def)
qed

lemma debug_elf_safe:
  assumes "addressable h" and "debug_info_ok m D"
  shows "wasm_jit_emit_debug_elf h address m D start_elf \<noteq> Inl Undefined"
  unfolding wasm_jit_emit_debug_elf_def Let_def has_rela_def [symmetric] sections_of_def [symmetric]
proof (intro safe emit_section_names_fault)
  fix u0 s0 u1 s1 names s2
  assume 0: "on_shstrtab (buffer_push h [0]) start_elf = Inr (u0, s0)" and 1: "on_strtab (buffer_push h [0]) s0 = Inr (u1, s1)" and
    2: "on_shstrtab (emit_section_names h (di_rodata D \<noteq> []) (has_rela D)) s1 = Inr (names, s2)"
  have fresh: "fresh_tables h s2" using names_stage [of h D "has_rela D" names s2] first_pushes [OF 0 1] 2 by simp
  have funcs: "funcs_in m D" using assms(2) by (simp add: debug_info_ok_def)
  show "emit_tables h address m D (has_rela D) (sections_of D) s2 \<noteq> Inl Undefined" by (rule emit_tables_fault [OF fresh funcs])
  fix fg s3
  assume 3: "emit_tables h address m D (has_rela D) (sections_of D) s2 = Inr (fg, s3)"
  have "blocks_ok h s3" by (rule emit_tables_step [OF 3 fresh funcs])
  then have "parts_small D s3" using assms blocks_small [of h s3 D] by (simp add: debug_info_ok_def)
  then show "write_file h D (has_rela D) (sections_of D) names fg s3 \<noteq> Inl Undefined"
    unfolding sections_of_def by (rule write_file_fault)
qed

section \<open>The sections of the file\<close>

lemma named_all: "list_all2 (named_at t) offs ns \<Longrightarrow> map (\<lambda>off. string_at t (unat off)) offs = map (Some \<circ> bytes_of) ns"
  by (induction rule: list_all2_induct) (simp_all add: named_at_def)

lemma map_pair: "map (\<lambda>x. (f (g x), h x)) xs = zip (map f (map g xs)) (map h xs)"
  by (induction xs) simp_all

lemma named_sections_written:
  assumes "write_file h D have_rela idx names fg s = Inr (u, s')" and "parts_small D s"
    and idx: "idx = number_sections (di_rodata D \<noteq> []) have_rela"
    and names: "list_all2 (named_at (rest (es_shstrtab s))) (name_offsets (di_rodata D \<noteq> []) have_rela names)
      (section_name_list (di_rodata D \<noteq> []) have_rela)"
  shows "named_sections (es_out s') =
    zip (map (Some \<circ> bytes_of) (section_name_list (di_rodata D \<noteq> []) have_rela)) (part_contents D have_rela s)"
proof -
  let ?f = "es_out s'" and ?lay = "lay_out_file D have_rela idx s" and ?i = "unat (shidx_shstrtab idx)"
  note w = written [OF assms(1-3)]
  have last: "?i < length (part_contents D have_rela s)" "part_contents D have_rela s ! ?i = rest (es_shstrtab s)"
    by (simp_all add: idx number_sections_def part_contents_def)
  have "length (file_sections ?f) = length (part_contents D have_rela s)" using arg_cong [OF w(5), of length] by simp
  with last have "section_bytes ?f (file_sections ?f ! ?i) = rest (es_shstrtab s)"
    using arg_cong [OF w(5), of "\<lambda>xs. xs ! ?i"] by simp
  moreover have "unat (e_shstrndx (file_header ?f)) = ?i" by (simp add: w(3) elf_header_def)
  ultimately have "named_sections ?f = zip (map (\<lambda>off. string_at (rest (es_shstrtab s)) (unat off)) (map sh_name (file_sections ?f)))
      (map (section_bytes ?f) (file_sections ?f))"
    unfolding named_sections_def by (simp only: Let_def map_pair [where f = "\<lambda>off. string_at (rest (es_shstrtab s)) (unat off)" and g = sh_name, symmetric])
  moreover have "map sh_name (file_sections ?f) = name_offsets (di_rodata D \<noteq> []) have_rela names"
    by (simp add: w(4) section_headers_def null_shdr_def name_offsets_def)
  moreover have "map (\<lambda>off. string_at (rest (es_shstrtab s)) (unat off)) (name_offsets (di_rodata D \<noteq> []) have_rela names) =
      map (Some \<circ> bytes_of) (section_name_list (di_rodata D \<noteq> []) have_rela)"
    using names by (rule named_all)
  ultimately show ?thesis using w(5) by simp
qed

text \<open>Where the sections lie: aligned, one after another, and before the table of their headers.\<close>

definition sections_placed :: "nat \<Rightarrow> u8 list \<Rightarrow> bool" where
  "sections_placed lo f \<longleftrightarrow>
     in_order lo (map (\<lambda>h. (unat (sh_offset h), unat (sh_size h))) (tl (file_sections f))) (unat (e_shoff (file_header f))) \<and>
     list_all (\<lambda>h. sh_addralign h \<in> {1, 8, 16} \<and> unat (sh_addralign h) dvd unat (sh_offset h)) (tl (file_sections f)) \<and>
     8 dvd unat (e_shoff (file_header f)) \<and>
     unat (e_shoff (file_header f)) + 64 * length (file_sections f) = length f"

lemma sections_placed_written:
  assumes "write_file h D have_rela idx names fg s = Inr (u, s')" and small: "parts_small D s"
    and idx: "idx = number_sections (di_rodata D \<noteq> []) have_rela"
  shows "sections_placed 64 (es_out s')"
proof -
  let ?f = "es_out s'" and ?lay = "lay_out_file D have_rela idx s"
  note w = written [OF assms] and order = layout_order [OF small idx]
  have len: "unat (word_of_nat (length bs) :: u64) = length bs" if "length bs < 2 ^ 47" for bs :: "u8 list"
    using that by (simp add: unat_of_nat)
  have places: "map (\<lambda>h. (unat (sh_offset h), unat (sh_size h))) (tl (file_sections ?f)) = block_slots (part_blocks D have_rela ?lay s)"
    using small by (simp add: w(4) section_headers_def null_shdr_def part_blocks_def block_slots_def parts_small_def len)
  have "length (file_sections ?f) = unat (shnum idx)"
    using arg_cong [OF section_header_indices [of D have_rela names fg ?lay s], of length] idx by (simp add: w(4))
  moreover have "list_all (\<lambda>h. sh_addralign h \<in> {1, 8, 16} \<and> unat (sh_addralign h) dvd unat (sh_offset h)) (tl (file_sections ?f))"
    using order(4-7) by (cases have_rela) (simp_all add: w(4) section_headers_def null_shdr_def)
  ultimately show ?thesis
    unfolding sections_placed_def places using order(1,2,8) w(2,3) by (simp add: elf_header_def)
qed

section \<open>The symbols and relocation entries of the file\<close>

lemma tables_written:
  assumes "write_file h D have_rela idx names fg s = Inr (u, s')" and small: "parts_small D s"
    and idx: "idx = number_sections (di_rodata D \<noteq> []) have_rela" and none: "\<not> have_rela \<longrightarrow> rest (es_rela s) = []"
  shows "file_symbols (es_out s') = entries s" and "first_global_of (es_out s') = unat fg" and "file_relocs (es_out s') = relas s"
proof -
  let ?f = "es_out s'" and ?lay = "lay_out_file D have_rela idx s"
  let ?hs = "map snd (section_headers D have_rela idx names fg ?lay s)"
  let ?nth = "\<lambda>i. section_bytes ?f (?hs ! i)"
  note w = written [OF assms(1-3)]
  have len: "length ?hs = length (part_contents D have_rela s)" using arg_cong [OF w(5), of length] w(4) by simp
  have contents: "?nth i = part_contents D have_rela s ! i" if "i < length (part_contents D have_rela s)" for i
    using arg_cong [OF w(5), of "\<lambda>xs. xs ! i"] that len w(4) by simp
  let ?sym = "unat (shidx_symtab idx)" and ?str = "unat (shidx_strtab idx)" and ?rel = "unat (shidx_rela idx)"
  have symtab: "section_of SHT_SYMTAB ?f = Some (?hs ! ?sym)" "?nth ?sym = rest (es_symtab s)" "sh_info (?hs ! ?sym) = fg"
      "unat (sh_link (?hs ! ?sym)) = ?str" "?nth ?str = strings s"
    using contents [of ?sym] contents [of ?str]
    by (simp_all add: section_of_def w(4) section_headers_def null_shdr_def idx number_sections_def part_contents_def
      SHT_PROGBITS_def SHT_SYMTAB_def)
  then show "first_global_of ?f = unat fg" by (simp add: first_global_of_def)
  show "file_symbols ?f = entries s"
    by (simp add: file_symbols_def symtab(1,2,4) Let_def w(4)) (simp add: symtab(5) [simplified] entries_def symbols_def)
  have "section_of SHT_RELA ?f = (if have_rela then Some (?hs ! ?rel) else None)"
    by (cases have_rela; cases "di_rodata D = []"; simp add: section_of_def w(4) section_headers_def null_shdr_def idx
      number_sections_def SHT_PROGBITS_def SHT_SYMTAB_def SHT_STRTAB_def SHT_RELA_def)
  moreover have "?nth ?rel = rest (es_rela s)" if have_rela
  proof -
    have "?rel < length (part_contents D have_rela s)" "part_contents D have_rela s ! ?rel = rest (es_rela s)"
      using that by (cases "di_rodata D = []"; simp add: idx number_sections_def part_contents_def)+
    then show ?thesis using contents by simp
  qed
  ultimately show "file_relocs ?f = relas s" using none by (simp add: file_relocs_def relas_def)
qed

section \<open>Putting it together\<close>

lemma file_small:
  assumes "write_file h D have_rela idx names fg s = Inr (u, s')" and "parts_small D s"
    and "idx = number_sections (di_rodata D \<noteq> []) have_rela" and "length (es_out s') < 2 ^ 32"
  shows "small s"
proof -
  note w = written [OF assms(1-3)]
  have "length bs \<le> length (es_out s')" if "bs \<in> set (part_contents D have_rela s)" for bs
    using that unfolding w(5) [symmetric] by (auto simp: section_bytes_def)
  then have "length (strings s) \<le> length (es_out s')" "length (rest (es_symtab s)) \<le> length (es_out s')"
    by (simp_all add: part_contents_def)
  then show ?thesis using assms(4) by (simp add: small_def symbols_def)
qed

lemma R_SYM_INFO: "ELF64_R_SYM (ELF64_R_INFO (ucast (k :: u32)) R_X86_64_64) = ucast k"
proof -
  have k: "unat k < 2 ^ 32" using unsigned_less [where ?'a = nat, of k] by simp
  then have "unat (ucast k :: u64) = unat k" by (simp add: unsigned_ucast_eq take_bit_nat_eq_self)
  with k have "unat (ucast k * 4294967296 :: u64) = unat k * 2 ^ 32" by (simp add: unat_word_ariths)
  then have "unat (ucast k * 4294967296 + 1 :: u64) = unat k * 2 ^ 32 + 1" using k by (simp add: unat_word_ariths)
  then have "unat (drop_bit 32 (ucast k * 4294967296 + 1 :: u64)) = (unat k * 2 ^ 32 + 1) div 2 ^ 32"
    by (simp add: drop_bit_eq_div unat_div)
  also have "\<dots> = unat k" by simp
  finally have "unat (drop_bit 32 (ucast k * 4294967296 + 1 :: u64)) = unat (ucast k :: u64)"
    using k by (simp add: unsigned_ucast_eq take_bit_nat_eq_self)
  then show ?thesis
    by (simp add: ELF64_R_SYM_def ELF64_R_INFO_def R_X86_64_64_def push_bit_eq_mult word_unat_eq_iff)
qed

text \<open>The file of a successful run, as a reader finds it.\<close>

lemma debug_elf_file:
  assumes run: "wasm_jit_emit_debug_elf h address m D start_elf = Inr (f, s')" and ok: "addressable h" "debug_info_ok m D"
    and few: "length f < 2 ^ 32"
  obtains t s where "f = es_out s'" and "file_symbols f = entries s" and "file_relocs f = relas s" and "small s" and "small t"
    and "first_global_of f = length (first_entries m D (sections_of D))"
    and "elf_inv h (elf_total_funcs m) t" and "slots_mean (primary_symbol m D (sections_of D)) t" and "compiled_slots (di_funcs D) t"
    and "entries t = tables_entries m D (sections_of D)"
    and "\<exists>more. entries s = entries t @ concat (map (alias_entries m t) (mod_exports m)) @ more \<and>
        (\<forall>e \<in> set more. \<exists>a. snd e = synthesized a)"
    and "has_rela D \<longrightarrow> list_all2 (rela_means D s) (filter is_absolute (di_relocs D)) (relas s)"
    and "\<not> has_rela D \<longrightarrow> relas s = []"
proof -
  obtain names fg s2 s where fresh: "fresh_tables h s2"
    and tables: "emit_tables h address m D (has_rela D) (sections_of D) s2 = Inr (fg, s)"
    and wrote: "write_file h D (has_rela D) (sections_of D) names fg s = Inr ((), s')" "parts_small D s" "f = es_out s'"
    by (rule debug_elf_run [OF run ok])
  have funcs: "funcs_in m D" using ok(2) by (simp add: debug_info_ok_def)
  obtain t where t: "elf_inv h (elf_total_funcs m) t" "slots_mean (primary_symbol m D (sections_of D)) t" "compiled_slots (di_funcs D) t"
    "grown t s" "fg = word_of_nat (length (first_entries m D (sections_of D)))"
    "small s \<longrightarrow> entries t = tables_entries m D (sections_of D) \<and>
      (\<exists>more. entries s = entries t @ concat (map (alias_entries m t) (mod_exports m)) @ more \<and>
        (\<forall>e \<in> set more. \<exists>a. snd e = synthesized a))"
    "has_rela D \<longrightarrow> 24 dvd length (rest (es_rela s)) \<and> list_all2 (rela_means D s) (filter is_absolute (di_relocs D)) (relas s)"
    "\<not> has_rela D \<longrightarrow> rest (es_rela s) = []"
    by (rule emit_tables_step [OF tables fresh funcs]) blast
  note written = tables_written [OF wrote(1,2) sections_of_def t(8)]
  have small: "small s" using file_small [OF wrote(1,2) sections_of_def] few wrote(3) by simp
  have "length (first_entries m D (sections_of D)) \<le> 4" by (simp add: first_entries_def split: option.split)
  then have "first_global_of f = length (first_entries m D (sections_of D))" using written(2) t(5) wrote(3) by (simp add: unat_of_nat)
  then show thesis
    using that [OF wrote(3) _ _ small grown_small [OF t(4) small] _ t(1-3) t(6) [THEN mp, OF small, THEN conjunct1]
        t(6) [THEN mp, OF small, THEN conjunct2]] written(1,3) wrote(3) t(7,8) by (simp add: relas_def)
qed

end
