(* ===== verification/Debug_Elf_Produced.thy ===== *)
theory Debug_Elf_Produced
  imports Debug_Elf_Correct
begin

text \<open>
  The debug ELF is always produced when memory suffices: each step fails only on a refused
  allocation, and the tables grow by no more than a size that the module and the layouts give.
\<close>

section \<open>Bounded growth\<close>

definition table_bytes :: "elf_state \<Rightarrow> nat" where
  "table_bytes s = length (rest (es_shstrtab s)) + length (strings s) + length (rest (es_symtab s)) + length (rest (es_rela s))"

text \<open>The allocator grants blocks up to a size, and every block that is not grown.\<close>

definition grants :: "host \<Rightarrow> nat \<Rightarrow> bool" where
  "grants h K \<longleftrightarrow> (\<forall>n \<le> K. realloc_ok h n) \<and> (\<forall>n size. calloc_ok h n size)"

text \<open>An operation that grows the tables by at most \<open>c\<close> bytes, and fails on nothing but what is undefined.\<close>

definition costs :: "nat \<Rightarrow> nat \<Rightarrow> 'a elf_op \<Rightarrow> bool" where
  "costs K c m \<longleftrightarrow> (\<forall>s. table_bytes s + c \<le> K \<longrightarrow>
     (case m s of Inl e \<Rightarrow> e = Undefined | Inr (a, s') \<Rightarrow> table_bytes s' \<le> table_bytes s + c))"

named_theorems costs

lemma costsD:
  assumes "costs K c m" and "table_bytes s + c \<le> K"
  shows "m s = Inl e \<Longrightarrow> e = Undefined" and "m s = Inr (a, s') \<Longrightarrow> table_bytes s' \<le> table_bytes s + c"
  using assms by (auto simp: costs_def dest!: spec [of _ s])

lemma costs_more:
  assumes "costs K c m" and "c \<le> c'"
  shows "costs K c' m"
  unfolding costs_def
proof (intro allI impI)
  fix s assume "table_bytes s + c' \<le> K"
  then have "table_bytes s + c \<le> K" using assms(2) by simp
  from costsD [OF assms(1) this] assms(2)
  show "case m s of Inl e \<Rightarrow> e = Undefined | Inr (a, s') \<Rightarrow> table_bytes s' \<le> table_bytes s + c'"
    by (fastforce split: sum.split)
qed

lemma costs_bind [costs]:
  assumes "costs K c m" and "\<And>a s s'. m s = Inr (a, s') \<Longrightarrow> costs K c' (f a)"
  shows "costs K (c + c') (bind m f)"
  unfolding costs_def
proof (intro allI impI)
  fix s assume s: "table_bytes s + (c + c') \<le> K"
  show "case bind m f s of Inl e \<Rightarrow> e = Undefined | Inr (a, s') \<Rightarrow> table_bytes s' \<le> table_bytes s + (c + c')"
  proof (cases "m s")
    case (Inl e)
    then show ?thesis using assms(1) s by (auto simp: costs_def bind_def dest!: spec [of _ s])
  next
    case (Inr r)
    obtain a s' where r: "m s = Inr (a, s')" using Inr by (cases r) simp
    have "table_bytes s' \<le> table_bytes s + c" using assms(1) s r by (auto simp: costs_def dest!: spec [of _ s])
    moreover from this have "case f a s' of Inl e \<Rightarrow> e = Undefined | Inr (b, t) \<Rightarrow> table_bytes t \<le> table_bytes s' + c'"
      using assms(2) [OF r] s by (auto simp: costs_def dest!: spec [of _ s'])
    ultimately show ?thesis using r by (auto simp: bind_def split: sum.splits)
  qed
qed

lemma costs_simple [costs]:
  "costs K 0 (ret a)" "costs K 0 (gets f)" "costs K 0 (index xs i)" "costs K 0 (defined b)" "costs K 0 (fail Undefined)"
  by (simp_all add: costs_def ret_def gets_def index_def defined_def fail_def)

lemma costs_check: "b \<Longrightarrow> costs K 0 (check b)"
  by (simp add: costs_def check_def ret_def)

lemma costs_for_each:
  "(\<And>x. x \<in> set xs \<Longrightarrow> costs K (c x) (f x)) \<Longrightarrow> costs K (sum_list (map c xs)) (for_each xs f)"
  by (induction xs) (simp_all add: costs_simple costs_bind)

section \<open>The cost of each operation\<close>

lemma push_each_ok:
  assumes "grants h K" and "length (rest b) + length xs \<le> K"
  shows "for_each xs (\<lambda>x. buffer_push h [f x]) b = Inr ((), b\<lparr>rest := rest b @ map f xs\<rparr>)"
  using assms(2)
proof (induction xs arbitrary: b)
  case (Cons x xs)
  have "realloc_ok h (length (rest b) + 1)" using assms(1) Cons.prems by (simp add: grants_def)
  then have "buffer_push h [f x] b = Inr ((), b\<lparr>rest := rest b @ [f x]\<rparr>)" by (simp add: buffer_push_run)
  then show ?case using Cons.IH [of "b\<lparr>rest := rest b @ [f x]\<rparr>"] Cons.prems by (simp add: bind_def)
qed (simp add: ret_def)

lemma c_string_length: "length (c_string str) \<le> length str"
  by (simp add: c_string_def length_takeWhile_le)

lemma buffer_push_ok: "grants h K \<Longrightarrow> length (rest b) + length bs \<le> K \<Longrightarrow> buffer_push h bs b = Inr ((), b\<lparr>rest := rest b @ bs\<rparr>)"
  by (simp add: buffer_push_run grants_def)

lemma strtab_emit_str_ok:
  assumes "grants h K" and "length (rest b) + length str + 1 \<le> K"
  shows "strtab_emit_str h str b = Inr (word_of_nat (length (rest b)), b\<lparr>rest := rest b @ printed str @ [0]\<rparr>)"
  using assms c_string_length [of str] push_each_ok [OF assms(1), of b "c_string str" printable]
    buffer_push_ok [OF assms(1), of "b\<lparr>rest := rest b @ printed str\<rparr>" "[0]"]
  by (simp add: strtab_emit_str_def strtab_emit_chars_def gets_def bind_def ret_def buffer_len_def printed_def)

lemma strtab_emit_prefixed_str_ok:
  assumes "grants h K" and "length (rest b) + length prefix + length str + 1 \<le> K"
  shows "strtab_emit_prefixed_str h prefix str b =
    Inr (word_of_nat (length (rest b)), b\<lparr>rest := rest b @ printed prefix @ printed str @ [0]\<rparr>)"
  using assms c_string_length [of str] c_string_length [of prefix] push_each_ok [OF assms(1), of b "c_string prefix" printable]
    push_each_ok [OF assms(1), of "b\<lparr>rest := rest b @ printed prefix\<rparr>" "c_string str" printable]
    buffer_push_ok [OF assms(1), of "b\<lparr>rest := rest b @ printed prefix @ printed str\<rparr>" "[0]"]
  by (simp add: strtab_emit_prefixed_str_def strtab_emit_chars_def gets_def bind_def ret_def buffer_len_def printed_def)

lemma printed_length: "length (printed str) \<le> length str"
  by (simp add: printed_def c_string_length)

lemma costs_push:
  assumes "grants h K"
  shows "costs K (length str + 1) (on_strtab (strtab_emit_str h str))" "costs K (length str + 1) (on_shstrtab (strtab_emit_str h str))"
    "costs K (length prefix + length str + 1) (on_strtab (strtab_emit_prefixed_str h prefix str))"
    "costs K 24 (push_sym h x)" "costs K (length bs) (on_rela (buffer_push h bs))"
    "costs K (length bs) (on_strtab (buffer_push h bs))" "costs K (length bs) (on_shstrtab (buffer_push h bs))"
  using printed_length [of str] printed_length [of prefix]
  by (simp_all add: costs_def table_bytes_def on_strtab_def on_shstrtab_def push_sym_def on_symtab_def on_rela_def on_part_def
      strtab_emit_str_ok [OF assms] strtab_emit_prefixed_str_ok [OF assms] buffer_push_ok [OF assms])

lemma costs_if: "(b \<Longrightarrow> costs K c m) \<Longrightarrow> (\<not> b \<Longrightarrow> costs K c m') \<Longrightarrow> costs K c (if b then m else m')"
  by simp

lemma costs_modify: "(\<And>s. table_bytes (f s) = table_bytes s) \<Longrightarrow> costs K 0 (modify f)"
  by (simp add: costs_def modify_def)

lemma costs_zero: "costs K 0 m \<Longrightarrow> costs K c m"
  by (erule costs_more) simp

lemma table_bytes_other [simp]:
  "table_bytes (s\<lparr>es_slots := x\<rparr>) = table_bytes s" "table_bytes (s\<lparr>es_ext_cache := y\<rparr>) = table_bytes s"
  by (simp_all add: table_bytes_def)

lemma costs_label:
  assumes "grants h K"
  shows "costs K 0 (make_func_label h m i)"
proof -
  have "calloc_ok h n size" for n size using assms by (simp add: grants_def)
  then show ?thesis
    unfolding make_func_label_def debug_label_def
    by (auto simp: costs_def bind_def ret_def index_def fail_def split: option.split)
qed

lemma costs_reads:
  "costs K 0 (load_sym k)" "costs K 0 (load_string off)" "costs K 0 (reloc_slot_symbol m r)" "costs K 0 (set_slot i f)"
  by (simp_all add: costs_def load_sym_def load_string_def reloc_slot_symbol_def set_slot_def gets_def bind_def defined_def ret_def
    fail_def index_def modify_def split: option.split)

lemmas costs_steps = costs_bind costs_simple costs_reads

definition import_cost :: "wasm_module \<Rightarrow> nat \<times> wasm_import \<Rightarrow> nat" where
  "import_cost m x = length (func_label m (word_of_nat (fst x))) + 25"

definition function_cost :: "wasm_module \<Rightarrow> func_layout \<Rightarrow> nat" where
  "function_cost m fl = length (func_label m (ly_funcidx fl)) + 29"

definition export_cost :: "wasm_export \<Rightarrow> nat" where
  "export_cost e = length (export_name e) + 25"

definition reloc_cost :: "(jit_helper_kind \<Rightarrow> u64) \<Rightarrow> jit_reloc \<Rightarrow> nat" where
  "reloc_cost address r = (case jit_get_helper_name address (jr_target_address r) of Some n \<Rightarrow> length n | None \<Rightarrow> 0) + 63"

lemma costs_import:
  assumes "grants h K"
  shows "costs K (import_cost m x) (emit_import_symbol h m D x)"
proof (cases x)
  case (Pair i import)
  have body: "costs K (0 + ((length (func_label m (word_of_nat i)) + 1) + (0 + (0 + 24)))) (bind (make_func_label h m (word_of_nat i)) (\<lambda>label.
      bind (on_strtab (strtab_emit_str h label)) (\<lambda>off.
      bind (gets symbol_count) (\<lambda>symbol.
      bind (set_slot i (\<lambda>slot. slot\<lparr>sym_index := symbol\<rparr>)) (\<lambda>_.
      push_sym h (f off))))))" for f
    by (rule costs_bind, rule costs_label [OF assms], drule make_func_label_run)
      (simp only: costs_push [OF assms] costs_steps)
  show ?thesis
    unfolding Pair emit_import_symbol_def prod.case import_cost_def fst_conv
    by (intro costs_if, rule costs_zero, simp only: costs_steps, rule costs_more [OF body], simp)
qed

lemma costs_function:
  assumes "grants h K"
  shows "costs K (function_cost m fl) (emit_function_symbol h m idx fl)"
proof -
  let ?i = "unat (ly_funcidx fl)" and ?label = "func_label m (ly_funcidx fl)"
  have name: "costs K (length ?label + 5) (if ly_cfi_thunk fl then
             bind (on_strtab (strtab_emit_prefixed_str h (bytes_of ''cfi.'') ?label)) (\<lambda>off.
             bind (set_slot ?i (\<lambda>slot. slot\<lparr>cfi_sym_index := symbol\<rparr>)) (\<lambda>_.
             ret off))
           else
             bind (on_strtab (strtab_emit_str h ?label)) (\<lambda>off.
             bind (set_slot ?i (\<lambda>slot. slot\<lparr>sym_index := symbol\<rparr>)) (\<lambda>_.
             ret off)))" for symbol
  proof (rule costs_if)
    have "costs K ((length (bytes_of ''cfi.'') + length ?label + 1) + (0 + 0))
        (bind (on_strtab (strtab_emit_prefixed_str h (bytes_of ''cfi.'') ?label)) (\<lambda>off.
             bind (set_slot ?i (\<lambda>slot. slot\<lparr>cfi_sym_index := symbol\<rparr>)) (\<lambda>_. ret off)))"
      by (simp only: costs_push [OF assms] costs_steps)
    then show "costs K (length ?label + 5) (bind (on_strtab (strtab_emit_prefixed_str h (bytes_of ''cfi.'') ?label)) (\<lambda>off.
             bind (set_slot ?i (\<lambda>slot. slot\<lparr>cfi_sym_index := symbol\<rparr>)) (\<lambda>_. ret off)))"
      by (rule costs_more) simp
    have "costs K ((length ?label + 1) + (0 + 0))
        (bind (on_strtab (strtab_emit_str h ?label)) (\<lambda>off.
             bind (set_slot ?i (\<lambda>slot. slot\<lparr>sym_index := symbol\<rparr>)) (\<lambda>_. ret off)))"
      by (simp only: costs_push [OF assms] costs_steps)
    then show "costs K (length ?label + 5) (bind (on_strtab (strtab_emit_str h ?label)) (\<lambda>off.
             bind (set_slot ?i (\<lambda>slot. slot\<lparr>sym_index := symbol\<rparr>)) (\<lambda>_. ret off)))"
      by (rule costs_more) simp
  qed
  have "costs K (0 + (0 + ((length ?label + 5) + 24))) (emit_function_symbol h m idx fl)"
    unfolding emit_function_symbol_def
    by (rule costs_bind, rule costs_label [OF assms], drule make_func_label_run) (simp only: name costs_push [OF assms] costs_steps)
  then show ?thesis by (rule costs_more) (simp add: function_cost_def)
qed

lemma costs_export:
  assumes "grants h K"
  shows "costs K (export_cost e) (emit_export_alias h m e)"
proof -
  have body: "costs K (0 + (0 + ((length (export_name e) + 1) + (0 + 24))))
      (bind (load_sym k) (\<lambda>p. bind (load_string (st_name p)) (\<lambda>n. if n = c_string (export_name e) then ret ()
        else bind (on_strtab (strtab_emit_str h (export_name e))) (\<lambda>off. bind (load_sym k) (\<lambda>p. push_sym h (f off p))))))" for k f
    by (intro costs_bind costs_reads costs_if; simp only: costs_zero [OF costs_simple(1)] costs_push [OF assms] costs_steps)
  have body: "costs K (0 + (0 + (0 + (0 + ((length (export_name e) + 1) + (0 + 24)))))) (bind (gets es_slots) (\<lambda>slots.
      bind (index slots i) (\<lambda>slot. if sym_index slot = UINT32_MAX then ret () else
        (bind (load_sym (sym_index slot)) (\<lambda>p. bind (load_string (st_name p)) (\<lambda>n. if n = c_string (export_name e) then ret ()
        else bind (on_strtab (strtab_emit_str h (export_name e))) (\<lambda>off. bind (load_sym (sym_index slot)) (\<lambda>p. push_sym h (f off p)))))))))" for f i
    by (intro costs_bind costs_simple costs_if body; simp only: costs_zero [OF costs_simple(1)])
  show ?thesis
    unfolding emit_export_alias_def export_cost_def
    by (intro costs_if; (rule costs_zero, simp only: costs_steps)?) (rule costs_more [OF body], simp)
qed

text \<open>The name of a synthesized symbol is that of a helper, of a library routine, or unknown.\<close>

lemma synthesized_name:
  assumes "resolve_reloc_symbol address m D rodata r s = Inr ((k, addend, Some name), s')"
  shows "name = jit_get_helper_name address (jr_target_address r) \<or> (\<exists>kind. name = jit_get_libcall_name kind)"
proof -
  have slot: "bind (reloc_slot_symbol m r) (\<lambda>slot_sym.
        if slot_sym \<noteq> UINT32_MAX then bind (load_sym slot_sym) (\<lambda>symbol. ret (slot_sym, f symbol, None))
        else ret (0, g, Some (n :: string option))) s = Inr ((k, addend, Some name), s') \<Longrightarrow> name = n" for f g n
    by (auto elim!: bind_runE split: if_splits)
  show ?thesis
    using assms slot
    by (auto simp: resolve_reloc_symbol_def Let_def split: reloc_target.splits if_splits)
qed

lemma libcall_name_length: "jit_get_libcall_name kind = Some n \<Longrightarrow> length n \<le> 14"
  by (cases kind) (auto simp: jit_get_libcall_name_def)

lemma costs_synthesize:
  assumes "grants h K"
  shows "costs K (length (case name of Some n \<Rightarrow> n | None \<Rightarrow> ''<unknown>'') + 25) (synthesize_symbol h name target)"
    (is "costs K (?n + 25) _")
proof -
  have "costs K ((?n + 1) + (0 + (24 + (0 + 0))))
      (bind (on_strtab (strtab_emit_str h (bytes_of (case name of Some n \<Rightarrow> n | None \<Rightarrow> ''<unknown>'')))) (\<lambda>off.
       bind (gets symbol_count) (\<lambda>symbol.
       bind (push_sym h (f off)) (\<lambda>_.
       bind (modify (\<lambda>s. s\<lparr>es_ext_cache := es_ext_cache s @ [(target, symbol)]\<rparr>)) (\<lambda>_.
       ret symbol)))))" for f
    using costs_push(1) [OF assms, of "bytes_of (case name of Some n \<Rightarrow> n | None \<Rightarrow> ''<unknown>'')"]
    by (intro costs_bind costs_simple costs_modify costs_push [OF assms]) simp_all
  note grow = costs_more [OF this, of "?n + 25", simplified]
  have body: "costs K (0 + (?n + 25)) (bind (gets es_ext_cache) (\<lambda>cache. if P cache then
      (bind (on_strtab (strtab_emit_str h (bytes_of (case name of Some n \<Rightarrow> n | None \<Rightarrow> ''<unknown>'')))) (\<lambda>off.
       bind (gets symbol_count) (\<lambda>symbol.
       bind (push_sym h (f off)) (\<lambda>_.
       bind (modify (\<lambda>s. s\<lparr>es_ext_cache := es_ext_cache s @ [(target, symbol)]\<rparr>)) (\<lambda>_.
       ret symbol))))) else ret (g cache)))" for P f g
    by (rule costs_bind [OF costs_simple(2)], rule costs_if, rule grow) (rule costs_zero, rule costs_simple)
  show ?thesis unfolding synthesize_symbol_def Let_def by (rule costs_more [OF body]) simp
qed

lemma costs_reloc:
  assumes "grants h K"
  shows "costs K (reloc_cost address r) (emit_rela h address m D rodata r)"
proof -
  let ?n = "case jit_get_helper_name address (jr_target_address r) of Some n \<Rightarrow> length n | None \<Rightarrow> 0"
  have resolve: "costs K 0 (resolve_reloc_symbol address m D rodata r)"
    unfolding resolve_reloc_symbol_def Let_def
    by (cases "jr_target r") (auto intro!: costs_if costs_bind [where c = 0 and c' = 0, simplified] costs_simple costs_reads)
  have last: "costs K 24 (on_rela (buffer_push h (rela_bytes x)))" for x
    using costs_push(5) [OF assms, of "rela_bytes x"] by simp
  have "costs K (0 + ((?n + 39) + 24)) (bind (resolve_reloc_symbol address m D rodata r) (\<lambda>(symbol, addend, synth).
        bind (case synth of None \<Rightarrow> ret symbol | Some name \<Rightarrow> synthesize_symbol h name (jr_target_address r)) (\<lambda>symbol.
        on_rela (buffer_push h (rela_bytes
          \<lparr>r_offset = jr_address r, r_info = ELF64_R_INFO (ucast symbol) R_X86_64_64, r_addend = addend\<rparr>)))))"
  proof (rule costs_bind [OF resolve])
    fix x s s'
    assume run: "resolve_reloc_symbol address m D rodata r s = Inr (x, s')"
    obtain symbol addend synth where x: "x = (symbol, addend, synth)" by (cases x)
    have "costs K (?n + 39) (case synth of None \<Rightarrow> ret symbol | Some name \<Rightarrow> synthesize_symbol h name (jr_target_address r))"
    proof (cases synth)
      case None
      then show ?thesis by (simp add: costs_zero costs_simple)
    next
      case (Some name)
      have "length (case name of Some n \<Rightarrow> n | None \<Rightarrow> ''<unknown>'') + 25 \<le> ?n + 39"
        using synthesized_name [OF run [unfolded x Some]] by (auto split: option.splits dest: libcall_name_length [OF sym])
      then show ?thesis using costs_more [OF costs_synthesize [OF assms]] Some by simp
    qed
    then show "costs K ((?n + 39) + 24) (case x of (symbol, addend, synth) \<Rightarrow>
        bind (case synth of None \<Rightarrow> ret symbol | Some name \<Rightarrow> synthesize_symbol h name (jr_target_address r)) (\<lambda>symbol.
        on_rela (buffer_push h (rela_bytes
          \<lparr>r_offset = jr_address r, r_info = ELF64_R_INFO (ucast symbol) R_X86_64_64, r_addend = addend\<rparr>))))"
      unfolding x prod.case by (rule costs_bind) (rule last)
  qed
  then show ?thesis
    unfolding emit_rela_def reloc_cost_def by (intro costs_if) (rule costs_zero, rule costs_simple, erule costs_more, simp)
qed

section \<open>The cost of the whole\<close>

lemma costs_first:
  assumes "grants h K"
  shows "costs K (97 + (case mod_module_name m of None \<Rightarrow> 0 | Some n \<Rightarrow> length n)) (emit_first_symbols h m D idx)"
proof -
  let ?n = "case mod_module_name m of None \<Rightarrow> 0 | Some n \<Rightarrow> length n"
  have named: "costs K (?n + 25) (case mod_module_name m of None \<Rightarrow> ret ()
       | Some name \<Rightarrow> bind (on_strtab (strtab_emit_str h name)) (\<lambda>off. push_sym h (f off)))" for f
  proof (cases "mod_module_name m")
    case (Some n)
    have "costs K ((length n + 1) + 24) (bind (on_strtab (strtab_emit_str h n)) (\<lambda>off. push_sym h (f off)))"
      by (intro costs_bind costs_push [OF assms])
    then show ?thesis using Some by (simp add: add.commute)
  qed (simp add: costs_zero costs_simple)
  have last: "costs K (0 + (24 + 0)) (if di_rodata D \<noteq> [] then bind (gets symbol_count) (\<lambda>c. bind (push_sym h x) (\<lambda>_. ret c)) else ret 0)" for x
    by (intro costs_if costs_bind costs_simple costs_push [OF assms] costs_zero [OF costs_simple(1)])
  have "costs K (24 + ((?n + 25) + (24 + (0 + (24 + 0))))) (emit_first_symbols h m D idx)"
    unfolding emit_first_symbols_def by (intro costs_bind costs_push [OF assms] named last)
  then show ?thesis by (rule costs_more) simp
qed

lemma costs_alloc: "grants h K \<Longrightarrow> costs K 0 (alloc_slots h m)"
  unfolding alloc_slots_def grants_def
  by (auto simp: costs_def bind_def modify_def ret_def)

definition tables_cost :: "(jit_helper_kind \<Rightarrow> u64) \<Rightarrow> wasm_module \<Rightarrow> debug_info \<Rightarrow> nat" where
  "tables_cost address m D = 97 + (case mod_module_name m of None \<Rightarrow> 0 | Some n \<Rightarrow> length n) +
     sum_list (map (import_cost m) (zip [0..<length (mod_imports m)] (mod_imports m))) +
     sum_list (map (function_cost m) (di_funcs D)) + sum_list (map export_cost (mod_exports m)) +
     sum_list (map (reloc_cost address) (di_relocs D))"

lemma costs_tables:
  assumes "grants h K"
  shows "costs K (tables_cost address m D) (emit_tables h address m D have_rela idx)"
proof -
  have relas: "costs K (sum_list (map (reloc_cost address) (di_relocs D)) + 0)
      (bind (if have_rela then for_each (di_relocs D) (emit_rela h address m D rodata) else ret ()) (\<lambda>_. ret fg))" for rodata fg
    by (intro costs_bind costs_if costs_for_each costs_reloc [OF assms] costs_simple costs_zero [OF costs_simple(1)])
  have "costs K ((97 + (case mod_module_name m of None \<Rightarrow> 0 | Some n \<Rightarrow> length n)) + (0 + (0 +
      (sum_list (map (import_cost m) (zip [0..<length (mod_imports m)] (mod_imports m))) +
      (sum_list (map (function_cost m) (di_funcs D)) + (sum_list (map export_cost (mod_exports m)) +
      (sum_list (map (reloc_cost address) (di_relocs D)) + 0)))))))
    (emit_tables h address m D have_rela idx)"
    unfolding emit_tables_def
    by (intro costs_bind costs_first costs_alloc costs_simple costs_for_each costs_import costs_function costs_export relas assms)
  then show ?thesis by (rule costs_more) (simp add: tables_cost_def)
qed

lemma costs_names:
  assumes "grants h K"
  shows "costs K 51 (on_shstrtab (emit_section_names h have_rodata have_rela))"
proof -
  have opt: "costs K (length n + 1) (if c then on_shstrtab (strtab_emit_str h (bytes_of n)) else ret 0)" for c n
    using costs_push(2) [OF assms, of "bytes_of n"] by (intro costs_if costs_zero [OF costs_simple(1)]) simp
  have on: "on_shstrtab (bind p f) = bind (on_shstrtab p) (\<lambda>a. on_shstrtab (f a))" for p :: "'a parser" and f :: "'a \<Rightarrow> 'b parser"
    by (auto simp: on_shstrtab_def on_part_def bind_def fun_eq_iff split: sum.splits)
  have if_on: "on_shstrtab (if c then p else ret 0) = (if c then on_shstrtab p else ret 0)" for c and p :: "u32 parser"
    by (simp add: on_shstrtab_def on_part_def ret_def fun_eq_iff)
  have ret_on: "on_shstrtab (ret x) = ret x" for x :: 'c
    by (simp add: on_shstrtab_def on_part_def ret_def fun_eq_iff)
  have push: "costs K (length n + 1) (on_shstrtab (strtab_emit_str h (bytes_of n)))" for n
    using costs_push(2) [OF assms, of "bytes_of n"] by simp
  have "costs K ((length ''.text'' + 1) + ((length ''.rodata'' + 1) + ((length ''.symtab'' + 1) + ((length ''.strtab'' + 1) +
      ((length ''.rela.text'' + 1) + ((length ''.shstrtab'' + 1) + 0)))))) (on_shstrtab (emit_section_names h have_rodata have_rela))"
    unfolding emit_section_names_def on if_on ret_on by (intro costs_bind push opt costs_simple)
  then show ?thesis by (rule costs_more) simp
qed

lemma write_file_succeeds:
  assumes "parts_small D s" and "grants h K" and idx: "idx = number_sections (di_rodata D \<noteq> []) have_rela"
  obtains s' where "write_file h D have_rela idx names fg s = Inr ((), s')"
    and "length (es_out s') \<le> table_bytes s + length (di_code D) + length (di_rodata D) + 552"
proof -
  let ?size = "unat (file_size (lay_out_file D have_rela idx s))"
  have "in_order 0 (block_slots (file_blocks D have_rela idx names fg s)) (length (es_out (s\<lparr>es_out := replicate ?size 0\<rparr>)))"
    using file_order [OF assms(1) idx] by simp
  then obtain mem where "do_blocks (nonempty (file_blocks D have_rela idx names fg s)) (s\<lparr>es_out := replicate ?size 0\<rparr>) =
      Inr ((), s\<lparr>es_out := replicate ?size 0\<rparr>\<lparr>es_out := mem\<rparr>)"
    by (rule nonempty_run) blast
  then have run: "write_file h D have_rela idx names fg s = Inr ((), s\<lparr>es_out := mem\<rparr>)"
    using assms(2) unfolding write_file_blocks by (simp add: grants_def)
  from written(2) [OF this assms(1) idx] layout_order(9) [OF assms(1) idx] show thesis
    by (intro that [OF run]) (simp add: table_bytes_def)
qed

text \<open>The room that the tables of a debug ELF need.\<close>

definition debug_elf_room :: "(jit_helper_kind \<Rightarrow> u64) \<Rightarrow> wasm_module \<Rightarrow> debug_info \<Rightarrow> nat" where
  "debug_elf_room address m D = tables_cost address m D + 53"

lemma debug_elf_succeeds:
  assumes grants: "grants h (debug_elf_room address m D)" and ok: "addressable h" "debug_info_ok m D"
  shows "\<exists>f s'. wasm_jit_emit_debug_elf h address m D start_elf = Inr (f, s') \<and>
    length f \<le> debug_elf_room address m D + length (di_code D) + length (di_rodata D) + 552"
proof -
  let ?K = "debug_elf_room address m D"
  define before where "before =
     bind (on_shstrtab (buffer_push h [0])) (\<lambda>_.
     bind (on_strtab (buffer_push h [0])) (\<lambda>_.
     bind (on_shstrtab (emit_section_names h (di_rodata D \<noteq> []) (has_rela D))) (\<lambda>names.
     bind (emit_tables h address m D (has_rela D) (sections_of D)) (\<lambda>first_global.
     ret (names, first_global)))))"
  have all: "wasm_jit_emit_debug_elf h address m D =
    bind before (\<lambda>(names, first_global). bind (write_file h D (has_rela D) (sections_of D) names first_global) (\<lambda>_. gets es_out))"
    by (simp add: wasm_jit_emit_debug_elf_def before_def Let_def has_rela_def sections_of_def bind_assoc)
  have "costs ?K (length [0 :: u8] + (length [0 :: u8] + (51 + (tables_cost address m D + 0)))) before"
    unfolding before_def by (intro costs_bind costs_push costs_names costs_tables costs_simple grants)
  moreover have "table_bytes start_elf + (length [0 :: u8] + (length [0 :: u8] + (51 + (tables_cost address m D + 0)))) \<le> ?K"
    by (simp add: table_bytes_def start_elf_def init_buffer_def debug_elf_room_def)
  ultimately have cost: "case before start_elf of Inl e \<Rightarrow> e = Undefined | Inr (a, s') \<Rightarrow> table_bytes s' \<le> ?K"
    unfolding costs_def by (auto simp: table_bytes_def start_elf_def init_buffer_def debug_elf_room_def split: sum.splits dest!: spec [of _ start_elf])
  have "before start_elf \<noteq> Inl Undefined"
    using debug_elf_safe [OF ok, of address] unfolding all by (auto simp: bind_def)
  with cost obtain names fg s where before: "before start_elf = Inr ((names, fg), s)" and s: "table_bytes s \<le> ?K"
    by (cases "before start_elf") auto
  have "realloc_ok h ?K" using grants by (simp add: grants_def)
  then have "?K < 2 ^ 47" using ok(1) by (simp add: addressable_def)
  then have "parts_small D s" using s ok(2) by (simp add: parts_small_def debug_info_ok_def table_bytes_def)
  then obtain s' where "write_file h D (has_rela D) (sections_of D) names fg s = Inr ((), s')"
    and "length (es_out s') \<le> table_bytes s + length (di_code D) + length (di_rodata D) + 552"
    by (rule write_file_succeeds [OF _ grants sections_of_def])
  with s show ?thesis unfolding all by (simp add: bind_def before gets_def)
qed

end
