(* ===== verification/Debug_Elf_Spec.thy ===== *)
theory Debug_Elf_Spec
  imports Debug_Elf_Produced
begin

text \<open>
  The properties of the debug ELF, over the bytes of the file: the readers of \<open>Debug_Elf_File\<close> know the
  ELF format and nothing of how the file was written.
\<close>

section \<open>A sample\<close>

definition elf_host :: host where
  "elf_host = \<lparr>calloc_ok = (\<lambda>_ _. True), realloc_ok = (\<lambda>n. n < 2 ^ 47)\<rparr>"

definition sample_elf_module :: wasm_module where
  "sample_elf_module = zero_module\<lparr>mod_functions := [0],
     mod_imports := [\<lparr>import_module_name = [0x65], import_item_name = [0x66], import_kind = WASM_EXTERN_FUNC, import_index = 0\<rparr>],
     mod_exports := [\<lparr>export_name = [0x67], export_kind = WASM_EXPORT_FUNC, export_index = 1\<rparr>]\<rparr>"

definition sample_debug_info :: debug_info where
  "sample_debug_info = \<lparr>di_funcs = [\<lparr>ly_funcidx = 1, ly_cfi_thunk = False, ly_address = 0x1000, ly_code_size = 6,
       ly_const_address = 0x2000, ly_const_size = 2\<rparr>],
     di_relocs = [\<lparr>jr_address = 0x1001, jr_addend = 2, jr_kind = SPIDIR_RELOC_X64_ABS64, jr_target = Target_external_function 0,
       jr_target_funcidx = 0, jr_target_cfi = False, jr_target_address = 0x5000, jr_owner_funcidx = 1, jr_owner_cfi = False\<rparr>],
     di_code_base = 0x1000, di_code = [0xE8, 0, 0, 0, 0, 0xC3], di_rodata_base = 0x2000, di_rodata = [1, 2]\<rparr>"

lemma addressable_elf_host: "addressable elf_host"
  by (simp add: addressable_def elf_host_def)

lemma sample_debug_info_ok: "debug_info_ok sample_elf_module sample_debug_info"
  by (simp add: debug_info_ok_def funcs_in_def names_cover_def sample_elf_module_def sample_debug_info_def zero_module_def elf_total_funcs_def)

lemma sample_room: "debug_elf_room (\<lambda>_. 0) sample_elf_module sample_debug_info \<le> 1000"
  by code_simp

lemma sample_grants: "grants elf_host (debug_elf_room (\<lambda>_. 0) sample_elf_module sample_debug_info)"
  using sample_room by (simp add: grants_def elf_host_def)

lemma sample_elf_run:
  obtains f s' where "wasm_jit_emit_debug_elf elf_host (\<lambda>_. 0) sample_elf_module sample_debug_info start_elf = Inr (f, s')"
    and "length f < 2 ^ 32"
proof -
  obtain f s' where "wasm_jit_emit_debug_elf elf_host (\<lambda>_. 0) sample_elf_module sample_debug_info start_elf = Inr (f, s')"
    "length f \<le> debug_elf_room (\<lambda>_. 0) sample_elf_module sample_debug_info + length (di_code sample_debug_info) +
      length (di_rodata sample_debug_info) + 552"
    using debug_elf_succeeds [OF sample_grants addressable_elf_host sample_debug_info_ok] by blast
  then show thesis using that sample_room by (simp add: sample_debug_info_def)
qed

section \<open>The exports\<close>

text \<open>The exports: each compiled function that is exported is found under the name of the export.\<close>

lemma printable_twice: "map printable (printed str) = printed str"
proof -
  have "printable (printable b) = printable b" for b by (simp add: printable_def)
  then show ?thesis by (simp add: printed_def)
qed

lemma exported_found:
  assumes "slots_mean (primary_symbol m D idx) t" and "compiled_slots (di_funcs D) t" and "elf_inv h (elf_total_funcs m) t" and "small t"
    and e: "e \<in> set (mod_exports m)" "export_kind e = WASM_EXPORT_FUNC" "length (mod_imports m) \<le> unat (export_index e)"
    and fl: "fl \<in> set (di_funcs D)" "\<not> ly_cfi_thunk fl" "ly_funcidx fl = export_index e" "unat (ly_funcidx fl) < elf_total_funcs m"
  shows "\<exists>x \<in> set (entries t @ concat (map (alias_entries m t) (mod_exports m))). fst x = Some (printed (export_name e)) \<and>
    (\<exists>gl \<in> set (di_funcs D). \<not> ly_cfi_thunk gl \<and> ly_funcidx gl = export_index e \<and> snd x = function_symbol idx gl)"
proof -
  let ?i = "unat (export_index e)"
  let ?k = "sym_index (es_slots t ! ?i)"
  have k: "?i < length (es_slots t)" "?k \<noteq> UINT32_MAX"
    using fl assms(2-4) by (auto simp: elf_inv_def compiled_slots_def)
  then have "exported_slot m t e = Some ?k" using e(2) fl(3,4) by (simp add: exported_slot_def)
  moreover have p: "unat ?k < length (entries t)" "primary_symbol m D idx ?i (entries t ! unat ?k)"
    using assms(1,4) k by (simp_all add: slots_mean_def)
  then obtain gl where gl: "gl \<in> set (di_funcs D)" "\<not> ly_cfi_thunk gl" "ly_funcidx gl = export_index e"
      "entries t ! unat ?k = function_entry m idx gl"
    using e(3) by (auto simp: primary_symbol_def simp flip: word_unat_eq_iff)
  have same: "alias_symbol (function_symbol idx gl) = function_symbol idx gl" by (simp add: alias_symbol_def function_symbol_def)
  show ?thesis
  proof (cases "fst (entries t ! unat ?k) = Some (c_string (export_name e))")
    case True
    then have "printed (func_label m (ly_funcidx gl)) = c_string (export_name e)" using gl by (simp add: function_entry_def function_name_def)
    then have "printed (export_name e) = c_string (export_name e)"
      using printable_twice [of "func_label m (ly_funcidx gl)"] by (simp add: printed_def [of "export_name e"])
    moreover have "entries t ! unat ?k \<in> set (entries t)" using p(1) by simp
    ultimately show ?thesis using True gl by (intro bexI [of _ "entries t ! unat ?k"]) (auto simp: function_entry_def)
  next
    case False
    then have "(Some (printed (export_name e)), alias_symbol (snd (entries t ! unat ?k))) \<in> set (alias_entries m t e)"
      using \<open>exported_slot m t e = Some ?k\<close> by (simp add: alias_entries_def)
    then show ?thesis using e(1) gl same by (force simp: function_entry_def)
  qed
qed

section \<open>Properties\<close>

lemma symbol_bindings:
  "x \<in> set (first_entries m D idx) \<Longrightarrow> ELF64_ST_BIND (st_info (snd x)) = STB_LOCAL"
  "x \<in> set (import_entries m D y) \<Longrightarrow> ELF64_ST_BIND (st_info (snd x)) \<noteq> STB_LOCAL"
  "ELF64_ST_BIND (st_info (snd (function_entry m idx fl))) \<noteq> STB_LOCAL"
  "x \<in> set (alias_entries m t e) \<Longrightarrow> ELF64_ST_BIND (st_info (snd x)) \<noteq> STB_LOCAL"
  "ELF64_ST_BIND (st_info (synthesized a)) \<noteq> STB_LOCAL"
proof -
  have info: "ELF64_ST_BIND (ELF64_ST_INFO STB_LOCAL type) = STB_LOCAL" "ELF64_ST_BIND (ELF64_ST_INFO STB_GLOBAL type) \<noteq> STB_LOCAL"
    if "type \<in> {STT_NOTYPE, STT_OBJECT, STT_FUNC, STT_SECTION}" for type
    using that
    by (auto simp: ELF64_ST_BIND_def ELF64_ST_INFO_def STB_LOCAL_def STB_GLOBAL_def STT_NOTYPE_def STT_OBJECT_def STT_FUNC_def STT_SECTION_def)
  show "x \<in> set (first_entries m D idx) \<Longrightarrow> ELF64_ST_BIND (st_info (snd x)) = STB_LOCAL"
    by (auto simp: first_entries_def info split: option.splits if_splits)
  show "x \<in> set (import_entries m D y) \<Longrightarrow> ELF64_ST_BIND (st_info (snd x)) \<noteq> STB_LOCAL"
    by (auto simp: import_entries_def import_symbol_def info split: if_splits)
  show "ELF64_ST_BIND (st_info (snd (function_entry m idx fl))) \<noteq> STB_LOCAL" "ELF64_ST_BIND (st_info (synthesized a)) \<noteq> STB_LOCAL"
    by (simp_all add: function_entry_def function_symbol_def synthesized_def info)
  show "x \<in> set (alias_entries m t e) \<Longrightarrow> ELF64_ST_BIND (st_info (snd x)) \<noteq> STB_LOCAL"
    by (auto simp: alias_entries_def alias_symbol_def Let_def info split: option.splits if_splits)
qed

lemma alias_names: "x \<in> set (alias_entries m t e) \<Longrightarrow> fst x = Some (printed (export_name e))"
  by (auto simp: alias_entries_def Let_def split: option.splits if_splits)

lemma split_point:
  assumes "\<forall>x \<in> set xs. P x" and "\<forall>x \<in> set ys. \<not> P x"
  shows "\<forall>i < length (xs @ ys). P ((xs @ ys) ! i) \<longleftrightarrow> i < length xs"
  using assms by (auto simp: nth_append)

text \<open>
  C19: Writing the debug ELF does nothing undefined: no symbol, slot, name or file offset is out of its
  array, for every module whose name section covers its functions, whatever fails to allocate.
\<close>

theorem debug_elf_memory_safe:
  assumes "addressable h" and "debug_info_ok m D"
  shows "wasm_jit_emit_debug_elf h address m D start_elf \<noteq> Inl Undefined"
  using assms by (rule debug_elf_safe)

lemma debug_elf_memory_safe_witness:
  "wasm_jit_emit_debug_elf elf_host (\<lambda>_. 0) sample_elf_module sample_debug_info start_elf \<noteq> Inl Undefined"
  by (rule debug_elf_memory_safe [OF addressable_elf_host sample_debug_info_ok])

text \<open>
  C29: When every block of up to \<open>debug_elf_room\<close> bytes is granted, the debug ELF is produced, and it is no longer
  than that room, the code, the constants and 552 bytes for the header, the section headers and the padding.
\<close>

theorem debug_elf_produced:
  assumes "grants h (debug_elf_room address m D)" and "addressable h" and "debug_info_ok m D"
  shows "\<exists>f s'. wasm_jit_emit_debug_elf h address m D start_elf = Inr (f, s') \<and>
    length f \<le> debug_elf_room address m D + length (di_code D) + length (di_rodata D) + 552"
  using assms by (rule debug_elf_succeeds)

lemma debug_elf_produced_witness:
  "\<exists>f s'. wasm_jit_emit_debug_elf elf_host (\<lambda>_. 0) sample_elf_module sample_debug_info start_elf = Inr (f, s') \<and> length f \<le> 1560"
proof -
  obtain f s' where "wasm_jit_emit_debug_elf elf_host (\<lambda>_. 0) sample_elf_module sample_debug_info start_elf = Inr (f, s')"
    "length f \<le> debug_elf_room (\<lambda>_. 0) sample_elf_module sample_debug_info + length (di_code sample_debug_info) +
      length (di_rodata sample_debug_info) + 552"
    using debug_elf_produced [OF sample_grants addressable_elf_host sample_debug_info_ok] by blast
  then show ?thesis using sample_room by (auto simp: sample_debug_info_def)
qed

text \<open>
  C17: A reader of the file finds an ELF header of an x86-64 shared object and, under their names and in this
  order, sections that hold the code, the constants and the tables; each lies at a multiple of its alignment,
  no two overlap, and the section headers end the file.
\<close>

theorem debug_elf_sections:
  assumes "wasm_jit_emit_debug_elf h address m D start_elf = Inr (f, s')" and "addressable h" and "debug_info_ok m D"
  shows "\<exists>symtab strtab rela shstrtab. named_sections f =
      [(Some [], []), (Some (bytes_of ''.text''), di_code D)] @
      (if di_rodata D \<noteq> [] then [(Some (bytes_of ''.rodata''), di_rodata D)] else []) @
      [(Some (bytes_of ''.symtab''), symtab), (Some (bytes_of ''.strtab''), strtab)] @
      (if abs_reloc_count D \<noteq> 0 then [(Some (bytes_of ''.rela.text''), rela)] else []) @
      [(Some (bytes_of ''.shstrtab''), shstrtab)] \<and>
    take 4 (e_ident (file_header f)) = [0x7F, 0x45, 0x4C, 0x46] \<and> e_type (file_header f) = 3 \<and> e_machine (file_header f) = 62 \<and>
    sections_placed 64 f"
proof -
  obtain names fg s3 where names: "list_all2 (named_at (rest (es_shstrtab s3))) (name_offsets (di_rodata D \<noteq> []) (has_rela D) names)
      (section_name_list (di_rodata D \<noteq> []) (has_rela D))"
    and wrote: "write_file h D (has_rela D) (sections_of D) names fg s3 = Inr ((), s')" "parts_small D s3" and f: "f = es_out s'"
    by (rule debug_elf_run [OF assms])
  have "named_sections f = zip (map (Some \<circ> bytes_of) (section_name_list (di_rodata D \<noteq> []) (has_rela D))) (part_contents D (has_rela D) s3)"
    unfolding f by (rule named_sections_written [OF wrote sections_of_def names])
  then have "named_sections f =
      [(Some [], []), (Some (bytes_of ''.text''), di_code D)] @
      (if di_rodata D \<noteq> [] then [(Some (bytes_of ''.rodata''), di_rodata D)] else []) @
      [(Some (bytes_of ''.symtab''), rest (es_symtab s3)), (Some (bytes_of ''.strtab''), strings s3)] @
      (if abs_reloc_count D \<noteq> 0 then [(Some (bytes_of ''.rela.text''), rest (es_rela s3))] else []) @
      [(Some (bytes_of ''.shstrtab''), rest (es_shstrtab s3))]"
    by (simp add: section_name_list_def part_contents_def has_rela_def bytes_of_def)
  moreover have "file_header f = elf_header (sections_of D) (lay_out_file D (has_rela D) (sections_of D) s3)"
    unfolding f by (rule written(3) [OF wrote sections_of_def])
  then have "take 4 (e_ident (file_header f)) = [0x7F, 0x45, 0x4C, 0x46]" "e_type (file_header f) = 3" "e_machine (file_header f) = 62"
    by (simp_all add: elf_header_def ELFMAG_def ET_DYN_def EM_X86_64_def)
  ultimately show ?thesis
    using sections_placed_written [OF wrote sections_of_def] f by blast
qed

lemma debug_elf_sections_witness:
  "\<exists>f s'. wasm_jit_emit_debug_elf elf_host (\<lambda>_. 0) sample_elf_module sample_debug_info start_elf = Inr (f, s') \<and>
    map fst (named_sections f) = map (Some \<circ> bytes_of)
      [[], ''.text'', ''.rodata'', ''.symtab'', ''.strtab'', ''.rela.text'', ''.shstrtab''] \<and>
    snd (named_sections f ! 1) = [0xE8, 0, 0, 0, 0, 0xC3] \<and> sections_placed 64 f"
proof -
  obtain f s' where run: "wasm_jit_emit_debug_elf elf_host (\<lambda>_. 0) sample_elf_module sample_debug_info start_elf = Inr (f, s')"
    by (rule sample_elf_run)
  have "abs_reloc_count sample_debug_info \<noteq> 0" by code_simp
  with debug_elf_sections [OF run addressable_elf_host sample_debug_info_ok] run show ?thesis
    by (auto simp: sample_debug_info_def bytes_of_def)
qed



text \<open>
  C28: Each exported function of the module that was compiled is found in the file under the name of its export
  (with control characters replaced), at the address and with the size of its code.
\<close>

theorem debug_elf_exports:
  assumes "wasm_jit_emit_debug_elf h address m D start_elf = Inr (f, s')" and "addressable h" and "debug_info_ok m D"
    and "length f < 2 ^ 32"
    and "e \<in> set (mod_exports m)" and "export_kind e = WASM_EXPORT_FUNC" and "length (mod_imports m) \<le> unat (export_index e)"
    and "fl \<in> set (di_funcs D)" and "\<not> ly_cfi_thunk fl" and "ly_funcidx fl = export_index e"
  shows "\<exists>x \<in> set (file_symbols f). fst x = Some (printed (export_name e)) \<and>
    (\<exists>gl \<in> set (di_funcs D). \<not> ly_cfi_thunk gl \<and> ly_funcidx gl = export_index e \<and>
      st_value (snd x) = ly_address gl \<and> st_size (snd x) = ly_code_size gl)"
proof -
  obtain t s where t: "file_symbols f = entries s" "elf_inv h (elf_total_funcs m) t" "slots_mean (primary_symbol m D (sections_of D)) t"
    "compiled_slots (di_funcs D) t" "small t"
    and more: "\<exists>more. entries s = entries t @ concat (map (alias_entries m t) (mod_exports m)) @ more \<and> (\<forall>e \<in> set more. \<exists>a. snd e = synthesized a)"
    by (rule debug_elf_file [OF assms(1-4)]) blast
  have "unat (ly_funcidx fl) < elf_total_funcs m" using assms(3,8) by (simp add: debug_info_ok_def funcs_in_def)
  from exported_found [OF t(3,4,2,5) assms(5-10) this] obtain x gl where
    "x \<in> set (entries t @ concat (map (alias_entries m t) (mod_exports m)))" "fst x = Some (printed (export_name e))"
    "gl \<in> set (di_funcs D)" "\<not> ly_cfi_thunk gl" "ly_funcidx gl = export_index e" "snd x = function_symbol (sections_of D) gl"
    by blast
  moreover from this(1) have "x \<in> set (file_symbols f)" using t(1) more by auto
  ultimately show ?thesis by (intro bexI [of _ x] conjI bexI [of _ gl]) (simp_all add: function_symbol_def)
qed

lemma debug_elf_exports_witness:
  "\<exists>f s'. wasm_jit_emit_debug_elf elf_host (\<lambda>_. 0) sample_elf_module sample_debug_info start_elf = Inr (f, s') \<and>
    (\<exists>x \<in> set (file_symbols f). fst x = Some [0x67] \<and> st_value (snd x) = 0x1000 \<and> st_size (snd x) = 6)"
proof -
  obtain f s' where run: "wasm_jit_emit_debug_elf elf_host (\<lambda>_. 0) sample_elf_module sample_debug_info start_elf = Inr (f, s')"
    and few: "length f < 2 ^ 32" by (rule sample_elf_run)
  have name: "printed [0x67] = [0x67]" by code_simp
  show ?thesis
    using run debug_elf_exports [OF run addressable_elf_host sample_debug_info_ok few, of "hd (mod_exports sample_elf_module)"
        "hd (di_funcs sample_debug_info)"]
    by (simp add: sample_elf_module_def sample_debug_info_def zero_module_def name)
qed



end
