(* ===== verification/Runtime.thy ===== *)
theory Runtime
  imports Module_Load Codegen_Link
begin

text \<open>
  The runtime of the reference host, src/host/runtime.c: the linear memory of the one module a process
  runs, \<open>memory.size\<close> and \<open>memory.grow\<close>, the state buffers, threads, and what src/host/main.c calls.

  The 8 GiB from \<open>m_memory_base\<close> on are \<open>rt_pages\<close>, from an offset to its byte, none where the range is only
  reserved (\<open>PROT_NONE\<close>); whether an \<open>mmap\<close> of an offset and a length succeeds is a parameter. Threads
  interleave: \<open>rt_turn\<close> is where each of them is in \<open>wasm_host_memory_grow\<close>, and one turn of a thread is
  what it does up to its next access to the shared state. The atomics of the C code are sequentially
  consistent here; the release and acquire orders it uses are not weaker for a single variable.
\<close>

section \<open>State\<close>

definition MEMORY_RESERVE_SIZE :: u64 where
  "MEMORY_RESERVE_SIZE = 8 * 1024 * 1024 * 1024"

type_synonym mmap = "u64 \<Rightarrow> u64 \<Rightarrow> bool"

text \<open>
  A thread outside; called with a number of pages; holding the lock, if the memory is shared;
  the check passed, with the old page count; the range mapped; about to unlock with a result; returned.
\<close>

datatype grow_turn =
    Outside
  | Called u32
  | Entered u32
  | Fitting u32 u64
  | Mapped u32 u64
  | Leaving u32
  | Returned u32

record runtime =
  rt_memory_size :: u64
  rt_pages :: "nat \<rightharpoonup> u8"
  rt_lock :: "nat option"
  rt_turn :: "nat \<Rightarrow> grow_turn"

section \<open>The size of the memory\<close>

definition wasm_host_memory_size :: "runtime \<Rightarrow> u32" where
  "wasm_host_memory_size s = ucast (rt_memory_size s div WASM_PAGE_SIZE)"

text \<open>\<open>mmap\<close> with \<open>MAP_FIXED\<close> gives fresh zeroed pages, whatever was there.\<close>

definition commit :: "u64 \<Rightarrow> u64 \<Rightarrow> (nat \<rightharpoonup> u8) \<Rightarrow> nat \<rightharpoonup> u8" where
  "commit off len pages = (\<lambda>a. if unat off \<le> a \<and> a < unat off + unat len then Some 0 else pages a)"

text \<open>One turn of thread \<open>t\<close> in \<open>wasm_host_memory_grow\<close>; none if it is blocked or not in there.\<close>

definition goto :: "nat \<Rightarrow> grow_turn \<Rightarrow> runtime \<Rightarrow> runtime" where
  "goto t p s = s\<lparr>rt_turn := (rt_turn s)(t := p)\<rparr>"

definition wasm_host_memory_grow :: "wasm_memory \<Rightarrow> mmap \<Rightarrow> nat \<Rightarrow> runtime \<Rightarrow> runtime option" where
  "wasm_host_memory_grow mem map_ok t s =
     (case rt_turn s t of
        Called n \<Rightarrow>
          if sint n < 0 then Some (goto t (Returned (- 1)) s)
          else if mem_shared mem then
            (if rt_lock s = None then Some (goto t (Entered n) (s\<lparr>rt_lock := Some t\<rparr>)) else None)
          else Some (goto t (Entered n) s)
      | Entered n \<Rightarrow>
          (let old_count = rt_memory_size s div WASM_PAGE_SIZE; new_count = old_count + ucast n in
           if new_count * WASM_PAGE_SIZE > mem_max mem then Some (goto t (Leaving (- 1)) s)
           else if n \<noteq> 0 then Some (goto t (Fitting n old_count) s)
           else Some (goto t (Mapped n old_count) s))
      | Fitting n old_count \<Rightarrow>
          if map_ok (old_count * WASM_PAGE_SIZE) (ucast n * WASM_PAGE_SIZE) then
            Some (goto t (Mapped n old_count)
              (s\<lparr>rt_pages := commit (old_count * WASM_PAGE_SIZE) (ucast n * WASM_PAGE_SIZE) (rt_pages s)\<rparr>))
          else Some (goto t (Leaving (- 1)) s)
      | Mapped n old_count \<Rightarrow>
          Some (goto t (Leaving (ucast old_count)) (s\<lparr>rt_memory_size := (old_count + ucast n) * WASM_PAGE_SIZE\<rparr>))
      | Leaving r \<Rightarrow>
          Some (goto t (Returned r) (if mem_shared mem then s\<lparr>rt_lock := None\<rparr> else s))
      | _ \<Rightarrow> None)"

section \<open>Interleavings\<close>

text \<open>What happens next: a thread calls \<open>memory.grow\<close>, takes a turn in it, or stores a byte.\<close>

datatype event = Call nat u32 | Turn nat | Store nat nat u8

fun event_thread :: "event \<Rightarrow> nat" where
  "event_thread (Call t n) = t"
| "event_thread (Turn t) = t"
| "event_thread (Store t a b) = t"

definition idle :: "grow_turn \<Rightarrow> bool" where
  "idle p \<longleftrightarrow> (case p of Outside \<Rightarrow> True | Returned r \<Rightarrow> True | _ \<Rightarrow> False)"

text \<open>A thread inside the call runs nothing else; a store to a page that is not mapped traps.\<close>

fun next_state :: "wasm_memory \<Rightarrow> mmap \<Rightarrow> event \<Rightarrow> runtime \<Rightarrow> runtime option" where
  "next_state mem map_ok (Call t n) s = (if idle (rt_turn s t) then Some (goto t (Called n) s) else None)"
| "next_state mem map_ok (Turn t) s = wasm_host_memory_grow mem map_ok t s"
| "next_state mem map_ok (Store t a b) s =
     (if idle (rt_turn s t) \<and> rt_pages s a \<noteq> None then Some (s\<lparr>rt_pages := (rt_pages s)(a \<mapsto> b)\<rparr>) else None)"

text \<open>The growths an event publishes: the old page count and the new pages.\<close>

definition published :: "event \<Rightarrow> runtime \<Rightarrow> (u64 \<times> u32) list" where
  "published e s = (case e of Turn t \<Rightarrow> (case rt_turn s t of Mapped n old_count \<Rightarrow> [(old_count, n)] | _ \<Rightarrow> []) | _ \<Rightarrow> [])"

inductive runs :: "wasm_memory \<Rightarrow> mmap \<Rightarrow> runtime \<Rightarrow> event list \<Rightarrow> (u64 \<times> u32) list \<Rightarrow> runtime \<Rightarrow> bool" for mem map_ok s where
  runs_nothing: "runs mem map_ok s [] [] s"
| runs_event: "runs mem map_ok s es log t \<Longrightarrow> next_state mem map_ok e t = Some u \<Longrightarrow> runs mem map_ok s (es @ [e]) (log @ published e t) u"

section \<open>Starting and ending\<close>

text \<open>
  What the runtime reads of \<open>wasm_module_jit_t\<close>. An export is a union without a tag; calling the address in it
  is defined only where it was filled as a function.
\<close>

record module_jit =
  mj_exports :: "jit_export list"
  mj_state_size :: u64
  mj_state_init :: "u8 list"
  mj_start_func :: u64

definition jit_export_at :: "module_jit \<Rightarrow> int \<Rightarrow> jit_export res" where
  "jit_export_at j i =
     (if 0 \<le> i \<and> i < int (length (mj_exports j)) then Inr (mj_exports j ! nat i) else Inl Undefined)"

definition call_export :: "jit_export \<Rightarrow> u64 res" where
  "call_export x = (case x of Export_func a \<Rightarrow> Inr a | _ \<Rightarrow> Inl Undefined)"

definition runtime_alloc_state :: "(u64 \<Rightarrow> bool) \<Rightarrow> module_jit \<Rightarrow> u8 list option option" where
  "runtime_alloc_state malloc_ok j =
     (if mj_state_size j = 0 then Some None
      else if malloc_ok (mj_state_size j) then Some (Some (mj_state_init j)) else None)"

text \<open>
  \<open>runtime_init\<close>: the range is reserved, the first pages are committed and initialised. The result is the
  runtime and, where the module has an export of that name, the union for \<open>wasi_thread_start\<close>.
\<close>

definition wasi_thread_start_name :: "u8 list" where
  "wasi_thread_start_name = map of_char ''wasi_thread_start''"

definition initial_pages :: "u8 list \<Rightarrow> nat \<rightharpoonup> u8" where
  "initial_pages bs = (\<lambda>a. if a < length bs then Some (bs ! a) else None)"

definition runtime_init :: "bool \<Rightarrow> mmap \<Rightarrow> wasm_module \<Rightarrow> module_jit \<Rightarrow> (runtime \<times> jit_export option) res" where
  "runtime_init reserve_ok map_ok m j =
     (let size_min = mem_min (mod_memory m) in
      if \<not> reserve_ok then Inl Check_failed
      else if size_min \<noteq> 0 \<and> \<not> map_ok 0 size_min then Inl Check_failed
      else
        (case wasm_module_init_memory m (replicate (unat size_min) 0) of
           Inl e \<Rightarrow> Inl e
         | Inr (_, bytes) \<Rightarrow>
             (let thread_start = wasm_find_export m wasi_thread_start_name;
                  s = \<lparr>rt_memory_size = size_min, rt_pages = initial_pages bytes, rt_lock = None, rt_turn = (\<lambda>_. Outside)\<rparr> in
              if thread_start \<ge> 0 then
                (case jit_export_at j thread_start of Inl e \<Rightarrow> Inl e | Inr x \<Rightarrow> Inr (s, Some x))
              else Inr (s, None))))"

section \<open>Threads\<close>

text \<open>
  \<open>wasi_spawn_thread\<close>: the result for the caller, and the thread, if one starts: its id, its argument and the
  copy of the state it runs on. A thread whose entry the module does not export calls null.
\<close>

record thread_spawn_args =
  ts_thread_id :: u32
  ts_start_arg :: u32
  ts_state :: "u8 list option"

definition wasi_spawn_thread ::
    "(u64 \<Rightarrow> bool) \<Rightarrow> bool \<Rightarrow> bool \<Rightarrow> module_jit \<Rightarrow> u32 \<Rightarrow> (u32, u32 \<times> thread_spawn_args option) sm" where
  "wasi_spawn_thread malloc_ok attr_ok create_ok j start_arg =
     (case runtime_alloc_state malloc_ok j of
        None \<Rightarrow> ret (- 1, None)
      | Some state \<Rightarrow>
          if \<not> malloc_ok 16 then ret (- 1, None)
          else
            bind (gets (\<lambda>next_thread_id. next_thread_id)) (\<lambda>thread_id.
            bind (modify (\<lambda>next_thread_id. next_thread_id + 1)) (\<lambda>_.
            if \<not> attr_ok then ret (- 1, None)
            else if \<not> create_ok then ret (- 1, None)
            else ret (thread_id, Some \<lparr>ts_thread_id = thread_id, ts_start_arg = start_arg, ts_state = state\<rparr>))))"

text \<open>
  What \<open>thread_trampoline\<close> calls, with the state, the thread's id and the argument it passes beside the memory;
  \<open>m_wasi_thread_start\<close> is null where there is no such export.
\<close>

definition thread_trampoline :: "jit_export option \<Rightarrow> thread_spawn_args \<Rightarrow> (u64 \<times> u8 list option \<times> u32 \<times> u32) res" where
  "thread_trampoline wasi_thread_start args =
     (case wasi_thread_start of
        None \<Rightarrow> Inl Undefined
      | Some x \<Rightarrow>
          (case call_export x of
             Inl e \<Rightarrow> Inl e
           | Inr a \<Rightarrow> Inr (a, ts_state args, ts_thread_id args, ts_start_arg args)))"

section \<open>Running a module\<close>

text \<open>
  \<open>run_module\<close> of src/host/main.c: the addresses it calls, in order, and the exit status; the status the
  entry returns is a parameter.
\<close>

definition start_name :: "u8 list" where
  "start_name = map of_char ''_start''"

definition run_module :: "(u64 \<Rightarrow> u32) \<Rightarrow> wasm_module \<Rightarrow> module_jit \<Rightarrow> (u64 list \<times> u32) res" where
  "run_module exec m j =
     (let first = (if mod_start_func m \<ge> 0 then [mj_start_func j] else []);
          i = wasm_find_export m start_name in
      if i < 0 then Inr (first, 1)
      else (case jit_export_at j i of
              Inl e \<Rightarrow> Inl e
            | Inr x \<Rightarrow> (case call_export x of Inl e \<Rightarrow> Inl e | Inr entry \<Rightarrow> Inr (first @ [entry], exec entry))))"

end
