(* ===== verification/Runtime_Grow.thy ===== *)
theory Runtime_Grow
  imports Runtime Module_Valid
begin

text \<open>
  The invariant of the interleavings of \<open>memory.grow\<close>, by rule induction over the runs: under the lock, or with
  a single thread, growths happen one after the other, and no byte is lost.
\<close>

section \<open>The invariant\<close>

definition held :: "grow_turn \<Rightarrow> bool" where
  "held p \<longleftrightarrow> (case p of Entered n \<Rightarrow> True | Fitting n c \<Rightarrow> True | Mapped n c \<Rightarrow> True | Leaving r \<Rightarrow> True | _ \<Rightarrow> False)"

definition turn_ok :: "wasm_memory \<Rightarrow> runtime \<Rightarrow> grow_turn \<Rightarrow> bool" where
  "turn_ok mem s p \<longleftrightarrow>
     (case p of
        Entered n \<Rightarrow> 0 \<le> sint n
      | Fitting n old \<Rightarrow> unat old * 65536 = unat (rt_memory_size s) \<and> (unat old + unat n) * 65536 \<le> unat (mem_max mem)
      | Mapped n old \<Rightarrow> unat old * 65536 = unat (rt_memory_size s) \<and> (unat old + unat n) * 65536 \<le> unat (mem_max mem) \<and>
          dom (rt_pages s) = {..<(unat old + unat n) * 65536}
      | _ \<Rightarrow> True)"

definition exclusive :: "wasm_memory \<Rightarrow> runtime \<Rightarrow> bool" where
  "exclusive mem s \<longleftrightarrow>
     (if mem_shared mem then \<forall>t. held (rt_turn s t) \<longleftrightarrow> rt_lock s = Some t else \<forall>t. t \<noteq> 0 \<longrightarrow> rt_turn s t = Outside)"

definition runtime_inv :: "wasm_memory \<Rightarrow> runtime \<Rightarrow> bool" where
  "runtime_inv mem s \<longleftrightarrow> 65536 dvd unat (rt_memory_size s) \<and> unat (rt_memory_size s) \<le> unat (mem_max mem) \<and> exclusive mem s \<and>
     (\<forall>t. turn_ok mem s (rt_turn s t)) \<and>
     ((\<forall>t n old. rt_turn s t \<noteq> Mapped n old) \<longrightarrow> dom (rt_pages s) = {..<unat (rt_memory_size s)})"

text \<open>Growths one after the other: each finds the page count the one before has left.\<close>

fun sequential :: "nat \<Rightarrow> (u64 \<times> u32) list \<Rightarrow> nat \<Rightarrow> bool" where
  "sequential p [] q \<longleftrightarrow> q = p"
| "sequential p ((old, n) # log) q \<longleftrightarrow> unat old = p \<and> sequential (p + unat n) log q"

lemma sequential_append: "sequential p xs q \<Longrightarrow> sequential q ys r \<Longrightarrow> sequential p (xs @ ys) r"
  by (induction p xs q rule: sequential.induct) auto

definition page_count :: "runtime \<Rightarrow> nat" where
  "page_count s = unat (rt_memory_size s) div 65536"

lemma held_simps [simp]:
  "held (Entered n)" "held (Fitting n c)" "held (Mapped n c)" "held (Leaving r)" "\<not> held Outside" "\<not> held (Called n)" "\<not> held (Returned r)"
  by (simp_all add: held_def)

lemma held_alone:
  assumes "exclusive mem s" and "held (rt_turn s t)" and "held (rt_turn s t')"
  shows "t' = t"
proof (cases "mem_shared mem")
  case True
  then show ?thesis using assms unfolding exclusive_def by (metis option.inject)
next
  case False
  have "r = 0" if "held (rt_turn s r)" for r using False assms(1) that by (cases "r = 0") (auto simp: exclusive_def)
  then show ?thesis using assms(2,3) by blast
qed

lemma turn_ok_free: "\<not> held p \<Longrightarrow> turn_ok mem s p"
  by (cases p) (simp_all add: turn_ok_def)

lemma goto_simps [simp]:
  "rt_turn (goto t p s) t' = (if t' = t then p else rt_turn s t')" "rt_pages (goto t p s) = rt_pages s"
  "rt_memory_size (goto t p s) = rt_memory_size s" "rt_lock (goto t p s) = rt_lock s"
  by (simp_all add: goto_def)

lemma turn_ok_cong: "rt_memory_size s' = rt_memory_size s \<Longrightarrow> rt_pages s' = rt_pages s \<Longrightarrow> turn_ok mem s' p = turn_ok mem s p"
  by (simp add: turn_ok_def split: grow_turn.split)

text \<open>A move of the one thread that holds; the other threads are not in the way.\<close>

lemma holder_moves:
  assumes inv: "runtime_inv mem s" and h: "held (rt_turn s t)" and turn: "rt_turn s1 = rt_turn s"
    and sizes: "65536 dvd unat (rt_memory_size s1)" "unat (rt_memory_size s1) \<le> unat (mem_max mem)"
    and lock: "mem_shared mem \<Longrightarrow> rt_lock s1 = (if held p then rt_lock s else None)" and ok: "turn_ok mem s1 p"
    and pages: "(\<forall>n old. p \<noteq> Mapped n old) \<Longrightarrow> dom (rt_pages s1) = {..<unat (rt_memory_size s1)}"
  shows "runtime_inv mem (goto t p s1)"
proof -
  have excl: "exclusive mem s" using inv by (simp add: runtime_inv_def)
  have others: "\<not> held (rt_turn s t')" if "t' \<noteq> t" for t' using held_alone [OF excl h] that by blast
  have "exclusive mem (goto t p s1)"
  proof (cases "mem_shared mem")
    case True
    then have "rt_lock s = Some t" using excl h by (simp add: exclusive_def)
    then show ?thesis using True others lock [OF True] turn by (auto simp: exclusive_def)
  next
    case False
    have "t = 0" using False excl h by (cases "t = 0") (auto simp: exclusive_def)
    then show ?thesis using False excl turn by (simp add: exclusive_def)
  qed
  moreover have "turn_ok mem (goto t p s1) (rt_turn (goto t p s1) t')" for t'
    using ok others turn turn_ok_free turn_ok_cong [of "goto t p s1" s1] by (cases "t' = t") simp_all
  moreover have "dom (rt_pages s1) = {..<unat (rt_memory_size s1)}" if "\<forall>t' n old. rt_turn (goto t p s1) t' \<noteq> Mapped n old"
    using that [rule_format, of t] by (intro pages) simp
  ultimately show ?thesis using sizes by (simp add: runtime_inv_def)
qed

text \<open>A move of a thread that does not hold, without an effect on the memory.\<close>

lemma free_moves:
  assumes inv: "runtime_inv mem s" and free: "\<not> held (rt_turn s t)" and turn: "rt_turn s1 = rt_turn s"
    and same: "rt_memory_size s1 = rt_memory_size s" "rt_pages s1 = rt_pages s" and ok: "turn_ok mem s1 p" "\<forall>n old. p \<noteq> Mapped n old"
    and lock: "if held p \<and> mem_shared mem then rt_lock s = None \<and> rt_lock s1 = Some t else rt_lock s1 = rt_lock s"
    and single: "mem_shared mem \<or> t = 0"
  shows "runtime_inv mem (goto t p s1)"
proof -
  have excl: "exclusive mem s" using inv by (simp add: runtime_inv_def)
  have "exclusive mem (goto t p s1)"
    using excl turn lock single free by (cases "held p"; cases "mem_shared mem") (auto simp: exclusive_def split: if_splits)
  moreover have "turn_ok mem (goto t p s1) (rt_turn (goto t p s1) t')" for t'
    using ok inv turn turn_ok_cong [of "goto t p s1" s1] turn_ok_cong [of s1 s, OF same] by (simp add: runtime_inv_def)
  moreover have "dom (rt_pages s1) = {..<unat (rt_memory_size s1)}" if x: "\<forall>t' n old. rt_turn (goto t p s1) t' \<noteq> Mapped n old"
  proof -
    have "rt_turn s t' \<noteq> Mapped n old" for t' n old
      using x [rule_format, of t' n old] free turn by (cases "t' = t") auto
    then show ?thesis using inv same by (simp add: runtime_inv_def)
  qed
  ultimately show ?thesis using inv same by (simp add: runtime_inv_def)
qed

section \<open>One turn\<close>

definition limits_ok :: "wasm_memory \<Rightarrow> bool" where
  "limits_ok mem \<longleftrightarrow> unat (mem_max mem) \<le> 2 ^ 32"

lemma unat_page_div: "unat (w div WASM_PAGE_SIZE) = unat w div 65536"
  by (simp add: WASM_PAGE_SIZE_def unat_div)

lemma unat_ucast_pages: "unat (ucast (n :: u32) :: u64) = unat n"
  using unat_u32_bound [of n] by (simp add: unsigned_ucast_eq take_bit_nat_eq_self)

lemma unat_pages:
  assumes "unat c \<le> 2 ^ 33"
  shows "unat (c * WASM_PAGE_SIZE) = unat c * 65536"
  using assms by (simp add: WASM_PAGE_SIZE_def unat_word_ariths)

lemma unat_total:
  assumes "unat (c :: u64) \<le> 2 ^ 32"
  shows "unat (c + ucast (n :: u32)) = unat c + unat n"
  using assms unat_u32_bound [of n] unat_ucast_pages [of n] by (simp add: unat_word_ariths)

text \<open>A turn that is not the store of the new size.\<close>

lemma called_turn:
  assumes "wasm_host_memory_grow mem map_ok t s = Some u" and "runtime_inv mem s" and "rt_turn s t = Called n" and "mem_shared mem \<or> t = 0"
  shows "runtime_inv mem u" and "rt_memory_size u = rt_memory_size s" and "rt_pages u = rt_pages s"
proof -
  consider (negative) "u = goto t (Returned (- 1)) s"
    | (lock) "0 \<le> sint n" "mem_shared mem" "rt_lock s = None" "u = goto t (Entered n) (s\<lparr>rt_lock := Some t\<rparr>)"
    | (enter) "0 \<le> sint n" "\<not> mem_shared mem" "u = goto t (Entered n) s"
    using assms(1,3) by (auto simp: wasm_host_memory_grow_def split: if_splits)
  then have "runtime_inv mem u \<and> rt_memory_size u = rt_memory_size s \<and> rt_pages u = rt_pages s"
  proof cases
    case negative
    then show ?thesis using assms(3,4) by (auto intro!: free_moves [OF assms(2)] simp: turn_ok_def)
  next
    case lock
    then show ?thesis using assms(3,4) by (auto intro!: free_moves [OF assms(2)] simp: turn_ok_def)
  next
    case enter
    then show ?thesis using assms(3,4) by (auto intro!: free_moves [OF assms(2)] simp: turn_ok_def)
  qed
  then show "runtime_inv mem u" "rt_memory_size u = rt_memory_size s" "rt_pages u = rt_pages s" by simp_all
qed

lemma no_one_mapped:
  assumes "runtime_inv mem s" and "held (rt_turn s t)" and "\<forall>n old. rt_turn s t \<noteq> Mapped n old"
  shows "dom (rt_pages s) = {..<unat (rt_memory_size s)}"
proof -
  have "rt_turn s t' \<noteq> Mapped n old" for t' n old
    using held_alone [of mem s t t'] assms by (cases "t' = t") (auto simp: runtime_inv_def)
  then show ?thesis using assms(1) by (simp add: runtime_inv_def)
qed

lemma entered_turn:
  assumes "wasm_host_memory_grow mem map_ok t s = Some u" and "runtime_inv mem s" and "rt_turn s t = Entered n" and "limits_ok mem"
  shows "runtime_inv mem u" and "rt_memory_size u = rt_memory_size s" and "rt_pages u = rt_pages s"
proof -
  let ?old = "rt_memory_size s div WASM_PAGE_SIZE"
  have sizes: "65536 dvd unat (rt_memory_size s)" "unat (rt_memory_size s) \<le> unat (mem_max mem)"
    using assms(2) by (simp_all add: runtime_inv_def)
  have held: "held (rt_turn s t)" "\<forall>n old. rt_turn s t \<noteq> Mapped n old" using assms(3) by simp_all
  note pages = no_one_mapped [OF assms(2) held]
  have old: "unat ?old * 65536 = unat (rt_memory_size s)" using sizes(1) by (simp add: unat_page_div)
  have "unat (mem_max mem) \<le> 4294967296" using assms(4) by (simp add: limits_ok_def)
  then have "unat ?old \<le> 65536" using old sizes(2) by simp
  then have total: "unat ((?old + ucast n) * WASM_PAGE_SIZE) = (unat ?old + unat n) * 65536"
    using unat_total [of ?old n] unat_u32_bound [of n] by (subst unat_pages) simp_all
  consider (refused) "u = goto t (Leaving (- 1)) s"
    | (fits) "(?old + ucast n) * WASM_PAGE_SIZE \<le> mem_max mem" "u = goto t (Fitting n ?old) s"
    | (same) "(?old + ucast n) * WASM_PAGE_SIZE \<le> mem_max mem" "n = 0" "u = goto t (Mapped n ?old) s"
    using assms(1,3) by (fastforce simp: wasm_host_memory_grow_def Let_def not_less split: if_splits)
  then have "runtime_inv mem u \<and> rt_memory_size u = rt_memory_size s \<and> rt_pages u = rt_pages s"
  proof cases
    case refused
    then show ?thesis using sizes held pages by (auto intro!: holder_moves [OF assms(2)] simp: turn_ok_def)
  next
    case fits
    then have "turn_ok mem s (Fitting n ?old)" using old total by (simp add: turn_ok_def word_le_nat_alt)
    then show ?thesis using sizes held pages fits(2) by (auto intro!: holder_moves [OF assms(2)])
  next
    case same
    then have "turn_ok mem s (Mapped n ?old)" using old total pages by (simp add: turn_ok_def word_le_nat_alt)
    then show ?thesis using sizes held pages same by (auto intro!: holder_moves [OF assms(2)])
  qed
  then show "runtime_inv mem u" "rt_memory_size u = rt_memory_size s" "rt_pages u = rt_pages s" by simp_all
qed

lemma commit_dom: "dom (commit off len pages) = dom pages \<union> {unat off..<unat off + unat len}"
  by (auto simp: commit_def)

lemma fitting_turn:
  assumes "wasm_host_memory_grow mem map_ok t s = Some u" and "runtime_inv mem s" and "rt_turn s t = Fitting n old" and "limits_ok mem"
  shows "runtime_inv mem u" and "rt_memory_size u = rt_memory_size s"
    and "rt_pages u = rt_pages s \<or> rt_pages u = (\<lambda>a. if a \<in> {unat (rt_memory_size s)..<(unat old + unat n) * 65536} then Some 0 else rt_pages s a)"
proof -
  have sizes: "65536 dvd unat (rt_memory_size s)" "unat (rt_memory_size s) \<le> unat (mem_max mem)" and fits: "turn_ok mem s (Fitting n old)"
    using assms(2,3) by (simp_all add: runtime_inv_def) metis
  have held: "held (rt_turn s t)" "\<forall>n old. rt_turn s t \<noteq> Mapped n old" using assms(3) by simp_all
  note pages = no_one_mapped [OF assms(2) held]
  have old: "unat old * 65536 = unat (rt_memory_size s)" "(unat old + unat n) * 65536 \<le> unat (mem_max mem)" using fits by (simp_all add: turn_ok_def)
  have limit: "unat (mem_max mem) \<le> 2 ^ 32" using assms(4) by (simp add: limits_ok_def)
  then have at: "unat (old * WASM_PAGE_SIZE) = unat (rt_memory_size s)" "unat (ucast n * WASM_PAGE_SIZE) = unat n * 65536"
    using old unat_ucast_pages [of n] by (simp_all add: unat_pages)
  let ?pages = "commit (old * WASM_PAGE_SIZE) (ucast n * WASM_PAGE_SIZE) (rt_pages s)"
  consider (failed) "u = goto t (Leaving (- 1)) s" | (mapped) "u = goto t (Mapped n old) (s\<lparr>rt_pages := ?pages\<rparr>)"
    using assms(1,3) by (auto simp: wasm_host_memory_grow_def split: if_splits)
  then have "runtime_inv mem u \<and> rt_memory_size u = rt_memory_size s \<and> (rt_pages u = rt_pages s \<or> rt_pages u = ?pages)"
  proof cases
    case failed
    then show ?thesis using sizes held pages by (auto intro!: holder_moves [OF assms(2)] simp: turn_ok_def)
  next
    case mapped
    have "dom ?pages = {..<(unat old + unat n) * 65536}"
      unfolding commit_dom pages at using old(1) by auto
    then have "turn_ok mem (s\<lparr>rt_pages := ?pages\<rparr>) (Mapped n old)" using old by (simp add: turn_ok_def)
    then show ?thesis using sizes held mapped by (auto intro!: holder_moves [OF assms(2)])
  qed
  moreover have "?pages = (\<lambda>a. if a \<in> {unat (rt_memory_size s)..<(unat old + unat n) * 65536} then Some 0 else rt_pages s a)"
    using old(1) by (auto simp: commit_def at fun_eq_iff)
  ultimately show "runtime_inv mem u" "rt_memory_size u = rt_memory_size s"
    "rt_pages u = rt_pages s \<or> rt_pages u = (\<lambda>a. if a \<in> {unat (rt_memory_size s)..<(unat old + unat n) * 65536} then Some 0 else rt_pages s a)"
    by simp_all
qed

lemma mapped_turn:
  assumes "wasm_host_memory_grow mem map_ok t s = Some u" and "runtime_inv mem s" and "rt_turn s t = Mapped n old" and "limits_ok mem"
  shows "runtime_inv mem u" and "unat old = page_count s" and "page_count u = page_count s + unat n" and "rt_pages u = rt_pages s"
proof -
  have fits: "turn_ok mem s (Mapped n old)" using assms(2,3) by (simp add: runtime_inv_def) metis
  then have old: "unat old * 65536 = unat (rt_memory_size s)" "(unat old + unat n) * 65536 \<le> unat (mem_max mem)"
    "dom (rt_pages s) = {..<(unat old + unat n) * 65536}" by (simp_all add: turn_ok_def)
  have "unat (mem_max mem) \<le> 2 ^ 32" using assms(4) by (simp add: limits_ok_def)
  then have total: "unat ((old + ucast n) * WASM_PAGE_SIZE) = (unat old + unat n) * 65536"
    using old unat_total [of old n] unat_u32_bound [of n] by (subst unat_pages) simp_all
  have u: "u = goto t (Leaving (ucast old)) (s\<lparr>rt_memory_size := (old + ucast n) * WASM_PAGE_SIZE\<rparr>)"
    using assms(1,3) by (simp add: wasm_host_memory_grow_def)
  have "65536 dvd unat (rt_memory_size s)" using assms(2) by (simp add: runtime_inv_def)
  then show "runtime_inv mem u"
    unfolding u using assms(3) old total by (intro holder_moves [OF assms(2)]) (simp_all add: turn_ok_def)
  show "unat old = page_count s" "page_count u = page_count s + unat n" "rt_pages u = rt_pages s"
    using old(1) total by (simp_all add: page_count_def u flip: old(1))
qed

lemma leaving_turn:
  assumes "wasm_host_memory_grow mem map_ok t s = Some u" and "runtime_inv mem s" and "rt_turn s t = Leaving r"
  shows "runtime_inv mem u" and "rt_memory_size u = rt_memory_size s" and "rt_pages u = rt_pages s"
proof -
  have sizes: "65536 dvd unat (rt_memory_size s)" "unat (rt_memory_size s) \<le> unat (mem_max mem)"
    using assms(2) by (simp_all add: runtime_inv_def)
  have held: "held (rt_turn s t)" "\<forall>n old. rt_turn s t \<noteq> Mapped n old" using assms(3) by simp_all
  note pages = no_one_mapped [OF assms(2) held]
  have u: "u = goto t (Returned r) (if mem_shared mem then s\<lparr>rt_lock := None\<rparr> else s)"
    using assms(1,3) by (simp add: wasm_host_memory_grow_def)
  show "runtime_inv mem u"
    unfolding u using sizes held pages by (intro holder_moves [OF assms(2)]) (simp_all add: turn_ok_def)
  show "rt_memory_size u = rt_memory_size s" "rt_pages u = rt_pages s" by (simp_all add: u)
qed

section \<open>Runs\<close>

definition byte_at :: "runtime \<Rightarrow> nat \<Rightarrow> u8" where
  "byte_at s a = (case rt_pages s a of None \<Rightarrow> 0 | Some b \<Rightarrow> b)"

text \<open>What was stored last, by any thread.\<close>

fun last_store :: "event list \<Rightarrow> nat \<Rightarrow> u8 \<Rightarrow> u8" where
  "last_store [] a d = d"
| "last_store (Store t a' b # es) a d = last_store es a (if a' = a then b else d)"
| "last_store (_ # es) a d = last_store es a d"

lemma last_store_append: "last_store (es @ es') a d = last_store es' a (last_store es a d)"
  by (induction es a d rule: last_store.induct) simp_all

definition step_ok :: "wasm_memory \<Rightarrow> event \<Rightarrow> runtime \<Rightarrow> runtime \<Rightarrow> bool" where
  "step_ok mem e s u \<longleftrightarrow> runtime_inv mem u \<and> sequential (page_count s) (published e s) (page_count u) \<and>
     (\<forall>a. byte_at u a = last_store [e] a (byte_at s a))"

lemma step_quiet:
  assumes "runtime_inv mem u" and "rt_memory_size u = rt_memory_size s" and "published e s = []"
    and "\<And>a. byte_at u a = last_store [e] a (byte_at s a)"
  shows "step_ok mem e s u"
  using assms by (simp add: step_ok_def page_count_def)

lemma turn_step:
  assumes u: "wasm_host_memory_grow mem map_ok t s = Some u" and inv: "runtime_inv mem s" and "limits_ok mem"
    and single: "mem_shared mem \<or> t = 0"
  shows "step_ok mem (Turn t) s u"
proof (cases "rt_turn s t")
  case (Called n)
  note called_turn [OF u inv this single]
  then show ?thesis using Called by (intro step_quiet) (simp_all add: published_def byte_at_def)
next
  case (Entered n)
  note entered_turn [OF u inv this assms(3)]
  then show ?thesis using Entered by (intro step_quiet) (simp_all add: published_def byte_at_def)
next
  case (Fitting n old)
  note turn = fitting_turn [OF u inv this assms(3)]
  have held: "held (rt_turn s t)" "\<forall>n old. rt_turn s t \<noteq> Mapped n old" using Fitting by simp_all
  have "rt_pages s a = None" if "unat (rt_memory_size s) \<le> a" for a
  proof -
    have "a \<notin> dom (rt_pages s)" unfolding no_one_mapped [OF inv held] using that by simp
    then show ?thesis by (simp add: domIff)
  qed
  then have "byte_at u a = byte_at s a" for a
    using turn(3) by (auto simp: byte_at_def)
  then show ?thesis using turn(1,2) Fitting by (intro step_quiet) (simp_all add: published_def)
next
  case (Mapped n old)
  note mapped_turn [OF u inv this assms(3)]
  then show ?thesis using Mapped by (simp add: step_ok_def published_def byte_at_def)
next
  case (Leaving r)
  note leaving_turn [OF u inv this]
  then show ?thesis using Leaving by (intro step_quiet) (simp_all add: published_def byte_at_def)
qed (use u in \<open>simp_all add: wasm_host_memory_grow_def\<close>)

lemma idle_free: "idle p \<Longrightarrow> \<not> held p"
  by (cases p) (simp_all add: idle_def)

lemma event_step:
  assumes u: "next_state mem map_ok e s = Some u" and inv: "runtime_inv mem s" and "limits_ok mem"
    and single: "mem_shared mem \<or> event_thread e = 0"
  shows "step_ok mem e s u"
proof (cases e)
  case (Call t n)
  then have idle: "idle (rt_turn s t)" and u: "u = goto t (Called n) s" using u by (simp_all split: if_splits)
  have "runtime_inv mem u"
    unfolding u using idle_free [OF idle] single Call by (intro free_moves [OF inv]) (simp_all add: turn_ok_def)
  then show ?thesis using Call by (intro step_quiet) (simp_all add: u published_def byte_at_def)
next
  case (Turn t)
  then show ?thesis using turn_step [of mem map_ok t s u] assms by simp
next
  case (Store t a b)
  then have mapped: "rt_pages s a \<noteq> None" and u: "u = s\<lparr>rt_pages := (rt_pages s)(a \<mapsto> b)\<rparr>" using u by (simp_all split: if_splits)
  have same: "rt_memory_size u = rt_memory_size s" "rt_turn u = rt_turn s" "rt_lock u = rt_lock s" by (simp_all add: u)
  have dom: "dom (rt_pages u) = dom (rt_pages s)" using mapped by (auto simp: u)
  have "turn_ok mem u p = turn_ok mem s p" for p
    by (simp add: turn_ok_def same dom split: grow_turn.split)
  then have "runtime_inv mem u" using inv by (simp add: runtime_inv_def exclusive_def same dom)
  then show ?thesis using Store by (intro step_quiet) (auto simp: u published_def byte_at_def)
qed

lemma runs_inv:
  assumes "runs mem map_ok s es log u" and "runtime_inv mem s" and "limits_ok mem"
    and "mem_shared mem \<or> (\<forall>e\<in>set es. event_thread e = 0)"
  shows "runtime_inv mem u \<and> sequential (page_count s) log (page_count u) \<and> (\<forall>a. byte_at u a = last_store es a (byte_at s a))"
  using assms
proof (induction rule: runs.induct)
  case runs_nothing
  then show ?case by simp
next
  case (runs_event es log t e u)
  then have "step_ok mem e t u" by (intro event_step) auto
  then show ?case using runs_event by (auto simp: step_ok_def last_store_append intro: sequential_append)
qed

end
