(* ===== verification/Runtime_Correct.thy ===== *)
theory Runtime_Correct
  imports Runtime_Grow Module_Safe Jit_Meaning
begin

text \<open>
  The properties of the runtime: growths are serialised and lose no byte, each of them ends, where the
  precautions of the code stop short, and what \<open>run_module\<close> calls.
\<close>

section \<open>From \<open>runtime_init\<close> on\<close>

definition initial_byte :: "wasm_module \<Rightarrow> nat \<Rightarrow> u8" where
  "initial_byte m a =
     (let n = unat (mem_min (mod_memory m)) in if a < n then byte_after (mod_data m) (replicate n 0) a else 0)"

lemma runtime_init_state:
  assumes "runtime_init reserve_ok map_ok m j = Inr (s, start)"
  shows "rt_memory_size s = mem_min (mod_memory m)" and "rt_turn s = (\<lambda>_. Outside)" and "rt_lock s = None"
    and "dom (rt_pages s) = {..<unat (mem_min (mod_memory m))}" and "byte_at s a = initial_byte m a"
proof -
  let ?zero = "replicate (unat (mem_min (mod_memory m))) (0 :: u8)"
  obtain bytes where bytes: "wasm_module_init_memory m ?zero = Inr ((), bytes)"
    and s: "s = \<lparr>rt_memory_size = mem_min (mod_memory m), rt_pages = initial_pages bytes, rt_lock = None, rt_turn = (\<lambda>_. Outside)\<rparr>"
    using assms by (auto simp: runtime_init_def Let_def split: if_splits sum.splits)
  have "list_all (segment_fits (length ?zero)) (mod_data m)"
    using bytes init_memory_overrun [of ?zero "mod_data m"] by (auto simp: init_memory_steps)
  then obtain mem' where "wasm_module_init_memory m ?zero = Inr ((), mem')" "length mem' = length ?zero"
    "\<forall>a < length ?zero. mem' ! a = byte_after (mod_data m) ?zero a"
    using init_memory_run [of ?zero "mod_data m"] by (auto simp: init_memory_steps)
  then have "length bytes = unat (mem_min (mod_memory m))"
    "\<forall>a < unat (mem_min (mod_memory m)). bytes ! a = byte_after (mod_data m) ?zero a"
    using bytes by auto
  then show "dom (rt_pages s) = {..<unat (mem_min (mod_memory m))}" "byte_at s a = initial_byte m a"
    by (auto simp: s initial_pages_def byte_at_def initial_byte_def split: if_splits)
  show "rt_memory_size s = mem_min (mod_memory m)" "rt_turn s = (\<lambda>_. Outside)" "rt_lock s = None" by (simp_all add: s)
qed

lemma runtime_init_inv:
  assumes "runtime_init reserve_ok map_ok m j = Inr (s, start)" and "module_ok m"
  shows "runtime_inv (mod_memory m) s" and "limits_ok (mod_memory m)"
  using runtime_init_state(1-4) [OF assms(1)] assms(2)
  by (simp_all add: runtime_inv_def exclusive_def turn_ok_def limits_ok_def module_ok_def memory_ok_def word_le_nat_alt)

lemma reached_inv:
  assumes "wasm_load_module h data = Inr m" and "runtime_init reserve_ok map_ok m j = Inr (s, start)"
    and "runs (mod_memory m) map_ok s es log u" and "mem_shared (mod_memory m) \<or> (\<forall>e\<in>set es. event_thread e = 0)"
  shows "runtime_inv (mod_memory m) u" and "limits_ok (mod_memory m)"
    and "sequential (page_count s) log (page_count u)" and "byte_at u a = last_store es a (byte_at s a)"
  using runs_inv [OF assms(3) _ _ assms(4)] runtime_init_inv [OF assms(2)] load_module_ok [OF assms(1)] by auto

lemma mapped_pages:
  assumes "runtime_inv mem s"
  shows "{..<unat (rt_memory_size s)} \<subseteq> dom (rt_pages s)"
proof (cases "\<exists>t n old. rt_turn s t = Mapped n old")
  case True
  then obtain t n old where "rt_turn s t = Mapped n old" by blast
  moreover have "turn_ok mem s (rt_turn s t)" using assms by (simp add: runtime_inv_def)
  ultimately have "turn_ok mem s (Mapped n old)" by simp
  then have "dom (rt_pages s) = {..<(unat old + unat n) * 65536}" and "unat old * 65536 = unat (rt_memory_size s)"
    by (simp_all add: turn_ok_def)
  then show ?thesis by auto
next
  case False
  then show ?thesis using assms by (simp add: runtime_inv_def)
qed

lemma wasm_host_memory_size_pages:
  assumes "runtime_inv mem s" and "limits_ok mem"
  shows "unat (wasm_host_memory_size s) = page_count s" and "page_count s * 65536 = unat (rt_memory_size s)"
proof -
  have "unat (rt_memory_size s) \<le> 4294967296" "65536 dvd unat (rt_memory_size s)"
    using assms by (simp_all add: runtime_inv_def limits_ok_def)
  then show "page_count s * 65536 = unat (rt_memory_size s)" "unat (wasm_host_memory_size s) = page_count s"
    by (simp_all add: page_count_def wasm_host_memory_size_def unsigned_ucast_eq unat_page_div take_bit_nat_eq_self)
qed

section \<open>Schedules\<close>

text \<open>The events one after the other, with the growths they publish; none if one of them cannot happen.\<close>

fun schedule :: "wasm_memory \<Rightarrow> mmap \<Rightarrow> event list \<Rightarrow> runtime \<Rightarrow> ((u64 \<times> u32) list \<times> runtime) option" where
  "schedule mem map_ok [] s = Some ([], s)"
| "schedule mem map_ok (e # es) s =
     (case next_state mem map_ok e s of
        None \<Rightarrow> None
      | Some t \<Rightarrow> map_option (\<lambda>(log, u). (published e s @ log, u)) (schedule mem map_ok es t))"

lemma schedule_append:
  "schedule mem map_ok es s = Some (log, t) \<Longrightarrow> schedule mem map_ok es' t = Some (log', u) \<Longrightarrow>
     schedule mem map_ok (es @ es') s = Some (log @ log', u)"
  by (induction es arbitrary: s log) (auto split: option.splits)

lemma runs_schedule:
  assumes "runs mem map_ok s es log t" and "schedule mem map_ok es' t = Some (log', u)"
  shows "runs mem map_ok s (es @ es') (log @ log') u"
  using assms
proof (induction es' arbitrary: es log t log')
  case (Cons e es')
  then obtain t' log1 where step: "next_state mem map_ok e t = Some t'" and rest: "schedule mem map_ok es' t' = Some (log1, u)"
    and log': "log' = published e t @ log1" by (auto split: option.splits)
  show ?case using Cons.IH [OF runs_event [OF Cons.prems(1) step] rest] by (simp add: log')
qed simp

lemmas schedule_runs = runs_schedule [OF runs_nothing, simplified]

section \<open>Growths end\<close>

definition turns_left :: "grow_turn \<Rightarrow> nat" where
  "turns_left p = (case p of Called n \<Rightarrow> 5 | Entered n \<Rightarrow> 4 | Fitting n c \<Rightarrow> 3 | Mapped n c \<Rightarrow> 2 | Leaving r \<Rightarrow> 1 | _ \<Rightarrow> 0)"

lemma holder_turn:
  assumes "held (rt_turn s t)"
  obtains u where "wasm_host_memory_grow mem map_ok t s = Some u" and "turns_left (rt_turn u t) < turns_left (rt_turn s t)"
    and "\<And>t'. t' \<noteq> t \<Longrightarrow> rt_turn u t' = rt_turn s t'"
    and "held (rt_turn u t) \<or> (\<exists>r. rt_turn u t = Returned r \<and> (mem_shared mem \<longrightarrow> rt_lock u = None))"
proof -
  have "wasm_host_memory_grow mem map_ok t s \<noteq> None"
    using assms by (cases "rt_turn s t") (simp_all add: wasm_host_memory_grow_def Let_def)
  then obtain u where u: "wasm_host_memory_grow mem map_ok t s = Some u" by blast
  then have "turns_left (rt_turn u t) < turns_left (rt_turn s t)" "\<And>t'. t' \<noteq> t \<Longrightarrow> rt_turn u t' = rt_turn s t'"
    "held (rt_turn u t) \<or> (\<exists>r. rt_turn u t = Returned r \<and> (mem_shared mem \<longrightarrow> rt_lock u = None))"
    using assms by (cases "rt_turn s t"; auto simp: wasm_host_memory_grow_def turns_left_def Let_def split: if_splits)+
  then show thesis using that u by blast
qed

lemma holder_finishes:
  assumes "held (rt_turn s t)"
  shows "\<exists>k log r u. k \<le> turns_left (rt_turn s t) \<and> schedule mem map_ok (replicate k (Turn t)) s = Some (log, u) \<and>
    rt_turn u t = Returned r \<and> (mem_shared mem \<longrightarrow> rt_lock u = None) \<and> (\<forall>t'. t' \<noteq> t \<longrightarrow> rt_turn u t' = rt_turn s t')"
  using assms
proof (induction "turns_left (rt_turn s t)" arbitrary: s rule: less_induct)
  case less
  obtain v where v: "wasm_host_memory_grow mem map_ok t s = Some v" and left: "turns_left (rt_turn v t) < turns_left (rt_turn s t)"
    and others: "\<And>t'. t' \<noteq> t \<Longrightarrow> rt_turn v t' = rt_turn s t'"
    and at: "held (rt_turn v t) \<or> (\<exists>r. rt_turn v t = Returned r \<and> (mem_shared mem \<longrightarrow> rt_lock v = None))"
    using holder_turn [OF less.prems] by metis
  show ?case
  proof (cases "held (rt_turn v t)")
    case True
    from less.hyps [OF left True] obtain k log r u where k: "k \<le> turns_left (rt_turn v t)"
      "schedule mem map_ok (replicate k (Turn t)) v = Some (log, u)" "rt_turn u t = Returned r"
      "mem_shared mem \<longrightarrow> rt_lock u = None" "\<forall>t'. t' \<noteq> t \<longrightarrow> rt_turn u t' = rt_turn v t'" by blast
    show ?thesis
      using k v left others by (intro exI [of _ "Suc k"] exI [of _ "published (Turn t) s @ log"] exI [of _ r] exI [of _ u]) simp
  next
    case False
    with at obtain r where "rt_turn v t = Returned r" "mem_shared mem \<longrightarrow> rt_lock v = None" by blast
    then show ?thesis
      using v left others by (intro exI [of _ "1"] exI [of _ "published (Turn t) s"] exI [of _ r] exI [of _ v]) simp
  qed
qed

lemma finish:
  assumes "held (rt_turn s t)"
  obtains ts log r u where "length ts \<le> 4" and "schedule mem map_ok (map Turn ts) s = Some (log, u)" and "rt_turn u t = Returned r"
    and "mem_shared mem \<longrightarrow> rt_lock u = None" and "\<And>t'. t' \<noteq> t \<Longrightarrow> rt_turn u t' = rt_turn s t'"
proof -
  have "turns_left (rt_turn s t) \<le> 4" using assms by (cases "rt_turn s t") (simp_all add: turns_left_def)
  moreover obtain k log r u where "k \<le> turns_left (rt_turn s t)" "schedule mem map_ok (replicate k (Turn t)) s = Some (log, u)"
    "rt_turn u t = Returned r" "mem_shared mem \<longrightarrow> rt_lock u = None" "\<forall>t'. t' \<noteq> t \<longrightarrow> rt_turn u t' = rt_turn s t'"
    using holder_finishes [OF assms, of mem map_ok] by blast
  ultimately show thesis using that [of "replicate k t" log u r] by simp
qed

lemma called_finishes:
  assumes "rt_turn s t = Called n" and free: "mem_shared mem \<Longrightarrow> rt_lock s = None"
  obtains ts log r u where "length ts \<le> 5" and "schedule mem map_ok (map Turn ts) s = Some (log, u)" and "rt_turn u t = Returned r"
proof (cases "sint n < 0")
  case True
  then have "schedule mem map_ok (map Turn [t]) s = Some ([], goto t (Returned (- 1)) s)"
    using assms(1) by (simp add: wasm_host_memory_grow_def published_def)
  then show thesis using that [of "[t]"] by simp
next
  case False
  then obtain v where v: "wasm_host_memory_grow mem map_ok t s = Some v" "held (rt_turn v t)"
    using assms by (cases "mem_shared mem") (auto simp: wasm_host_memory_grow_def)
  obtain ts log r u where "length ts \<le> 4" "schedule mem map_ok (map Turn ts) v = Some (log, u)" "rt_turn u t = Returned r"
    using finish [OF v(2)] by metis
  then show thesis using that [of "t # ts" "published (Turn t) s @ log" u r] v(1) by simp
qed

lemma grow_finishes:
  assumes inv: "runtime_inv mem s" and busy: "\<not> idle (rt_turn s t)"
  obtains ts log r u where "length ts \<le> 9" and "schedule mem map_ok (map Turn ts) s = Some (log, u)" and "rt_turn u t = Returned r"
proof (cases "held (rt_turn s t)")
  case True
  then obtain ts log r u where "length ts \<le> 4" "schedule mem map_ok (map Turn ts) s = Some (log, u)" "rt_turn u t = Returned r"
    using finish by metis
  then show thesis using that [of ts log u r] by simp
next
  case False
  with busy obtain n where called: "rt_turn s t = Called n" by (cases "rt_turn s t") (simp_all add: idle_def)
  show thesis
  proof (cases "mem_shared mem \<and> rt_lock s \<noteq> None")
    case True
    then obtain t' where "rt_lock s = Some t'" by blast
    then have "held (rt_turn s t')" using True inv by (simp add: runtime_inv_def exclusive_def)
    moreover from this have "t \<noteq> t'" using False by blast
    ultimately obtain ts log v where one: "length ts \<le> 4" "schedule mem map_ok (map Turn ts) s = Some (log, v)"
      and "rt_lock v = None" "rt_turn v t = Called n"
      using finish [of s t' mem map_ok] True called by metis
    then obtain ts' log' r u where "length ts' \<le> 5" "schedule mem map_ok (map Turn ts') v = Some (log', u)" "rt_turn u t = Returned r"
      using called_finishes [of v t n mem map_ok] by metis
    then show thesis using that [of "ts @ ts'"] one schedule_append [OF one(2)] by simp
  next
    case False
    then obtain ts log r u where "length ts \<le> 5" "schedule mem map_ok (map Turn ts) s = Some (log, u)" "rt_turn u t = Returned r"
      using called_finishes [OF called] by metis
    then show thesis using that [of ts log u r] by simp
  qed
qed

section \<open>Results\<close>

text \<open>What a growth returns is the old page count of a growth that was published, or -1.\<close>

definition returning :: "grow_turn \<Rightarrow> u32 \<Rightarrow> bool" where
  "returning p r \<longleftrightarrow> p = Leaving r \<or> p = Returned r"

lemma results_step:
  assumes "next_state mem map_ok e s = Some u" and "returning (rt_turn u t) r" and "r \<noteq> - 1"
  shows "returning (rt_turn s t) r \<or> (\<exists>(old, n) \<in> set (published e s). r = ucast old)"
proof (cases e)
  case (Turn t')
  then show ?thesis
    using assms
    by (cases "rt_turn s t'"; cases "t' = t")
      (auto simp: returning_def published_def wasm_host_memory_grow_def Let_def split: if_splits)
qed (use assms in \<open>auto simp: returning_def split: if_splits\<close>)

lemma results_published:
  assumes "runs mem map_ok s es log u" and "\<And>t r. \<not> returning (rt_turn s t) r" and "returning (rt_turn u t) r" and "r \<noteq> - 1"
  shows "\<exists>(old, n) \<in> set log. r = ucast old"
  using assms(1,3)
proof (induction arbitrary: t rule: runs.induct)
  case runs_nothing
  then show ?case using assms(2) by blast
next
  case (runs_event es log v e u)
  then show ?case using results_step [OF runs_event.hyps(2) runs_event.prems assms(4)] by fastforce
qed

section \<open>Modules of the witnesses\<close>

lemma mul_pages_code [code]:
  "mul_pages pages = bind (check (uint pages * 65536 < 2 ^ 64)) (\<lambda>_. ret (pages * WASM_PAGE_SIZE))"
proof -
  have "unat pages * unat WASM_PAGE_SIZE < 2 ^ 64 \<longleftrightarrow> uint pages * 65536 < 2 ^ 64"
    by (simp add: WASM_PAGE_SIZE_def flip: of_nat_less_iff [where 'a = int])
  then show ?thesis by (simp add: mul_pages_def)
qed

text \<open>A shared memory of at most two pages.\<close>

definition shared_module :: "u8 list" where
  "shared_module = [0x00, 0x61, 0x73, 0x6D, 0x01, 0x00, 0x00, 0x00, 0x05, 0x04, 0x01, 0x03, 0x00, 0x02]"

text \<open>A memory of at most one page that is not shared, exported as \<open>_start\<close>.\<close>

definition private_module :: "u8 list" where
  "private_module = [0x00, 0x61, 0x73, 0x6D, 0x01, 0x00, 0x00, 0x00, 0x05, 0x04, 0x01, 0x01, 0x00, 0x01,
     0x07, 0x0A, 0x01, 0x06, 0x5F, 0x73, 0x74, 0x61, 0x72, 0x74, 0x02, 0x00]"

abbreviation "shared_loaded \<equiv> loaded (wasm_load_module roomy_host shared_module)"
abbreviation "private_loaded \<equiv> loaded (wasm_load_module roomy_host private_module)"

lemma loads_shared:
  "wasm_load_module roomy_host shared_module = Inr shared_loaded"
  "mod_memory shared_loaded = \<lparr>mem_min = 0, mem_max = 131072, mem_shared = True\<rparr>"
  "mod_data shared_loaded = []" "mod_exports shared_loaded = []"
proof -
  have "case wasm_load_module roomy_host shared_module of Inr _ \<Rightarrow> True | Inl _ \<Rightarrow> False" by code_simp
  then show "wasm_load_module roomy_host shared_module = Inr shared_loaded"
    by (simp add: loaded_def split: sum.splits)
qed code_simp+

lemma loads_private:
  "wasm_load_module roomy_host private_module = Inr private_loaded"
  "mod_memory private_loaded = \<lparr>mem_min = 0, mem_max = 65536, mem_shared = False\<rparr>"
  "mod_data private_loaded = []"
  "map export_kind (mod_exports private_loaded) = [WASM_EXPORT_MEMORY]"
  "wasm_find_export private_loaded start_name = 0" "wasm_find_export private_loaded wasi_thread_start_name = - 1"
proof -
  have "case wasm_load_module roomy_host private_module of Inr _ \<Rightarrow> True | Inl _ \<Rightarrow> False" by code_simp
  then show "wasm_load_module roomy_host private_module = Inr private_loaded"
    by (simp add: loaded_def split: sum.splits)
qed code_simp+

definition no_functions :: module_jit where
  "no_functions = \<lparr>mj_exports = [Export_zero], mj_state_size = 0, mj_state_init = [], mj_start_func = 0\<rparr>"

definition fresh_runtime :: runtime where
  "fresh_runtime = \<lparr>rt_memory_size = 0, rt_pages = initial_pages [], rt_lock = None, rt_turn = (\<lambda>_. Outside)\<rparr>"

lemma both_start:
  "runtime_init True (\<lambda>_ _. True) shared_loaded no_functions = Inr (fresh_runtime, None)"
  "runtime_init True (\<lambda>_ _. True) private_loaded no_functions = Inr (fresh_runtime, None)"
  using loads_shared(2-4) loads_private(2-6)
  by (simp_all add: runtime_init_def Let_def fresh_runtime_def wasm_module_init_memory_def wasm_find_export_def ret_apply)

lemmas schedule_defs = fresh_runtime_def published_def wasm_host_memory_grow_def Let_def WASM_PAGE_SIZE_def
  idle_def goto_def commit_def

text \<open>Two threads call at once; the second is let in first, and stores a byte before the first goes on.\<close>

definition two_growths :: "event list" where
  "two_growths = [Call 0 1, Call 1 1, Turn 1, Turn 1, Turn 1, Turn 1, Turn 1, Store 1 7 5, Turn 0, Turn 0, Turn 0, Turn 0, Turn 0]"

lemma two_growths_run:
  obtains u where "runs (mod_memory shared_loaded) (\<lambda>_ _. True) fresh_runtime two_growths [(0, 1), (1, 1)] u"
    and "rt_memory_size u = 131072" and "rt_pages u 7 = Some 5" and "rt_turn u 0 = Returned 1" and "rt_turn u 1 = Returned 0"
proof -
  have "case schedule (mod_memory shared_loaded) (\<lambda>_ _. True) two_growths fresh_runtime of
      Some (log, u) \<Rightarrow> log = [(0, 1), (1, 1)] \<and> rt_memory_size u = 131072 \<and> rt_pages u 7 = Some 5 \<and>
        rt_turn u 0 = Returned 1 \<and> rt_turn u 1 = Returned 0
    | None \<Rightarrow> False"
    unfolding loads_shared(2) by (simp add: two_growths_def schedule_defs)
  then show thesis using that by (auto split: option.splits intro: schedule_runs)
qed

text \<open>The other one: both threads pass the check, and the second maps its page over the first's.\<close>

definition two_racing :: "event list" where
  "two_racing = [Call 0 1, Call 1 1, Turn 0, Turn 1, Turn 0, Turn 1, Turn 0, Turn 0, Turn 0, Store 0 7 5, Turn 1, Turn 1, Turn 1]"

lemma two_racing_run:
  obtains u where "runs (mod_memory private_loaded) (\<lambda>_ _. True) fresh_runtime two_racing [(0, 1), (0, 1)] u"
    and "rt_memory_size u = 65536" and "rt_pages u 7 = Some 0" and "rt_turn u 0 = Returned 0" and "rt_turn u 1 = Returned 0"
proof -
  have "case schedule (mod_memory private_loaded) (\<lambda>_ _. True) two_racing fresh_runtime of
      Some (log, u) \<Rightarrow> log = [(0, 1), (0, 1)] \<and> rt_memory_size u = 65536 \<and> rt_pages u 7 = Some 0 \<and>
        rt_turn u 0 = Returned 0 \<and> rt_turn u 1 = Returned 0
    | None \<Rightarrow> False"
    unfolding loads_private(2) by (simp add: two_racing_def schedule_defs)
  then show thesis using that by (auto split: option.splits intro: schedule_runs)
qed

text \<open>What \<open>jit_codegen_fill_functions\<close> makes of an export, up to the address.\<close>

definition export_filled :: "wasm_export \<Rightarrow> jit_export \<Rightarrow> bool" where
  "export_filled e x \<longleftrightarrow> (export_kind e = WASM_EXPORT_FUNC \<longleftrightarrow> (case x of Export_func a \<Rightarrow> True | _ \<Rightarrow> False))"

lemma find_export_cases:
  obtains "wasm_find_export m name = - 1" | i where "wasm_find_export m name = int i" and "i < length (mod_exports m)"
proof (cases "List.find (\<lambda>i. c_string (export_name (mod_exports m ! i)) = c_string name) [0..<length (mod_exports m)]")
  case (Some i)
  then have "i < length (mod_exports m)" by (auto simp: find_Some_iff)
  then show thesis using that(2) [of i] Some by (simp add: wasm_find_export_def)
qed (use that(1) in \<open>simp add: wasm_find_export_def\<close>)

lemma zext_mask: "x AND 0xFFFFFFFF = take_bit 32 (x :: u64)"
  by (simp add: take_bit_eq_mask mask_eq_exp_minus_1)

text \<open>An \<open>i64.load\<close> with the offset \<open>2 ^ 32 - 1\<close>, and the calls it makes, latest first.\<close>

definition wide_load :: jit_inst where
  "wide_load = (sample_inst 0x29 [\<lparr>jv_value = 100, jv_type = SPIDIR_TYPE_I32\<rparr>])
     \<lparr>fn_code := \<lparr>past = [0x29], rest = [0x03, 0xFF, 0xFF, 0xFF, 0xFF, 0x0F]\<rparr>\<rparr>"

lemma wide_load_run:
  assumes "jit_wasm_load sample_env wide_load = Inr (u, s')" and "meant sample_env M (jc_trace s')"
  shows "Build_load SPIDIR_MEM_SIZE_8 SPIDIR_TYPE_I64 7 \<in> set (jc_trace s')" and "val32 M 1 = val32 M 100"
    and "val M 7 = arg M 0 + ((val M 1 AND 0xFFFFFFFF) + 0xFFFFFFFF)"
proof -
  have "case jit_wasm_load sample_env wide_load of Inl _ \<Rightarrow> False
    | Inr (_, s') \<Rightarrow> jc_trace s' =
        [Build_load SPIDIR_MEM_SIZE_8 SPIDIR_TYPE_I64 7, Build_ptroff 6 5, Build_param_ref 0, Build_binary Op_iadd 3 4,
         Build_iconst SPIDIR_TYPE_I64 0xFFFFFFFF, Build_binary Op_and 1 2, Build_iconst SPIDIR_TYPE_I64 0xFFFFFFFF,
         Build_unary Op_iext 100] \<and>
        map (\<lambda>i. value_id (env_spidir sample_env) (drop i (jc_trace s'))) [0..<8] = [8, 7, 6, 5, 4, 3, 2, 1]"
    by code_simp
  note trace = this [unfolded assms(1) sum.case prod.case, THEN conjunct1]
    and ids = this [unfolded assms(1) sum.case prod.case, THEN conjunct2]
  show "Build_load SPIDIR_MEM_SIZE_8 SPIDIR_TYPE_I64 7 \<in> set (jc_trace s')" by (simp add: trace)
  show "val32 M 1 = val32 M 100" "val M 7 = arg M 0 + ((val M 1 AND 0xFFFFFFFF) + 0xFFFFFFFF)"
    using assms(2) ids by (auto simp: trace upt_rec gives_def)
qed

section \<open>Properties\<close>





text \<open>
  C38: No growth is stuck: from wherever the threads have got to, nine turns or fewer are enough for any
  thread that is in \<open>memory.grow\<close> to return, the turns of the one that holds the lock included.
\<close>

theorem memory_grow_completes:
  assumes "wasm_load_module h data = Inr m" and "runtime_init reserve_ok map_ok m j = Inr (s, start)"
    and "runs (mod_memory m) map_ok s es log u" and "mem_shared (mod_memory m) \<or> (\<forall>e\<in>set es. event_thread e = 0)"
    and "\<not> idle (rt_turn u t)"
  shows "\<exists>ts log' r v. length ts \<le> 9 \<and> schedule (mod_memory m) map_ok (map Turn ts) u = Some (log', v) \<and> rt_turn v t = Returned r"
  using grow_finishes [OF reached_inv(1) [OF assms(1-4)] assms(5)] by metis

theorem memory_grow_completes_witness:
  "\<exists>ts log' r v. length ts \<le> 9 \<and>
     schedule (mod_memory shared_loaded) (\<lambda>_ _. True) (map Turn ts) (goto 3 (Called 1) fresh_runtime) = Some (log', v) \<and>
     rt_turn v 3 = Returned r"
proof -
  have "next_state (mod_memory shared_loaded) (\<lambda>_ _. True) (Call 3 1) fresh_runtime = Some (goto 3 (Called 1) fresh_runtime)"
    by (simp add: fresh_runtime_def idle_def)
  then have "runs (mod_memory shared_loaded) (\<lambda>_ _. True) fresh_runtime [Call 3 1] [] (goto 3 (Called 1) fresh_runtime)"
    using runs_event [OF runs_nothing] by (fastforce simp: published_def)
  moreover have "mem_shared (mod_memory shared_loaded)" "\<not> idle (rt_turn (goto 3 (Called 1) fresh_runtime) 3)"
    by (simp_all add: loads_shared(2) idle_def)
  ultimately show ?thesis using memory_grow_completes [OF loads_shared(1) both_start(1)] by simp
qed

text \<open>
  C37: The lock is taken for shared memories only, on the grounds that a private memory has one thread, but
  \<open>thread-spawn\<close> starts a thread for any module. Two threads that grow a private memory of at most one page
  then both succeed and are both told the page count was 0; the second mapping replaces the page
  the first thread has got, and the byte it stored is gone.
\<close>

theorem private_memory_race:
  "(\<exists>args. wasi_spawn_thread (\<lambda>_. True) True True no_functions 0 1 = Inr ((1, Some args), 2)) \<and>
   (\<exists>m s es log u. wasm_load_module roomy_host private_module = Inr m \<and> \<not> mem_shared (mod_memory m) \<and>
     runtime_init True (\<lambda>_ _. True) m no_functions = Inr (s, None) \<and> runs (mod_memory m) (\<lambda>_ _. True) s es log u \<and>
     \<not> sequential (page_count s) log (page_count u) \<and> rt_turn u 0 = Returned 0 \<and> rt_turn u 1 = Returned 0 \<and>
     last_store es 7 0 = 5 \<and> rt_pages u 7 = Some 0)"
proof
  show "\<exists>args. wasi_spawn_thread (\<lambda>_. True) True True no_functions 0 1 = Inr ((1, Some args), 2)"
    by (simp add: wasi_spawn_thread_def runtime_alloc_state_def no_functions_def ret_apply gets_bind bind_assoc modify_def bind_def gets_def)
  obtain u where u: "runs (mod_memory private_loaded) (\<lambda>_ _. True) fresh_runtime two_racing [(0, 1), (0, 1)] u"
    "rt_pages u 7 = Some 0" "rt_turn u 0 = Returned 0" "rt_turn u 1 = Returned 0"
    using two_racing_run by metis
  moreover have "\<not> sequential (page_count fresh_runtime) [(0, 1), (0, 1)] (page_count u)"
    by (simp add: page_count_def fresh_runtime_def)
  moreover have "last_store two_racing 7 0 = 5" by (simp add: two_racing_def)
  moreover have "\<not> mem_shared (mod_memory private_loaded)" by (simp add: loads_private(2))
  ultimately show "\<exists>m s es log u. wasm_load_module roomy_host private_module = Inr m \<and> \<not> mem_shared (mod_memory m) \<and>
     runtime_init True (\<lambda>_ _. True) m no_functions = Inr (s, None) \<and> runs (mod_memory m) (\<lambda>_ _. True) s es log u \<and>
     \<not> sequential (page_count s) log (page_count u) \<and> rt_turn u 0 = Returned 0 \<and> rt_turn u 1 = Returned 0 \<and>
     last_store es 7 0 = 5 \<and> rt_pages u 7 = Some 0"
    using loads_private(1) both_start(2) by blast
qed

text \<open>
  Where the exports have their code, \<open>run_module\<close> calls the start function, if there is one, and then the
  first export named \<open>_start\<close>; it does so without looking at what kind of export that is, so
  that a module exporting a memory or a global under this name makes it call what is no code.
\<close>

theorem run_module_calls:
  assumes "list_all2 export_filled (mod_exports m) (mj_exports j)"
  shows "let first = (if mod_start_func m \<ge> 0 then [mj_start_func j] else []); i = wasm_find_export m start_name in
    if i < 0 then run_module exec m j = Inr (first, 1)
    else if export_kind (mod_exports m ! nat i) = WASM_EXPORT_FUNC then
      (case mj_exports j ! nat i of Export_func a \<Rightarrow> run_module exec m j = Inr (first @ [a], exec a) | _ \<Rightarrow> False)
    else run_module exec m j = Inl Undefined"
proof (cases rule: find_export_cases [of m start_name])
  case 1
  then show ?thesis by (simp add: run_module_def Let_def)
next
  case (2 i)
  then have "i < length (mj_exports j)" and "export_filled (mod_exports m ! i) (mj_exports j ! i)"
    using assms by (auto simp: list_all2_conv_all_nth)
  then show ?thesis
    using 2 by (simp add: run_module_def Let_def jit_export_at_def call_export_def export_filled_def split: jit_export.split)
qed

theorem run_module_calls_witness: "run_module (\<lambda>_. 0) private_loaded no_functions = Inl Undefined"
proof -
  have exports: "map export_kind (mod_exports private_loaded) = [WASM_EXPORT_MEMORY]" by (rule loads_private(4))
  then have "list_all2 export_filled (mod_exports private_loaded) (mj_exports no_functions)"
    and "export_kind (mod_exports private_loaded ! 0) = WASM_EXPORT_MEMORY"
    by (auto simp: export_filled_def no_functions_def)
  then show ?thesis
    using run_module_calls [of private_loaded no_functions "\<lambda>_. 0"] by (simp add: loads_private(5) Let_def)
qed

abbreviation "wide_meaning \<equiv> table_meaning
  [(100, 0xFFFFFFFF, SPIDIR_TYPE_I32), (1, 0xFFFFFFFF, SPIDIR_TYPE_I64), (2, 0xFFFFFFFF, SPIDIR_TYPE_I64),
   (3, 0xFFFFFFFF, SPIDIR_TYPE_I64), (4, 0xFFFFFFFF, SPIDIR_TYPE_I64), (5, 0x1FFFFFFFE, SPIDIR_TYPE_I64),
   (6, 0x10000, SPIDIR_TYPE_PTR), (7, 0x20000FFFE, SPIDIR_TYPE_PTR)]"


end
